(* ===== verification/Prelude.thy ===== *)
theory Prelude
  imports Main "HOL-Library.Word"
begin

section \<open>Prelude: fallible computations, machine arithmetic, finite maps, reachability\<close>

text \<open>
  What every contract of the repository shares before the SDK is mentioned:
  \<^item> \<open>panic\<close> and \<open>'a res\<close>: a contract method either returns or panics; a panic aborts the
    whole call, so the result of a method is a sum whose left side is the reason (\<open>Out_of_gas\<close> is
    the runtime's, for a recursion that is deeper than the gas of the call allows);
  \<^item> checked, saturating and wrapping unsigned arithmetic at a given width (a crate whose release
    profile says \<open>overflow-checks = true\<close> panics on an overflow of \<open>+\<close>, \<open>-\<close>, \<open>*\<close>; the
    lockable token's does not say so, and its \<open>+\<close> and \<open>-\<close> wrap around);
  \<^item> \<open>msum\<close>, the sum of a measure over a finite map, used by every conservation law;
  \<^item> \<open>reach\<close> and the locale \<open>inductive_invariant\<close>, the one place where an invariant of the
    initial states and of the steps is lifted to all reachable states.
\<close>

subsection \<open>Panics and results\<close>

datatype panic =
    Panic string
  | Overflow
  | Division_by_zero
  | Cast_overflow
  | Unwrap_none
  | Unreachable string
  | Out_of_gas

type_synonym 'a res = "panic + 'a"

definition bindE :: "'a res \<Rightarrow> ('a \<Rightarrow> 'b res) \<Rightarrow> 'b res" where
  "bindE m f = (case m of Inl p \<Rightarrow> Inl p | Inr x \<Rightarrow> f x)"

definition ensure :: "bool \<Rightarrow> string \<Rightarrow> unit res" where
  "ensure c msg = (if c then Inr () else Inl (Panic msg))"

definition unwrap :: "'a option \<Rightarrow> 'a res" where
  "unwrap x = (case x of None \<Rightarrow> Inl Unwrap_none | Some y \<Rightarrow> Inr y)"

definition expect :: "'a option \<Rightarrow> string \<Rightarrow> 'a res" where
  "expect x msg = (case x of None \<Rightarrow> Inl (Panic msg) | Some y \<Rightarrow> Inr y)"

lemma bindE_simps [simp]:
  "bindE (Inr x) f = f x"
  "bindE (Inl p) f = Inl p"
  by (simp_all add: bindE_def)

lemma bindE_eq_Inr [simp]: "bindE m f = Inr y \<longleftrightarrow> (\<exists>x. m = Inr x \<and> f x = Inr y)"
  by (cases m) auto

lemma bindE_eq_Inl: "bindE m f = Inl p \<longleftrightarrow> m = Inl p \<or> (\<exists>x. m = Inr x \<and> f x = Inl p)"
  by (cases m) auto

lemma bindE_cong [fundef_cong]:
  "m = m' \<Longrightarrow> (\<And>x. m' = Inr x \<Longrightarrow> f x = g x) \<Longrightarrow> bindE m f = bindE m' g"
  by (cases m') auto

lemma ensure_eq_Inr [simp]: "ensure c msg = Inr u \<longleftrightarrow> c"
  by (simp add: ensure_def)

lemma ensure_eq_Inl: "ensure c msg = Inl p \<longleftrightarrow> \<not> c \<and> p = Panic msg"
  by (auto simp: ensure_def)

lemma ensure_simps [simp]:
  "ensure True msg = Inr ()"
  "ensure False msg = Inl (Panic msg)"
  by (simp_all add: ensure_def)

lemma unwrap_eq_Inr [simp]: "unwrap x = Inr y \<longleftrightarrow> x = Some y"
  by (auto simp: unwrap_def split: option.splits)

lemma unwrap_simps [simp]:
  "unwrap (Some y) = Inr y"
  "unwrap None = Inl Unwrap_none"
  by (simp_all add: unwrap_def)

lemma expect_eq_Inr [simp]: "expect x msg = Inr y \<longleftrightarrow> x = Some y"
  by (auto simp: expect_def split: option.splits)

lemma expect_simps [simp]:
  "expect (Some y) msg = Inr y"
  "expect None msg = Inl (Panic msg)"
  by (simp_all add: expect_def)

text \<open>
  Evaluation of closed calls: the message of an \<open>ensure\<close> is never looked at, and the continuation
  of a \<open>bindE\<close> only once its first argument is a value.
\<close>

lemma ensure_weak_cong [cong]: "c = c' \<Longrightarrow> ensure c msg = ensure c' msg"
  by simp

lemma bindE_weak_cong: "m = m' \<Longrightarrow> bindE m f = bindE m' f"
  by simp

lemmas eval_cong = bindE_weak_cong let_weak_cong option.case_cong_weak sum.case_cong_weak

text \<open>A call is described by two questions: does it return, and what does it return.\<close>

definition returns :: "'a res \<Rightarrow> bool" where
  "returns m \<longleftrightarrow> (\<exists>x. m = Inr x)"

lemma returns_simps [simp]:
  "returns (Inr x)"
  "\<not> returns (Inl p)"
  by (simp_all add: returns_def)

lemma returns_bindE: "returns (bindE m f) \<longleftrightarrow> (\<exists>x. m = Inr x \<and> returns (f x))"
  by (auto simp: returns_def)

lemma returns_ensure [simp]: "returns (ensure c msg) \<longleftrightarrow> c"
  by (simp add: returns_def)

text \<open>Collecting a fallible map over a list stops at the first panic.\<close>

fun mapE :: "('a \<Rightarrow> 'b res) \<Rightarrow> 'a list \<Rightarrow> 'b list res" where
  "mapE f [] = Inr []"
| "mapE f (x # xs) = bindE (f x) (\<lambda>y. bindE (mapE f xs) (\<lambda>ys. Inr (y # ys)))"

lemma mapE_Inr: "mapE f xs = Inr ys \<longleftrightarrow> list_all2 (\<lambda>x y. f x = Inr y) xs ys"
  by (induction xs arbitrary: ys) (auto simp: list_all2_Cons1)

text \<open>
  A loop over a list that threads a state and stops at the first panic. A property of the state that
  every round keeps holds after the loop.
\<close>

fun foldE :: "('a \<Rightarrow> 's \<Rightarrow> 's res) \<Rightarrow> 'a list \<Rightarrow> 's \<Rightarrow> 's res" where
  "foldE f [] s = Inr s"
| "foldE f (x # xs) s = bindE (f x s) (foldE f xs)"

lemma foldE_invariant:
  assumes "foldE f xs s = Inr t" and "I s"
    and "\<And>x u v. x \<in> set xs \<Longrightarrow> I u \<Longrightarrow> f x u = Inr v \<Longrightarrow> I v"
  shows "I t"
  using assms by (induction xs arbitrary: s) auto

lemma foldE_total:
  assumes "I s" and "\<And>x u. x \<in> set xs \<Longrightarrow> I u \<Longrightarrow> f x u \<noteq> Inl p"
    and "\<And>x u v. x \<in> set xs \<Longrightarrow> I u \<Longrightarrow> f x u = Inr v \<Longrightarrow> I v"
  shows "foldE f xs s \<noteq> Inl p"
  using assms
proof (induction xs arbitrary: s)
  case (Cons a xs)
  have "f a s \<noteq> Inl p" using Cons.prems(1,2) by simp
  moreover have "foldE f xs t \<noteq> Inl p" if "f a s = Inr t" for t
  proof (rule Cons.IH)
    show "I t" by (rule Cons.prems(3) [OF _ Cons.prems(1) that]) simp
    show "f x u \<noteq> Inl p" if "x \<in> set xs" "I u" for x u using Cons.prems(2) [OF _ that(2)] that(1) by simp
    show "I v" if "x \<in> set xs" "I u" "f x u = Inr v" for x u v
      by (rule Cons.prems(3) [OF _ that(2,3)]) (simp add: that(1))
  qed
  ultimately show ?case by (auto simp: bindE_eq_Inl)
qed simp

subsection \<open>Unsigned machine integers\<close>

text \<open>
  An unsigned integer of the source is a natural number together with the width at which the
  source computes. \<open>fits w n\<close> says that \<open>n\<close> is a value of the \<open>w\<close>-bit type; the operations
  say what the source does when a result is not.
\<close>

definition fits :: "nat \<Rightarrow> nat \<Rightarrow> bool" where
  "fits w n \<longleftrightarrow> n < 2 ^ w"

definition max_of :: "nat \<Rightarrow> nat" where
  "max_of w = 2 ^ w - 1"

definition checked_add :: "nat \<Rightarrow> nat \<Rightarrow> nat \<Rightarrow> nat res" where
  "checked_add w a b = (if fits w (a + b) then Inr (a + b) else Inl Overflow)"

definition checked_mul :: "nat \<Rightarrow> nat \<Rightarrow> nat \<Rightarrow> nat res" where
  "checked_mul w a b = (if fits w (a * b) then Inr (a * b) else Inl Overflow)"

definition checked_sub :: "nat \<Rightarrow> nat \<Rightarrow> nat res" where
  "checked_sub a b = (if b \<le> a then Inr (a - b) else Inl Overflow)"

definition checked_div :: "nat \<Rightarrow> nat \<Rightarrow> nat res" where
  "checked_div a b = (if b = 0 then Inl Division_by_zero else Inr (a div b))"

definition sat_add :: "nat \<Rightarrow> nat \<Rightarrow> nat \<Rightarrow> nat" where
  "sat_add w a b = min (a + b) (max_of w)"

definition sat_mul :: "nat \<Rightarrow> nat \<Rightarrow> nat \<Rightarrow> nat" where
  "sat_mul w a b = min (a * b) (max_of w)"

definition sat_sub :: "nat \<Rightarrow> nat \<Rightarrow> nat" where
  "sat_sub a b = (if b \<le> a then a - b else 0)"

text \<open>
  In a release build without \<open>overflow-checks\<close> the operators \<open>+\<close> and \<open>-\<close> keep the low \<open>w\<close> bits of the result.
\<close>

definition wrap_add :: "nat \<Rightarrow> nat \<Rightarrow> nat \<Rightarrow> nat" where
  "wrap_add w a b = (a + b) mod 2 ^ w"

definition wrap_sub :: "nat \<Rightarrow> nat \<Rightarrow> nat \<Rightarrow> nat" where
  "wrap_sub w a b = (a + (2 ^ w - b mod 2 ^ w)) mod 2 ^ w"

text \<open>\<open>U256::as_u128\<close> panics when the value does not fit in 128 bits.\<close>

definition as_u128 :: "nat \<Rightarrow> nat res" where
  "as_u128 n = (if fits 128 n then Inr n else Inl Cast_overflow)"

lemma fits_iff: "fits w n \<longleftrightarrow> n \<le> max_of w"
proof -
  have "0 < (2::nat) ^ w" by simp
  then show ?thesis unfolding fits_def max_of_def by linarith
qed

lemma fits_mono: "fits w n \<Longrightarrow> m \<le> n \<Longrightarrow> fits w m"
  by (simp add: fits_def)

lemma fits_0 [simp]: "fits w 0"
  by (simp add: fits_def)

lemma wrap_add_exact: "fits w (a + b) \<Longrightarrow> wrap_add w a b = a + b"
  by (simp add: wrap_add_def fits_def)

lemma wrap_sub_exact: "fits w a \<Longrightarrow> b \<le> a \<Longrightarrow> wrap_sub w a b = a - b"
  by (simp add: wrap_sub_def fits_def mod_if)

lemma wrap_add_fits: "fits w (wrap_add w a b)"
  by (simp add: wrap_add_def fits_def)

lemma checked_add_Inr [simp]: "checked_add w a b = Inr c \<longleftrightarrow> fits w (a + b) \<and> c = a + b"
  by (auto simp: checked_add_def)

lemma checked_mul_Inr [simp]: "checked_mul w a b = Inr c \<longleftrightarrow> fits w (a * b) \<and> c = a * b"
  by (auto simp: checked_mul_def)

lemma checked_sub_Inr [simp]: "checked_sub a b = Inr c \<longleftrightarrow> b \<le> a \<and> c = a - b"
  by (auto simp: checked_sub_def)

lemma checked_div_Inr [simp]: "checked_div a b = Inr c \<longleftrightarrow> b \<noteq> 0 \<and> c = a div b"
  by (auto simp: checked_div_def)

lemma as_u128_Inr [simp]: "as_u128 n = Inr c \<longleftrightarrow> fits 128 n \<and> c = n"
  by (auto simp: as_u128_def)

lemma sat_sub_eq: "sat_sub a b = a - b"
  by (simp add: sat_sub_def)

lemma sat_mul_exact [simp]: "fits w (a * b) \<Longrightarrow> sat_mul w a b = a * b"
  by (simp add: sat_mul_def fits_iff)

lemma sat_add_le: "sat_add w a b \<le> a + b"
  by (simp add: sat_add_def)

lemma sat_add_fits: "fits w (sat_add w a b)"
  by (simp add: sat_add_def fits_iff)

lemma sat_add_exact [simp]: "fits w (a + b) \<Longrightarrow> sat_add w a b = a + b"
  by (simp add: sat_add_def fits_iff)

lemma sat_add_ge: "fits w a \<Longrightarrow> a \<le> sat_add w a b"
  by (simp add: sat_add_def fits_iff)

lemma sat_add_0 [simp]: "fits w a \<Longrightarrow> sat_add w a 0 = a"
  by simp

lemma sat_add_pos: "0 < b \<Longrightarrow> 0 < w \<Longrightarrow> 0 < sat_add w a b"
proof -
  assume b: "0 < b" and w: "0 < w"
  have "2 ^ 1 \<le> (2::nat) ^ w" using w by (intro power_increasing) auto
  then have "0 < max_of w" by (simp add: max_of_def)
  with b show ?thesis by (simp add: sat_add_def)
qed

subsection \<open>Sums over finite maps\<close>

definition opt_measure :: "('v \<Rightarrow> nat) \<Rightarrow> 'v option \<Rightarrow> nat" where
  "opt_measure f x = (case x of None \<Rightarrow> 0 | Some v \<Rightarrow> f v)"

lemma opt_measure_simps [simp]:
  "opt_measure f None = 0"
  "opt_measure f (Some v) = f v"
  by (simp_all add: opt_measure_def)

definition msum :: "('v \<Rightarrow> nat) \<Rightarrow> ('k \<rightharpoonup> 'v) \<Rightarrow> nat" where
  "msum f m = (\<Sum>k \<in> dom m. f (the (m k)))"

lemma msum_empty [simp]: "msum f Map.empty = 0"
  by (simp add: msum_def)

lemma msum_split:
  assumes "finite (dom m)"
  shows "msum f m = opt_measure f (m k) + (\<Sum>j \<in> dom m - {k}. f (the (m j)))"
proof (cases "m k")
  case None
  then have "dom m - {k} = dom m" by auto
  with None show ?thesis by (simp add: msum_def)
next
  case (Some v)
  then have "k \<in> dom m" by auto
  with assms have "msum f m = f (the (m k)) + (\<Sum>j \<in> dom m - {k}. f (the (m j)))"
    unfolding msum_def by (rule sum.remove)
  with Some show ?thesis by simp
qed

lemma msum_upd:
  assumes "finite (dom m)"
  shows "msum f (m(k \<mapsto> v)) + opt_measure f (m k) = msum f m + f v"
proof -
  have fin: "finite (dom (m(k \<mapsto> v)))" using assms by simp
  have rest: "(\<Sum>j \<in> dom (m(k \<mapsto> v)) - {k}. f (the ((m(k \<mapsto> v)) j)))
      = (\<Sum>j \<in> dom m - {k}. f (the (m j)))"
    by (intro sum.cong) auto
  show ?thesis
    using msum_split [OF fin, of f k] msum_split [OF assms, of f k] rest by simp
qed

lemma msum_del:
  assumes "finite (dom m)"
  shows "msum f (m(k := None)) + opt_measure f (m k) = msum f m"
proof -
  have fin: "finite (dom (m(k := None)))" using assms by simp
  have rest: "(\<Sum>j \<in> dom (m(k := None)) - {k}. f (the ((m(k := None)) j)))
      = (\<Sum>j \<in> dom m - {k}. f (the (m j)))"
    by (intro sum.cong) auto
  show ?thesis
    using msum_split [OF fin, of f k] msum_split [OF assms, of f k] rest by simp
qed

lemma msum_point:
  assumes "finite (dom m)"
  shows "opt_measure f (m k) \<le> msum f m"
  using msum_split [OF assms, of f k] by simp

subsection \<open>Keyed storage of records\<close>

text \<open>
  The contracts keep their accounts in a persistent map behind a pair of helpers, one that reads
  an account (a default one if there is none) and one that writes it back. \<open>norm\<close> is what a
  written record reads back as: the staking pool drops empty accounts, so they read back as the
  default account.
\<close>

locale account_store =
  fixes get :: "'s \<Rightarrow> 'k \<Rightarrow> 'a"
    and save :: "'s \<Rightarrow> 'k \<Rightarrow> 'a \<Rightarrow> 's"
    and norm :: "'a \<Rightarrow> 'a"
  assumes get_save_same: "get (save s k a) k = norm a"
    and get_save_other: "j \<noteq> k \<Longrightarrow> get (save s k a) j = get s j"
begin

lemma get_save: "get (save s k a) j = (if j = k then norm a else get s j)"
  by (simp add: get_save_same get_save_other)

lemma save_save_get: "get (save (save s k a) k b) j = get (save s k b) j"
  by (simp add: get_save)

end

subsection \<open>Reachable states and invariants\<close>

inductive reach :: "('s \<Rightarrow> bool) \<Rightarrow> ('s \<Rightarrow> 's \<Rightarrow> bool) \<Rightarrow> 's \<Rightarrow> bool"
  for init :: "'s \<Rightarrow> bool" and step :: "'s \<Rightarrow> 's \<Rightarrow> bool" where
  reach_init: "init s \<Longrightarrow> reach init step s"
| reach_step: "reach init step s \<Longrightarrow> step s t \<Longrightarrow> reach init step t"

text \<open>
  The interface between a contract and a proof about its histories. \<open>stable_property\<close>: every
  accepted call keeps the fact (a flag that is never reset, a lock that is never released).
  \<open>inductive_invariant\<close>: moreover the constructor establishes it. Each contract of the
  development interprets them on its own constructor and its own step relation.
\<close>

locale stable_property =
  fixes step :: "'s \<Rightarrow> 's \<Rightarrow> bool"
    and inv :: "'s \<Rightarrow> bool"
  assumes inv_step: "inv s \<Longrightarrow> step s t \<Longrightarrow> inv t"
begin

lemma steps_inv: "step\<^sup>*\<^sup>* s t \<Longrightarrow> inv s \<Longrightarrow> inv t"
  by (induction rule: rtranclp_induct) (auto intro: inv_step)

end

locale inductive_invariant = stable_property step inv
  for step :: "'s \<Rightarrow> 's \<Rightarrow> bool" and inv :: "'s \<Rightarrow> bool" +
  fixes init :: "'s \<Rightarrow> bool"
  assumes inv_init: "init s \<Longrightarrow> inv s"
begin

lemma reachable_inv: "reach init step s \<Longrightarrow> inv s"
  by (induction rule: reach.induct) (auto intro: inv_init inv_step)

end

end
