(* ===== verification/Host.thy ===== *)
theory Host
  imports Prelude
begin

section \<open>Host: what the runtime and the SDK answer during one call\<close>

text \<open>
  The contracts run on the \<open>unc\<close> runtime through the crate \<open>unc_sdk\<close>, which is not part of the
  repository. Everything a method asks of it (\<open>env::*\<close> and the SDK helpers) is a field of the
  record \<open>host\<close>, which every method takes as its first argument; nothing is assumed about the
  fields except where a theorem says so. What a method asks the runtime to do (the receipts it
  creates) is returned as a list of \<open>promise\<close> values in the order in which they are created.
  \<open>UncToken\<close> is the SDK's newtype of \<open>u128\<close>; its \<open>saturating_*\<close> methods are those of \<open>u128\<close>.
  Log lines (\<open>env::log_str\<close>) have no effect on the state and are left out.
\<close>

type_synonym account_id = string
type_synonym public_key = string
type_synonym bytes = "8 word list"

datatype promise_result = Successful bytes | Failed

datatype allowance = Unlimited | Limited nat

record host =
  env_current_account_id :: account_id
  env_predecessor_account_id :: account_id
  env_signer_account_pk :: public_key
  env_attached_deposit :: nat
  env_account_balance :: nat
  env_account_locked_balance :: nat
  env_epoch_height :: nat
  env_block_timestamp :: nat
  env_prepaid_gas :: nat
  env_state_exists :: bool
  env_is_valid_account_id :: "string \<Rightarrow> bool"
  env_parse_account_id :: "string \<Rightarrow> account_id option"
  env_promise_results :: "promise_result list"
  env_assert_self :: "unit res"
  env_is_promise_success :: "bool res"
  env_validator_stake :: "account_id \<Rightarrow> nat"
  env_validator_total_stake :: nat
  env_sha256 :: "bytes \<Rightarrow> bytes"
  env_allowance_limited :: "nat \<Rightarrow> allowance option"

text \<open>
  Receipts. \<open>'c\<close> is, per contract, the type of the remote calls the contract makes (method name
  with typed arguments); \<open>FunctionCall c deposit gas\<close> carries the attached deposit and the
  static gas (0 where the source gives none). \<open>Then p q\<close> is \<open>p.then(q)\<close>.
\<close>

datatype 'c action =
    CreateAccount
  | DeployContract bytes
  | FunctionCall 'c nat nat
  | Transfer nat
  | Stake nat public_key
  | AddFullAccessKey public_key
  | AddAccessKey public_key allowance account_id string
  | DeleteKey public_key
  | DeleteAccount account_id

datatype 'c promise =
    Promise account_id "'c action list"
  | Then "'c promise" "'c promise"

datatype 'c promise_or_value = PromiseRet "'c promise" | ValueRet bool

text \<open>The same for a method whose value has another type than \<open>bool\<close>.\<close>

datatype ('c, 'v) answer = Promised "'c promise" | Answered 'v

text \<open>All batches of a promise, with their receivers, in order.\<close>

fun batches :: "'c promise \<Rightarrow> (account_id \<times> 'c action list) list" where
  "batches (Promise r acts) = [(r, acts)]"
| "batches (Then p q) = batches p @ batches q"

text \<open>The static gas a promise reserves.\<close>

fun action_gas :: "'c action \<Rightarrow> nat" where
  "action_gas (FunctionCall c d g) = g"
| "action_gas _ = 0"

definition promise_gas :: "'c promise \<Rightarrow> nat" where
  "promise_gas p = sum_list (map (\<lambda>(r, acts). sum_list (map action_gas acts)) (batches p))"

text \<open>The tokens a promise takes out of the account: transfers and attached deposits.\<close>

fun action_tokens :: "'c action \<Rightarrow> nat" where
  "action_tokens (FunctionCall c d g) = d"
| "action_tokens (Transfer n) = n"
| "action_tokens _ = 0"

definition promise_tokens :: "'c promise \<Rightarrow> nat" where
  "promise_tokens p = sum_list (map (\<lambda>(r, acts). sum_list (map action_tokens acts)) (batches p))"

lemma promise_gas_simps [simp]:
  "promise_gas (Promise r acts) = sum_list (map action_gas acts)"
  "promise_gas (Then p q) = promise_gas p + promise_gas q"
  by (simp_all add: promise_gas_def)

lemma promise_tokens_simps [simp]:
  "promise_tokens (Promise r acts) = sum_list (map action_tokens acts)"
  "promise_tokens (Then p q) = promise_tokens p + promise_tokens q"
  by (simp_all add: promise_tokens_def)

subsection \<open>Callback helpers that the contracts define themselves\<close>

text \<open>
  \<open>assert_self\<close> and \<open>is_promise_success\<close> as the two factories define them in their \<open>utils.rs\<close>
  (the airdrop has the second one in its \<open>lib.rs\<close>). The lockup contract imports functions of
  the same names from the SDK; those are the fields \<open>env_assert_self\<close> and
  \<open>env_is_promise_success\<close> of \<open>host\<close>.
\<close>

definition assert_self :: "host \<Rightarrow> unit res" where
  "assert_self e = ensure (env_predecessor_account_id e = env_current_account_id e)
     ''assertion failed: predecessor == current''"

definition is_promise_success :: "host \<Rightarrow> bool res" where
  "is_promise_success e =
     bindE (ensure (length (env_promise_results e) = 1)
              ''Contract expected a result on the callback'') (\<lambda>_.
     Inr (case env_promise_results e ! 0 of Successful _ \<Rightarrow> True | _ \<Rightarrow> False))"

lemma is_promise_success_Inr:
  "is_promise_success e = Inr b \<longleftrightarrow>
     (\<exists>r. env_promise_results e = [r] \<and> (b \<longleftrightarrow> (\<exists>v. r = Successful v)))"
  by (cases "env_promise_results e")
     (auto simp: is_promise_success_def split: promise_result.splits)

lemma assert_self_Inr [simp]:
  "assert_self e = Inr u \<longleftrightarrow> env_predecessor_account_id e = env_current_account_id e"
  by (simp add: assert_self_def)

text \<open>
  What the attributes of the SDK's macro add to a method: \<open>#[private]\<close> admits calls of the
  contract by itself only, \<open>#[init]\<close> calls of a contract that has no state yet. \<open>assert_one_atto\<close> (here \<open>attached_one_atto\<close>) is the
  SDK's check that the caller attached exactly one atto.
\<close>

definition private_call :: "host \<Rightarrow> unit res" where
  "private_call e = ensure (env_predecessor_account_id e = env_current_account_id e) ''Method is private''"

definition init_call :: "host \<Rightarrow> unit res" where
  "init_call e = ensure (\<not> env_state_exists e) ''The contract has already been initialized''"

definition attached_one_atto :: "host \<Rightarrow> unit res" where
  "attached_one_atto e = ensure (env_attached_deposit e = 1) ''Requires attached deposit of exactly 1 attoUNC''"

lemma call_guards_Inr [simp]:
  "private_call e = Inr u \<longleftrightarrow> env_predecessor_account_id e = env_current_account_id e"
  "init_call e = Inr u \<longleftrightarrow> \<not> env_state_exists e"
  "attached_one_atto e = Inr u \<longleftrightarrow> env_attached_deposit e = 1"
  by (simp_all add: private_call_def init_call_def attached_one_atto_def)

subsection \<open>A concrete host for examples\<close>

text \<open>
  Used by witnesses only: every account ID is valid, nothing is attached, the caller is
  \<open>alice\<close> and the contract is \<open>contract\<close>.
\<close>

definition sample_host :: host where
  "sample_host = \<lparr>
     env_current_account_id = ''contract'',
     env_predecessor_account_id = ''alice'',
     env_signer_account_pk = ''pk'',
     env_attached_deposit = 0,
     env_account_balance = 0,
     env_account_locked_balance = 0,
     env_epoch_height = 0,
     env_block_timestamp = 0,
     env_prepaid_gas = 0,
     env_state_exists = False,
     env_is_valid_account_id = (\<lambda>_. True),
     env_parse_account_id = Some,
     env_promise_results = [],
     env_assert_self = Inl (Panic ''Method is private''),
     env_is_promise_success = Inl (Panic ''Contract expected a result on the callback''),
     env_validator_stake = (\<lambda>_. 0),
     env_validator_total_stake = 0,
     env_sha256 = (\<lambda>b. b),
     env_allowance_limited = (\<lambda>n. if n = 0 then None else Some (Limited n)) \<rparr>"

lemma sample_host_simps [simp]:
  "env_current_account_id sample_host = ''contract''"
  "env_predecessor_account_id sample_host = ''alice''"
  "env_signer_account_pk sample_host = ''pk''"
  "env_attached_deposit sample_host = 0"
  "env_account_balance sample_host = 0"
  "env_account_locked_balance sample_host = 0"
  "env_epoch_height sample_host = 0"
  "env_block_timestamp sample_host = 0"
  "env_prepaid_gas sample_host = 0"
  "\<not> env_state_exists sample_host"
  "env_is_valid_account_id sample_host a"
  "env_parse_account_id sample_host a = Some a"
  "env_promise_results sample_host = []"
  "env_validator_stake sample_host a = 0"
  "env_validator_total_stake sample_host = 0"
  "env_sha256 sample_host b = b"
  "env_allowance_limited sample_host n = (if n = 0 then None else Some (Limited n))"
  by (simp_all add: sample_host_def)

end
