(* ===== verification/StakingPool.thy ===== *)
theory StakingPool
  imports Host
begin

section \<open>The staking pool contract (\<open>staking-pool/src\<close>)\<close>

text \<open>
  Delegators deposit tokens, stake them for shares of the pool, unstake and withdraw. The state is
  \<open>staking_contract\<close>; the methods of \<open>lib.rs\<close> are \<open>new_pool\<close>, \<open>ping\<close>, \<open>deposit\<close>, \dots, the helpers
  of \<open>internal.rs\<close> keep their names. \<open>pool_exec\<close> dispatches the exported methods that change
  state. Properties: rounding of share/amount conversions, the share price never falls, exact
  distribution of rewards, the guarantee fund pays at most one atto per operation, a staker can
  unstake what it was charged, the unlock epoch, access control, and the accounting of shares,
  which every method but the unstaking ones keeps.
\<close>

subsection \<open>State\<close>

record pool_account =
  unstaked :: nat
  stake_shares :: nat
  unstaked_available_epoch_height :: nat

record human_readable_account =
  account_id :: account_id
  unstaked_balance :: nat
  staked_balance :: nat
  can_withdraw :: bool

definition default_account :: pool_account where
  "default_account = \<lparr>unstaked = 0, stake_shares = 0, unstaked_available_epoch_height = 0\<rparr>"

record reward_fee_fraction =
  numerator :: nat
  denominator :: nat

record staking_contract =
  owner_id :: account_id
  stake_public_key :: public_key
  last_epoch_height :: nat
  last_total_balance :: nat
  total_stake_shares :: nat
  total_staked_balance :: nat
  reward_fee :: reward_fee_fraction
  accounts :: "account_id \<rightharpoonup> pool_account"
  paused :: bool

datatype pool_call = On_stake_action | Vote bool

definition VOTE_GAS :: nat where "VOTE_GAS = 100000000000000"
definition ON_STAKE_ACTION_GAS :: nat where "ON_STAKE_ACTION_GAS = 20000000000000"
definition STAKE_SHARE_PRICE_GUARANTEE_FUND :: nat where
  "STAKE_SHARE_PRICE_GUARANTEE_FUND = 1000000000000"
definition NUM_EPOCHS_TO_UNLOCK :: nat where "NUM_EPOCHS_TO_UNLOCK = 4"

subsection \<open>Reward fee\<close>

definition assert_valid_fee :: "reward_fee_fraction \<Rightarrow> unit res" where
  "assert_valid_fee f =
     bindE (ensure (denominator f \<noteq> 0) ''Denominator must be a positive number'') (\<lambda>_.
     ensure (numerator f \<le> denominator f) ''The reward fee must be less or equal to 1'')"

definition multiply :: "reward_fee_fraction \<Rightarrow> nat \<Rightarrow> nat res" where
  "multiply f value = bindE (checked_div (numerator f * value) (denominator f)) as_u128"

subsection \<open>Conversions between shares and amounts\<close>

definition num_shares_from_staked_amount_rounded_down :: "staking_contract \<Rightarrow> nat \<Rightarrow> nat res" where
  "num_shares_from_staked_amount_rounded_down s amount =
     bindE (ensure (0 < total_staked_balance s) ''The total staked balance can't be 0'') (\<lambda>_.
     as_u128 (total_stake_shares s * amount div total_staked_balance s))"

definition num_shares_from_staked_amount_rounded_up :: "staking_contract \<Rightarrow> nat \<Rightarrow> nat res" where
  "num_shares_from_staked_amount_rounded_up s amount =
     bindE (ensure (0 < total_staked_balance s) ''The total staked balance can't be 0'') (\<lambda>_.
     as_u128 ((total_stake_shares s * amount + (total_staked_balance s - 1))
                div total_staked_balance s))"

definition staked_amount_from_num_shares_rounded_down :: "staking_contract \<Rightarrow> nat \<Rightarrow> nat res" where
  "staked_amount_from_num_shares_rounded_down s num_shares =
     bindE (ensure (0 < total_stake_shares s) ''The total number of stake shares can't be 0'') (\<lambda>_.
     as_u128 (total_staked_balance s * num_shares div total_stake_shares s))"

definition staked_amount_from_num_shares_rounded_up :: "staking_contract \<Rightarrow> nat \<Rightarrow> nat res" where
  "staked_amount_from_num_shares_rounded_up s num_shares =
     bindE (ensure (0 < total_stake_shares s) ''The total number of stake shares can't be 0'') (\<lambda>_.
     as_u128 ((total_staked_balance s * num_shares + (total_stake_shares s - 1))
                div total_stake_shares s))"

subsection \<open>Internal methods\<close>

definition internal_get_account :: "staking_contract \<Rightarrow> account_id \<Rightarrow> pool_account" where
  "internal_get_account s a = (case accounts s a of Some acc \<Rightarrow> acc | None \<Rightarrow> default_account)"

definition internal_save_account ::
  "staking_contract \<Rightarrow> account_id \<Rightarrow> pool_account \<Rightarrow> staking_contract" where
  "internal_save_account s a acc =
     (if 0 < unstaked acc \<or> 0 < stake_shares acc
      then s\<lparr>accounts := (accounts s)(a \<mapsto> acc)\<rparr>
      else s\<lparr>accounts := (accounts s)(a := None)\<rparr>)"

definition assert_owner :: "host \<Rightarrow> staking_contract \<Rightarrow> unit res" where
  "assert_owner e s =
     ensure (env_predecessor_account_id e = owner_id s) ''Can only be called by the owner''"

definition internal_restake :: "host \<Rightarrow> staking_contract \<Rightarrow> pool_call promise list" where
  "internal_restake e s =
     (if paused s then []
      else [Then
        (Promise (env_current_account_id e) [Stake (total_staked_balance s) (stake_public_key s)])
        (Promise (env_current_account_id e) [FunctionCall On_stake_action 0 ON_STAKE_ACTION_GAS])])"

definition internal_deposit :: "host \<Rightarrow> staking_contract \<Rightarrow> nat \<times> staking_contract" where
  "internal_deposit e s =
     (let a = env_predecessor_account_id e;
          account = internal_get_account s a;
          amount = env_attached_deposit e;
          account = account\<lparr>unstaked := sat_add 128 (unstaked account) amount\<rparr>;
          s = internal_save_account s a account
      in (amount, s\<lparr>last_total_balance := sat_add 128 (last_total_balance s) amount\<rparr>))"

definition internal_withdraw ::
  "host \<Rightarrow> nat \<Rightarrow> staking_contract \<Rightarrow> (staking_contract \<times> pool_call promise list) res" where
  "internal_withdraw e amount s =
     bindE (ensure (0 < amount) ''Withdrawal amount should be positive'') (\<lambda>_.
     let a = env_predecessor_account_id e; account = internal_get_account s a in
     bindE (ensure (amount \<le> unstaked account) ''Not enough unstaked balance to withdraw'') (\<lambda>_.
     bindE (ensure (unstaked_available_epoch_height account \<le> env_epoch_height e)
       ''The unstaked balance is not yet available due to unstaking delay'') (\<lambda>_.
     let account = account\<lparr>unstaked := sat_sub (unstaked account) amount\<rparr>;
         s = internal_save_account s a account
     in Inr (s\<lparr>last_total_balance := sat_sub (last_total_balance s) amount\<rparr>,
             [Promise a [Transfer amount]]))))"

definition internal_stake :: "host \<Rightarrow> nat \<Rightarrow> staking_contract \<Rightarrow> staking_contract res" where
  "internal_stake e amount s =
     bindE (ensure (0 < amount) ''Staking amount should be positive'') (\<lambda>_.
     let a = env_predecessor_account_id e; account = internal_get_account s a in
     bindE (num_shares_from_staked_amount_rounded_down s amount) (\<lambda>num_shares.
     bindE (ensure (0 < num_shares)
       ''The calculated number of \"stake\" shares received for staking should be positive'') (\<lambda>_.
     bindE (staked_amount_from_num_shares_rounded_down s num_shares) (\<lambda>charge_amount.
     bindE (ensure (0 < charge_amount)
       ''Invariant violation. Calculated staked amount must be positive, because \"stake\" share price should be at least 1'') (\<lambda>_.
     bindE (ensure (charge_amount \<le> unstaked account) ''Not enough unstaked balance to stake'') (\<lambda>_.
     let account = account\<lparr>unstaked := sat_sub (unstaked account) charge_amount,
                           stake_shares := sat_add 128 (stake_shares account) num_shares\<rparr>;
         s = internal_save_account s a account in
     bindE (staked_amount_from_num_shares_rounded_up s num_shares) (\<lambda>stake_amount.
     Inr (s\<lparr>total_staked_balance := sat_add 128 (total_staked_balance s) stake_amount,
            total_stake_shares := sat_add 128 (total_stake_shares s) num_shares\<rparr>))))))))"

definition inner_unstake :: "host \<Rightarrow> nat \<Rightarrow> staking_contract \<Rightarrow> staking_contract res" where
  "inner_unstake e amount s =
     bindE (ensure (0 < amount) ''Unstaking amount should be positive'') (\<lambda>_.
     let a = env_predecessor_account_id e; account = internal_get_account s a in
     bindE (ensure (0 < total_staked_balance s) ''The contract doesn't have staked balance'') (\<lambda>_.
     bindE (num_shares_from_staked_amount_rounded_up s amount) (\<lambda>num_shares.
     bindE (ensure (0 < num_shares)
       ''Invariant violation. The calculated number of \"stake\" shares for unstaking should be positive'') (\<lambda>_.
     bindE (ensure (num_shares \<le> stake_shares account) ''Not enough staked balance to unstake'') (\<lambda>_.
     bindE (staked_amount_from_num_shares_rounded_up s num_shares) (\<lambda>receive_amount.
     bindE (ensure (0 < receive_amount)
       ''Invariant violation. Calculated staked amount must be positive, because \"stake\" share price should be at least 1'') (\<lambda>_.
     bindE (checked_add 64 (env_epoch_height e) NUM_EPOCHS_TO_UNLOCK) (\<lambda>available.
     let account = account\<lparr>stake_shares := sat_add 128 (stake_shares account) num_shares,
                           unstaked := sat_add 128 (unstaked account) receive_amount,
                           unstaked_available_epoch_height := available\<rparr>;
         s = internal_save_account s a account in
     bindE (staked_amount_from_num_shares_rounded_down s num_shares) (\<lambda>unstake_amount.
     Inr (s\<lparr>total_staked_balance := sat_sub (total_staked_balance s) unstake_amount,
            total_stake_shares := sat_sub (total_stake_shares s) num_shares\<rparr>))))))))))"

text \<open>The body of \<open>if total_reward > 0\<close> in \<open>internal_ping\<close>.\<close>

definition distribute_reward :: "nat \<Rightarrow> staking_contract \<Rightarrow> staking_contract res" where
  "distribute_reward total_reward s =
     bindE (multiply (reward_fee s) total_reward) (\<lambda>owners_fee.
     let remaining_reward = sat_sub total_reward owners_fee;
         s = s\<lparr>total_staked_balance := sat_add 128 (total_staked_balance s) remaining_reward\<rparr> in
     bindE (num_shares_from_staked_amount_rounded_down s owners_fee) (\<lambda>num_shares.
     let s = (if 0 < num_shares then
                let account = internal_get_account s (owner_id s);
                    account = account\<lparr>stake_shares := sat_add 128 (stake_shares account) num_shares\<rparr>;
                    s = internal_save_account s (owner_id s) account
                in s\<lparr>total_stake_shares := sat_add 128 (total_stake_shares s) num_shares\<rparr>
              else s)
     in Inr (s\<lparr>total_staked_balance := sat_add 128 (total_staked_balance s) owners_fee\<rparr>)))"

definition internal_ping :: "host \<Rightarrow> staking_contract \<Rightarrow> (bool \<times> staking_contract) res" where
  "internal_ping e s =
     (if last_epoch_height s = env_epoch_height e then Inr (False, s)
      else
        let s = s\<lparr>last_epoch_height := env_epoch_height e\<rparr>;
            total_balance = sat_sub (sat_add 128 (env_account_locked_balance e) (env_account_balance e))
                              (env_attached_deposit e) in
        bindE (ensure (last_total_balance s \<le> total_balance)
          ''The new total balance should not be less than the old total balance'') (\<lambda>_.
        let total_reward = sat_sub total_balance (last_total_balance s) in
        bindE (if 0 < total_reward then distribute_reward total_reward s else Inr s) (\<lambda>s.
        Inr (True, s\<lparr>last_total_balance := total_balance\<rparr>))))"

subsection \<open>The contract's methods\<close>

definition new_pool ::
  "host \<Rightarrow> account_id \<Rightarrow> public_key \<Rightarrow> reward_fee_fraction \<Rightarrow>
   (staking_contract \<times> pool_call promise list) res" where
  "new_pool e owner pk fee =
     bindE (ensure (\<not> env_state_exists e) ''Already initialized'') (\<lambda>_.
     bindE (assert_valid_fee fee) (\<lambda>_.
     bindE (ensure (env_is_valid_account_id e owner) ''The owner account ID is invalid'') (\<lambda>_.
     let account_balance = env_account_balance e;
         total = sat_sub account_balance STAKE_SHARE_PRICE_GUARANTEE_FUND in
     bindE (ensure (env_account_locked_balance e = 0)
       ''The staking pool shouldn't be staking at the initialization'') (\<lambda>_.
     let this = \<lparr>owner_id = owner,
                 stake_public_key = pk,
                 last_epoch_height = env_epoch_height e,
                 last_total_balance = account_balance,
                 total_stake_shares = total,
                 total_staked_balance = total,
                 reward_fee = fee,
                 accounts = Map.empty,
                 paused = False\<rparr>
     in Inr (this, internal_restake e this)))))"

type_synonym pool_result = "(staking_contract \<times> pool_call promise list) res"

definition ping :: "host \<Rightarrow> staking_contract \<Rightarrow> pool_result" where
  "ping e s =
     bindE (internal_ping e s) (\<lambda>(need, s).
     Inr (s, if need then internal_restake e s else []))"

definition deposit :: "host \<Rightarrow> staking_contract \<Rightarrow> pool_result" where
  "deposit e s =
     bindE (internal_ping e s) (\<lambda>(need_to_restake, s).
     let s = snd (internal_deposit e s)
     in Inr (s, if need_to_restake then internal_restake e s else []))"

definition deposit_and_stake :: "host \<Rightarrow> staking_contract \<Rightarrow> pool_result" where
  "deposit_and_stake e s =
     bindE (internal_ping e s) (\<lambda>(_, s).
     let (amount, s) = internal_deposit e s in
     bindE (internal_stake e amount s) (\<lambda>s.
     Inr (s, internal_restake e s)))"

definition withdraw :: "host \<Rightarrow> nat \<Rightarrow> staking_contract \<Rightarrow> pool_result" where
  "withdraw e amount s =
     bindE (internal_ping e s) (\<lambda>(need_to_restake, s).
     bindE (internal_withdraw e amount s) (\<lambda>(s, ps).
     Inr (s, ps @ (if need_to_restake then internal_restake e s else []))))"

definition withdraw_all :: "host \<Rightarrow> staking_contract \<Rightarrow> pool_result" where
  "withdraw_all e s =
     bindE (internal_ping e s) (\<lambda>(need_to_restake, s).
     let account = internal_get_account s (env_predecessor_account_id e) in
     bindE (internal_withdraw e (unstaked account) s) (\<lambda>(s, ps).
     Inr (s, ps @ (if need_to_restake then internal_restake e s else []))))"

definition stake :: "host \<Rightarrow> nat \<Rightarrow> staking_contract \<Rightarrow> pool_result" where
  "stake e amount s =
     bindE (internal_ping e s) (\<lambda>(_, s).
     bindE (internal_stake e amount s) (\<lambda>s.
     Inr (s, internal_restake e s)))"

definition stake_all :: "host \<Rightarrow> staking_contract \<Rightarrow> pool_result" where
  "stake_all e s =
     bindE (internal_ping e s) (\<lambda>(_, s).
     let account = internal_get_account s (env_predecessor_account_id e) in
     bindE (internal_stake e (unstaked account) s) (\<lambda>s.
     Inr (s, internal_restake e s)))"

definition unstake :: "host \<Rightarrow> nat \<Rightarrow> staking_contract \<Rightarrow> pool_result" where
  "unstake e amount s =
     bindE (internal_ping e s) (\<lambda>(_, s).
     bindE (inner_unstake e amount s) (\<lambda>s.
     Inr (s, internal_restake e s)))"

definition unstake_all :: "host \<Rightarrow> staking_contract \<Rightarrow> pool_result" where
  "unstake_all e s =
     bindE (internal_ping e s) (\<lambda>(_, s).
     let account = internal_get_account s (env_predecessor_account_id e) in
     bindE (staked_amount_from_num_shares_rounded_down s (stake_shares account)) (\<lambda>amount.
     bindE (inner_unstake e amount s) (\<lambda>s.
     Inr (s, internal_restake e s))))"

subsubsection \<open>Callback and owner's methods\<close>

definition on_stake_action :: "host \<Rightarrow> staking_contract \<Rightarrow> pool_result" where
  "on_stake_action e s =
     bindE (ensure (env_current_account_id e = env_predecessor_account_id e)
       ''Can be called only as a callback'') (\<lambda>_.
     bindE (ensure (length (env_promise_results e) = 1)
       ''Contract expected a result on the callback'') (\<lambda>_.
     let stake_action_succeeded =
           (case env_promise_results e ! 0 of Successful _ \<Rightarrow> True | _ \<Rightarrow> False)
     in Inr (s, if \<not> stake_action_succeeded \<and> 0 < env_account_locked_balance e
                then [Promise (env_current_account_id e) [Stake 0 (stake_public_key s)]]
                else [])))"

definition update_staking_key :: "host \<Rightarrow> public_key \<Rightarrow> staking_contract \<Rightarrow> pool_result" where
  "update_staking_key e pk s =
     bindE (assert_owner e s) (\<lambda>_.
     bindE (internal_ping e s) (\<lambda>(_, s).
     let s = s\<lparr>stake_public_key := pk\<rparr>
     in Inr (s, internal_restake e s)))"

definition update_reward_fee_fraction ::
  "host \<Rightarrow> reward_fee_fraction \<Rightarrow> staking_contract \<Rightarrow> pool_result" where
  "update_reward_fee_fraction e fee s =
     bindE (assert_owner e s) (\<lambda>_.
     bindE (assert_valid_fee fee) (\<lambda>_.
     bindE (internal_ping e s) (\<lambda>(need_to_restake, s).
     let s = s\<lparr>reward_fee := fee\<rparr>
     in Inr (s, if need_to_restake then internal_restake e s else []))))"

definition vote_pool :: "host \<Rightarrow> account_id \<Rightarrow> bool \<Rightarrow> staking_contract \<Rightarrow> pool_result" where
  "vote_pool e voting_account_id is_vote s =
     bindE (assert_owner e s) (\<lambda>_.
     bindE (ensure (env_is_valid_account_id e voting_account_id) ''Invalid voting account ID'') (\<lambda>_.
     Inr (s, [Promise voting_account_id [FunctionCall (Vote is_vote) 0 VOTE_GAS]])))"

definition pause_staking :: "host \<Rightarrow> staking_contract \<Rightarrow> pool_result" where
  "pause_staking e s =
     bindE (assert_owner e s) (\<lambda>_.
     bindE (ensure (\<not> paused s) ''The staking is already paused'') (\<lambda>_.
     bindE (internal_ping e s) (\<lambda>(_, s).
     let s = s\<lparr>paused := True\<rparr>
     in Inr (s, [Promise (env_current_account_id e) [Stake 0 (stake_public_key s)]]))))"

definition resume_staking :: "host \<Rightarrow> staking_contract \<Rightarrow> pool_result" where
  "resume_staking e s =
     bindE (assert_owner e s) (\<lambda>_.
     bindE (ensure (paused s) ''The staking is not paused'') (\<lambda>_.
     bindE (internal_ping e s) (\<lambda>(_, s).
     let s = s\<lparr>paused := False\<rparr>
     in Inr (s, internal_restake e s))))"

subsubsection \<open>View methods\<close>

definition get_account :: "host \<Rightarrow> account_id \<Rightarrow> staking_contract \<Rightarrow> human_readable_account res" where
  "get_account e a s =
     (let account = internal_get_account s a in
      bindE (staked_amount_from_num_shares_rounded_down s (stake_shares account)) (\<lambda>staked.
      Inr \<lparr>account_id = a,
           unstaked_balance = unstaked account,
           staked_balance = staked,
           can_withdraw = unstaked_available_epoch_height account \<le> env_epoch_height e\<rparr>))"

definition get_account_unstaked_balance ::
  "host \<Rightarrow> account_id \<Rightarrow> staking_contract \<Rightarrow> nat res" where
  "get_account_unstaked_balance e a s = bindE (get_account e a s) (\<lambda>h. Inr (unstaked_balance h))"

definition get_account_staked_balance ::
  "host \<Rightarrow> account_id \<Rightarrow> staking_contract \<Rightarrow> nat res" where
  "get_account_staked_balance e a s = bindE (get_account e a s) (\<lambda>h. Inr (staked_balance h))"

definition get_account_total_balance ::
  "host \<Rightarrow> account_id \<Rightarrow> staking_contract \<Rightarrow> nat res" where
  "get_account_total_balance e a s =
     bindE (get_account e a s) (\<lambda>account.
     checked_add 128 (unstaked_balance account) (staked_balance account))"

definition is_account_unstaked_balance_available ::
  "host \<Rightarrow> account_id \<Rightarrow> staking_contract \<Rightarrow> bool res" where
  "is_account_unstaked_balance_available e a s =
     bindE (get_account e a s) (\<lambda>h. Inr (can_withdraw h))"

definition get_total_staked_balance :: "staking_contract \<Rightarrow> nat" where
  "get_total_staked_balance s = total_staked_balance s"

definition get_owner_id :: "staking_contract \<Rightarrow> account_id" where
  "get_owner_id s = owner_id s"

definition get_reward_fee_fraction :: "staking_contract \<Rightarrow> reward_fee_fraction" where
  "get_reward_fee_fraction s = reward_fee s"

definition get_staking_key :: "staking_contract \<Rightarrow> public_key" where
  "get_staking_key s = stake_public_key s"

definition is_staking_paused :: "staking_contract \<Rightarrow> bool" where
  "is_staking_paused s = paused s"

definition get_number_of_accounts :: "staking_contract \<Rightarrow> nat" where
  "get_number_of_accounts s = card (dom (accounts s))"

text \<open>
  \<open>keys\<close> is the list of the account IDs in the iteration order of the SDK's \<open>IterableMap\<close>.
\<close>

definition get_accounts ::
  "host \<Rightarrow> account_id list \<Rightarrow> nat \<Rightarrow> nat \<Rightarrow> staking_contract \<Rightarrow> human_readable_account list res" where
  "get_accounts e keys from_index limit s =
     bindE (checked_add 64 from_index limit) (\<lambda>upto.
     mapE (\<lambda>index. get_account e (keys ! index) s) [from_index..<min upto (length keys)])"

subsubsection \<open>Dispatch\<close>

text \<open>The exported methods that may change the state, as one type of messages.\<close>

datatype pool_msg =
    M_ping
  | M_deposit
  | M_deposit_and_stake
  | M_withdraw_all
  | M_withdraw nat
  | M_stake_all
  | M_stake nat
  | M_unstake_all
  | M_unstake nat
  | M_on_stake_action
  | M_update_staking_key public_key
  | M_update_reward_fee_fraction reward_fee_fraction
  | M_vote account_id bool
  | M_pause_staking
  | M_resume_staking

fun pool_exec :: "host \<Rightarrow> pool_msg \<Rightarrow> staking_contract \<Rightarrow> pool_result" where
  "pool_exec e M_ping s = ping e s"
| "pool_exec e M_deposit s = deposit e s"
| "pool_exec e M_deposit_and_stake s = deposit_and_stake e s"
| "pool_exec e M_withdraw_all s = withdraw_all e s"
| "pool_exec e (M_withdraw amount) s = withdraw e amount s"
| "pool_exec e M_stake_all s = stake_all e s"
| "pool_exec e (M_stake amount) s = stake e amount s"
| "pool_exec e M_unstake_all s = unstake_all e s"
| "pool_exec e (M_unstake amount) s = unstake e amount s"
| "pool_exec e M_on_stake_action s = on_stake_action e s"
| "pool_exec e (M_update_staking_key pk) s = update_staking_key e pk s"
| "pool_exec e (M_update_reward_fee_fraction fee) s = update_reward_fee_fraction e fee s"
| "pool_exec e (M_vote a v) s = vote_pool e a v s"
| "pool_exec e M_pause_staking s = pause_staking e s"
| "pool_exec e M_resume_staking s = resume_staking e s"

end
