(* ===== verification/StakingPoolProofs.thy ===== *)
theory StakingPoolProofs
  imports StakingPool
begin

section \<open>Correctness of the staking pool\<close>

text \<open>
  The lemmas of the staking pool and its properties. The conversions are used through the locale
  \<open>share_conversion\<close>, the storage through \<open>account_store\<close> of the prelude; \<open>pool_prim\<close> splits
  every method into the internal operations it performs, so that a fact about all methods is
  proved once per internal operation.
\<close>

subsection \<open>Rounding\<close>

text \<open>
  A pair of conversions at the same rate \<open>num / den\<close>, one rounding down and one rounding up, as
  the contract's clients of the conversions rely on them.
\<close>

locale share_conversion =
  fixes down up :: "'s \<Rightarrow> nat \<Rightarrow> nat res"
    and num den :: "'s \<Rightarrow> nat"
  assumes down_law: "down s x = Inr y \<Longrightarrow> y * den s \<le> num s * x \<and> num s * x < Suc y * den s"
    and up_law: "up s x = Inr z \<Longrightarrow> num s * x \<le> z * den s \<and> z * den s < num s * x + den s"
    and down_total: "down s x = Inr y \<Longrightarrow> 0 < den s"
begin

lemma down_le_up: "down s x = Inr y \<Longrightarrow> up s x = Inr z \<Longrightarrow> y \<le> z"
proof -
  assume d: "down s x = Inr y" and u: "up s x = Inr z"
  have "y * den s \<le> z * den s" using down_law [OF d] up_law [OF u] by linarith
  then show "y \<le> z" using down_total [OF d] by simp
qed

lemma up_le_down: "down s x = Inr y \<Longrightarrow> up s x = Inr z \<Longrightarrow> z \<le> Suc y"
proof -
  assume d: "down s x = Inr y" and u: "up s x = Inr z"
  have "z * den s < Suc y * den s + den s" using down_law [OF d] up_law [OF u] by linarith
  also have "\<dots> = Suc (Suc y) * den s" by simp
  finally have "z < Suc (Suc y)" by (simp only: mult_less_cancel2)
  then show "z \<le> Suc y" by simp
qed

end

text \<open>Two conversions in opposite directions.\<close>

locale share_exchange =
  fwd: share_conversion down up num den + bwd: share_conversion down' up' den num
  for down up down' up' :: "'s \<Rightarrow> nat \<Rightarrow> nat res" and num den :: "'s \<Rightarrow> nat"
begin

text \<open>Converting down and back down never gains.\<close>

lemma round_trip_le: "down s x = Inr y \<Longrightarrow> down' s y = Inr z \<Longrightarrow> z \<le> x"
proof -
  assume d: "down s x = Inr y" and d': "down' s y = Inr z"
  have "z * num s \<le> den s * y" using bwd.down_law [OF d'] by simp
  also have "\<dots> \<le> num s * x" using fwd.down_law [OF d] by (simp add: mult.commute)
  finally have "z * num s \<le> x * num s" by (simp add: mult.commute)
  then show "z \<le> x" using bwd.down_total [OF d'] by simp
qed

text \<open>Converting up and back up never loses.\<close>

lemma round_trip_ge: "up s x = Inr y \<Longrightarrow> up' s y = Inr z \<Longrightarrow> 0 < num s \<Longrightarrow> x \<le> z"
proof -
  assume u: "up s x = Inr y" and u': "up' s y = Inr z" and pos: "0 < num s"
  have "num s * x \<le> y * den s" using fwd.up_law [OF u] by simp
  also have "\<dots> \<le> z * num s" using bwd.up_law [OF u'] by (simp add: mult.commute)
  finally have "x * num s \<le> z * num s" by (simp add: mult.commute)
  then show "x \<le> z" using pos by simp
qed

end

lemma div_down_law: "0 < (d::nat) \<Longrightarrow> n div d * d \<le> n \<and> n < d + n div d * d"
proof -
  assume d: "0 < d"
  have "n mod d < d" using d by simp
  moreover have "n div d * d + n mod d = n" by simp
  ultimately show ?thesis by linarith
qed

lemma div_up_law:
  assumes d: "0 < (d::nat)"
  shows "n \<le> (n + d - Suc 0) div d * d \<and> (n + d - Suc 0) div d * d < n + d"
proof -
  define q where "q = (n + d - Suc 0) div d"
  have "q * d \<le> n + d - Suc 0 \<and> n + d - Suc 0 < d + q * d"
    using div_down_law [OF d, of "n + d - Suc 0"] by (simp add: q_def)
  then show ?thesis using d unfolding q_def [symmetric] by linarith
qed

interpretation shares_of: share_conversion
  num_shares_from_staked_amount_rounded_down num_shares_from_staked_amount_rounded_up
  total_stake_shares total_staked_balance
  by unfold_locales
    (auto simp: num_shares_from_staked_amount_rounded_down_def
       num_shares_from_staked_amount_rounded_up_def div_down_law div_up_law)

interpretation amount_of: share_conversion
  staked_amount_from_num_shares_rounded_down staked_amount_from_num_shares_rounded_up
  total_staked_balance total_stake_shares
  by unfold_locales
    (auto simp: staked_amount_from_num_shares_rounded_down_def
       staked_amount_from_num_shares_rounded_up_def div_down_law div_up_law)

interpretation exchange: share_exchange
  num_shares_from_staked_amount_rounded_down num_shares_from_staked_amount_rounded_up
  staked_amount_from_num_shares_rounded_down staked_amount_from_num_shares_rounded_up
  total_stake_shares total_staked_balance
  by unfold_locales

text \<open>The conversions read the two totals only.\<close>

lemma conversions_cong:
  assumes "total_staked_balance s = total_staked_balance t"
    and "total_stake_shares s = total_stake_shares t"
  shows "num_shares_from_staked_amount_rounded_down s = num_shares_from_staked_amount_rounded_down t"
    and "num_shares_from_staked_amount_rounded_up s = num_shares_from_staked_amount_rounded_up t"
    and "staked_amount_from_num_shares_rounded_down s = staked_amount_from_num_shares_rounded_down t"
    and "staked_amount_from_num_shares_rounded_up s = staked_amount_from_num_shares_rounded_up t"
  using assms
  by (auto simp: fun_eq_iff num_shares_from_staked_amount_rounded_down_def
      num_shares_from_staked_amount_rounded_up_def staked_amount_from_num_shares_rounded_down_def
      staked_amount_from_num_shares_rounded_up_def)

subsection \<open>Account storage\<close>

definition is_open :: "pool_account \<Rightarrow> bool" where
  "is_open acc \<longleftrightarrow> 0 < unstaked acc \<or> 0 < stake_shares acc"

definition stored :: "pool_account \<Rightarrow> pool_account" where
  "stored acc = (if is_open acc then acc else default_account)"

interpretation pool_store: account_store internal_get_account internal_save_account stored
  by unfold_locales (auto simp: internal_get_account_def internal_save_account_def stored_def is_open_def)

lemma stored_open [simp]: "is_open acc \<Longrightarrow> stored acc = acc"
  by (simp add: stored_def)

lemma stored_balances [simp]:
  "unstaked (stored acc) = unstaked acc"
  "stake_shares (stored acc) = stake_shares acc"
  by (auto simp: stored_def is_open_def default_account_def)

lemma save_account_simps [simp]:
  "owner_id (internal_save_account s a acc) = owner_id s"
  "stake_public_key (internal_save_account s a acc) = stake_public_key s"
  "last_epoch_height (internal_save_account s a acc) = last_epoch_height s"
  "last_total_balance (internal_save_account s a acc) = last_total_balance s"
  "total_stake_shares (internal_save_account s a acc) = total_stake_shares s"
  "total_staked_balance (internal_save_account s a acc) = total_staked_balance s"
  "reward_fee (internal_save_account s a acc) = reward_fee s"
  "paused (internal_save_account s a acc) = paused s"
  by (simp_all add: internal_save_account_def)

lemma get_account_upd [simp]:
  "internal_get_account (s\<lparr>last_total_balance := x\<rparr>) = internal_get_account s"
  "internal_get_account (s\<lparr>last_epoch_height := x\<rparr>) = internal_get_account s"
  "internal_get_account (s\<lparr>total_staked_balance := x\<rparr>) = internal_get_account s"
  "internal_get_account (s\<lparr>total_stake_shares := x\<rparr>) = internal_get_account s"
  "internal_get_account (s\<lparr>reward_fee := f\<rparr>) = internal_get_account s"
  "internal_get_account (s\<lparr>stake_public_key := k\<rparr>) = internal_get_account s"
  "internal_get_account (s\<lparr>paused := b\<rparr>) = internal_get_account s"
  by (simp_all add: internal_get_account_def fun_eq_iff)

text \<open>A sum over all accounts after one account was saved.\<close>

definition total_of :: "(pool_account \<Rightarrow> nat) \<Rightarrow> staking_contract \<Rightarrow> nat" where
  "total_of f s = msum f (accounts s)"

lemma total_of_save:
  assumes fin: "finite (dom (accounts s))"
    and f0: "f default_account = 0" and fst: "f (stored acc) = f acc"
  shows "total_of f (internal_save_account s a acc) + f (internal_get_account s a)
       = total_of f s + f acc"
proof -
  have old: "opt_measure f (accounts s a) = f (internal_get_account s a)"
    using f0 by (simp add: internal_get_account_def opt_measure_def split: option.split)
  show ?thesis
  proof (cases "is_open acc")
    case True
    then have "accounts (internal_save_account s a acc) = (accounts s)(a \<mapsto> acc)"
      by (auto simp: internal_save_account_def is_open_def)
    then show ?thesis using msum_upd [OF fin, of f a acc] old by (simp add: total_of_def)
  next
    case False
    then have "accounts (internal_save_account s a acc) = (accounts s)(a := None)"
      by (auto simp: internal_save_account_def is_open_def)
    moreover have "f acc = 0" using False fst f0 by (simp add: stored_def)
    ultimately show ?thesis using msum_del [OF fin, of f a] old by (simp add: total_of_def)
  qed
qed

lemma total_of_upd [simp]:
  "total_of f (s\<lparr>last_total_balance := x\<rparr>) = total_of f s"
  "total_of f (s\<lparr>last_epoch_height := x\<rparr>) = total_of f s"
  "total_of f (s\<lparr>total_staked_balance := x\<rparr>) = total_of f s"
  "total_of f (s\<lparr>total_stake_shares := x\<rparr>) = total_of f s"
  "total_of f (s\<lparr>reward_fee := r\<rparr>) = total_of f s"
  "total_of f (s\<lparr>stake_public_key := k\<rparr>) = total_of f s"
  "total_of f (s\<lparr>paused := b\<rparr>) = total_of f s"
  by (simp_all add: total_of_def)

lemma finite_save [simp]:
  "finite (dom (accounts s)) \<Longrightarrow> finite (dom (accounts (internal_save_account s a acc)))"
  by (simp add: internal_save_account_def)

lemma account_le_total:
  assumes "finite (dom (accounts s))" and "f default_account = 0"
  shows "f (internal_get_account s a) \<le> total_of f s"
  using msum_point [OF assms(1), of f a] assms(2)
  by (simp add: internal_get_account_def total_of_def opt_measure_def split: option.splits)

subsection \<open>What the internal operations do when they return\<close>

lemma internal_depositE:
  assumes "internal_deposit e s = (amount, s')"
  obtains "amount = env_attached_deposit e"
    and "s' = (internal_save_account s (env_predecessor_account_id e)
           ((internal_get_account s (env_predecessor_account_id e))
              \<lparr>unstaked := sat_add 128 (unstaked (internal_get_account s (env_predecessor_account_id e)))
                           (env_attached_deposit e)\<rparr>))
         \<lparr>last_total_balance := sat_add 128 (last_total_balance s) (env_attached_deposit e)\<rparr>"
  using assms by (auto simp: internal_deposit_def Let_def)

lemma internal_withdrawE:
  assumes "internal_withdraw e amount s = Inr (s', ps)"
  obtains "0 < amount" and "amount \<le> unstaked (internal_get_account s (env_predecessor_account_id e))"
    and "unstaked_available_epoch_height (internal_get_account s (env_predecessor_account_id e))
           \<le> env_epoch_height e"
    and "ps = [Promise (env_predecessor_account_id e) [Transfer amount]]"
    and "s' = (internal_save_account s (env_predecessor_account_id e)
           ((internal_get_account s (env_predecessor_account_id e))
              \<lparr>unstaked := unstaked (internal_get_account s (env_predecessor_account_id e)) - amount\<rparr>))
         \<lparr>last_total_balance := last_total_balance s - amount\<rparr>"
  using assms by (auto simp: internal_withdraw_def Let_def sat_sub_eq)

lemma internal_stakeE:
  assumes "internal_stake e amount s = Inr s'"
  obtains n c u where "0 < amount"
    and "num_shares_from_staked_amount_rounded_down s amount = Inr n" and "0 < n"
    and "staked_amount_from_num_shares_rounded_down s n = Inr c" and "0 < c"
    and "c \<le> unstaked (internal_get_account s (env_predecessor_account_id e))"
    and "staked_amount_from_num_shares_rounded_up s n = Inr u"
    and "s' = (internal_save_account s (env_predecessor_account_id e)
           ((internal_get_account s (env_predecessor_account_id e))
              \<lparr>unstaked := unstaked (internal_get_account s (env_predecessor_account_id e)) - c,
               stake_shares := sat_add 128
                 (stake_shares (internal_get_account s (env_predecessor_account_id e))) n\<rparr>))
         \<lparr>total_staked_balance := sat_add 128 (total_staked_balance s) u,
          total_stake_shares := sat_add 128 (total_stake_shares s) n\<rparr>"
proof -
  let ?a = "env_predecessor_account_id e"
  have up: "staked_amount_from_num_shares_rounded_up (internal_save_account s ?a acc)
        = staked_amount_from_num_shares_rounded_up s" for acc
    by (rule conversions_cong) simp_all
  from assms show ?thesis
    by (auto simp: internal_stake_def Let_def sat_sub_eq up intro: that)
qed

lemma inner_unstakeE:
  assumes "inner_unstake e amount s = Inr s'"
  obtains n r d where "0 < amount" and "0 < total_staked_balance s"
    and "num_shares_from_staked_amount_rounded_up s amount = Inr n" and "0 < n"
    and "n \<le> stake_shares (internal_get_account s (env_predecessor_account_id e))"
    and "staked_amount_from_num_shares_rounded_up s n = Inr r" and "0 < r"
    and "staked_amount_from_num_shares_rounded_down s n = Inr d"
    and "s' = (internal_save_account s (env_predecessor_account_id e)
           ((internal_get_account s (env_predecessor_account_id e))
              \<lparr>stake_shares := sat_add 128
                 (stake_shares (internal_get_account s (env_predecessor_account_id e))) n,
               unstaked := sat_add 128
                 (unstaked (internal_get_account s (env_predecessor_account_id e))) r,
               unstaked_available_epoch_height := env_epoch_height e + NUM_EPOCHS_TO_UNLOCK\<rparr>))
         \<lparr>total_staked_balance := total_staked_balance s - d,
          total_stake_shares := total_stake_shares s - n\<rparr>"
proof -
  let ?a = "env_predecessor_account_id e"
  have down: "staked_amount_from_num_shares_rounded_down (internal_save_account s ?a acc)
        = staked_amount_from_num_shares_rounded_down s" for acc
    by (rule conversions_cong) simp_all
  from assms show ?thesis
    by (auto simp: inner_unstake_def Let_def sat_sub_eq down intro: that)
qed

text \<open>The three ways in which \<open>internal_ping\<close> returns.\<close>

definition rewarded :: "nat \<Rightarrow> nat \<Rightarrow> nat \<Rightarrow> staking_contract \<Rightarrow> staking_contract" where
  "rewarded w f n s =
     (let s1 = s\<lparr>total_staked_balance := sat_add 128 (total_staked_balance s) (w - f)\<rparr>;
          acc = internal_get_account s1 (owner_id s1);
          s2 = (if 0 < n
                then (internal_save_account s1 (owner_id s1)
                        (acc\<lparr>stake_shares := sat_add 128 (stake_shares acc) n\<rparr>))
                     \<lparr>total_stake_shares := sat_add 128 (total_stake_shares s1) n\<rparr>
                else s1)
      in s2\<lparr>total_staked_balance := sat_add 128 (total_staked_balance s2) f\<rparr>)"

definition balance_seen :: "host \<Rightarrow> nat" where
  "balance_seen e =
     sat_add 128 (env_account_locked_balance e) (env_account_balance e) - env_attached_deposit e"

lemma distribute_rewardE:
  assumes "distribute_reward w s = Inr s'"
  obtains f n where "multiply (reward_fee s) w = Inr f"
    and "num_shares_from_staked_amount_rounded_down
           (s\<lparr>total_staked_balance := sat_add 128 (total_staked_balance s) (w - f)\<rparr>) f = Inr n"
    and "s' = rewarded w f n s"
  using assms by (auto simp: distribute_reward_def rewarded_def Let_def sat_sub_eq)

lemma internal_pingE:
  assumes "internal_ping e s = Inr (b, s')"
  obtains (same_epoch) "last_epoch_height s = env_epoch_height e" and "\<not> b" and "s' = s"
  | (no_reward) "last_epoch_height s \<noteq> env_epoch_height e" and b
      and "balance_seen e = last_total_balance s"
      and "s' = s\<lparr>last_epoch_height := env_epoch_height e, last_total_balance := balance_seen e\<rparr>"
  | (reward) t where "last_epoch_height s \<noteq> env_epoch_height e" and b
      and "last_total_balance s < balance_seen e"
      and "distribute_reward (balance_seen e - last_total_balance s)
             (s\<lparr>last_epoch_height := env_epoch_height e\<rparr>) = Inr t"
      and "s' = t\<lparr>last_total_balance := balance_seen e\<rparr>"
proof (cases "last_epoch_height s = env_epoch_height e")
  case True
  with assms show thesis by (intro same_epoch) (auto simp: internal_ping_def)
next
  case False
  note ping_defs = internal_ping_def Let_def sat_sub_eq balance_seen_def [symmetric]
  show thesis
  proof (cases "last_total_balance s < balance_seen e")
    case True
    with False assms reward show thesis by (auto simp: ping_defs)
  next
    case le: False
    from False le assms have "balance_seen e = last_total_balance s" and b
      and "s' = s\<lparr>last_epoch_height := env_epoch_height e, last_total_balance := balance_seen e\<rparr>"
      by (auto simp: ping_defs)
    with False show thesis by (intro no_reward)
  qed
qed

lemma rewarded_simps [simp]:
  "owner_id (rewarded w f n s) = owner_id s"
  "reward_fee (rewarded w f n s) = reward_fee s"
  "paused (rewarded w f n s) = paused s"
  "stake_public_key (rewarded w f n s) = stake_public_key s"
  "last_epoch_height (rewarded w f n s) = last_epoch_height s"
  "last_total_balance (rewarded w f n s) = last_total_balance s"
  "total_staked_balance (rewarded w f n s)
     = sat_add 128 (sat_add 128 (total_staked_balance s) (w - f)) f"
  "total_stake_shares (rewarded w f n s)
     = (if 0 < n then sat_add 128 (total_stake_shares s) n else total_stake_shares s)"
  by (simp_all add: rewarded_def Let_def)

lemma rewarded_account:
  "internal_get_account (rewarded w f n s) a =
     (if 0 < n \<and> a = owner_id s
      then (internal_get_account s a)\<lparr>stake_shares := sat_add 128 (stake_shares (internal_get_account s a)) n\<rparr>
      else internal_get_account s a)"
proof -
  have "is_open (acc\<lparr>stake_shares := sat_add 128 k n\<rparr>)" if "0 < n" for acc :: pool_account and k
    using sat_add_pos [OF that, of 128 k] by (simp add: is_open_def)
  then show ?thesis by (auto simp: rewarded_def Let_def pool_store.get_save)
qed

subsection \<open>Reward fee\<close>

definition valid_fee :: "reward_fee_fraction \<Rightarrow> bool" where
  "valid_fee f \<longleftrightarrow> denominator f \<noteq> 0 \<and> numerator f \<le> denominator f"

lemma assert_valid_fee_Inr [simp]: "assert_valid_fee f = Inr u \<longleftrightarrow> valid_fee f"
  by (simp add: assert_valid_fee_def valid_fee_def)

lemma multiply_le: "valid_fee f \<Longrightarrow> multiply f v = Inr r \<Longrightarrow> r \<le> v"
proof -
  assume v: "valid_fee f" and m: "multiply f v = Inr r"
  have "numerator f * v div denominator f \<le> denominator f * v div denominator f"
    using v by (intro div_le_mono mult_le_mono1) (simp add: valid_fee_def)
  then show "r \<le> v" using m v by (auto simp: multiply_def valid_fee_def)
qed

subsection \<open>The share price\<close>

text \<open>
  The price of a share is \<open>total_staked_balance / total_stake_shares\<close>; \<open>price_le s t\<close> compares
  the prices of two states without dividing, as \<open>verify_stake_price_increase_guarantee\<close> of the
  contract's tests does.
\<close>

definition price_le :: "staking_contract \<Rightarrow> staking_contract \<Rightarrow> bool" where
  "price_le s t \<longleftrightarrow>
     total_staked_balance s * total_stake_shares t \<le> total_staked_balance t * total_stake_shares s"

lemma price_le_refl [simp]: "price_le s s"
  by (simp add: price_le_def)

lemma price_le_same:
  "total_staked_balance s = total_staked_balance t \<Longrightarrow> total_stake_shares s = total_stake_shares t \<Longrightarrow>
   price_le s t"
  by (simp add: price_le_def)

lemma price_le_trans:
  assumes "price_le s t" and "price_le t u" and pos: "0 < total_stake_shares t"
  shows "price_le s u"
proof -
  let ?T = total_staked_balance and ?S = total_stake_shares
  have "(?T s * ?S u) * ?S t = (?T s * ?S t) * ?S u" by simp
  also have "\<dots> \<le> (?T t * ?S s) * ?S u" using assms(1) by (simp add: price_le_def)
  also have "\<dots> = (?T t * ?S u) * ?S s" by simp
  also have "\<dots> \<le> (?T u * ?S t) * ?S s" using assms(2) unfolding price_le_def by (rule mult_le_mono1)
  also have "\<dots> = (?T u * ?S s) * ?S t" by simp
  finally show ?thesis using pos by (simp add: price_le_def)
qed

text \<open>Adding \<open>n\<close> shares for at least their price, and taking \<open>n\<close> shares away for at most it.\<close>

lemma price_buy: "(T::nat) * n \<le> u * S \<Longrightarrow> T * (S + n) \<le> (T + u) * S"
  by (simp add: algebra_simps)

lemma price_sell: "d * (S::nat) \<le> T * n \<Longrightarrow> T * (S - n) \<le> (T - d) * S"
  by (simp add: diff_mult_distrib diff_mult_distrib2 diff_le_mono2)

subsection \<open>Every method is a ping followed by one operation\<close>

inductive pool_op :: "host \<Rightarrow> bool \<Rightarrow> staking_contract \<Rightarrow> staking_contract \<Rightarrow> bool"
  for e :: host where
  op_none: "pool_op e u s s"
| op_deposit: "internal_deposit e s = (a, s') \<Longrightarrow> pool_op e u s s'"
| op_deposit_stake:
    "internal_deposit e s = (a, s1) \<Longrightarrow> internal_stake e a s1 = Inr s' \<Longrightarrow> pool_op e u s s'"
| op_withdraw: "internal_withdraw e a s = Inr (s', ps) \<Longrightarrow> pool_op e u s s'"
| op_stake: "internal_stake e a s = Inr s' \<Longrightarrow> pool_op e u s s'"
| op_unstake: "u \<Longrightarrow> inner_unstake e a s = Inr s' \<Longrightarrow> pool_op e u s s'"
| op_key: "pool_op e u s (s\<lparr>stake_public_key := k\<rparr>)"
| op_fee: "valid_fee f \<Longrightarrow> pool_op e u s (s\<lparr>reward_fee := f\<rparr>)"
| op_paused: "pool_op e u s (s\<lparr>paused := b\<rparr>)"

fun is_unstake :: "pool_msg \<Rightarrow> bool" where
  "is_unstake M_unstake_all = True"
| "is_unstake (M_unstake _) = True"
| "is_unstake _ = False"

lemmas pool_method_defs = ping_def deposit_def deposit_and_stake_def withdraw_all_def withdraw_def
  stake_all_def stake_def unstake_all_def unstake_def on_stake_action_def update_staking_key_def
  update_reward_fee_fraction_def vote_pool_def pause_staking_def resume_staking_def

lemma pool_exec_cases:
  assumes "pool_exec e m s = Inr (s', ps)"
  obtains (unchanged) "s' = s"
  | (pinged) b s1 where "internal_ping e s = Inr (b, s1)" and "pool_op e (is_unstake m) s1 s'"
proof (cases m)
  case M_deposit
  with assms show thesis
    by (auto simp: deposit_def Let_def intro: pinged op_deposit [OF surjective_pairing])
next
  case M_deposit_and_stake
  with assms show thesis
    by (auto simp: deposit_and_stake_def Let_def case_prod_beta
        intro: pinged op_deposit_stake [OF surjective_pairing])
next
  case M_withdraw_all
  with assms show thesis
    by (auto simp: withdraw_all_def Let_def intro: pinged op_withdraw)
next
  case M_stake_all
  with assms show thesis by (auto simp: stake_all_def Let_def intro: pinged op_stake)
next
  case M_unstake_all
  note pinged = pinged [unfolded M_unstake_all is_unstake.simps]
  from M_unstake_all assms show thesis
    by (auto simp: unstake_all_def Let_def intro: pinged op_unstake)
next
  case (M_unstake a)
  note pinged = pinged [unfolded M_unstake is_unstake.simps]
  from M_unstake assms show thesis
    by (auto simp: unstake_def Let_def intro: pinged op_unstake)
qed (use assms in \<open>auto simp: ping_def withdraw_def stake_def on_stake_action_def Let_def
      update_staking_key_def update_reward_fee_fraction_def vote_pool_def pause_staking_def
      resume_staking_def intro: unchanged pinged pool_op.intros\<close>)

subsection \<open>Bounds under which the saturating additions are exact\<close>

definition ample :: "host \<Rightarrow> staking_contract \<Rightarrow> bool" where
  "ample e s \<longleftrightarrow> fits 128
     (total_staked_balance s + env_account_locked_balance e + env_account_balance e
      + env_attached_deposit e + unstaked (internal_get_account s (env_predecessor_account_id e)) + 1)"

lemma balance_seen_le: "balance_seen e \<le> env_account_locked_balance e + env_account_balance e"
  using sat_add_le [of 128 "env_account_locked_balance e" "env_account_balance e"]
  by (simp add: balance_seen_def)

definition epoch_reward :: "host \<Rightarrow> staking_contract \<Rightarrow> nat" where
  "epoch_reward e s =
     (if last_epoch_height s = env_epoch_height e then 0 else balance_seen e - last_total_balance s)"

text \<open>A ping adds exactly the reward of the epoch to the staked balance.\<close>

lemma ping_staked_balance:
  assumes p: "internal_ping e s = Inr (b, s')" and v: "valid_fee (reward_fee s)"
    and amp: "fits 128 (total_staked_balance s + env_account_locked_balance e + env_account_balance e)"
  shows "total_staked_balance s' = total_staked_balance s + epoch_reward e s"
  using p
proof (cases rule: internal_pingE)
  case (reward t)
  let ?w = "balance_seen e - last_total_balance s"
  from reward(4) obtain f n where f: "multiply (reward_fee s) ?w = Inr f"
    and t: "t = rewarded ?w f n (s\<lparr>last_epoch_height := env_epoch_height e\<rparr>)"
    by (rule distribute_rewardE) simp
  have "f \<le> ?w" using multiply_le [OF v f] .
  moreover have "fits 128 (total_staked_balance s + ?w)"
    by (rule fits_mono [OF amp]) (use balance_seen_le [of e] in linarith)
  ultimately show ?thesis
    using reward t by (simp add: epoch_reward_def fits_mono [of 128 "total_staked_balance s + ?w"])
qed (simp_all add: epoch_reward_def)

lemma rewarded_price:
  assumes n: "num_shares_from_staked_amount_rounded_down
      (s\<lparr>total_staked_balance := sat_add 128 (total_staked_balance s) (w - f)\<rparr>) f = Inr n"
    and amp: "fits 128 (total_staked_balance s + (w - f) + f)"
  shows "price_le s (rewarded w f n s)"
proof -
  let ?T = "total_staked_balance s" and ?S = "total_stake_shares s"
  have T1: "sat_add 128 ?T (w - f) = ?T + (w - f)"
    by (rule sat_add_exact) (rule fits_mono [OF amp], simp)
  have "n * (?T + (w - f)) \<le> ?S * f" using shares_of.down_law [OF n] T1 by simp
  then have "?T * n \<le> (w - f + f) * ?S"
    by (simp add: algebra_simps)
  then have price: "?T * (?S + n) \<le> (?T + (w - f + f)) * ?S" by (rule price_buy)
  have "?T * total_stake_shares (rewarded w f n s) \<le> ?T * (?S + n)"
    using sat_add_le [of 128 ?S n] by (auto intro: mult_le_mono2)
  then have "?T * total_stake_shares (rewarded w f n s) \<le> (?T + (w - f + f)) * ?S"
    using price by (rule le_trans)
  moreover have "total_staked_balance (rewarded w f n s) = ?T + (w - f + f)"
    using T1 amp by (simp add: add.assoc)
  ultimately show ?thesis unfolding price_le_def by simp
qed

lemma ping_price:
  assumes p: "internal_ping e s = Inr (b, s')" and v: "valid_fee (reward_fee s)"
    and amp: "fits 128 (total_staked_balance s + env_account_locked_balance e + env_account_balance e)"
  shows "price_le s s'"
  using p
proof (cases rule: internal_pingE)
  case (reward t)
  let ?w = "balance_seen e - last_total_balance s"
  let ?s = "s\<lparr>last_epoch_height := env_epoch_height e\<rparr>"
  from reward(4) obtain f n where f: "multiply (reward_fee ?s) ?w = Inr f"
    and n: "num_shares_from_staked_amount_rounded_down
        (?s\<lparr>total_staked_balance := sat_add 128 (total_staked_balance ?s) (?w - f)\<rparr>) f = Inr n"
    and t: "t = rewarded ?w f n ?s" by (rule distribute_rewardE)
  have "f \<le> ?w" using multiply_le [OF _ f] v by simp
  then have "fits 128 (total_staked_balance ?s + (?w - f) + f)"
    by (intro fits_mono [OF amp]) (use balance_seen_le [of e] in auto)
  then have "price_le ?s t" unfolding t by (rule rewarded_price [OF n])
  with reward show ?thesis by (simp add: price_le_def)
qed (simp_all add: price_le_same)

lemma stake_price:
  assumes st: "internal_stake e amount s = Inr s'"
    and amp: "fits 128 (total_staked_balance s
      + unstaked (internal_get_account s (env_predecessor_account_id e)) + 1)"
  shows "price_le s s'"
  using st
proof (cases rule: internal_stakeE)
  case (1 n c u)
  let ?T = "total_staked_balance s" and ?S = "total_stake_shares s"
  have "u \<le> Suc c" by (rule amount_of.up_le_down [OF 1(4) 1(7)])
  then have T': "sat_add 128 ?T u = ?T + u"
    by (intro sat_add_exact fits_mono [OF amp]) (use 1(6) in simp)
  have "?T * n \<le> u * ?S" using amount_of.up_law [OF 1(7)] by simp
  then have "?T * (?S + n) \<le> (?T + u) * ?S" by (rule price_buy)
  moreover have "?T * sat_add 128 ?S n \<le> ?T * (?S + n)"
    by (rule mult_le_mono2 [OF sat_add_le])
  ultimately have "?T * sat_add 128 ?S n \<le> (?T + u) * ?S" by linarith
  then show ?thesis using 1(8) T' by (simp add: price_le_def)
qed

lemma unstake_price:
  assumes st: "inner_unstake e amount s = Inr s'"
  shows "price_le s s'"
  using st
proof (cases rule: inner_unstakeE)
  case (1 n r d)
  have "d * total_stake_shares s \<le> total_staked_balance s * n"
    using amount_of.down_law [OF 1(8)] by simp
  then have "total_staked_balance s * (total_stake_shares s - n)
      \<le> (total_staked_balance s - d) * total_stake_shares s" by (rule price_sell)
  with 1(9) show ?thesis by (simp add: price_le_def)
qed

lemma deposit_totals [simp]:
  "internal_deposit e s = (a, s') \<Longrightarrow> total_staked_balance s' = total_staked_balance s"
  "internal_deposit e s = (a, s') \<Longrightarrow> total_stake_shares s' = total_stake_shares s"
  by (auto elim!: internal_depositE)

lemma withdraw_totals [simp]:
  "internal_withdraw e a s = Inr (s', ps) \<Longrightarrow> total_staked_balance s' = total_staked_balance s"
  "internal_withdraw e a s = Inr (s', ps) \<Longrightarrow> total_stake_shares s' = total_stake_shares s"
  by (auto elim!: internal_withdrawE)

lemma ping_shares_mono:
  assumes "internal_ping e s = Inr (b, s')" and "0 < total_stake_shares s"
  shows "0 < total_stake_shares s'"
  using assms(1)
  by (cases rule: internal_pingE)
     (use assms(2) in \<open>auto elim!: distribute_rewardE simp: sat_add_pos\<close>)

lemma ping_unstaked:
  assumes "internal_ping e s = Inr (b, s')"
  shows "unstaked (internal_get_account s' a) = unstaked (internal_get_account s a)"
  using assms
  by (cases rule: internal_pingE) (auto elim!: distribute_rewardE simp: rewarded_account)

lemma op_price:
  assumes op: "pool_op e u s s'"
    and amp: "fits 128 (total_staked_balance s + env_attached_deposit e
      + unstaked (internal_get_account s (env_predecessor_account_id e)) + 1)"
  shows "price_le s s'"
  using op
proof cases
  case (op_deposit_stake a s1)
  let ?p = "env_predecessor_account_id e"
  from op_deposit_stake(1) have "unstaked (internal_get_account s1 ?p)
      \<le> unstaked (internal_get_account s ?p) + env_attached_deposit e"
    by (auto elim!: internal_depositE simp: pool_store.get_save sat_add_le)
  with op_deposit_stake(1)
  have "fits 128 (total_staked_balance s1 + unstaked (internal_get_account s1 ?p) + 1)"
    by (intro fits_mono [OF amp]) auto
  with op_deposit_stake(2) have "price_le s1 s'" by (rule stake_price)
  with op_deposit_stake(1) show ?thesis by (simp add: price_le_def)
next
  case (op_stake a)
  show ?thesis by (rule stake_price [OF op_stake fits_mono [OF amp]]) simp
qed (auto intro: price_le_same unstake_price)

subsection \<open>Frame facts of the operations\<close>

lemma op_fee_ok:
  assumes "pool_op e u s s'" and "valid_fee (reward_fee s)"
  shows "valid_fee (reward_fee s')"
  using assms
  by cases (auto elim!: internal_depositE internal_withdrawE internal_stakeE inner_unstakeE)

lemma ping_config:
  assumes "internal_ping e s = Inr (b, s')"
  shows "owner_id s' = owner_id s" and "reward_fee s' = reward_fee s"
    and "paused s' = paused s" and "stake_public_key s' = stake_public_key s"
  using assms
  by (auto elim!: internal_pingE distribute_rewardE)

lemma exec_fee_ok:
  assumes "pool_exec e m s = Inr (s', ps)" and "valid_fee (reward_fee s)"
  shows "valid_fee (reward_fee s')"
  using assms(1)
  by (cases rule: pool_exec_cases) (use assms(2) op_fee_ok ping_config(2) in auto)

text \<open>The steps of the pool, and the invariant of the fee over all of them.\<close>

inductive pool_step :: "staking_contract \<Rightarrow> staking_contract \<Rightarrow> bool" where
  pool_call: "pool_exec e m s = Inr (s', ps) \<Longrightarrow> pool_step s s'"

inductive_cases pool_stepE: "pool_step s s'"

definition pool_init :: "staking_contract \<Rightarrow> bool" where
  "pool_init s \<longleftrightarrow> (\<exists>e owner pk fee ps. new_pool e owner pk fee = Inr (s, ps))"

interpretation fee_inv: inductive_invariant pool_step "\<lambda>s. valid_fee (reward_fee s)" pool_init
  by unfold_locales
    (auto simp: pool_init_def new_pool_def Let_def elim!: pool_stepE intro: exec_fee_ok)

subsection \<open>Shares: who owns them\<close>

text \<open>
  \<open>owned_shares s\<close> is the number of shares of all accounts together. The difference to
  \<open>total_stake_shares s\<close> are the shares of the initial stake, which nobody can unstake.
\<close>

definition owned_shares :: "staking_contract \<Rightarrow> nat" where
  "owned_shares s = total_of stake_shares s"

definition accounted :: "staking_contract \<Rightarrow> bool" where
  "accounted s \<longleftrightarrow> finite (dom (accounts s)) \<and> owned_shares s \<le> total_stake_shares s"

definition same_unowned :: "staking_contract \<Rightarrow> staking_contract \<Rightarrow> bool" where
  "same_unowned s t \<longleftrightarrow> finite (dom (accounts t)) \<and>
     total_stake_shares t + owned_shares s = total_stake_shares s + owned_shares t"

lemma same_unowned_accounted: "same_unowned s t \<Longrightarrow> accounted s \<Longrightarrow> accounted t"
  by (simp add: same_unowned_def accounted_def)

lemma owned_save:
  "finite (dom (accounts s)) \<Longrightarrow>
   owned_shares (internal_save_account s a acc) + stake_shares (internal_get_account s a)
     = owned_shares s + stake_shares acc"
  unfolding owned_shares_def by (rule total_of_save) (simp_all add: default_account_def)

lemma shares_le_owned: "finite (dom (accounts s)) \<Longrightarrow> stake_shares (internal_get_account s a) \<le> owned_shares s"
  unfolding owned_shares_def by (rule account_le_total) (simp_all add: default_account_def)

lemma owned_upd [simp]:
  "owned_shares (s\<lparr>last_total_balance := x\<rparr>) = owned_shares s"
  "owned_shares (s\<lparr>last_epoch_height := x\<rparr>) = owned_shares s"
  "owned_shares (s\<lparr>total_staked_balance := x\<rparr>) = owned_shares s"
  "owned_shares (s\<lparr>total_stake_shares := x\<rparr>) = owned_shares s"
  "owned_shares (s\<lparr>reward_fee := r\<rparr>) = owned_shares s"
  "owned_shares (s\<lparr>stake_public_key := k\<rparr>) = owned_shares s"
  "owned_shares (s\<lparr>paused := b\<rparr>) = owned_shares s"
  by (simp_all add: owned_shares_def)

text \<open>Minting \<open>n\<close> shares to one account and to the total keeps the difference.\<close>

lemma mint_same_unowned:
  assumes acc: "accounted s" and fit: "fits 128 (total_stake_shares s + n)"
    and sh: "stake_shares acc = sat_add 128 (stake_shares (internal_get_account s a)) n"
    and t: "accounts t = accounts (internal_save_account s a acc)"
    and S: "total_stake_shares t = total_stake_shares s + n"
  shows "same_unowned s t"
proof -
  have fin: "finite (dom (accounts s))" using acc by (simp add: accounted_def)
  have "stake_shares (internal_get_account s a) \<le> total_stake_shares s"
    using shares_le_owned [OF fin, of a] acc by (simp add: accounted_def)
  then have "stake_shares acc = stake_shares (internal_get_account s a) + n"
    unfolding sh by (intro sat_add_exact fits_mono [OF fit]) simp
  moreover have "owned_shares t = owned_shares (internal_save_account s a acc)"
    using t by (simp add: owned_shares_def total_of_def)
  ultimately show ?thesis
    using owned_save [OF fin, of a acc] S t fin by (simp add: same_unowned_def)
qed

lemma sat_add_unsaturated: "sat_add w a n < max_of w \<Longrightarrow> fits w (a + n)"
  by (simp add: sat_add_def fits_iff min_def split: if_splits)

lemma stake_same_unowned:
  assumes st: "internal_stake e amount s = Inr s'" and acc: "accounted s"
    and unsat: "total_stake_shares s' < max_of 128"
  shows "same_unowned s s'"
  using st
proof (cases rule: internal_stakeE)
  case (1 n c u)
  then have "fits 128 (total_stake_shares s + n)" using unsat by (auto dest: sat_add_unsaturated)
  with 1 show ?thesis by (intro mint_same_unowned [OF acc]) auto
qed

lemma reprice_same_unowned:
  assumes "accounted s"
    and "stake_shares acc = stake_shares (internal_get_account s a)"
    and "accounts t = accounts (internal_save_account s a acc)"
    and "total_stake_shares t = total_stake_shares s"
  shows "same_unowned s t"
proof -
  have fin: "finite (dom (accounts s))" using assms(1) by (simp add: accounted_def)
  have "owned_shares t = owned_shares (internal_save_account s a acc)"
    using assms(3) by (simp add: owned_shares_def total_of_def)
  then show ?thesis using owned_save [OF fin, of a acc] assms fin by (simp add: same_unowned_def)
qed

lemma deposit_same_unowned:
  "internal_deposit e s = (a, s') \<Longrightarrow> accounted s \<Longrightarrow> same_unowned s s'"
  by (erule internal_depositE, rule reprice_same_unowned) auto

lemma withdraw_same_unowned:
  "internal_withdraw e a s = Inr (s', ps) \<Longrightarrow> accounted s \<Longrightarrow> same_unowned s s'"
  by (erule internal_withdrawE, rule reprice_same_unowned) auto

lemma same_unowned_trans: "same_unowned s t \<Longrightarrow> same_unowned t u \<Longrightarrow> same_unowned s u"
  by (simp add: same_unowned_def)

lemma same_unowned_upd:
  "accounted s \<Longrightarrow> accounts t = accounts s \<Longrightarrow> total_stake_shares t = total_stake_shares s \<Longrightarrow>
   same_unowned s t"
  by (simp add: same_unowned_def accounted_def owned_shares_def total_of_def)

lemma op_same_unowned:
  assumes "pool_op e False s s'" and "accounted s" and "total_stake_shares s' < max_of 128"
  shows "same_unowned s s'"
  using assms(1)
proof cases
  case (op_deposit_stake a s1)
  note d = deposit_same_unowned [OF op_deposit_stake(1) assms(2)]
  from op_deposit_stake(2) same_unowned_accounted [OF d assms(2)] assms(3)
  have "same_unowned s1 s'" by (rule stake_same_unowned)
  with d show ?thesis by (rule same_unowned_trans)
qed (use assms in \<open>auto intro: deposit_same_unowned withdraw_same_unowned stake_same_unowned
       same_unowned_upd\<close>)

lemma op_shares_mono:
  assumes "pool_op e False s s'" and "fits 128 (total_stake_shares s)"
  shows "total_stake_shares s \<le> total_stake_shares s'"
  using assms by cases (auto elim!: internal_stakeE simp: sat_add_ge)

lemma ping_same_unowned:
  assumes p: "internal_ping e s = Inr (b, s')" and acc: "accounted s"
    and unsat: "total_stake_shares s' < max_of 128"
  shows "same_unowned s s'"
  using p
proof (cases rule: internal_pingE)
  case (reward t)
  let ?w = "balance_seen e - last_total_balance s"
  let ?s = "s\<lparr>last_epoch_height := env_epoch_height e\<rparr>"
  from reward(4) obtain f n where t: "t = rewarded ?w f n ?s" by (rule distribute_rewardE)
  show ?thesis
  proof (cases "0 < n")
    case True
    then have "fits 128 (total_stake_shares s + n)"
      using unsat reward t by (auto dest: sat_add_unsaturated)
    with True reward t show ?thesis
      by (intro mint_same_unowned [OF acc, where a = "owner_id s" and n = n and
            acc = "internal_get_account s (owner_id s)
              \<lparr>stake_shares := sat_add 128 (stake_shares (internal_get_account s (owner_id s))) n\<rparr>"])
         (auto simp: rewarded_def Let_def internal_save_account_def)
  next
    case False
    with reward t acc show ?thesis by (intro same_unowned_upd) (auto simp: rewarded_def)
  qed
qed (use acc in \<open>auto intro: same_unowned_upd\<close>)

lemma exec_same_unowned:
  assumes ex: "pool_exec e m s = Inr (s', ps)" and m: "\<not> is_unstake m" and acc: "accounted s"
    and unsat: "total_stake_shares s' < max_of 128" and fit: "fits 128 (total_stake_shares s)"
  shows "same_unowned s s'"
  using ex
proof (cases rule: pool_exec_cases)
  case unchanged
  with acc show ?thesis by (auto intro: same_unowned_upd)
next
  case (pinged b s1)
  have "fits 128 (total_stake_shares s1)"
    using pinged(1) by (cases rule: internal_pingE)
      (use fit in \<open>auto elim!: distribute_rewardE simp: sat_add_fits\<close>)
  with pinged(2) m have "total_stake_shares s1 \<le> total_stake_shares s'"
    by (intro op_shares_mono) auto
  with unsat have s1: "same_unowned s s1" by (intro ping_same_unowned [OF pinged(1) acc]) auto
  with pinged(2) m unsat acc have "same_unowned s1 s'"
    by (intro op_same_unowned) (auto intro: same_unowned_accounted)
  with s1 show ?thesis by (rule same_unowned_trans)
qed

subsection \<open>The unlock epoch\<close>

definition locked_until :: "nat \<Rightarrow> account_id \<Rightarrow> staking_contract \<Rightarrow> bool" where
  "locked_until h a s \<longleftrightarrow> is_open (internal_get_account s a) \<and>
     h \<le> unstaked_available_epoch_height (internal_get_account s a)"

lemma locked_until_upd [simp]:
  "locked_until h a (s\<lparr>stake_public_key := k\<rparr>) = locked_until h a s"
  "locked_until h a (s\<lparr>reward_fee := f\<rparr>) = locked_until h a s"
  "locked_until h a (s\<lparr>paused := b\<rparr>) = locked_until h a s"
  by (simp_all add: locked_until_def)

lemma is_open_grow [simp]:
  "0 < n \<Longrightarrow> is_open (acc\<lparr>stake_shares := sat_add 128 k n\<rparr>)"
  "0 < n \<Longrightarrow> is_open (acc\<lparr>stake_shares := sat_add 128 k n, unstaked := x\<rparr>)"
  "0 < n \<Longrightarrow> is_open (acc\<lparr>unstaked := x, stake_shares := sat_add 128 k n\<rparr>)"
  "0 < n \<Longrightarrow> is_open (acc\<lparr>stake_shares := sat_add 128 k n, unstaked := x,
                           unstaked_available_epoch_height := h\<rparr>)"
  using sat_add_pos [of n 128 k] by (simp_all add: is_open_def)

lemma sat_add_pos_left: "0 < a \<Longrightarrow> 0 < w \<Longrightarrow> 0 < sat_add w a b"
  using sat_add_pos [of a w b] by (simp add: sat_add_def add.commute)

lemma is_open_deposit [simp]: "is_open acc \<Longrightarrow> is_open (acc\<lparr>unstaked := sat_add 128 (unstaked acc) d\<rparr>)"
  using sat_add_pos_left [of "unstaked acc" 128 d] by (auto simp: is_open_def)

lemma ping_locked:
  assumes "internal_ping e s = Inr (b, s')" and "locked_until h a s"
  shows "locked_until h a s'"
  using assms(1)
  by (cases rule: internal_pingE)
     (use assms(2) in \<open>auto elim!: distribute_rewardE simp: locked_until_def rewarded_account\<close>)

lemma stake_locked:
  assumes "internal_stake e x s = Inr s'" and "locked_until h a s"
  shows "locked_until h a s'"
  using assms(1)
  by (cases rule: internal_stakeE)
     (use assms(2) in \<open>auto simp: locked_until_def pool_store.get_save\<close>)

lemma deposit_locked:
  "internal_deposit e s = (x, s') \<Longrightarrow> locked_until h a s \<Longrightarrow> locked_until h a s'"
  by (auto elim!: internal_depositE simp: locked_until_def pool_store.get_save)

lemma op_locked:
  assumes "pool_op e u s s'" and lock: "locked_until h a s"
    and now: "env_epoch_height e < h" "h \<le> env_epoch_height e + NUM_EPOCHS_TO_UNLOCK"
  shows "locked_until h a s'"
  using assms(1)
proof cases
  case (op_withdraw x ps)
  then show ?thesis
    using lock now
    by (auto elim!: internal_withdrawE simp: locked_until_def pool_store.get_save)
next
  case (op_unstake x)
  from op_unstake(2) show ?thesis
    by (cases rule: inner_unstakeE)
       (use lock now in \<open>auto simp: locked_until_def pool_store.get_save\<close>)
qed (use lock in \<open>auto intro: stake_locked deposit_locked\<close>)

lemma exec_locked:
  assumes "pool_exec e m s = Inr (s', ps)" and "locked_until h a s"
    and "env_epoch_height e < h" "h \<le> env_epoch_height e + NUM_EPOCHS_TO_UNLOCK"
  shows "locked_until h a s'"
  using assms(1)
  by (cases rule: pool_exec_cases) (use assms(2-) in \<open>auto intro: op_locked ping_locked\<close>)

text \<open>
  The steps taken while the epoch is one of the four that start with \<open>e0\<close>, and the lock as a
  stable property of them.
\<close>

inductive pool_step_in :: "nat \<Rightarrow> staking_contract \<Rightarrow> staking_contract \<Rightarrow> bool" for e0 :: nat where
  in_window: "pool_exec e m s = Inr (s', ps) \<Longrightarrow> e0 \<le> env_epoch_height e \<Longrightarrow>
    env_epoch_height e < e0 + NUM_EPOCHS_TO_UNLOCK \<Longrightarrow> pool_step_in e0 s s'"

inductive_cases pool_step_inE: "pool_step_in e0 s s'"

interpretation lock: stable_property "pool_step_in e0" "locked_until (e0 + NUM_EPOCHS_TO_UNLOCK) a"
  for e0 a
  by unfold_locales (auto elim!: pool_step_inE intro: exec_locked)

lemma locked_no_withdraw:
  assumes "locked_until h a s" and "env_predecessor_account_id e = a" and "env_epoch_height e < h"
  shows "internal_withdraw e x s \<noteq> Inr r"
  using assms by (cases r) (auto simp: locked_until_def elim!: internal_withdrawE)

lemma unstake_locks:
  assumes "unstake e x s = Inr (s', ps)"
  shows "locked_until (env_epoch_height e + NUM_EPOCHS_TO_UNLOCK) (env_predecessor_account_id e) s'"
proof -
  from assms obtain s1 where "inner_unstake e x s1 = Inr s'" by (auto simp: unstake_def)
  then show ?thesis
    by (cases rule: inner_unstakeE) (auto simp: locked_until_def pool_store.get_save)
qed

subsection \<open>Ownership\<close>

fun is_owner_msg :: "pool_msg \<Rightarrow> bool" where
  "is_owner_msg (M_update_staking_key _) = True"
| "is_owner_msg (M_update_reward_fee_fraction _) = True"
| "is_owner_msg (M_vote _ _) = True"
| "is_owner_msg M_pause_staking = True"
| "is_owner_msg M_resume_staking = True"
| "is_owner_msg _ = False"

definition same_config :: "staking_contract \<Rightarrow> staking_contract \<Rightarrow> bool" where
  "same_config s t \<longleftrightarrow> owner_id t = owner_id s \<and> stake_public_key t = stake_public_key s \<and>
     reward_fee t = reward_fee s \<and> paused t = paused s"

lemma ping_same_config: "internal_ping e s = Inr (b, s') \<Longrightarrow> same_config s s'"
  using ping_config [of e s b s'] by (simp add: same_config_def)

lemma prim_same_config:
  "internal_deposit e s = (a, s') \<Longrightarrow> same_config s s'"
  "internal_withdraw e a s = Inr (s', ps) \<Longrightarrow> same_config s s'"
  "internal_stake e a s = Inr s' \<Longrightarrow> same_config s s'"
  "inner_unstake e a s = Inr s' \<Longrightarrow> same_config s s'"
  by (auto simp: same_config_def
      elim!: internal_depositE internal_withdrawE internal_stakeE inner_unstakeE)

lemma same_config_trans: "same_config s t \<Longrightarrow> same_config t u \<Longrightarrow> same_config s u"
  by (simp add: same_config_def)

lemma same_config_refl [simp]: "same_config s s"
  by (simp add: same_config_def)

lemma deposit_config [simp]:
  "owner_id (snd (internal_deposit e s)) = owner_id s"
  "stake_public_key (snd (internal_deposit e s)) = stake_public_key s"
  "reward_fee (snd (internal_deposit e s)) = reward_fee s"
  "paused (snd (internal_deposit e s)) = paused s"
  by (simp_all add: internal_deposit_def Let_def)

lemma exec_same_config:
  assumes ex: "pool_exec e m s = Inr (s', ps)" and m: "\<not> is_owner_msg m"
  shows "same_config s s'"
  using ex m
  by (cases m)
     (auto simp: ping_def deposit_def deposit_and_stake_def withdraw_def withdraw_all_def stake_def
        stake_all_def unstake_def unstake_all_def on_stake_action_def Let_def case_prod_beta
        dest!: ping_same_config dest: prim_same_config(2-4) simp: same_config_def)

lemma owner_msg_denied:
  "is_owner_msg m \<Longrightarrow> env_predecessor_account_id e \<noteq> owner_id s \<Longrightarrow>
   pool_exec e m s = Inl (Panic ''Can only be called by the owner'')"
  by (cases m)
     (auto simp: assert_owner_def update_staking_key_def update_reward_fee_fraction_def
       vote_pool_def pause_staking_def resume_staking_def)

subsection \<open>Unstaking right after staking\<close>

lemma ceil_div_le: "0 < (d::nat) \<Longrightarrow> x \<le> n * d \<Longrightarrow> (x + d - Suc 0) div d \<le> n"
proof -
  assume d: "0 < d" and x: "x \<le> n * d"
  have "x + d - Suc 0 < Suc n * d" using d x by auto
  then have "(x + d - Suc 0) div d < Suc n" by (simp add: less_mult_imp_div_less)
  then show ?thesis by simp
qed

lemma ceil_div_pos: "0 < (d::nat) \<Longrightarrow> 0 < x \<Longrightarrow> 0 < (x + d - Suc 0) div d"
  by (simp add: div_greater_zero_iff)

lemma shares_up_Inr:
  assumes "0 < total_staked_balance s" and "total_stake_shares s * c \<le> n * total_staked_balance s"
    and "fits 128 n"
  obtains k where "num_shares_from_staked_amount_rounded_up s c = Inr k" and "k \<le> n"
proof -
  have "(total_stake_shares s * c + total_staked_balance s - Suc 0) div total_staked_balance s \<le> n"
    using assms(1,2) by (rule ceil_div_le)
  with assms show thesis
    by (intro that) (auto simp: num_shares_from_staked_amount_rounded_up_def intro: fits_mono)
qed

lemma amount_conversions_Inr:
  assumes "0 < total_stake_shares s" and "k \<le> total_stake_shares s"
    and "fits 128 (total_staked_balance s)"
  obtains r d where "staked_amount_from_num_shares_rounded_up s k = Inr r"
    and "staked_amount_from_num_shares_rounded_down s k = Inr d"
proof -
  let ?T = "total_staked_balance s" and ?S = "total_stake_shares s"
  have "?T * k \<le> ?T * ?S" using assms(2) by simp
  then have "(?T * k + ?S - Suc 0) div ?S \<le> ?T" and "?T * k div ?S \<le> ?T"
    using assms(1) by (auto intro: ceil_div_le order_trans [OF div_le_mono, of _ "?T * ?S"])
  with assms show thesis
    by (intro that) (auto simp: staked_amount_from_num_shares_rounded_up_def
        staked_amount_from_num_shares_rounded_down_def intro: fits_mono)
qed

text \<open>The guards of \<open>inner_unstake\<close> are met as soon as the account holds shares worth the amount.\<close>

lemma inner_unstake_returns:
  fixes e s
  defines "acc \<equiv> internal_get_account s (env_predecessor_account_id e)"
  assumes pos: "0 < c" "0 < total_staked_balance s" "0 < total_stake_shares s"
    and enough: "total_stake_shares s * c \<le> n * total_staked_balance s"
    and n: "n \<le> stake_shares acc" "n \<le> total_stake_shares s" "fits 128 n"
    and fit: "fits 128 (total_staked_balance s)" "fits 64 (env_epoch_height e + NUM_EPOCHS_TO_UNLOCK)"
  shows "returns (inner_unstake e c s)"
proof -
  let ?a = "env_predecessor_account_id e"
  obtain k where k: "num_shares_from_staked_amount_rounded_up s c = Inr k" "k \<le> n"
    using shares_up_Inr [OF pos(2) enough n(3)] .
  obtain r d where r: "staked_amount_from_num_shares_rounded_up s k = Inr r"
    and d: "staked_amount_from_num_shares_rounded_down s k = Inr d"
    using amount_conversions_Inr [OF pos(3) _ fit(1), of k] k(2) n(2) by auto
  have k0: "0 < k" using k(1) pos
    by (auto simp: num_shares_from_staked_amount_rounded_up_def intro: ceil_div_pos)
  have r0: "0 < r" using r pos(2,3) k0
    by (auto simp: staked_amount_from_num_shares_rounded_up_def intro: ceil_div_pos)
  have down: "staked_amount_from_num_shares_rounded_down (internal_save_account s ?a x)
        = staked_amount_from_num_shares_rounded_down s" for x
    by (rule conversions_cong) simp_all
  show ?thesis
    using pos k k0 r r0 d n fit
    by (simp add: inner_unstake_def Let_def down returns_bindE acc_def)
qed

lemma stake_unstake_returns:
  assumes st: "internal_stake e amount s = Inr s'"
    and c: "num_shares_from_staked_amount_rounded_down s amount = Inr n"
      "staked_amount_from_num_shares_rounded_down s n = Inr c"
    and amp: "fits 128 (total_staked_balance s
      + unstaked (internal_get_account s (env_predecessor_account_id e)) + 1)"
    and e': "env_predecessor_account_id e' = env_predecessor_account_id e"
      "fits 64 (env_epoch_height e' + NUM_EPOCHS_TO_UNLOCK)"
  shows "returns (inner_unstake e' c s')"
  using st
proof (cases rule: internal_stakeE)
  case (1 n' c' u)
  let ?T = "total_staked_balance s" and ?S = "total_stake_shares s"
  have eqs: "n' = n" "c' = c" using 1 c by auto
  note st = 1 [unfolded eqs]
  have fn: "fits 128 n" using c(1) by (auto simp: num_shares_from_staked_amount_rounded_down_def)
  have cu: "c \<le> u" "u \<le> Suc c"
    using amount_of.down_le_up [OF st(4,7)] amount_of.up_le_down [OF st(4,7)] by auto
  have fT: "fits 128 (?T + u)" using amp by (rule fits_mono) (use cu st(6) in simp)
  have S': "sat_add 128 ?S n \<le> ?S + n" "n \<le> sat_add 128 ?S n" "n \<le> sat_add 128 k n" for k
    using fn by (auto simp: sat_add_def fits_iff)
  have "sat_add 128 ?S n * c \<le> (?S + n) * c" using S'(1) by (rule mult_le_mono1)
  also have "\<dots> = c * ?S + n * c" by (simp add: algebra_simps)
  also have "\<dots> \<le> ?T * n + n * u"
    using amount_of.down_law [OF st(4)] cu(1) by (intro add_mono mult_le_mono2) auto
  also have "\<dots> = n * (?T + u)" by (simp add: algebra_simps)
  finally have enough: "sat_add 128 ?S n * c \<le> n * (?T + u)" .
  have "0 < ?T" using shares_of.down_total [OF st(2)] .
  then show ?thesis
    using st fT e' fn enough S'(2) S'(3)
    by (intro inner_unstake_returns [where n = n])
       (auto simp: pool_store.get_save sat_add_pos)
qed

subsection \<open>The guarantee fund\<close>

text \<open>What rounding costs the pool: the staked tokens and the account's unstaked tokens together
  change by at most one atto when the account stakes or unstakes.\<close>

lemma stake_drift:
  assumes st: "internal_stake e amount s = Inr s'"
    and amp: "fits 128 (total_staked_balance s
      + unstaked (internal_get_account s (env_predecessor_account_id e)) + 1)"
  shows "\<exists>\<delta> \<le> 1. total_staked_balance s' + unstaked (internal_get_account s' (env_predecessor_account_id e))
     = total_staked_balance s + unstaked (internal_get_account s (env_predecessor_account_id e)) + \<delta>"
  using st
proof (cases rule: internal_stakeE)
  case (1 n c u)
  have cu: "c \<le> u" "u \<le> Suc c"
    using amount_of.down_le_up [OF 1(4,7)] amount_of.up_le_down [OF 1(4,7)] by auto
  have "fits 128 (total_staked_balance s + u)" using amp by (rule fits_mono) (use cu 1(6) in simp)
  with 1 cu show ?thesis
    by (intro exI [where x = "u - c"]) (auto simp: pool_store.get_save)
qed

lemma unstake_drift:
  fixes e
  defines "a \<equiv> env_predecessor_account_id e"
  assumes st: "inner_unstake e amount s = Inr s'"
    and own: "stake_shares (internal_get_account s a) \<le> total_stake_shares s"
    and amp: "fits 128 (unstaked (internal_get_account s a) + total_staked_balance s + 1)"
  shows "\<exists>\<delta> \<le> 1. total_staked_balance s' + unstaked (internal_get_account s' a)
     = total_staked_balance s + unstaked (internal_get_account s a) + \<delta>"
  using st
proof (cases rule: inner_unstakeE)
  case (1 n r d)
  let ?T = "total_staked_balance s" and ?S = "total_stake_shares s"
  have S: "0 < ?S" using amount_of.down_total [OF 1(8)] .
  have dr: "d \<le> r" "r \<le> Suc d"
    using amount_of.down_le_up [OF 1(8,6)] amount_of.up_le_down [OF 1(8,6)] by auto
  have "d * ?S \<le> ?T * n" using amount_of.down_law [OF 1(8)] by simp
  also have "\<dots> \<le> ?T * ?S" using 1(5) own by (intro mult_le_mono2) (simp add: a_def)
  finally have dT: "d \<le> ?T" using S by simp
  have "fits 128 (unstaked (internal_get_account s a) + r)"
    using amp by (rule fits_mono) (use dr dT in simp)
  with 1 dr dT show ?thesis
    by (intro exI [where x = "r - d"]) (auto simp: pool_store.get_save a_def)
qed

end
