(* ===== verification/StakingPoolTheorems.thy ===== *)
theory StakingPoolTheorems
  imports StakingPoolProofs
begin

section \<open>Properties of the staking pool\<close>

text \<open>
  The properties of the staking pool contract, each with an instance at a concrete pool:
  \<open>sample_pool\<close> has 1500 tokens staked for 1000 shares, of which \<open>alice\<close> holds 10 besides 100
  unstaked tokens.
\<close>

definition sample_pool :: staking_contract where
  "sample_pool = \<lparr>
     owner_id = ''owner'',
     stake_public_key = ''key'',
     last_epoch_height = 0,
     last_total_balance = 1700,
     total_stake_shares = 1000,
     total_staked_balance = 1500,
     reward_fee = \<lparr>numerator = 1, denominator = 10\<rparr>,
     accounts = [''alice'' \<mapsto> \<lparr>unstaked = 100, stake_shares = 10, unstaked_available_epoch_height = 0\<rparr>],
     paused = False\<rparr>"

lemmas pool_eval = sample_pool_def internal_ping_def internal_stake_def inner_unstake_def
  internal_withdraw_def internal_deposit_def internal_get_account_def internal_save_account_def
  num_shares_from_staked_amount_rounded_down_def num_shares_from_staked_amount_rounded_up_def
  staked_amount_from_num_shares_rounded_down_def staked_amount_from_num_shares_rounded_up_def
  distribute_reward_def multiply_def as_u128_def checked_add_def checked_div_def fits_def
  sat_add_def sat_sub_def max_of_def default_account_def NUM_EPOCHS_TO_UNLOCK_def
  internal_restake_def assert_owner_def Let_def

lemma sample_stake:
  "pool_exec sample_host (M_stake 50) sample_pool =
     Inr (sample_pool\<lparr>accounts := [''alice'' \<mapsto>
            \<lparr>unstaked = 51, stake_shares = 43, unstaked_available_epoch_height = 0\<rparr>],
          total_staked_balance := 1550, total_stake_shares := 1033\<rparr>,
       [Then (Promise ''contract'' [Stake 1550 ''key''])
             (Promise ''contract'' [FunctionCall On_stake_action 0 ON_STAKE_ACTION_GAS])])"
  by (simp add: stake_def pool_eval cong: eval_cong)

subsection \<open>Share price\<close>

text \<open>C8. The price of a share never falls: whatever method of the staking pool is called, by
  whomever and in whatever state, the quotient of \<open>total_staked_balance\<close> by \<open>total_stake_shares\<close>
  after an accepted call is at least the one before (compared by cross-multiplication). The
  reward fee is a valid fraction, the pool has shares, and the token amounts in play fit 128 bits
  together, so that no saturating addition saturates.\<close>

theorem share_price_never_decreases:
  assumes "pool_exec e m s = Inr (s', ps)"
    and "valid_fee (reward_fee s)" and "0 < total_stake_shares s" and "ample e s"
  shows "total_staked_balance s * total_stake_shares s'
       \<le> total_staked_balance s' * total_stake_shares s"
proof -
  have amp: "fits 128 (total_staked_balance s + env_account_locked_balance e + env_account_balance e)"
    using assms(4) unfolding ample_def by (rule fits_mono) simp
  from assms(1) have "price_le s s'"
  proof (cases rule: pool_exec_cases)
    case (pinged b s1)
    let ?p = "env_predecessor_account_id e"
    have "total_staked_balance s1
        \<le> total_staked_balance s + env_account_locked_balance e + env_account_balance e"
      using ping_staked_balance [OF pinged(1) assms(2) amp] balance_seen_le [of e]
      by (simp add: epoch_reward_def split: if_splits)
    then have "fits 128 (total_staked_balance s1 + env_attached_deposit e
        + unstaked (internal_get_account s1 ?p) + 1)"
      using assms(4) ping_unstaked [OF pinged(1), of ?p] unfolding ample_def
      by (elim fits_mono) simp
    with pinged(2) have "price_le s1 s'" by (rule op_price)
    with ping_price [OF pinged(1) assms(2) amp] show ?thesis
      using ping_shares_mono [OF pinged(1) assms(3)] by (rule price_le_trans)
  qed simp
  then show ?thesis by (simp add: price_le_def)
qed

theorem share_price_never_decreases_witness:
  "total_staked_balance sample_pool * 1033 \<le> 1550 * total_stake_shares sample_pool"
  using share_price_never_decreases [OF sample_stake]
  by (simp add: sample_pool_def valid_fee_def ample_def fits_def internal_get_account_def)

subsection \<open>Rewards\<close>

text \<open>C23. In a new epoch \<open>ping\<close> distributes exactly the balance gained since the last one: the
  staked balance grows by it, no token is lost in rounding, the recorded total becomes the
  observed balance, the owner's account is the only one whose balances change, and it only gains
  shares.\<close>

theorem ping_distributes_reward:
  assumes "ping e s = Inr (s', ps)" and "last_epoch_height s \<noteq> env_epoch_height e"
    and "valid_fee (reward_fee s)"
    and "fits 128 (total_staked_balance s + env_account_locked_balance e + env_account_balance e)"
  shows "total_staked_balance s' = total_staked_balance s + (balance_seen e - last_total_balance s)
    \<and> last_total_balance s' = balance_seen e
    \<and> last_epoch_height s' = env_epoch_height e
    \<and> (\<forall>a. a \<noteq> owner_id s \<longrightarrow> internal_get_account s' a = internal_get_account s a)
    \<and> unstaked (internal_get_account s' (owner_id s)) = unstaked (internal_get_account s (owner_id s))
    \<and> ps = internal_restake e s'"
proof -
  from assms(1,2) obtain b where p: "internal_ping e s = Inr (b, s')" and b and "ps = internal_restake e s'"
    by (auto simp: ping_def internal_ping_def Let_def)
  moreover have "last_total_balance s' = balance_seen e \<and> last_epoch_height s' = env_epoch_height e
      \<and> (\<forall>a. a \<noteq> owner_id s \<longrightarrow> internal_get_account s' a = internal_get_account s a)"
    using p assms(2)
    by (cases rule: internal_pingE) (auto elim!: distribute_rewardE simp: rewarded_account)
  ultimately show ?thesis
    using ping_staked_balance [OF p assms(3,4)] ping_unstaked [OF p] assms(2)
    by (simp add: epoch_reward_def)
qed

definition rewarded_host :: host where
  "rewarded_host = sample_host\<lparr>env_epoch_height := 1, env_account_balance := 100,
     env_account_locked_balance := 1800\<rparr>"

theorem ping_distributes_reward_witness:
  "\<exists>s' ps. ping rewarded_host sample_pool = Inr (s', ps) \<and> total_staked_balance s' = 1700"
proof -
  have "\<exists>s' ps. ping rewarded_host sample_pool = Inr (s', ps)"
    by (simp add: ping_def pool_eval rewarded_host_def cong: eval_cong)
  then obtain s' ps where p: "ping rewarded_host sample_pool = Inr (s', ps)" by blast
  have "total_staked_balance s' = 1700"
    using ping_distributes_reward [OF p]
    by (simp add: pool_eval rewarded_host_def valid_fee_def balance_seen_def)
  with p show ?thesis by blast
qed

text \<open>Within one epoch \<open>ping\<close> is idempotent: after a call, a second one in the same epoch
  changes nothing and schedules nothing, whatever the balances are by then.\<close>

theorem ping_idempotent:
  assumes "ping e s = Inr (s', ps)" and "env_epoch_height e' = env_epoch_height e"
  shows "ping e' s' = Inr (s', [])"
proof -
  from assms(1) obtain b where "internal_ping e s = Inr (b, s')" by (auto simp: ping_def)
  then have "last_epoch_height s' = env_epoch_height e"
    by (cases rule: internal_pingE) (auto elim!: distribute_rewardE)
  with assms(2) show ?thesis by (simp add: ping_def internal_ping_def)
qed

theorem ping_idempotent_witness:
  "ping sample_host sample_pool = Inr (sample_pool, [])"
  by (rule ping_idempotent [where e = sample_host and s = sample_pool and ps = "[]"])
     (simp_all add: ping_def pool_eval)

subsection \<open>Staking and unstaking\<close>

text \<open>A staker can unstake at least what it was charged: when \<open>internal_stake\<close> accepts an
  amount and charges \<open>c\<close> tokens for it, \<open>inner_unstake\<close> of \<open>c\<close> by the same account in the state
  reached is accepted, so rounding never locks tokens in.\<close>

theorem stake_can_be_unstaked:
  assumes "internal_stake e amount s = Inr s'"
    and "fits 128 (total_staked_balance s
           + unstaked (internal_get_account s (env_predecessor_account_id e)) + 1)"
    and "env_predecessor_account_id e' = env_predecessor_account_id e"
    and "fits 64 (env_epoch_height e' + NUM_EPOCHS_TO_UNLOCK)"
  shows "\<exists>c. 0 < c \<and> c \<le> amount
    \<and> unstaked (internal_get_account s' (env_predecessor_account_id e))
        = unstaked (internal_get_account s (env_predecessor_account_id e)) - c
    \<and> returns (inner_unstake e' c s')"
  using assms(1)
proof (cases rule: internal_stakeE)
  case (1 n c u)
  have c_le: "c \<le> amount" by (rule exchange.round_trip_le [OF 1(2,4)])
  have "returns (inner_unstake e' c s')"
    by (rule stake_unstake_returns [OF assms(1) 1(2,4) assms(2-4)])
  moreover have "unstaked (internal_get_account s' (env_predecessor_account_id e))
      = unstaked (internal_get_account s (env_predecessor_account_id e)) - c"
    using 1(3,8) by (simp add: pool_store.get_save)
  ultimately show ?thesis using 1(5) c_le by blast
qed

theorem stake_can_be_unstaked_witness:
  "\<exists>s'. internal_stake sample_host 50 sample_pool = Inr s'
     \<and> (\<exists>c. 0 < c \<and> returns (inner_unstake sample_host c s'))"
proof -
  have "returns (internal_stake sample_host 50 sample_pool)"
    by (simp add: pool_eval cong: eval_cong)
  then obtain s' where st: "internal_stake sample_host 50 sample_pool = Inr s'"
    by (auto simp: returns_def)
  have "\<exists>c. 0 < c \<and> returns (inner_unstake sample_host c s')"
    using stake_can_be_unstaked [OF st, of sample_host]
    by (auto simp: sample_pool_def internal_get_account_def fits_def NUM_EPOCHS_TO_UNLOCK_def)
  with st show ?thesis by blast
qed

text \<open>The guarantee fund pays at most one atto per operation: when an account stakes, or
  unstakes while its recorded shares do not exceed the pool's, the pool's staked balance and the
  account's unstaked balance together grow by 0 or 1, the rounding difference.\<close>

theorem guarantee_fund_pays_one_atto:
  assumes "internal_stake e amount s = Inr s' \<or>
      inner_unstake e amount s = Inr s' \<and>
      stake_shares (internal_get_account s (env_predecessor_account_id e)) \<le> total_stake_shares s"
    and "fits 128 (total_staked_balance s
           + unstaked (internal_get_account s (env_predecessor_account_id e)) + 1)"
  shows "\<exists>\<delta> \<le> 1.
     total_staked_balance s' + unstaked (internal_get_account s' (env_predecessor_account_id e))
     = total_staked_balance s + unstaked (internal_get_account s (env_predecessor_account_id e)) + \<delta>"
  using assms stake_drift [of e amount s s'] unstake_drift [of e amount s s']
  by (auto simp: add.commute)

theorem guarantee_fund_pays_one_atto_witness:
  "\<exists>s'. internal_stake sample_host 50 sample_pool = Inr s' \<and>
     (\<exists>\<delta> \<le> 1. total_staked_balance s' + unstaked (internal_get_account s' ''alice'') = 1600 + \<delta>)"
proof -
  have "returns (internal_stake sample_host 50 sample_pool)"
    by (simp add: pool_eval cong: eval_cong)
  then obtain s' where st: "internal_stake sample_host 50 sample_pool = Inr s'"
    by (auto simp: returns_def)
  with guarantee_fund_pays_one_atto [OF disjI1, OF st] show ?thesis
    by (simp add: sample_pool_def internal_get_account_def fits_def)
qed

text \<open>Every method but \<open>unstake\<close> and \<open>unstake_all\<close> keeps the books of the shares: the total
  number of shares changes by exactly what the accounts' shares change by, so the shares nobody
  owns (those of the initial stake) stay the same. The total is not saturated at \<open>u128::MAX\<close>.\<close>

theorem shares_accounted:
  assumes "pool_exec e m s = Inr (s', ps)" and "\<not> is_unstake m"
    and "finite (dom (accounts s))" and "owned_shares s \<le> total_stake_shares s"
    and "fits 128 (total_stake_shares s)" and "total_stake_shares s' < max_of 128"
  shows "total_stake_shares s' + owned_shares s = total_stake_shares s + owned_shares s'
    \<and> owned_shares s' \<le> total_stake_shares s'"
  using exec_same_unowned [OF assms(1,2) _ assms(6,5)] assms(3,4)
  by (simp add: accounted_def same_unowned_def)

theorem shares_accounted_witness:
  "1033 + owned_shares sample_pool = 1000 + (43::nat)"
  using shares_accounted [OF sample_stake]
  by (simp add: sample_pool_def owned_shares_def total_of_def msum_def fits_def max_of_def)

text \<open>C39. What \<open>inner_unstake\<close> really does to the shares: the account gets at least the requested
  amount for \<open>n\<close> of its shares, which the pool's total loses, but its own balance of shares
  grows by \<open>n\<close> (saturating) instead of shrinking. So unstaking makes an account richer both in unstaked
  tokens and in shares, which it can unstake again.\<close>

theorem unstake_credits_shares:
  assumes "inner_unstake e amount s = Inr s'"
  shows "\<exists>n r. 0 < n \<and> amount \<le> r \<and> total_stake_shares s' = total_stake_shares s - n
    \<and> stake_shares (internal_get_account s' (env_predecessor_account_id e))
      = sat_add 128 (stake_shares (internal_get_account s (env_predecessor_account_id e))) n
    \<and> unstaked (internal_get_account s' (env_predecessor_account_id e))
      = sat_add 128 (unstaked (internal_get_account s (env_predecessor_account_id e))) r"
  using assms
proof (cases rule: inner_unstakeE)
  case (1 n r d)
  have "0 < total_stake_shares s"
    using 1(6) by (simp add: staked_amount_from_num_shares_rounded_up_def)
  with 1 have "amount \<le> r" using exchange.round_trip_ge by blast
  with 1 show ?thesis by (intro exI [of _ n] exI [of _ r]) (simp add: pool_store.get_save)
qed

definition after_unstake :: "nat \<Rightarrow> nat \<Rightarrow> nat \<Rightarrow> nat \<Rightarrow> staking_contract" where
  "after_unstake u n T S = sample_pool\<lparr>accounts := [''alice'' \<mapsto>
       \<lparr>unstaked = u, stake_shares = n, unstaked_available_epoch_height = 4\<rparr>],
     total_staked_balance := T, total_stake_shares := S\<rparr>"

lemma sample_unstake: "inner_unstake sample_host 15 sample_pool = Inr (after_unstake 115 20 1485 990)"
  by (simp add: pool_eval after_unstake_def cong: eval_cong)

theorem unstake_credits_shares_witness:
  "\<exists>n r. 0 < n \<and> 15 \<le> r \<and> total_stake_shares (after_unstake 115 20 1485 990) = 1000 - n
     \<and> unstaked (internal_get_account (after_unstake 115 20 1485 990) ''alice'') = sat_add 128 100 r"
  using unstake_credits_shares [OF sample_unstake]
  by (auto simp: sample_pool_def internal_get_account_def)

text \<open>
  The consequence on a concrete pool: \<open>alice\<close>, whose 10 shares are worth 15 tokens,
  unstakes these 15 tokens four times in a row and ends with 60 tokens more in her unstaked
  balance and with 50 shares, while the pool's total has 40 shares less than before.\<close>

lemma unstake_drains_pool:
  "bindE (inner_unstake sample_host 15 sample_pool) (\<lambda>s1.
   bindE (inner_unstake sample_host 15 s1) (\<lambda>s2.
   bindE (inner_unstake sample_host 15 s2) (\<lambda>s3.
   inner_unstake sample_host 15 s3))) = Inr (after_unstake 160 50 1440 960)"
proof -
  have "inner_unstake sample_host 15 (after_unstake 115 20 1485 990)
      = Inr (after_unstake 130 30 1470 980)"
    and "inner_unstake sample_host 15 (after_unstake 130 30 1470 980)
      = Inr (after_unstake 145 40 1455 970)"
    and "inner_unstake sample_host 15 (after_unstake 145 40 1455 970)
      = Inr (after_unstake 160 50 1440 960)"
    by (simp_all add: pool_eval after_unstake_def cong: eval_cong)
  with sample_unstake show ?thesis by simp
qed

subsection \<open>Withdrawing\<close>

text \<open>\<open>internal_withdraw\<close> succeeds exactly when the amount is positive, covered by the
  caller's unstaked balance and past its unlock epoch; it then pays the amount to the caller and
  to nobody else, takes it off the caller's unstaked balance and off the recorded total, and
  leaves every other account, the shares and the staked balance alone.\<close>

theorem withdraw_pays_exactly:
  fixes e s
  defines "a \<equiv> env_predecessor_account_id e"
  shows "(returns (internal_withdraw e x s) \<longleftrightarrow>
       0 < x \<and> x \<le> unstaked (internal_get_account s a) \<and>
       unstaked_available_epoch_height (internal_get_account s a) \<le> env_epoch_height e)
    \<and> (\<forall>s' ps. internal_withdraw e x s = Inr (s', ps) \<longrightarrow>
       ps = [Promise a [Transfer x]]
       \<and> unstaked (internal_get_account s' a) = unstaked (internal_get_account s a) - x
       \<and> stake_shares (internal_get_account s' a) = stake_shares (internal_get_account s a)
       \<and> (\<forall>j. j \<noteq> a \<longrightarrow> internal_get_account s' j = internal_get_account s j)
       \<and> last_total_balance s' = last_total_balance s - x
       \<and> total_staked_balance s' = total_staked_balance s
       \<and> total_stake_shares s' = total_stake_shares s)"
proof (intro conjI allI impI)
  show "returns (internal_withdraw e x s) \<longleftrightarrow>
       0 < x \<and> x \<le> unstaked (internal_get_account s a) \<and>
       unstaked_available_epoch_height (internal_get_account s a) \<le> env_epoch_height e"
    by (auto simp: internal_withdraw_def Let_def returns_bindE a_def)
qed (auto elim!: internal_withdrawE simp: a_def pool_store.get_save)

theorem withdraw_pays_exactly_witness:
  "returns (internal_withdraw sample_host 70 sample_pool)"
  using withdraw_pays_exactly [of sample_host 70 sample_pool]
  by (simp add: sample_pool_def internal_get_account_def)

text \<open>C25. Unstaked tokens stay locked for \<open>NUM_EPOCHS_TO_UNLOCK\<close> epochs: after an accepted
  \<open>unstake\<close> in epoch \<open>e0\<close>, however many calls are made by anyone in the epochs \<open>e0\<close> to
  \<open>e0 + 3\<close>, no withdrawal by that account succeeds in them.\<close>

theorem unstaked_tokens_locked:
  assumes "unstake e x s = Inr (s1, ps)"
    and "(pool_step_in (env_epoch_height e))\<^sup>*\<^sup>* s1 s2"
    and "env_predecessor_account_id e' = env_predecessor_account_id e"
    and "env_epoch_height e' < env_epoch_height e + NUM_EPOCHS_TO_UNLOCK"
  shows "\<not> returns (withdraw e' y s2) \<and> \<not> returns (withdraw_all e' s2)"
proof -
  let ?h = "env_epoch_height e + NUM_EPOCHS_TO_UNLOCK"
  have "locked_until ?h (env_predecessor_account_id e) s2"
    using assms(2) unstake_locks [OF assms(1)] by (rule lock.steps_inv)
  then have "internal_withdraw e' z s3 \<noteq> Inr r" if "internal_ping e' s2 = Inr (b, s3)" for b s3 z r
    using locked_no_withdraw [OF ping_locked [OF that] assms(3,4)] by blast
  then show ?thesis by (auto simp: returns_def withdraw_def withdraw_all_def Let_def)
qed

theorem unstaked_tokens_locked_witness:
  "\<not> returns (withdraw (sample_host\<lparr>env_epoch_height := 3\<rparr>) 1 (after_unstake 115 20 1485 990))"
proof -
  have "unstake sample_host 15 sample_pool = Inr (after_unstake 115 20 1485 990,
      internal_restake sample_host (after_unstake 115 20 1485 990))"
    using sample_unstake by (simp add: unstake_def internal_ping_def sample_pool_def)
  from unstaked_tokens_locked [OF this rtranclp.rtrancl_refl,
      of "sample_host\<lparr>env_epoch_height := 3\<rparr>"] show ?thesis
    by (simp add: NUM_EPOCHS_TO_UNLOCK_def)
qed

subsection \<open>Control\<close>

text \<open>Only the owner controls the pool: an owner's method called by anyone else panics with
  \<open>Can only be called by the owner\<close>, and no other method changes the owner, the staking key, the
  reward fee or the pause flag.\<close>

theorem pool_owner_controls:
  "(is_owner_msg m \<longrightarrow> env_predecessor_account_id e \<noteq> owner_id s \<longrightarrow>
      pool_exec e m s = Inl (Panic ''Can only be called by the owner''))
   \<and> (\<not> is_owner_msg m \<longrightarrow> pool_exec e m s = Inr (s', ps) \<longrightarrow>
      owner_id s' = owner_id s \<and> stake_public_key s' = stake_public_key s
      \<and> reward_fee s' = reward_fee s \<and> paused s' = paused s)"
  using owner_msg_denied [of m e s] exec_same_config [of e m s s' ps]
  by (auto simp: same_config_def)

theorem pool_owner_controls_witness:
  "pool_exec sample_host M_pause_staking sample_pool = Inl (Panic ''Can only be called by the owner'')"
  using pool_owner_controls [of M_pause_staking sample_host sample_pool sample_pool "[]"]
  by (simp add: sample_pool_def)

text \<open>In every reachable pool the reward fee is a fraction of at most one with a positive
  denominator, so computing the owner's fee never divides by zero and never exceeds the
  reward.\<close>

theorem reachable_fee_valid:
  assumes "reach pool_init pool_step s" and "fits 128 v"
  shows "\<exists>r \<le> v. multiply (reward_fee s) v = Inr r"
proof -
  from assms(1) have v: "valid_fee (reward_fee s)" by (rule fee_inv.reachable_inv)
  then have "numerator (reward_fee s) * v div denominator (reward_fee s)
      \<le> denominator (reward_fee s) * v div denominator (reward_fee s)"
    by (intro div_le_mono mult_le_mono1) (simp add: valid_fee_def)
  with v assms(2) show ?thesis by (auto simp: multiply_def valid_fee_def intro: fits_mono)
qed

theorem reachable_fee_valid_witness:
  "\<exists>s. reach pool_init pool_step s \<and> (\<exists>r \<le> 7. multiply (reward_fee s) 7 = Inr r)"
proof -
  have "returns (new_pool sample_host ''owner'' ''key'' \<lparr>numerator = 1, denominator = 10\<rparr>)"
    by (simp add: new_pool_def assert_valid_fee_def returns_bindE Let_def cong: eval_cong)
  then obtain s ps where "new_pool sample_host ''owner'' ''key'' \<lparr>numerator = 1, denominator = 10\<rparr>
      = Inr (s, ps)" by (auto simp: returns_def)
  then have "reach pool_init pool_step s" unfolding pool_init_def by (blast intro: reach_init)
  with reachable_fee_valid [OF this, of 7] show ?thesis by (auto simp: fits_def)
qed

text \<open>While the pool is paused nothing is staked: no method but \<open>resume_staking\<close> schedules a
  stake action with a positive amount.\<close>

theorem paused_pool_stakes_nothing:
  assumes "pool_exec e m s = Inr (s', ps)" and "paused s" and "m \<noteq> M_resume_staking"
    and "p \<in> set ps" and "(r, acts) \<in> set (batches p)" and "Stake n k \<in> set acts"
  shows "n = 0"
proof -
  have "paused s'" if "\<not> is_owner_msg m"
    using exec_same_config [OF assms(1) that] assms(2) by (simp add: same_config_def)
  then have rest: "internal_restake e s' = []" if "\<not> is_owner_msg m" using that
    by (simp add: internal_restake_def)
  from assms rest show ?thesis
    by (cases m)
       (auto simp: ping_def deposit_def deposit_and_stake_def withdraw_def withdraw_all_def stake_def
          stake_all_def unstake_def unstake_all_def on_stake_action_def Let_def case_prod_beta
          update_staking_key_def update_reward_fee_fraction_def vote_pool_def pause_staking_def
          internal_restake_def dest!: ping_config(3) elim!: internal_withdrawE
          split: if_splits promise_result.splits)
qed

theorem paused_pool_stakes_nothing_witness:
  "\<exists>e s' ps. pool_exec e M_on_stake_action (sample_pool\<lparr>paused := True\<rparr>) = Inr (s', ps)
     \<and> ps = [Promise ''contract'' [Stake 0 ''key'']]
     \<and> (\<forall>n k. Stake n k \<in> set [Stake 0 ''key'' :: pool_call action] \<longrightarrow> n = 0)"
proof -
  let ?e = "sample_host\<lparr>env_predecessor_account_id := ''contract'',
      env_promise_results := [Failed], env_account_locked_balance := 5\<rparr>"
  have ex: "pool_exec ?e M_on_stake_action (sample_pool\<lparr>paused := True\<rparr>)
      = Inr (sample_pool\<lparr>paused := True\<rparr>, [Promise ''contract'' [Stake 0 ''key'']])"
    by (simp add: on_stake_action_def sample_pool_def)
  have "n = 0" if "Stake n k \<in> set [Stake 0 ''key'' :: pool_call action]" for n k
    using paused_pool_stakes_nothing [OF ex _ _ _ _ that, of "Promise ''contract'' [Stake 0 ''key'']"
        "''contract''"] by simp
  with ex show ?thesis by blast
qed

end
