(* ===== verification/StakingPoolLiveness.thy ===== *)
theory StakingPoolLiveness
  imports StakingPoolTheorems
begin

section \<open>Unstaked tokens of the staking pool become available\<close>

text \<open>
  The other side of the unstaking delay: in the histories in which the epoch never goes back (the epoch
  height of the chain only grows) no account waits longer than \<open>NUM_EPOCHS_TO_UNLOCK\<close> epochs after the
  last call that the pool has seen, and from then on whatever part of its unstaked tokens it asks for is paid.
\<close>

subsection \<open>Histories with epochs in order\<close>

inductive ordered_step :: "staking_contract \<Rightarrow> staking_contract \<Rightarrow> bool" where
  ordered_call: "pool_exec e m s = Inr (s', ps) \<Longrightarrow> last_epoch_height s \<le> env_epoch_height e
    \<Longrightarrow> ordered_step s s'"

inductive_cases ordered_stepE: "ordered_step s s'"

text \<open>No account waits for an epoch after \<open>h + NUM_EPOCHS_TO_UNLOCK\<close>.\<close>

definition waits_until :: "nat \<Rightarrow> staking_contract \<Rightarrow> bool" where
  "waits_until h s \<longleftrightarrow>
     (\<forall>a. unstaked_available_epoch_height (internal_get_account s a) \<le> h + NUM_EPOCHS_TO_UNLOCK)"

lemma stored_available:
  "unstaked_available_epoch_height acc \<le> h \<Longrightarrow> unstaked_available_epoch_height (stored acc) \<le> h"
  by (simp add: stored_def default_account_def)

lemma waits_save:
  "waits_until h s \<Longrightarrow> unstaked_available_epoch_height acc \<le> h + NUM_EPOCHS_TO_UNLOCK
    \<Longrightarrow> waits_until h (internal_save_account s a acc)"
  by (auto simp: waits_until_def pool_store.get_save intro: stored_available)

lemma waits_upd [simp]:
  "waits_until h (s\<lparr>last_total_balance := x\<rparr>) = waits_until h s"
  "waits_until h (s\<lparr>last_epoch_height := x\<rparr>) = waits_until h s"
  "waits_until h (s\<lparr>total_staked_balance := x\<rparr>) = waits_until h s"
  "waits_until h (s\<lparr>total_stake_shares := x\<rparr>) = waits_until h s"
  "waits_until h (s\<lparr>reward_fee := f\<rparr>) = waits_until h s"
  "waits_until h (s\<lparr>stake_public_key := k\<rparr>) = waits_until h s"
  "waits_until h (s\<lparr>paused := b\<rparr>) = waits_until h s"
  by (simp_all add: waits_until_def)

lemma waits_account:
  "waits_until h s \<Longrightarrow> unstaked_available_epoch_height (internal_get_account s a) \<le> h + NUM_EPOCHS_TO_UNLOCK"
  by (simp add: waits_until_def)

lemma waits_later: "waits_until h s \<Longrightarrow> h \<le> h' \<Longrightarrow> waits_until h' s"
  by (auto simp: waits_until_def intro: order_trans)

lemma rewarded_waits: "waits_until h s \<Longrightarrow> waits_until h (rewarded w f n s)"
  by (auto simp: rewarded_def Let_def intro!: waits_save waits_account)

lemma ping_waits:
  assumes "internal_ping e s = Inr (b, s')" and "waits_until h s"
  shows "waits_until h s'"
  using assms(1)
  by (cases rule: internal_pingE) (use assms(2) in \<open>auto elim!: distribute_rewardE intro!: rewarded_waits\<close>)

lemma deposit_waits: "internal_deposit e s = (x, s') \<Longrightarrow> waits_until h s \<Longrightarrow> waits_until h s'"
  by (auto elim!: internal_depositE intro!: waits_save waits_account)

lemma stake_waits: "internal_stake e x s = Inr s' \<Longrightarrow> waits_until h s \<Longrightarrow> waits_until h s'"
  by (erule internal_stakeE) (auto intro!: waits_save waits_account)

lemma op_waits:
  assumes "pool_op e u s s'" and "waits_until (env_epoch_height e) s"
  shows "waits_until (env_epoch_height e) s'"
  using assms(1)
proof cases
  case (op_withdraw x ps)
  then show ?thesis using assms(2) by (auto elim!: internal_withdrawE intro!: waits_save waits_account)
next
  case (op_unstake x)
  from op_unstake(2) show ?thesis by (rule inner_unstakeE) (use assms(2) in \<open>auto intro!: waits_save\<close>)
qed (use assms(2) in \<open>auto intro: stake_waits deposit_waits\<close>)

lemma ping_last_epoch:
  assumes "internal_ping e s = Inr (b, s')"
  shows "last_epoch_height s' = env_epoch_height e"
  using assms by (cases rule: internal_pingE) (auto elim!: distribute_rewardE)

lemma op_last_epoch: "pool_op e u s s' \<Longrightarrow> last_epoch_height s' = last_epoch_height s"
  by (erule pool_op.cases) (auto elim!: internal_depositE internal_withdrawE internal_stakeE inner_unstakeE)

lemma exec_waits:
  assumes "pool_exec e m s = Inr (s', ps)" and "last_epoch_height s \<le> env_epoch_height e"
    and "waits_until (last_epoch_height s) s"
  shows "waits_until (last_epoch_height s') s'"
  using assms(1)
proof (cases rule: pool_exec_cases)
  case (pinged b s1)
  have "waits_until (env_epoch_height e) s1"
    by (rule ping_waits [OF pinged(1) waits_later [OF assms(3,2)]])
  moreover have "last_epoch_height s' = env_epoch_height e"
    using ping_last_epoch [OF pinged(1)] op_last_epoch [OF pinged(2)] by simp
  ultimately show ?thesis using op_waits [OF pinged(2)] by simp
qed (use assms(3) in simp)

lemma new_pool_waits: "new_pool e owner pk fee = Inr (s, ps) \<Longrightarrow> waits_until (last_epoch_height s) s"
  by (auto simp: new_pool_def Let_def waits_until_def internal_get_account_def default_account_def)

interpretation waiting: inductive_invariant ordered_step "\<lambda>s. waits_until (last_epoch_height s) s" pool_init
  by unfold_locales (auto simp: pool_init_def elim!: ordered_stepE intro: exec_waits new_pool_waits)

subsection \<open>The property\<close>

lemma internal_withdraw_returns:
  assumes "0 < n" and "n \<le> unstaked (internal_get_account s (env_predecessor_account_id e))"
    and "unstaked_available_epoch_height (internal_get_account s (env_predecessor_account_id e)) \<le> env_epoch_height e"
  obtains s' where "internal_withdraw e n s = Inr (s', [Promise (env_predecessor_account_id e) [Transfer n]])"
  using assms by (auto simp: internal_withdraw_def Let_def)

lemma restake_after_withdraw:
  "internal_withdraw e n s = Inr (s', ps) \<Longrightarrow> internal_restake e s' = internal_restake e s"
  by (auto elim!: internal_withdrawE simp: internal_restake_def)

text \<open>
  C24. Unstaked tokens become available: in every state that a deployed pool can reach, no account
  waits for an epoch later than \<open>NUM_EPOCHS_TO_UNLOCK\<close> after the last epoch the pool has seen. So
  once so many epochs have passed and as long as the pool still accepts \<open>ping\<close>, \<open>withdraw\<close> of any
  positive part of the caller's unstaked tokens is accepted; it pays exactly this amount to the caller, takes
  it off the caller's unstaked tokens and off nobody else's, and otherwise schedules what \<open>ping\<close> would.
\<close>

theorem unstaked_tokens_become_available:
  fixes e :: host
  defines "a \<equiv> env_predecessor_account_id e"
  assumes "reach pool_init ordered_step s"
    and "last_epoch_height s + NUM_EPOCHS_TO_UNLOCK \<le> env_epoch_height e"
    and "ping e s = Inr (s1, qs)"
    and "0 < n" and "n \<le> unstaked (internal_get_account s a)"
  shows "\<exists>s'. withdraw e n s = Inr (s', Promise a [Transfer n] # qs)
    \<and> (\<forall>j. unstaked (internal_get_account s' j) =
         (if j = a then unstaked (internal_get_account s a) - n else unstaked (internal_get_account s j)))"
proof -
  from assms(4) obtain b where b: "internal_ping e s = Inr (b, s1)" "qs = (if b then internal_restake e s1 else [])"
    by (auto simp: ping_def)
  have "waits_until (last_epoch_height s) s" using assms(2) by (rule waiting.reachable_inv)
  from waits_account [OF ping_waits [OF b(1) this], of a] assms(3)
  have due: "unstaked_available_epoch_height (internal_get_account s1 a) \<le> env_epoch_height e" by simp
  have n: "n \<le> unstaked (internal_get_account s1 a)" using assms(6) ping_unstaked [OF b(1)] by simp
  obtain s' where w: "internal_withdraw e n s1 = Inr (s', [Promise a [Transfer n]])"
    using internal_withdraw_returns [OF assms(5)] n due unfolding a_def by blast
  have "withdraw e n s = Inr (s', Promise a [Transfer n] # qs)"
    using b w restake_after_withdraw [OF w] by (simp add: withdraw_def)
  moreover have "unstaked (internal_get_account s' j) =
      (if j = a then unstaked (internal_get_account s a) - n else unstaked (internal_get_account s j))" for j
    using w by (auto elim!: internal_withdrawE simp: pool_store.get_save a_def ping_unstaked [OF b(1)])
  ultimately show ?thesis by blast
qed

text \<open>Alice deposits ten tokens and stakes them, unstakes five in epoch 0 and withdraws them in epoch 4.\<close>

definition pool_host :: "account_id \<Rightarrow> nat \<Rightarrow> nat \<Rightarrow> nat \<Rightarrow> host" where
  "pool_host who epoch attached bal = sample_host\<lparr>env_predecessor_account_id := who,
     env_epoch_height := epoch, env_attached_deposit := attached, env_account_balance := bal,
     env_account_locked_balance := 0\<rparr>"

definition pool_at :: "nat \<Rightarrow> nat \<Rightarrow> nat \<Rightarrow> (account_id \<rightharpoonup> pool_account) \<Rightarrow> staking_contract" where
  "pool_at tot shares staked accs = \<lparr>owner_id = ''bob'', stake_public_key = ''pk'', last_epoch_height = 0,
     last_total_balance = tot, total_stake_shares = shares, total_staked_balance = staked,
     reward_fee = \<lparr>numerator = 1, denominator = 10\<rparr>, accounts = accs, paused = False\<rparr>"

definition alice_has :: "nat \<Rightarrow> nat \<Rightarrow> nat \<Rightarrow> account_id \<rightharpoonup> pool_account" where
  "alice_has u sh h = [''alice'' \<mapsto> \<lparr>unstaked = u, stake_shares = sh, unstaked_available_epoch_height = h\<rparr>]"

lemmas alice_eval = pool_eval pool_at_def pool_host_def alice_has_def deposit_def stake_def unstake_def

lemma alice_steps:
  shows "\<exists>ps. new_pool (pool_host ''bob'' 0 0 1000000001000) ''bob'' ''pk'' \<lparr>numerator = 1, denominator = 10\<rparr>
      = Inr (pool_at 1000000001000 1000 1000 Map.empty, ps)"
    and "\<exists>ps. pool_exec (pool_host ''alice'' 0 10 1000000001010) M_deposit (pool_at 1000000001000 1000 1000 Map.empty)
      = Inr (pool_at 1000000001010 1000 1000 (alice_has 10 0 0), ps)"
    and "\<exists>ps. pool_exec (pool_host ''alice'' 0 0 1000000001010) (M_stake 10)
        (pool_at 1000000001010 1000 1000 (alice_has 10 0 0))
      = Inr (pool_at 1000000001010 1010 1010 (alice_has 0 10 0), ps)"
    and "\<exists>ps. pool_exec (pool_host ''alice'' 0 0 1000000001010) (M_unstake 5)
        (pool_at 1000000001010 1010 1010 (alice_has 0 10 0))
      = Inr (pool_at 1000000001010 1005 1005 (alice_has 5 15 4), ps)"
     apply (simp add: alice_eval new_pool_def assert_valid_fee_def STAKE_SHARE_PRICE_GUARANTEE_FUND_def)
    apply (simp_all add: alice_eval cong: eval_cong)
  done

lemma alice_call: "\<exists>ps. pool_exec e m (pool_at t n k accs) = Inr (s', ps) \<Longrightarrow> ordered_step (pool_at t n k accs) s'"
  by (auto intro: ordered_call simp: pool_at_def)

lemma alice_reached: "reach pool_init ordered_step (pool_at 1000000001010 1005 1005 (alice_has 5 15 4))"
proof (rule reach_step [OF reach_step [OF reach_step]])
  show "reach pool_init ordered_step (pool_at 1000000001000 1000 1000 Map.empty)"
    using alice_steps(1) by (intro reach_init) (unfold pool_init_def, blast)
qed (rule alice_call [OF alice_steps(2)] alice_call [OF alice_steps(3)] alice_call [OF alice_steps(4)])+

theorem unstaked_tokens_become_available_witness:
  "\<exists>s' qs. withdraw (pool_host ''alice'' 4 0 1000000001010) 5 (pool_at 1000000001010 1005 1005 (alice_has 5 15 4))
       = Inr (s', Promise ''alice'' [Transfer 5] # qs)
     \<and> unstaked (internal_get_account s' ''alice'') = 0"
proof -
  let ?e = "pool_host ''alice'' 4 0 1000000001010" and ?s = "pool_at 1000000001010 1005 1005 (alice_has 5 15 4)"
  obtain s1 qs where "ping ?e ?s = Inr (s1, qs)" by (simp add: ping_def alice_eval cong: eval_cong)
  moreover have "last_epoch_height ?s + NUM_EPOCHS_TO_UNLOCK \<le> env_epoch_height ?e"
    and "env_predecessor_account_id ?e = ''alice''" and "unstaked (internal_get_account ?s ''alice'') = 5"
    by (simp_all add: alice_eval)
  ultimately show ?thesis using unstaked_tokens_become_available [OF alice_reached, of ?e s1 qs 5] by auto
qed

end
