(* ===== verification/Interfaces.thy ===== *)
theory Interfaces
  imports Host
begin

section \<open>Interfaces between the contracts\<close>

text \<open>
  The contracts of the repository call each other: the lockup contract asks a whitelist contract
  whether a staking pool is approved and a voting contract whether transfers were enabled, and
  the staking pool factory reports new pools to the whitelist. Each locale states what the calling
  contract relies on; the theory of the contract that provides it interprets the locale.
\<close>

subsection \<open>A registry that only authorised callers change\<close>

locale authorised_registry =
  fixes listed :: "'s \<Rightarrow> 'a set"
    and authorised :: "'s \<Rightarrow> 'c \<Rightarrow> bool"
    and step :: "'c \<Rightarrow> 's \<Rightarrow> 's \<Rightarrow> bool"
  assumes outsider_listed: "step c s t \<Longrightarrow> \<not> authorised s c \<Longrightarrow> listed t = listed s"
    and outsider_authorised: "step c s t \<Longrightarrow> \<not> authorised s c \<Longrightarrow> authorised t = authorised s"
begin

text \<open>However many calls outsiders make, the registry and the set of authorised callers stay.\<close>

lemma outsiders_change_nothing:
  assumes "(\<lambda>s t. \<exists>c. \<not> authorised s c \<and> step c s t)\<^sup>*\<^sup>* s t"
  shows "listed t = listed s \<and> authorised t = authorised s"
  using assms
proof (induction rule: rtranclp_induct)
  case (step u v)
  then obtain c where "\<not> authorised u c" and "step c u v" by blast
  then show ?case using step.IH outsider_listed outsider_authorised by metis
qed simp

end

subsection \<open>A poll whose result is final\<close>

locale final_poll =
  fixes result_of :: "'s \<Rightarrow> 'r option"
    and step :: "'s \<Rightarrow> 's \<Rightarrow> bool"
  assumes result_final: "result_of s = Some r \<Longrightarrow> step s t \<Longrightarrow> result_of t = Some r"
begin

lemma result_stays: "step\<^sup>*\<^sup>* s t \<Longrightarrow> result_of s = Some r \<Longrightarrow> result_of t = Some r"
  by (induction rule: rtranclp_induct) (auto intro: result_final)

text \<open>Two answers obtained at different times of one history never contradict each other.\<close>

lemma results_agree:
  "step\<^sup>*\<^sup>* s t \<Longrightarrow> result_of s = Some r \<Longrightarrow> result_of t = Some r' \<Longrightarrow> r = r'"
  using result_stays by fastforce

end

sublocale final_poll \<subseteq> decided: stable_property step "\<lambda>s. result_of s = Some r" for r
  by unfold_locales (rule result_final)

end
