(* ===== verification/Whitelist.thy ===== *)
theory Whitelist
  imports Interfaces
begin

section \<open>The whitelist contract (\<open>whitelist/src/lib.rs\<close>)\<close>

text \<open>
  The foundation keeps a list of approved staking pools and of factories that may approve pools.
  A \<open>LookupSet\<close> is a set; \<open>insert\<close> and \<open>remove\<close> return whether the set changed.
\<close>

subsection \<open>State and methods\<close>

record whitelist_contract =
  foundation_account_id :: account_id
  whitelist :: "account_id set"
  factory_whitelist :: "account_id set"

definition new_whitelist :: "host \<Rightarrow> account_id \<Rightarrow> whitelist_contract res" where
  "new_whitelist e foundation =
     bindE (ensure (\<not> env_state_exists e) ''Already initialized'') (\<lambda>_.
     bindE (ensure (env_is_valid_account_id e foundation)
       ''The UNC Foundation account ID is invalid'') (\<lambda>_.
     Inr \<lparr>foundation_account_id = foundation, whitelist = {}, factory_whitelist = {}\<rparr>))"

definition is_whitelisted :: "host \<Rightarrow> account_id \<Rightarrow> whitelist_contract \<Rightarrow> bool res" where
  "is_whitelisted e pool w =
     bindE (ensure (env_is_valid_account_id e pool) ''The given account ID is invalid'') (\<lambda>_.
     Inr (pool \<in> whitelist w))"

definition is_factory_whitelisted :: "host \<Rightarrow> account_id \<Rightarrow> whitelist_contract \<Rightarrow> bool res" where
  "is_factory_whitelisted e factory w =
     bindE (ensure (env_is_valid_account_id e factory) ''The given account ID is invalid'') (\<lambda>_.
     Inr (factory \<in> factory_whitelist w))"

definition assert_called_by_foundation :: "host \<Rightarrow> whitelist_contract \<Rightarrow> unit res" where
  "assert_called_by_foundation e w =
     ensure (env_predecessor_account_id e = foundation_account_id w)
       ''Can only be called by UNC Foundation''"

definition add_staking_pool ::
  "host \<Rightarrow> account_id \<Rightarrow> whitelist_contract \<Rightarrow> (bool \<times> whitelist_contract) res" where
  "add_staking_pool e pool w =
     bindE (ensure (env_is_valid_account_id e pool) ''The given account ID is invalid'') (\<lambda>_.
     bindE (if env_predecessor_account_id e \<notin> factory_whitelist w
            then assert_called_by_foundation e w else Inr ()) (\<lambda>_.
     Inr (pool \<notin> whitelist w, w\<lparr>whitelist := insert pool (whitelist w)\<rparr>)))"

definition remove_staking_pool ::
  "host \<Rightarrow> account_id \<Rightarrow> whitelist_contract \<Rightarrow> (bool \<times> whitelist_contract) res" where
  "remove_staking_pool e pool w =
     bindE (assert_called_by_foundation e w) (\<lambda>_.
     bindE (ensure (env_is_valid_account_id e pool) ''The given account ID is invalid'') (\<lambda>_.
     Inr (pool \<in> whitelist w, w\<lparr>whitelist := whitelist w - {pool}\<rparr>)))"

definition add_factory ::
  "host \<Rightarrow> account_id \<Rightarrow> whitelist_contract \<Rightarrow> (bool \<times> whitelist_contract) res" where
  "add_factory e factory w =
     bindE (ensure (env_is_valid_account_id e factory) ''The given account ID is invalid'') (\<lambda>_.
     bindE (assert_called_by_foundation e w) (\<lambda>_.
     Inr (factory \<notin> factory_whitelist w,
          w\<lparr>factory_whitelist := insert factory (factory_whitelist w)\<rparr>)))"

definition remove_factory ::
  "host \<Rightarrow> account_id \<Rightarrow> whitelist_contract \<Rightarrow> (bool \<times> whitelist_contract) res" where
  "remove_factory e factory w =
     bindE (assert_called_by_foundation e w) (\<lambda>_.
     bindE (ensure (env_is_valid_account_id e factory) ''The given account ID is invalid'') (\<lambda>_.
     Inr (factory \<in> factory_whitelist w,
          w\<lparr>factory_whitelist := factory_whitelist w - {factory}\<rparr>)))"

subsection \<open>Steps and authority\<close>

text \<open>One step is one accepted call; its first argument is the caller.\<close>

inductive whitelist_step :: "account_id \<Rightarrow> whitelist_contract \<Rightarrow> whitelist_contract \<Rightarrow> bool" where
  step_add_pool:
    "add_staking_pool e p w = Inr (b, w') \<Longrightarrow> whitelist_step (env_predecessor_account_id e) w w'"
| step_remove_pool:
    "remove_staking_pool e p w = Inr (b, w') \<Longrightarrow> whitelist_step (env_predecessor_account_id e) w w'"
| step_add_factory:
    "add_factory e p w = Inr (b, w') \<Longrightarrow> whitelist_step (env_predecessor_account_id e) w w'"
| step_remove_factory:
    "remove_factory e p w = Inr (b, w') \<Longrightarrow> whitelist_step (env_predecessor_account_id e) w w'"

inductive_cases whitelist_stepE: "whitelist_step c w w'"

definition may_add_pools :: "whitelist_contract \<Rightarrow> account_id \<Rightarrow> bool" where
  "may_add_pools w c \<longleftrightarrow> c = foundation_account_id w \<or> c \<in> factory_whitelist w"

definition is_foundation :: "whitelist_contract \<Rightarrow> account_id \<Rightarrow> bool" where
  "is_foundation w c \<longleftrightarrow> c = foundation_account_id w"

lemma whitelist_ops_Inr [simp]:
  "assert_called_by_foundation e w = Inr u \<longleftrightarrow> env_predecessor_account_id e = foundation_account_id w"
  "add_staking_pool e p w = Inr (b, w') \<longleftrightarrow> env_is_valid_account_id e p \<and>
     may_add_pools w (env_predecessor_account_id e) \<and> b = (p \<notin> whitelist w) \<and>
     w' = w\<lparr>whitelist := insert p (whitelist w)\<rparr>"
  "remove_staking_pool e p w = Inr (b, w') \<longleftrightarrow> env_is_valid_account_id e p \<and>
     env_predecessor_account_id e = foundation_account_id w \<and> b = (p \<in> whitelist w) \<and>
     w' = w\<lparr>whitelist := whitelist w - {p}\<rparr>"
  "add_factory e p w = Inr (b, w') \<longleftrightarrow> env_is_valid_account_id e p \<and>
     env_predecessor_account_id e = foundation_account_id w \<and> b = (p \<notin> factory_whitelist w) \<and>
     w' = w\<lparr>factory_whitelist := insert p (factory_whitelist w)\<rparr>"
  "remove_factory e p w = Inr (b, w') \<longleftrightarrow> env_is_valid_account_id e p \<and>
     env_predecessor_account_id e = foundation_account_id w \<and> b = (p \<in> factory_whitelist w) \<and>
     w' = w\<lparr>factory_whitelist := factory_whitelist w - {p}\<rparr>"
  by (auto simp: add_staking_pool_def remove_staking_pool_def add_factory_def
      remove_factory_def assert_called_by_foundation_def may_add_pools_def)

interpretation pools: authorised_registry whitelist may_add_pools whitelist_step
  by unfold_locales (auto elim!: whitelist_stepE simp: may_add_pools_def fun_eq_iff)

interpretation factories: authorised_registry factory_whitelist is_foundation whitelist_step
  by unfold_locales (auto elim!: whitelist_stepE simp: is_foundation_def fun_eq_iff)

text \<open>Factories can add pools and do nothing else.\<close>

interpretation additions: stable_property
  "\<lambda>s t. \<exists>c. \<not> is_foundation s c \<and> whitelist_step c s t" "\<lambda>s. P \<subseteq> whitelist s" for P
  by unfold_locales (auto elim!: whitelist_stepE simp: is_foundation_def)

lemma step_keeps_foundation:
  "whitelist_step c w w' \<Longrightarrow> foundation_account_id w' = foundation_account_id w"
  by (auto elim!: whitelist_stepE simp: may_add_pools_def)

subsection \<open>Properties\<close>

text \<open>Who may change what in the whitelist: in one accepted call, a pool is added only by the
  foundation or by a whitelisted factory, a pool is removed only by the foundation, and the list
  of factories changes only by the foundation, whose account never changes.\<close>

theorem whitelist_authority:
  assumes "whitelist_step c w w'"
  shows "(p \<in> whitelist w' - whitelist w \<longrightarrow> c = foundation_account_id w \<or> c \<in> factory_whitelist w)
    \<and> (p \<in> whitelist w - whitelist w' \<longrightarrow> c = foundation_account_id w)
    \<and> (factory_whitelist w' \<noteq> factory_whitelist w \<longrightarrow> c = foundation_account_id w)
    \<and> foundation_account_id w' = foundation_account_id w"
  using assms by (auto elim!: whitelist_stepE simp: may_add_pools_def)

definition sample_whitelist :: whitelist_contract where
  "sample_whitelist = \<lparr>foundation_account_id = ''foundation'', whitelist = {''pool''},
     factory_whitelist = {''alice''}\<rparr>"

lemma sample_add:
  "add_staking_pool sample_host ''pool2'' sample_whitelist =
     Inr (True, sample_whitelist\<lparr>whitelist := {''pool2'', ''pool''}\<rparr>)"
  by (simp add: sample_whitelist_def may_add_pools_def)

theorem whitelist_authority_witness:
  "''alice'' \<in> factory_whitelist sample_whitelist"
  using whitelist_authority [OF step_add_pool [OF sample_add], of "''pool2''"]
  by (simp add: sample_whitelist_def)

text \<open>Factories can add pools and nothing else: however many calls are made by accounts other
  than the foundation, no pool leaves the whitelist, the list of factories stays as it is, and if
  there is no factory the list of pools stays as it is, too.\<close>

theorem factories_only_add_pools:
  assumes "(\<lambda>s t. \<exists>c. \<not> is_foundation s c \<and> whitelist_step c s t)\<^sup>*\<^sup>* w w'"
  shows "whitelist w \<subseteq> whitelist w' \<and> factory_whitelist w' = factory_whitelist w
    \<and> (factory_whitelist w = {} \<longrightarrow> whitelist w' = whitelist w)"
proof -
  have fac: "factory_whitelist w' = factory_whitelist w \<and> is_foundation w' = is_foundation w"
    using assms by (rule factories.outsiders_change_nothing)
  have "whitelist w \<subseteq> whitelist w'" using assms by (rule additions.steps_inv) simp
  moreover have "whitelist w' = whitelist w" if "factory_whitelist w = {}"
    using assms
  proof (induction rule: rtranclp_induct)
    case (step u v)
    from step.hyps(1) have "factory_whitelist u = {}"
      using factories.outsiders_change_nothing that by simp
    with step show ?case
      by (auto simp: is_foundation_def may_add_pools_def elim!: whitelist_stepE)
  qed simp
  ultimately show ?thesis using fac by blast
qed

theorem factories_only_add_pools_witness:
  "(\<lambda>s t. \<exists>c. \<not> is_foundation s c \<and> whitelist_step c s t)\<^sup>*\<^sup>* sample_whitelist
     (sample_whitelist\<lparr>whitelist := {''pool2'', ''pool''}\<rparr>)
   \<and> factory_whitelist (sample_whitelist\<lparr>whitelist := {''pool2'', ''pool''}\<rparr>) = {''alice''}"
proof -
  have run: "(\<lambda>s t. \<exists>c. \<not> is_foundation s c \<and> whitelist_step c s t)\<^sup>*\<^sup>* sample_whitelist
     (sample_whitelist\<lparr>whitelist := {''pool2'', ''pool''}\<rparr>)"
    using step_add_pool [OF sample_add]
    by (intro r_into_rtranclp exI [where x = "''alice''"]) (simp add: is_foundation_def sample_whitelist_def)
  with factories_only_add_pools [OF run] show ?thesis by (simp add: sample_whitelist_def)
qed

text \<open>Adding and removing pools behave like set insertion and deletion seen through
  \<open>is_whitelisted\<close>: the added pool is found, the removed one is not, every other pool is answered
  as before, and the returned flag says whether the list changed.\<close>

theorem whitelist_lookup_after_update:
  assumes "env_is_valid_account_id e' q"
  shows "(add_staking_pool e p w = Inr (b, w') \<longrightarrow>
       is_whitelisted e' q w' = (if q = p then Inr True else is_whitelisted e' q w)
       \<and> (b \<longleftrightarrow> whitelist w' \<noteq> whitelist w))
     \<and> (remove_staking_pool e p w = Inr (b, w') \<longrightarrow>
       is_whitelisted e' q w' = (if q = p then Inr False else is_whitelisted e' q w)
       \<and> (b \<longleftrightarrow> whitelist w' \<noteq> whitelist w))"
  using assms
  by (auto simp: is_whitelisted_def)

theorem whitelist_lookup_after_update_witness:
  "is_whitelisted sample_host ''pool2''
     (sample_whitelist\<lparr>whitelist := {''pool2'', ''pool''}\<rparr>) = Inr True"
  using whitelist_lookup_after_update [of sample_host "''pool2''" sample_host "''pool2''"
      sample_whitelist True "sample_whitelist\<lparr>whitelist := {''pool2'', ''pool''}\<rparr>"] sample_add
  by simp

end
