(* ===== verification/Voting.thy ===== *)
theory Voting
  imports Interfaces "HOL-Library.AList"
begin

section \<open>The voting contract (\<open>voting/src/lib.rs\<close>)\<close>

text \<open>
  Validators vote, weighted by their stake, for enabling transfers; the poll ends as soon as more
  than two thirds of the total stake have voted. The \<open>HashMap\<close> of votes is an association list
  with distinct keys, whose order stands for the arbitrary iteration order of the map.
\<close>

subsection \<open>State and methods\<close>

record voting_contract =
  votes :: "(account_id \<times> nat) list"
  total_voted_stake :: nat
  poll_result :: "nat option"
  voting_epoch_height :: nat

definition new_voting :: "host \<Rightarrow> voting_contract res" where
  "new_voting e =
     bindE (ensure (\<not> env_state_exists e) ''The contract is already initialized'') (\<lambda>_.
     Inr \<lparr>votes = [], total_voted_stake = 0, poll_result = None, voting_epoch_height = 0\<rparr>)"

definition check_result :: "host \<Rightarrow> voting_contract \<Rightarrow> voting_contract res" where
  "check_result e v =
     bindE (ensure (poll_result v = None) ''check result is called after result is already set'') (\<lambda>_.
     let total_stake = env_validator_total_stake e in
     bindE (checked_mul 128 2 total_stake) (\<lambda>twice.
     Inr (if twice div 3 < total_voted_stake v
          then v\<lparr>poll_result := Some (env_block_timestamp e)\<rparr>
          else v)))"

text \<open>The loop of \<open>ping\<close>: every voter is counted again with its current stake.\<close>

fun recount :: "host \<Rightarrow> (account_id \<times> nat) list \<Rightarrow> voting_contract \<Rightarrow> voting_contract res" where
  "recount e [] v = Inr v"
| "recount e ((account_id, _) # rest) v =
     (let account_current_stake = env_validator_stake e account_id in
      bindE (checked_add 128 (total_voted_stake v) account_current_stake) (\<lambda>total.
      recount e rest
        (v\<lparr>total_voted_stake := total,
           votes := (if 0 < account_current_stake
                     then AList.update account_id account_current_stake (votes v)
                     else votes v)\<rparr>)))"

definition ping_voting :: "host \<Rightarrow> voting_contract \<Rightarrow> voting_contract res" where
  "ping_voting e v =
     bindE (ensure (poll_result v = None) ''Voting has already ended'') (\<lambda>_.
     if env_epoch_height e \<noteq> voting_epoch_height v then
       bindE (recount e (votes v) (v\<lparr>votes := [], total_voted_stake := 0\<rparr>)) (\<lambda>v.
       bindE (check_result e v) (\<lambda>v.
       Inr (v\<lparr>voting_epoch_height := env_epoch_height e\<rparr>)))
     else Inr v)"

definition vote :: "host \<Rightarrow> bool \<Rightarrow> voting_contract \<Rightarrow> voting_contract res" where
  "vote e is_vote v =
     bindE (ping_voting e v) (\<lambda>v.
     if poll_result v \<noteq> None then Inr v
     else
       let account_id = env_predecessor_account_id e in
       bindE (if is_vote then
                let stake = env_validator_stake e account_id in
                bindE (ensure (0 < stake) (account_id @ '' is not a validator'')) (\<lambda>_. Inr stake)
              else Inr 0) (\<lambda>account_stake.
       let voted_stake = (case map_of (votes v) account_id of Some s \<Rightarrow> s | None \<Rightarrow> 0);
           v = v\<lparr>votes := AList.delete account_id (votes v)\<rparr> in
       bindE (ensure (voted_stake \<le> total_voted_stake v)
         ''invariant: voted stake is more than total voted stake'') (\<lambda>_.
       bindE (checked_add 128 (total_voted_stake v) account_stake) (\<lambda>sum.
       bindE (checked_sub sum voted_stake) (\<lambda>total.
       let v = v\<lparr>total_voted_stake := total\<rparr> in
       if 0 < account_stake
       then check_result e (v\<lparr>votes := AList.update account_id account_stake (votes v)\<rparr>)
       else Inr v)))))"

definition get_result :: "voting_contract \<Rightarrow> nat option" where
  "get_result v = poll_result v"

definition get_total_voted_stake :: "host \<Rightarrow> voting_contract \<Rightarrow> nat \<times> nat" where
  "get_total_voted_stake e v = (total_voted_stake v, env_validator_total_stake e)"

definition get_votes :: "voting_contract \<Rightarrow> account_id \<rightharpoonup> nat" where
  "get_votes v = map_of (votes v)"

inductive voting_step :: "voting_contract \<Rightarrow> voting_contract \<Rightarrow> bool" where
  step_ping: "ping_voting e v = Inr v' \<Longrightarrow> voting_step v v'"
| step_vote: "vote e b v = Inr v' \<Longrightarrow> voting_step v v'"

inductive_cases voting_stepE: "voting_step v v'"

subsection \<open>Weighted sums over the votes\<close>

definition vote_sum :: "(account_id \<times> nat) list \<Rightarrow> nat" where
  "vote_sum vs = sum_list (map snd vs)"

lemma vote_sum_simps [simp]:
  "vote_sum [] = 0"
  "vote_sum (p # vs) = snd p + vote_sum vs"
  by (simp_all add: vote_sum_def)

lemma vote_sum_delete:
  "distinct (map fst vs) \<Longrightarrow> vote_sum (AList.delete a vs) + (case map_of vs a of Some s \<Rightarrow> s | None \<Rightarrow> 0)
     = vote_sum vs"
proof (induction vs)
  case (Cons p vs)
  show ?case
  proof (cases "fst p = a")
    case True
    with Cons.prems have "a \<notin> fst ` set vs" by auto
    then have "AList.delete a vs = vs" by (rule delete_id)
    with True show ?thesis by simp
  next
    case False
    with Cons show ?thesis by (simp add: fun_upd_other)
  qed
qed simp

lemma update_new: "a \<notin> fst ` set vs \<Longrightarrow> AList.update a s vs = vs @ [(a, s)]"
  by (induction vs) auto

lemma vote_sum_append [simp]: "vote_sum (vs @ ws) = vote_sum vs + vote_sum ws"
  by (simp add: vote_sum_def)

lemma voted_le_sum: "(case map_of vs a of Some s \<Rightarrow> s | None \<Rightarrow> 0) \<le> vote_sum vs"
  by (induction vs) auto

subsection \<open>The invariant\<close>

definition voting_inv :: "voting_contract \<Rightarrow> bool" where
  "voting_inv v \<longleftrightarrow> distinct (map fst (votes v)) \<and> (\<forall>p \<in> set (votes v). 0 < snd p)
     \<and> total_voted_stake v = vote_sum (votes v) \<and> fits 128 (total_voted_stake v)"

lemma voting_inv_fits: "voting_inv v \<Longrightarrow> fits 128 (total_voted_stake v)"
  unfolding voting_inv_def by blast

lemma check_result_Inr:
  "check_result e v = Inr v' \<longleftrightarrow> poll_result v = None \<and> fits 128 (2 * env_validator_total_stake e) \<and>
     v' = v\<lparr>poll_result := (if 2 * env_validator_total_stake e div 3 < total_voted_stake v
                           then Some (env_block_timestamp e) else None)\<rparr>"
  by (auto simp: check_result_def Let_def)

text \<open>The recount of distinct voters keeps the sum, whatever the order.\<close>

lemma recount_inv:
  assumes "recount e vs v = Inr v'" and "voting_inv v"
    and "distinct (map fst vs)" and "fst ` set vs \<inter> fst ` set (votes v) = {}"
  shows "voting_inv v' \<and> poll_result v' = poll_result v \<and> voting_epoch_height v' = voting_epoch_height v
    \<and> (\<forall>(a, s) \<in> set (votes v') - set (votes v). s = env_validator_stake e a)"
  using assms
proof (induction e vs v arbitrary: v' rule: recount.induct)
  case (2 e a s rest v)
  let ?st = "env_validator_stake e a"
  let ?v = "v\<lparr>total_voted_stake := total_voted_stake v + ?st,
      votes := (if 0 < ?st then AList.update a ?st (votes v) else votes v)\<rparr>"
  have new: "a \<notin> fst ` set (votes v)" using "2.prems"(4) by auto
  have run: "fits 128 (total_voted_stake v + ?st)" "recount e rest ?v = Inr v'"
    using "2.prems"(1) by (auto simp: Let_def)
  have "voting_inv ?v" using "2.prems"(2) new run(1) by (auto simp: voting_inv_def update_new add.commute)
  moreover have "fst ` set rest \<inter> fst ` set (votes ?v) = {}"
    using "2.prems"(3,4) new by (auto simp: update_new)
  ultimately have "voting_inv v' \<and> poll_result v' = poll_result ?v
      \<and> voting_epoch_height v' = voting_epoch_height ?v
      \<and> (\<forall>(a, s) \<in> set (votes v') - set (votes ?v). s = env_validator_stake e a)"
    using "2.prems"(3) run by (intro "2.IH" [OF refl]) auto
  then show ?case using new by (auto simp: update_new split: if_splits)
qed simp

lemma voting_inv_upd [simp]:
  "voting_inv (v\<lparr>poll_result := r\<rparr>) = voting_inv v"
  "voting_inv (v\<lparr>voting_epoch_height := h\<rparr>) = voting_inv v"
  by (simp_all add: voting_inv_def)

lemma ping_voting_cases:
  assumes "ping_voting e v = Inr v'"
  obtains (same) "poll_result v = None" "env_epoch_height e = voting_epoch_height v" "v' = v"
  | (recounted) u where "poll_result v = None" "env_epoch_height e \<noteq> voting_epoch_height v"
      "recount e (votes v) (v\<lparr>votes := [], total_voted_stake := 0\<rparr>) = Inr u"
      "poll_result u = None"
      "v' = u\<lparr>poll_result := (if 2 * env_validator_total_stake e div 3 < total_voted_stake u
                           then Some (env_block_timestamp e) else None),
              voting_epoch_height := env_epoch_height e\<rparr>"
proof (cases "env_epoch_height e = voting_epoch_height v")
  case True
  with assms show thesis by (intro same) (auto simp: ping_voting_def)
next
  case False
  with assms obtain u where "poll_result v = None"
    and "recount e (votes v) (v\<lparr>votes := [], total_voted_stake := 0\<rparr>) = Inr u"
    and "poll_result u = None"
    and "v' = u\<lparr>poll_result := (if 2 * env_validator_total_stake e div 3 < total_voted_stake u
                           then Some (env_block_timestamp e) else None),
              voting_epoch_height := env_epoch_height e\<rparr>"
    by (auto simp: ping_voting_def check_result_Inr)
  with False show thesis by (intro recounted)
qed

lemma ping_voting_inv:
  assumes "ping_voting e v = Inr v'" and inv: "voting_inv v"
  shows "voting_inv v'"
  using assms(1)
proof (cases rule: ping_voting_cases)
  case (recounted u)
  then show ?thesis
    using recount_inv [OF recounted(3)] inv by (auto simp: voting_inv_def)
qed (use inv in simp)

text \<open>What an accepted vote does after its ping.\<close>

definition voted_of :: "account_id \<Rightarrow> voting_contract \<Rightarrow> nat" where
  "voted_of a v = (case map_of (votes v) a of Some s \<Rightarrow> s | None \<Rightarrow> 0)"

definition revote :: "account_id \<Rightarrow> nat \<Rightarrow> voting_contract \<Rightarrow> voting_contract" where
  "revote a s v = v\<lparr>votes := (if 0 < s then AList.update a s (AList.delete a (votes v))
                             else AList.delete a (votes v)),
                   total_voted_stake := total_voted_stake v + s - voted_of a v\<rparr>"

lemma vote_cases:
  assumes "vote e b v = Inr v'"
  obtains (ended) "ping_voting e v = Inr v'" "poll_result v' \<noteq> None"
  | (counted) u where "ping_voting e v = Inr u" "poll_result u = None" "b"
      "0 < env_validator_stake e (env_predecessor_account_id e)"
      "fits 128 (total_voted_stake u + env_validator_stake e (env_predecessor_account_id e))"
      "check_result e (revote (env_predecessor_account_id e)
         (env_validator_stake e (env_predecessor_account_id e)) u) = Inr v'"
  | (withdrawn) u where "ping_voting e v = Inr u" "poll_result u = None" "\<not> b"
      "v' = revote (env_predecessor_account_id e) 0 u"
proof -
  let ?a = "env_predecessor_account_id e"
  have swap: "w\<lparr>total_voted_stake := x, votes := y\<rparr> = w\<lparr>votes := y, total_voted_stake := x\<rparr>" for w x y
    by simp
  from assms obtain u where u: "ping_voting e v = Inr u" by (auto simp: vote_def)
  show thesis
  proof (cases "poll_result u")
    case (Some r)
    with assms u have "u = v'" by (simp add: vote_def)
    with u Some show thesis by (intro ended) auto
  next
    case None
    note vote_eval = vote_def Let_def revote_def voted_of_def swap
    show thesis
    proof (cases b)
      case True
      from assms u None True have pos: "0 < env_validator_stake e ?a"
        by (auto simp: vote_def Let_def)
      from assms u None True pos
      have "check_result e (revote ?a (env_validator_stake e ?a) u) = Inr v'"
        and "fits 128 (total_voted_stake u + env_validator_stake e ?a)"
        by (simp_all add: vote_eval)
      with u None True pos show thesis by (intro counted)
    next
      case False
      from assms u None False have "v' = revote ?a 0 u" by (auto simp: vote_eval)
      with u None False show thesis by (intro withdrawn)
    qed
  qed
qed

lemma revote_inv:
  assumes "voting_inv v" and "fits 128 (total_voted_stake v + s)"
  shows "voting_inv (revote a s v)"
proof -
  let ?vs = "AList.delete a (votes v)"
  have d: "distinct (map fst ?vs)"
    using assms(1) by (simp add: voting_inv_def distinct_delete)
  have sum: "vote_sum ?vs + voted_of a v = vote_sum (votes v)"
    unfolding voted_of_def using assms(1) by (intro vote_sum_delete) (simp add: voting_inv_def)
  have new: "a \<notin> fst ` set ?vs" by (auto simp: AList.delete_eq)
  then have upd: "AList.update a s ?vs = ?vs @ [(a, s)]" by (rule update_new)
  have pos: "\<forall>p \<in> set ?vs. 0 < snd p" using assms(1)
    by (auto simp: voting_inv_def AList.delete_eq)
  have fits: "fits 128 (total_voted_stake v + s - voted_of a v)" using assms(2) by (rule fits_mono) simp
  have "total_voted_stake v = vote_sum (votes v)" using assms(1) by (simp add: voting_inv_def)
  with d sum upd pos new fits show ?thesis by (auto simp: voting_inv_def revote_def)
qed

lemma vote_inv:
  assumes "vote e b v = Inr v'" and "voting_inv v"
  shows "voting_inv v'"
  using assms(1)
proof (cases rule: vote_cases)
  case ended
  with assms(2) show ?thesis by (blast intro: ping_voting_inv)
next
  case (counted u)
  then show ?thesis using ping_voting_inv [OF counted(1) assms(2)]
    by (auto simp: check_result_Inr revote_inv)
next
  case (withdrawn u)
  have inv: "voting_inv u" by (rule ping_voting_inv [OF withdrawn(1) assms(2)])
  then have "fits 128 (total_voted_stake u + 0)" using voting_inv_fits by simp
  with inv show ?thesis unfolding withdrawn(4) by (rule revote_inv)
qed

lemma new_voting_inv: "new_voting e = Inr v \<Longrightarrow> voting_inv v"
  by (auto simp: new_voting_def voting_inv_def)

definition voting_init :: "voting_contract \<Rightarrow> bool" where
  "voting_init v \<longleftrightarrow> (\<exists>e. new_voting e = Inr v)"

interpretation voting_invariant: inductive_invariant voting_step voting_inv voting_init
  by unfold_locales
    (auto elim!: voting_stepE intro: ping_voting_inv vote_inv new_voting_inv simp: voting_init_def)

subsection \<open>The result is final\<close>

lemma ended_no_ping: "poll_result v = Some r \<Longrightarrow> ping_voting e v = Inl (Panic ''Voting has already ended'')"
  by (simp add: ping_voting_def)

lemma ended_no_vote: "poll_result v = Some r \<Longrightarrow> vote e b v = Inl (Panic ''Voting has already ended'')"
  by (simp add: vote_def ended_no_ping)

interpretation poll: final_poll get_result voting_step
  by unfold_locales (auto simp: get_result_def ended_no_ping ended_no_vote elim!: voting_stepE)

subsection \<open>Properties\<close>

lemma two_thirds: "2 * t div 3 < v \<longleftrightarrow> 2 * t < 3 * (v::nat)"
  by linarith

lemma ping_epoch: "ping_voting e v = Inr v' \<Longrightarrow> voting_epoch_height v' = env_epoch_height e"
  by (erule ping_voting_cases) auto

lemma revote_simps [simp]:
  fixes v :: voting_contract shows
  "poll_result (revote a s v) = poll_result v"
  "voting_epoch_height (revote a s v) = voting_epoch_height v"
  by (simp_all add: revote_def)

lemma vote_same_epoch:
  fixes e :: host and b :: bool
  assumes "voting_inv v" and "poll_result v = None" and "voting_epoch_height v = env_epoch_height e"
  defines "a \<equiv> env_predecessor_account_id e"
  defines "s \<equiv> (if b then env_validator_stake e a else 0)"
  shows "vote e b v = Inr v' \<longleftrightarrow>
    (b \<longrightarrow> 0 < s) \<and> fits 128 (total_voted_stake v + s) \<and>
    (if b then check_result e (revote a s v) = Inr v' else v' = revote a s v)"
proof -
  have swap: "w\<lparr>total_voted_stake := x, votes := y\<rparr> = w\<lparr>votes := y, total_voted_stake := x\<rparr>" for w x y
    by simp
  have p: "ping_voting e v = Inr v" using assms(2,3) by (simp add: ping_voting_def)
  have le: "voted_of a v \<le> total_voted_stake v"
    using assms(1) voted_le_sum [of "votes v" a] by (simp add: voting_inv_def voted_of_def)
  show ?thesis
  proof (cases b)
    case True
    then show ?thesis using p le assms(2)
      by (cases "0 < s") (auto simp: vote_def Let_def voted_of_def revote_def swap a_def s_def)
  next
    case False
    then show ?thesis using p le assms(2)
      by (auto simp: vote_def Let_def voted_of_def revote_def swap a_def s_def)
  qed
qed

text \<open>
  The recount in closed form: every voter that is still a validator, with its current stake. It can not
  overflow when the validators' stakes add up to the total stake that the host reports.
\<close>

definition recounted :: "host \<Rightarrow> (account_id \<times> nat) list \<Rightarrow> (account_id \<times> nat) list" where
  "recounted e vs = filter (\<lambda>p. 0 < snd p) (map (\<lambda>p. (fst p, env_validator_stake e (fst p))) vs)"

definition stakes_add_up :: "host \<Rightarrow> bool" where
  "stakes_add_up e \<longleftrightarrow>
     (\<forall>as. distinct as \<longrightarrow> sum_list (map (env_validator_stake e) as) \<le> env_validator_total_stake e)
     \<and> fits 128 (2 * env_validator_total_stake e)"

lemma recount_eq:
  assumes "distinct (map fst vs)" and "fst ` set vs \<inter> fst ` set (votes v) = {}"
    and "fits 128 (total_voted_stake v + vote_sum (recounted e vs))"
  shows "recount e vs v = Inr (v\<lparr>votes := votes v @ recounted e vs,
      total_voted_stake := total_voted_stake v + vote_sum (recounted e vs)\<rparr>)"
  using assms
proof (induction e vs v rule: recount.induct)
  case (2 e a s rest v)
  let ?st = "env_validator_stake e a"
  let ?v = "v\<lparr>total_voted_stake := total_voted_stake v + ?st,
      votes := (if 0 < ?st then AList.update a ?st (votes v) else votes v)\<rparr>"
  have new: "a \<notin> fst ` set (votes v)" using "2.prems"(2) by auto
  have sum: "vote_sum (recounted e ((a, s) # rest)) = ?st + vote_sum (recounted e rest)"
    by (simp add: recounted_def)
  have fits: "fits 128 (total_voted_stake v + ?st)" using "2.prems"(3) by (rule fits_mono) (simp add: sum)
  have "recount e rest ?v = Inr (?v\<lparr>votes := votes ?v @ recounted e rest,
      total_voted_stake := total_voted_stake ?v + vote_sum (recounted e rest)\<rparr>)"
    using "2.prems" new fits by (intro "2.IH" [OF refl]) (auto simp: update_new sum add.assoc)
  then show ?case using fits new by (simp add: checked_add_def update_new recounted_def sum Let_def add.assoc)
qed (simp add: recounted_def)

lemma sum_recounted: "vote_sum (recounted e vs) = sum_list (map (env_validator_stake e) (map fst vs))"
  by (induction vs) (simp_all add: recounted_def)

lemma recounted_votes:
  "distinct (map fst vs) \<Longrightarrow> map_of (recounted e vs) a =
     (if map_of vs a \<noteq> None \<and> 0 < env_validator_stake e a then Some (env_validator_stake e a) else None)"
proof (induction vs)
  case (Cons p vs)
  have "map_of (recounted e vs) (fst p) = None"
    using Cons.prems by (subst map_of_eq_None_iff) (force simp: recounted_def)
  with Cons show ?case by (auto simp: recounted_def)
qed (simp add: recounted_def)

lemma ping_new_epoch:
  assumes "voting_inv v" and "poll_result v = None" and "voting_epoch_height v \<noteq> env_epoch_height e"
    and "stakes_add_up e"
  obtains u where "ping_voting e v = Inr u" "votes u = recounted e (votes v)"
proof -
  have d: "distinct (map fst (votes v))" using assms(1) by (simp add: voting_inv_def)
  have tot: "fits 128 (2 * env_validator_total_stake e)" using assms(4) by (simp add: stakes_add_up_def)
  have "vote_sum (recounted e (votes v)) \<le> env_validator_total_stake e"
    unfolding sum_recounted using assms(4) d unfolding stakes_add_up_def by blast
  with tot have "fits 128 (vote_sum (recounted e (votes v)))" by (elim fits_mono) simp
  with d have "recount e (votes v) (v\<lparr>votes := [], total_voted_stake := 0\<rparr>)
      = Inr (v\<lparr>votes := recounted e (votes v), total_voted_stake := vote_sum (recounted e (votes v))\<rparr>)"
    by (subst recount_eq) auto
  with assms(2,3) tot that show thesis by (auto simp: ping_voting_def check_result_def checked_mul_def Let_def)
qed

text \<open>A vote withdrawn after the ping: the poll of the ping stays, or the ping has just closed it.\<close>

lemma withdraw_after_ping:
  assumes "voting_inv v" and "ping_voting e v = Inr u"
  shows "vote e False v = Inr (if poll_result u = None then revote (env_predecessor_account_id e) 0 u else u)"
proof (cases "poll_result u")
  case None
  have inv: "voting_inv u" by (rule ping_voting_inv [OF assms(2,1)])
  have "voting_epoch_height u = env_epoch_height e" using assms(2) by (rule ping_epoch)
  with None have "ping_voting e u = Inr u" by (simp add: ping_voting_def)
  with assms(2) have "vote e False v = vote e False u" by (simp add: vote_def)
  also have "\<dots> = Inr (revote (env_predecessor_account_id e) 0 u)"
    using vote_same_epoch [OF inv None, of e False] \<open>voting_epoch_height u = _\<close> voting_inv_fits [OF inv]
    by simp
  finally show ?thesis using None by simp
qed (use assms(2) in \<open>simp add: vote_def\<close>)

text \<open>Carol's host: 60 stake in all, of which alice has 10, bob 20 and carol 11.\<close>

definition stake_host :: "account_id \<Rightarrow> nat \<Rightarrow> host" where
  "stake_host who epoch = sample_host\<lparr>env_predecessor_account_id := who, env_epoch_height := epoch,
     env_block_timestamp := 77, env_validator_total_stake := 60,
     env_validator_stake := (\<lambda>a. if a = ''alice'' then 10 else if a = ''bob'' then 20
       else if a = ''carol'' then 11 else 0)\<rparr>"

definition sample_poll :: voting_contract where
  "sample_poll = \<lparr>votes = [(''alice'', 10), (''bob'', 20)], total_voted_stake = 30,
     poll_result = None, voting_epoch_height = 3\<rparr>"

lemmas poll_eval = vote_def ping_voting_def check_result_def sample_poll_def stake_host_def Let_def
  checked_add_def checked_mul_def checked_sub_def fits_def

lemma stake_host_adds_up: "stakes_add_up (stake_host who epoch)"
proof -
  let ?f = "\<lambda>a. if a = ''alice'' then 10 else if a = ''bob'' then 20 else if a = ''carol'' then 11 else 0 :: nat"
  have "sum_list (map ?f as) \<le> 60" if "distinct as" for as :: "string list"
  proof -
    let ?V = "{''alice'', ''bob'', ''carol''}"
    have "sum_list (map ?f as) = sum ?f (set as)" by (rule sum_list_distinct_conv_sum_set [OF that])
    also have "\<dots> = sum ?f (set as \<inter> ?V)" by (intro sum.mono_neutral_right) auto
    also have "\<dots> \<le> sum ?f ?V" by (intro sum_mono2) auto
    also have "\<dots> \<le> 60" by simp
    finally show ?thesis .
  qed
  then show ?thesis by (simp add: stakes_add_up_def stake_host_def fits_def)
qed

lemma sample_poll_steps:
  shows "new_voting sample_host = Inr \<lparr>votes = [], total_voted_stake = 0, poll_result = None, voting_epoch_height = 0\<rparr>"
    and "vote (stake_host ''alice'' 3) True
        \<lparr>votes = [], total_voted_stake = 0, poll_result = None, voting_epoch_height = 0\<rparr>
      = Inr \<lparr>votes = [(''alice'', 10)], total_voted_stake = 10, poll_result = None, voting_epoch_height = 3\<rparr>"
    and "vote (stake_host ''bob'' 3) True
        \<lparr>votes = [(''alice'', 10)], total_voted_stake = 10, poll_result = None, voting_epoch_height = 3\<rparr>
      = Inr sample_poll"
    and "vote (stake_host ''carol'' 3) True sample_poll
      = Inr \<lparr>votes = [(''alice'', 10), (''bob'', 20), (''carol'', 11)], total_voted_stake = 41,
          poll_result = Some 77, voting_epoch_height = 3\<rparr>"
  by (simp add: new_voting_def) (simp_all add: poll_eval cong: eval_cong)

lemma sample_poll_reached: "reach voting_init voting_step sample_poll"
proof -
  have "voting_init \<lparr>votes = [], total_voted_stake = 0, poll_result = None, voting_epoch_height = 0\<rparr>"
    using sample_poll_steps(1) unfolding voting_init_def by blast
  then have "reach voting_init voting_step \<lparr>votes = [], total_voted_stake = 0, poll_result = None,
      voting_epoch_height = 0\<rparr>" by (rule reach_init)
  then show ?thesis by (blast intro: reach_step step_vote sample_poll_steps(2,3))
qed

text \<open>
  C12. In every state that a deployed voting contract can reach, the tally is exactly the sum of the
  weights of the recorded votes, nobody is counted twice, and no vote of weight zero is kept. So the
  assertion \<open>invariant: voted stake is more than total voted stake\<close> of \<open>vote\<close> never fires: while
  the poll is open, anybody can withdraw its vote at any time, in the epoch of the last ping and in a later
  one. In a later one every other vote is first counted again with the voter's current stake (the
  stakes of the validators are assumed to add up to the total that the host reports, and not to
  exceed its number type); if this recount closes the poll, the withdrawal comes too late and is
  ignored, and otherwise what leaves the tally is exactly the weight recorded for the caller.
\<close>

theorem tally_is_the_sum_of_votes:
  assumes "reach voting_init voting_step v"
  shows "total_voted_stake v = (\<Sum>(a, s) \<leftarrow> votes v. s) \<and> distinct (map fst (votes v))
    \<and> (\<forall>(a, s) \<in> set (votes v). 0 < s)
    \<and> (poll_result v = None \<and> (voting_epoch_height v = env_epoch_height e \<or> stakes_add_up e) \<longrightarrow>
       (\<exists>u v'. ping_voting e v = Inr u
         \<and> get_votes u = (if voting_epoch_height v = env_epoch_height e then get_votes v
              else (\<lambda>a. if get_votes v a \<noteq> None \<and> 0 < env_validator_stake e a
                        then Some (env_validator_stake e a) else None))
         \<and> vote e False v = Inr v'
         \<and> (if poll_result u = None
            then poll_result v' = None \<and> get_votes v' = (get_votes u)(env_predecessor_account_id e := None)
              \<and> total_voted_stake v'
                + (case get_votes u (env_predecessor_account_id e) of Some s \<Rightarrow> s | None \<Rightarrow> 0)
                = total_voted_stake u
            else v' = u)))"
proof (intro conjI impI)
  have inv: "voting_inv v" using assms by (rule voting_invariant.reachable_inv)
  then show "total_voted_stake v = (\<Sum>(a, s) \<leftarrow> votes v. s)" "distinct (map fst (votes v))"
      "\<forall>(a, s) \<in> set (votes v). 0 < s"
    by (auto simp: voting_inv_def vote_sum_def case_prod_beta')
  assume "poll_result v = None \<and> (voting_epoch_height v = env_epoch_height e \<or> stakes_add_up e)"
  then obtain u where u: "ping_voting e v = Inr u" and "votes u =
      (if voting_epoch_height v = env_epoch_height e then votes v else recounted e (votes v))"
  proof (cases "voting_epoch_height v = env_epoch_height e")
    case True
    with \<open>poll_result v = None \<and> _\<close> show thesis by (intro that [of v]) (simp_all add: ping_voting_def)
  next
    case False
    with \<open>poll_result v = None \<and> _\<close> obtain u where "ping_voting e v = Inr u" "votes u = recounted e (votes v)"
      using ping_new_epoch [OF inv] by blast
    with False show thesis by (intro that [of u]) simp_all
  qed
  then have votes: "get_votes u = (if voting_epoch_height v = env_epoch_height e then get_votes v
      else (\<lambda>a. if get_votes v a \<noteq> None \<and> 0 < env_validator_stake e a
                then Some (env_validator_stake e a) else None))"
    using inv by (auto simp: get_votes_def recounted_votes voting_inv_def)
  let ?a = "env_predecessor_account_id e"
  have "voted_of ?a u \<le> total_voted_stake u"
    using ping_voting_inv [OF u inv] voted_le_sum by (simp add: voting_inv_def voted_of_def)
  then have "if poll_result u = None
      then poll_result (revote ?a 0 u) = None \<and> get_votes (revote ?a 0 u) = (get_votes u)(?a := None)
        \<and> total_voted_stake (revote ?a 0 u) + (case get_votes u ?a of Some s \<Rightarrow> s | None \<Rightarrow> 0)
          = total_voted_stake u
      else u = u"
    by (simp add: revote_def get_votes_def delete_conv' voted_of_def)
  with votes withdraw_after_ping [OF inv u] u show "\<exists>u v'. ping_voting e v = Inr u
         \<and> get_votes u = (if voting_epoch_height v = env_epoch_height e then get_votes v
              else (\<lambda>a. if get_votes v a \<noteq> None \<and> 0 < env_validator_stake e a
                        then Some (env_validator_stake e a) else None))
         \<and> vote e False v = Inr v'
         \<and> (if poll_result u = None
            then poll_result v' = None \<and> get_votes v' = (get_votes u)(?a := None)
              \<and> total_voted_stake v' + (case get_votes u ?a of Some s \<Rightarrow> s | None \<Rightarrow> 0)
                = total_voted_stake u
            else v' = u)"
    by (cases "poll_result u = None") auto
qed

theorem tally_is_the_sum_of_votes_witness:
  "\<exists>v'. vote (stake_host ''alice'' 4) False sample_poll = Inr v' \<and> get_votes v' = [''bob'' \<mapsto> 20]
     \<and> total_voted_stake v' = 20"
proof -
  let ?e = "stake_host ''alice'' 4" and ?u = "sample_poll\<lparr>voting_epoch_height := 4\<rparr>"
  have "poll_result sample_poll = None \<and> (voting_epoch_height sample_poll = env_epoch_height ?e \<or> stakes_add_up ?e)"
    using stake_host_adds_up by (simp add: sample_poll_def)
  moreover have u: "ping_voting ?e sample_poll = Inr ?u" by (simp add: poll_eval cong: eval_cong)
  moreover have "env_predecessor_account_id ?e = ''alice''" by (simp add: stake_host_def)
  ultimately obtain v' where "vote ?e False sample_poll = Inr v'"
      "if poll_result ?u = None
       then poll_result v' = None \<and> get_votes v' = (get_votes ?u)(''alice'' := None)
         \<and> total_voted_stake v' + (case get_votes ?u ''alice'' of Some s \<Rightarrow> s | None \<Rightarrow> 0) = total_voted_stake ?u
       else v' = ?u"
    using tally_is_the_sum_of_votes [OF sample_poll_reached, of ?e] by auto
  then show ?thesis by (auto simp: sample_poll_def get_votes_def)
qed

text \<open>
  The histories in which every call of an epoch sees the same total stake \<open>T epoch\<close>, as the host
  reports it. In them an open poll never has more than two thirds of the stake of its epoch.
\<close>

inductive epoch_step :: "(nat \<Rightarrow> nat) \<Rightarrow> voting_contract \<Rightarrow> voting_contract \<Rightarrow> bool" for T where
  epoch_ping: "ping_voting e v = Inr v' \<Longrightarrow> env_validator_total_stake e = T (env_epoch_height e)
     \<Longrightarrow> epoch_step T v v'"
| epoch_vote: "vote e b v = Inr v' \<Longrightarrow> env_validator_total_stake e = T (env_epoch_height e)
     \<Longrightarrow> epoch_step T v v'"

inductive_cases epoch_stepE: "epoch_step T v v'"

definition open_below :: "(nat \<Rightarrow> nat) \<Rightarrow> voting_contract \<Rightarrow> bool" where
  "open_below T v \<longleftrightarrow> (poll_result v = None \<longrightarrow> 3 * total_voted_stake v \<le> 2 * T (voting_epoch_height v))"

lemma ping_closes:
  assumes "ping_voting e v = Inr v'"
  shows "poll_result v = None
    \<and> poll_result v' = (if voting_epoch_height v \<noteq> env_epoch_height e
                           \<and> 2 * env_validator_total_stake e < 3 * total_voted_stake v'
                        then Some (env_block_timestamp e) else None)"
  using assms by (cases rule: ping_voting_cases) (auto simp: two_thirds)

lemma vote_closes:
  assumes "vote e b v = Inr v'"
  shows "poll_result v = None
    \<and> poll_result v' = (if (b \<or> voting_epoch_height v \<noteq> env_epoch_height e)
                           \<and> 2 * env_validator_total_stake e < 3 * total_voted_stake v'
                        then Some (env_block_timestamp e) else None)"
  using assms
proof (cases rule: vote_cases)
  case ended
  then show ?thesis using ping_closes [OF ended(1)] by (auto split: if_splits)
next
  case (counted u)
  then show ?thesis using ping_closes [OF counted(1)] by (auto simp: check_result_Inr two_thirds)
next
  case (withdrawn u)
  have "total_voted_stake v' \<le> total_voted_stake u" by (simp add: withdrawn(4) revote_def)
  then show ?thesis using ping_closes [OF withdrawn(1)] withdrawn(2-4) by (auto split: if_splits)
qed

lemma vote_epoch: "vote e b v = Inr v' \<Longrightarrow> voting_epoch_height v' = env_epoch_height e"
  by (erule vote_cases) (auto dest: ping_epoch simp: check_result_Inr)

lemma withdrawal_lowers:
  assumes "vote e False v = Inr v'" and "voting_epoch_height v = env_epoch_height e"
  shows "total_voted_stake v' \<le> total_voted_stake v"
  using assms(1)
proof (cases rule: vote_cases)
  case ended
  with ping_closes [OF ended(1)] assms(2) show ?thesis by simp
next
  case (withdrawn u)
  then show ?thesis using assms(2) by (auto simp: ping_voting_def revote_def split: if_splits)
qed simp

lemma closes_now:
  assumes "open_below T v" and "env_validator_total_stake e = T (env_epoch_height e)"
    and "vote e b v = Inr v' \<or> ping_voting e v = Inr v'"
  shows "poll_result v' = (if 2 * env_validator_total_stake e < 3 * total_voted_stake v'
    then Some (env_block_timestamp e) else None) \<and> voting_epoch_height v' = env_epoch_height e"
proof (cases "ping_voting e v = Inr v'")
  case True
  have "v' = v" if "voting_epoch_height v = env_epoch_height e"
    using True that by (auto simp: ping_voting_def)
  then show ?thesis using ping_closes [OF True] ping_epoch [OF True] assms(1,2)
    by (auto simp: open_below_def split: if_splits)
next
  case False
  then have v: "vote e b v = Inr v'" using assms(3) by simp
  have "3 * total_voted_stake v' \<le> 2 * env_validator_total_stake e"
    if "\<not> b" "voting_epoch_height v = env_epoch_height e"
    using withdrawal_lowers [of e v v'] v that vote_closes [OF v] assms(1,2) by (simp add: open_below_def)
  then show ?thesis using vote_closes [OF v] vote_epoch [OF v] by auto
qed

interpretation open_poll: inductive_invariant "epoch_step T" "open_below T" voting_init for T
proof unfold_locales
  fix s t assume "open_below T s" and "epoch_step T s t"
  then show "open_below T t"
    using closes_now [of T s] by (elim epoch_stepE) (fastforce simp: open_below_def split: if_splits)+
next
  fix s assume "voting_init s"
  then show "open_below T s" by (auto simp: voting_init_def new_voting_def open_below_def)
qed

text \<open>
  C13. The poll closes exactly on the call that makes the votes exceed two thirds of the total stake. Every
  accepted call starts from an open poll. It records the timestamp of its own block if it counted (a
  vote, or the recount of a new epoch) and more than two thirds of the total stake have voted after
  it, and leaves the poll open otherwise. When every call of an epoch sees the same total stake, the
  poll is thus closed after an accepted call, whatever it was, exactly if the votes after it are more than two thirds.
\<close>

theorem poll_closes_at_two_thirds:
  shows "(vote e b v = Inr v' \<longrightarrow> get_result v = None
           \<and> get_result v' = (if (b \<or> voting_epoch_height v \<noteq> env_epoch_height e)
                \<and> 2 * env_validator_total_stake e < 3 * total_voted_stake v'
              then Some (env_block_timestamp e) else None))
    \<and> (ping_voting e v = Inr v' \<longrightarrow> get_result v = None
           \<and> get_result v' = (if voting_epoch_height v \<noteq> env_epoch_height e
                \<and> 2 * env_validator_total_stake e < 3 * total_voted_stake v'
              then Some (env_block_timestamp e) else None))
    \<and> (reach voting_init (epoch_step T) v \<and> env_validator_total_stake e = T (env_epoch_height e)
        \<and> (vote e b v = Inr v' \<or> ping_voting e v = Inr v') \<longrightarrow>
         get_result v' = (if 2 * env_validator_total_stake e < 3 * total_voted_stake v'
           then Some (env_block_timestamp e) else None))"
  using vote_closes [of e b v v'] ping_closes [of e v v'] closes_now [of T v e b v'] open_poll.reachable_inv [of T v]
  unfolding get_result_def by blast

lemma sample_poll_epochs: "reach voting_init (epoch_step (\<lambda>_. 60)) sample_poll"
proof -
  have init: "voting_init \<lparr>votes = [], total_voted_stake = 0, poll_result = None, voting_epoch_height = 0\<rparr>"
    using sample_poll_steps(1) unfolding voting_init_def by blast
  have total: "env_validator_total_stake (stake_host who epoch) = 60" for who epoch by (simp add: stake_host_def)
  show ?thesis
  proof (rule reach_step [OF reach_step])
    show "reach voting_init (epoch_step (\<lambda>_. 60))
      \<lparr>votes = [], total_voted_stake = 0, poll_result = None, voting_epoch_height = 0\<rparr>"
      using init by (rule reach_init)
  qed (rule epoch_vote [OF sample_poll_steps(2) total] epoch_vote [OF sample_poll_steps(3) total])+
qed

theorem poll_closes_at_two_thirds_witness:
  "\<exists>v'. vote (stake_host ''carol'' 3) True sample_poll = Inr v' \<and> get_result v' = Some 77
     \<and> 2 * 60 < 3 * total_voted_stake v'"
  using poll_closes_at_two_thirds [of "stake_host ''carol'' 3" True sample_poll _ "\<lambda>_. 60"]
    sample_poll_steps(4) sample_poll_epochs
  by (simp add: stake_host_def get_result_def)

text \<open>
  The result of the poll is final: once a history of calls has reached a state with a result,
  every later call panics and the result of every later state is the same timestamp, so two
  answers of \<open>get_result\<close> never contradict each other. (\<open>vote\<close> panics as well: its early return
  on an ended poll comes after the \<open>ping\<close> that rejects one.)
\<close>

theorem poll_result_is_final:
  assumes "get_result v = Some r"
  shows "(voting_step\<^sup>*\<^sup>* v v' \<longrightarrow> get_result v' = Some r)
    \<and> ping_voting e v = Inl (Panic ''Voting has already ended'')
    \<and> vote e b v = Inl (Panic ''Voting has already ended'')"
  using poll.result_stays [OF _ assms] assms
  by (simp add: get_result_def ended_no_ping ended_no_vote)

theorem poll_result_is_final_witness:
  "vote (stake_host ''carol'' 3) False (sample_poll\<lparr>poll_result := Some 77\<rparr>)
     = Inl (Panic ''Voting has already ended'')"
  using poll_result_is_final [of "sample_poll\<lparr>poll_result := Some 77\<rparr>" 77] by (simp add: get_result_def)

end
