(* ===== verification/Multisig.thy ===== *)
theory Multisig
  imports Interfaces "HOL-Library.List_Lexorder" "HOL-Library.Char_ord"
begin

section \<open>The multisig contract (\<open>multisig/src/lib.rs\<close>)\<close>

text \<open>
  An account controlled by \<open>k\<close> of \<open>n\<close> members. Members add requests (a receiver and a list of
  actions); a request is executed by the confirmation that completes the required number.
  \<open>member.to_string()\<close> is the JSON serialisation of \<open>serde_json\<close>: it is the parameter \<open>ts\<close> of the
  model, and the theorems that need it say that it is injective. Sets and maps of the SDK
  (\<open>IterableSet\<close>, \<open>IterableMap\<close>, \<open>LookupMap\<close>, \<open>HashSet\<close>) are sets and maps, since the contract
  never depends on their iteration order. A \<open>Promise\<close> that a method drops is scheduled like one
  it returns, so every method returns the promises it created beside its value.
\<close>

subsection \<open>Data\<close>

definition DEFAULT_ALLOWANCE :: nat where "DEFAULT_ALLOWANCE = 0"
definition REQUEST_COOLDOWN :: nat where "REQUEST_COOLDOWN = 900000000000"
definition ACTIVE_REQUESTS_LIMIT :: nat where "ACTIVE_REQUESTS_LIMIT = 12"
definition MULTISIG_METHOD_NAMES :: string where
  "MULTISIG_METHOD_NAMES = ''add_request,delete_request,confirm,add_and_confirm_request''"

datatype multisig_member = AccessKey public_key | Account account_id

record function_call_permission =
  perm_allowance :: "nat option"
  perm_receiver_id :: account_id
  perm_method_names :: "string list"

datatype multisig_action =
    ATransfer nat
  | ACreateAccount
  | ADeployContract bytes
  | AddMember multisig_member
  | DeleteMember multisig_member
  | AddKey public_key "function_call_permission option"
  | AFunctionCall string bytes nat nat
  | SetNumConfirmations nat
  | SetActiveRequestsLimit nat

record multisig_request =
  receiver_id :: account_id
  actions :: "multisig_action list"

record request_with_signer =
  request :: multisig_request
  req_member :: multisig_member
  added_timestamp :: nat

record multisig_contract =
  members :: "multisig_member set"
  num_confirmations :: nat
  request_nonce :: nat
  requests :: "nat \<rightharpoonup> request_with_signer"
  confirmations :: "nat \<rightharpoonup> string set"
  num_requests_pk :: "string \<rightharpoonup> nat"
  active_requests_limit :: nat

text \<open>The derived order on members: keys before accounts, each by its text.\<close>

fun member_key :: "multisig_member \<Rightarrow> nat \<times> string" where
  "member_key (AccessKey k) = (0, k)"
| "member_key (Account a) = (1, a)"

lemma member_key_inject: "member_key x = member_key y \<longleftrightarrow> x = y"
  by (cases x; cases y) auto

instantiation multisig_member :: linorder
begin

definition less_multisig_member :: "multisig_member \<Rightarrow> multisig_member \<Rightarrow> bool" where
  "x < y \<longleftrightarrow> fst (member_key x) < fst (member_key y)
     \<or> fst (member_key x) = fst (member_key y) \<and> snd (member_key x) < snd (member_key y)"

definition less_eq_multisig_member :: "multisig_member \<Rightarrow> multisig_member \<Rightarrow> bool" where
  "x \<le> y \<longleftrightarrow> (x::multisig_member) < y \<or> x = y"

instance
proof
  fix x y z :: multisig_member
  show "x < y \<longleftrightarrow> x \<le> y \<and> \<not> y \<le> x"
    by (auto simp: less_multisig_member_def less_eq_multisig_member_def)
  show "x \<le> x" by (simp add: less_eq_multisig_member_def)
  show "x \<le> y \<Longrightarrow> y \<le> z \<Longrightarrow> x \<le> z"
    by (auto simp: less_multisig_member_def less_eq_multisig_member_def)
  show "x \<le> y \<Longrightarrow> y \<le> x \<Longrightarrow> x = y"
    by (auto simp: less_multisig_member_def less_eq_multisig_member_def)
  show "x \<le> y \<or> y \<le> x"
    by (cases x; cases y) (auto simp: less_multisig_member_def less_eq_multisig_member_def)
qed

end

subsection \<open>Helpers\<close>

type_synonym raw_call = "string \<times> bytes"
type_synonym effects = "raw_call promise list"

fun add_action :: "'c promise \<Rightarrow> 'c action \<Rightarrow> 'c promise" where
  "add_action (Promise r acts) a = Promise r (acts @ [a])"
| "add_action (Then p q) a = Then p (add_action q a)"

fun join :: "string list \<Rightarrow> string" where
  "join [] = ''''"
| "join [x] = x"
| "join (x # xs) = x @ '','' @ join xs"

definition allowance_of :: "host \<Rightarrow> nat \<Rightarrow> allowance" where
  "allowance_of e n = (case env_allowance_limited e n of Some a \<Rightarrow> a | None \<Rightarrow> Unlimited)"

definition current_member :: "host \<Rightarrow> multisig_contract \<Rightarrow> multisig_member option" where
  "current_member e m =
     (let member = (if env_current_account_id e = env_predecessor_account_id e
                    then AccessKey (env_signer_account_pk e)
                    else Account (env_predecessor_account_id e)) in
      if member \<in> members m then Some member else None)"

definition add_member ::
  "host \<Rightarrow> raw_call promise \<Rightarrow> multisig_member \<Rightarrow> multisig_contract
     \<Rightarrow> raw_call promise \<times> multisig_contract" where
  "add_member e promise member m =
     (let m = m\<lparr>members := insert member (members m)\<rparr> in
      case member of
        AccessKey public_key \<Rightarrow>
          (add_action promise (AddAccessKey public_key (allowance_of e DEFAULT_ALLOWANCE)
             (env_current_account_id e) MULTISIG_METHOD_NAMES), m)
      | Account _ \<Rightarrow> (promise, m))"

definition delete_member ::
  "(multisig_member \<Rightarrow> string) \<Rightarrow> raw_call promise \<Rightarrow> multisig_member \<Rightarrow> multisig_contract
     \<Rightarrow> (raw_call promise \<times> multisig_contract) res" where
  "delete_member ts promise member m =
     bindE (checked_sub (card (members m)) 1) (\<lambda>left.
     bindE (ensure (num_confirmations m \<le> left)
       ''Removing given member will make total number of members below number of confirmations'') (\<lambda>_.
     let outstanding = (\<lambda>k. case requests m k of Some r \<Rightarrow> req_member r = member | None \<Rightarrow> False);
         m = m\<lparr>confirmations := (\<lambda>k. if outstanding k then None else confirmations m k),
               requests := (\<lambda>k. if outstanding k then None else requests m k)\<rparr>;
         m = m\<lparr>num_requests_pk := (num_requests_pk m)(ts member := None)\<rparr>;
         m = m\<lparr>members := members m - {member}\<rparr> in
     Inr (case member of
            AccessKey public_key \<Rightarrow> (add_action promise (DeleteKey public_key), m)
          | Account _ \<Rightarrow> (promise, m))))"

definition remove_request ::
  "(multisig_member \<Rightarrow> string) \<Rightarrow> nat \<Rightarrow> multisig_contract
     \<Rightarrow> (multisig_request \<times> multisig_contract) res" where
  "remove_request ts request_id m =
     (let m = m\<lparr>confirmations := (confirmations m)(request_id := None)\<rparr> in
      bindE (expect (requests m request_id) ''Failed to remove existing element'') (\<lambda>rws.
      let m = m\<lparr>requests := (requests m)(request_id := None)\<rparr>;
          num = (case num_requests_pk m (ts (req_member rws)) of Some n \<Rightarrow> n | None \<Rightarrow> 0);
          num = (if 0 < num then num - 1 else num);
          m = m\<lparr>num_requests_pk := (num_requests_pk m)(ts (req_member rws) \<mapsto> num)\<rparr> in
      Inr (request rws, m)))"

definition assert_valid_request :: "host \<Rightarrow> nat \<Rightarrow> multisig_contract \<Rightarrow> unit res" where
  "assert_valid_request e request_id m =
     bindE (ensure (current_member e m \<noteq> None)
       ''Caller (predecessor or signer) is not a member of this multisig'') (\<lambda>_.
     bindE (ensure (requests m request_id \<noteq> None)
       ''No such request: either wrong number or already confirmed'') (\<lambda>_.
     ensure (confirmations m request_id \<noteq> None)
       ''Internal error: confirmations mismatch requests''))"

definition assert_self_request :: "host \<Rightarrow> account_id \<Rightarrow> unit res" where
  "assert_self_request e receiver =
     ensure (receiver = env_current_account_id e)
       ''This method only works when receiver_id is equal to current_account_id''"

definition assert_one_action_only :: "host \<Rightarrow> account_id \<Rightarrow> nat \<Rightarrow> unit res" where
  "assert_one_action_only e receiver num_actions =
     bindE (assert_self_request e receiver) (\<lambda>_.
     ensure (num_actions = 1) ''This method should be a separate request'')"

subsection \<open>Methods\<close>

fun add_members ::
  "host \<Rightarrow> raw_call promise \<Rightarrow> multisig_member list \<Rightarrow> multisig_contract
     \<Rightarrow> raw_call promise \<times> multisig_contract" where
  "add_members e promise [] m = (promise, m)"
| "add_members e promise (x # xs) m =
     (let (promise, m) = add_member e promise x m in add_members e promise xs m)"

definition new_multisig ::
  "host \<Rightarrow> multisig_member list \<Rightarrow> nat \<Rightarrow> (multisig_contract \<times> effects) res" where
  "new_multisig e mems num =
     bindE (ensure (num \<le> length mems)
       ''Members list must be equal or larger than number of confirmations'') (\<lambda>_.
     let m = \<lparr>members = {}, num_confirmations = num, request_nonce = 0, requests = Map.empty,
              confirmations = Map.empty, num_requests_pk = Map.empty,
              active_requests_limit = ACTIVE_REQUESTS_LIMIT\<rparr>;
         (promise, m) = add_members e (Promise (env_current_account_id e) []) mems m in
     Inr (m, [promise]))"

definition add_request ::
  "(multisig_member \<Rightarrow> string) \<Rightarrow> host \<Rightarrow> multisig_request \<Rightarrow> multisig_contract
     \<Rightarrow> (nat \<times> multisig_contract) res" where
  "add_request ts e req m =
     bindE (expect (current_member e m)
       ''Predecessor must be a member or transaction signed with key of given account'') (\<lambda>member.
     bindE (checked_add 32 (case num_requests_pk m (ts member) of Some n \<Rightarrow> n | None \<Rightarrow> 0) 1) (\<lambda>num.
     bindE (ensure (num \<le> active_requests_limit m)
       ''Account has too many active requests. Confirm or delete some.'') (\<lambda>_.
     let m = m\<lparr>num_requests_pk := (num_requests_pk m)(ts member \<mapsto> num)\<rparr>;
         added = \<lparr>request = req, req_member = member, added_timestamp = env_block_timestamp e\<rparr>;
         m = m\<lparr>requests := (requests m)(request_nonce m \<mapsto> added)\<rparr>;
         m = m\<lparr>confirmations := (confirmations m)(request_nonce m \<mapsto> {})\<rparr> in
     bindE (checked_add 32 (request_nonce m) 1) (\<lambda>nonce.
     let m = m\<lparr>request_nonce := nonce\<rparr> in
     bindE (checked_sub (request_nonce m) 1) (\<lambda>id. Inr (id, m))))))"

text \<open>The loop of \<open>execute_request\<close>; \<open>promise\<close> is the promise built so far.\<close>

fun execute_actions ::
  "(multisig_member \<Rightarrow> string) \<Rightarrow> host \<Rightarrow> account_id \<Rightarrow> nat \<Rightarrow> multisig_action list
     \<Rightarrow> raw_call promise \<Rightarrow> multisig_contract
     \<Rightarrow> (raw_call promise_or_value \<times> effects \<times> multisig_contract) res" where
  "execute_actions ts e receiver n [] promise m = Inr (PromiseRet promise, [promise], m)"
| "execute_actions ts e receiver n (ATransfer amount # as) promise m =
     execute_actions ts e receiver n as (add_action promise (Transfer amount)) m"
| "execute_actions ts e receiver n (ACreateAccount # as) promise m =
     execute_actions ts e receiver n as (add_action promise CreateAccount) m"
| "execute_actions ts e receiver n (ADeployContract code # as) promise m =
     execute_actions ts e receiver n as (add_action promise (DeployContract code)) m"
| "execute_actions ts e receiver n (AddMember member # as) promise m =
     bindE (assert_self_request e receiver) (\<lambda>_.
     let (promise, m) = add_member e promise member m in
     execute_actions ts e receiver n as promise m)"
| "execute_actions ts e receiver n (DeleteMember member # as) promise m =
     bindE (assert_self_request e receiver) (\<lambda>_.
     bindE (delete_member ts promise member m) (\<lambda>pm.
     execute_actions ts e receiver n as (fst pm) (snd pm)))"
| "execute_actions ts e receiver n (AddKey public_key permission # as) promise m =
     bindE (assert_self_request e receiver) (\<lambda>_.
     execute_actions ts e receiver n as
       (add_action promise
         (case permission of
            Some p \<Rightarrow>
              let al = (case perm_allowance p of Some a \<Rightarrow> a | None \<Rightarrow> DEFAULT_ALLOWANCE) in
              AddAccessKey public_key (allowance_of e al) (perm_receiver_id p) (join (perm_method_names p))
          | None \<Rightarrow> AddFullAccessKey public_key)) m)"
| "execute_actions ts e receiver n (AFunctionCall method_name args deposit gas # as) promise m =
     execute_actions ts e receiver n as
       (add_action promise (FunctionCall (method_name, args) deposit gas)) m"
| "execute_actions ts e receiver n (SetNumConfirmations num # as) promise m =
     bindE (assert_one_action_only e receiver n) (\<lambda>_.
     Inr (ValueRet True, [promise], m\<lparr>num_confirmations := num\<rparr>))"
| "execute_actions ts e receiver n (SetActiveRequestsLimit limit # as) promise m =
     bindE (assert_one_action_only e receiver n) (\<lambda>_.
     Inr (ValueRet True, [promise], m\<lparr>active_requests_limit := limit\<rparr>))"

definition execute_request ::
  "(multisig_member \<Rightarrow> string) \<Rightarrow> host \<Rightarrow> multisig_request \<Rightarrow> multisig_contract
     \<Rightarrow> (raw_call promise_or_value \<times> effects \<times> multisig_contract) res" where
  "execute_request ts e req m =
     execute_actions ts e (receiver_id req) (length (actions req)) (actions req)
       (Promise (receiver_id req) []) m"

definition confirm ::
  "(multisig_member \<Rightarrow> string) \<Rightarrow> host \<Rightarrow> nat \<Rightarrow> multisig_contract
     \<Rightarrow> (raw_call promise_or_value \<times> effects \<times> multisig_contract) res" where
  "confirm ts e request_id m =
     bindE (assert_valid_request e request_id m) (\<lambda>_.
     bindE (expect (current_member e m) ''Must be validated above'') (\<lambda>member.
     bindE (unwrap (confirmations m request_id)) (\<lambda>confs.
     bindE (ensure (ts member \<notin> confs) ''Already confirmed this request with this key'') (\<lambda>_.
     bindE (checked_add 32 (card confs mod 2 ^ 32) 1) (\<lambda>num.
     if num_confirmations m \<le> num then
       bindE (remove_request ts request_id m) (\<lambda>rm. execute_request ts e (fst rm) (snd rm))
     else
       Inr (ValueRet True, [],
         m\<lparr>confirmations := (confirmations m)(request_id \<mapsto> insert (ts member) confs)\<rparr>))))))"

definition add_request_and_confirm ::
  "(multisig_member \<Rightarrow> string) \<Rightarrow> host \<Rightarrow> multisig_request \<Rightarrow> multisig_contract
     \<Rightarrow> (nat \<times> effects \<times> multisig_contract) res" where
  "add_request_and_confirm ts e req m =
     bindE (add_request ts e req m) (\<lambda>(request_id, m).
     bindE (confirm ts e request_id m) (\<lambda>(_, ps, m).
     Inr (request_id, ps, m)))"

definition delete_request ::
  "(multisig_member \<Rightarrow> string) \<Rightarrow> host \<Rightarrow> nat \<Rightarrow> multisig_contract \<Rightarrow> multisig_contract res" where
  "delete_request ts e request_id m =
     bindE (assert_valid_request e request_id m) (\<lambda>_.
     bindE (expect (requests m request_id) ''No such request'') (\<lambda>rws.
     bindE (checked_add 64 (added_timestamp rws) REQUEST_COOLDOWN) (\<lambda>until.
     bindE (ensure (until < env_block_timestamp e)
       ''Request cannot be deleted immediately after creation.'') (\<lambda>_.
     bindE (remove_request ts request_id m) (\<lambda>rm. Inr (snd rm))))))"

subsubsection \<open>Views\<close>

definition get_members :: "multisig_contract \<Rightarrow> multisig_member set" where
  "get_members m = members m"

definition get_request :: "nat \<Rightarrow> multisig_contract \<Rightarrow> multisig_request res" where
  "get_request request_id m =
     bindE (expect (requests m request_id) ''No such request'') (\<lambda>r. Inr (request r))"

definition get_num_requests_per_member ::
  "(multisig_member \<Rightarrow> string) \<Rightarrow> multisig_member \<Rightarrow> multisig_contract \<Rightarrow> nat" where
  "get_num_requests_per_member ts member m =
     (case num_requests_pk m (ts member) of Some n \<Rightarrow> n | None \<Rightarrow> 0)"

definition list_request_ids :: "multisig_contract \<Rightarrow> nat set" where
  "list_request_ids m = dom (requests m)"

definition get_confirmations :: "nat \<Rightarrow> multisig_contract \<Rightarrow> string set res" where
  "get_confirmations request_id m = expect (confirmations m request_id) ''No such request''"

definition get_num_confirmations :: "multisig_contract \<Rightarrow> nat" where
  "get_num_confirmations m = num_confirmations m"

definition get_request_nonce :: "multisig_contract \<Rightarrow> nat" where
  "get_request_nonce m = request_nonce m"

end
