(* ===== verification/MultisigTheorems.thy ===== *)
theory MultisigTheorems
  imports Multisig
begin

section \<open>Properties of the multisig contract\<close>

subsection \<open>Messages and histories\<close>

text \<open>
  The exported methods that change the state as one type of messages. \<open>logged_step\<close> runs a message
  and records who confirmed which request: the history against which the quorum is stated.
\<close>

datatype multisig_msg =
    Add_request multisig_request
  | Add_request_and_confirm multisig_request
  | Confirm nat
  | Delete_request nat

fun multisig_exec ::
  "(multisig_member \<Rightarrow> string) \<Rightarrow> host \<Rightarrow> multisig_msg \<Rightarrow> multisig_contract
     \<Rightarrow> (effects \<times> multisig_contract) res" where
  "multisig_exec ts e (Add_request req) m =
     bindE (add_request ts e req m) (\<lambda>(_, m). Inr ([], m))"
| "multisig_exec ts e (Add_request_and_confirm req) m =
     bindE (add_request_and_confirm ts e req m) (\<lambda>(_, ps, m). Inr (ps, m))"
| "multisig_exec ts e (Confirm k) m = bindE (confirm ts e k m) (\<lambda>(_, ps, m). Inr (ps, m))"
| "multisig_exec ts e (Delete_request k) m =
     bindE (delete_request ts e k m) (\<lambda>m. Inr ([], m))"

inductive multisig_step ::
  "(multisig_member \<Rightarrow> string) \<Rightarrow> multisig_contract \<Rightarrow> multisig_contract \<Rightarrow> bool" for ts where
  multisig_step_exec: "multisig_exec ts e msg m = Inr (ps, m') \<Longrightarrow> multisig_step ts m m'"

inductive_cases multisig_stepE: "multisig_step ts m m'"

text \<open>
  The request that a message confirms: the pending one with this ID, or the one that it adds under the
  next ID. A confirmation of the log is the ID, the contents of the request and who confirmed it.
\<close>

fun confirmed_request :: "multisig_msg \<Rightarrow> multisig_contract \<Rightarrow> (nat \<times> multisig_request) option" where
  "confirmed_request (Confirm k) m = map_option (\<lambda>r. (k, request r)) (requests m k)"
| "confirmed_request (Add_request_and_confirm req) m = Some (request_nonce m, req)"
| "confirmed_request _ m = None"

type_synonym confirmation_log = "((nat \<times> multisig_request) \<times> string) set"

definition confirmed_by ::
  "(multisig_member \<Rightarrow> string) \<Rightarrow> host \<Rightarrow> multisig_msg \<Rightarrow> multisig_contract \<Rightarrow> confirmation_log" where
  "confirmed_by ts e msg m =
     (case (confirmed_request msg m, current_member e m) of
        (Some kr, Some x) \<Rightarrow> {(kr, ts x)}
      | _ \<Rightarrow> {})"

inductive logged_step ::
  "(multisig_member \<Rightarrow> string) \<Rightarrow> multisig_contract \<times> confirmation_log
     \<Rightarrow> multisig_contract \<times> confirmation_log \<Rightarrow> bool" for ts where
  "multisig_exec ts e msg m = Inr (ps, m')
    \<Longrightarrow> logged_step ts (m, L) (m', L \<union> confirmed_by ts e msg m)"

inductive_cases logged_stepE: "logged_step ts s s'"

subsection \<open>The operations, inverted\<close>

definition pk_count :: "(multisig_member \<Rightarrow> string) \<Rightarrow> multisig_contract \<Rightarrow> multisig_member \<Rightarrow> nat" where
  "pk_count ts m x = (case num_requests_pk m (ts x) of Some n \<Rightarrow> n | None \<Rightarrow> 0)"

definition requests_of :: "multisig_contract \<Rightarrow> multisig_member \<Rightarrow> nat set" where
  "requests_of m x = {k. \<exists>r. requests m k = Some r \<and> req_member r = x}"

lemma current_memberD: "current_member e m = Some x \<Longrightarrow> x \<in> members m"
  by (auto simp: current_member_def Let_def split: if_splits)

lemma add_requestE:
  assumes "add_request ts e req m = Inr (k, m')"
  obtains x where "current_member e m = Some x" "pk_count ts m x + 1 \<le> active_requests_limit m"
    "k = request_nonce m" "fits 32 (request_nonce m + 1)"
    "m' = m\<lparr>num_requests_pk := (num_requests_pk m)(ts x \<mapsto> pk_count ts m x + 1),
        requests := (requests m)(request_nonce m \<mapsto>
           \<lparr>request = req, req_member = x, added_timestamp = env_block_timestamp e\<rparr>),
        confirmations := (confirmations m)(request_nonce m \<mapsto> {}),
        request_nonce := request_nonce m + 1\<rparr>"
  using assms by (auto simp: add_request_def pk_count_def Let_def)

definition removed :: "(multisig_member \<Rightarrow> string) \<Rightarrow> nat \<Rightarrow> request_with_signer \<Rightarrow> multisig_contract
    \<Rightarrow> multisig_contract" where
  "removed ts k r m = m\<lparr>confirmations := (confirmations m)(k := None),
      requests := (requests m)(k := None),
      num_requests_pk := (num_requests_pk m)(ts (req_member r) \<mapsto> pk_count ts m (req_member r) - 1)\<rparr>"

lemma remove_request_Inr:
  "remove_request ts k m = Inr z \<longleftrightarrow>
     (\<exists>r. requests m k = Some r \<and> z = (request r, removed ts k r m))"
  by (cases "pk_count ts m (req_member (the (requests m k)))")
     (auto simp: remove_request_def removed_def pk_count_def Let_def)

lemma removed_simps [simp]:
  fixes m :: multisig_contract
  shows "members (removed ts k r m) = members m"
    and "num_confirmations (removed ts k r m) = num_confirmations m"
    and "request_nonce (removed ts k r m) = request_nonce m"
    and "requests (removed ts k r m) = (requests m)(k := None)"
    and "confirmations (removed ts k r m) = (confirmations m)(k := None)"
    and "active_requests_limit (removed ts k r m) = active_requests_limit m"
  by (simp_all add: removed_def)

lemma confirmE:
  assumes "confirm ts e k m = Inr (v, ps, m')"
  obtains (recorded) x C r where "current_member e m = Some x" "requests m k = Some r"
      "confirmations m k = Some C" "ts x \<notin> C" "card C mod 2 ^ 32 + 1 < num_confirmations m"
      "v = ValueRet True" "ps = []"
      "m' = m\<lparr>confirmations := (confirmations m)(k \<mapsto> insert (ts x) C)\<rparr>"
  | (executed) x C r where "current_member e m = Some x" "requests m k = Some r"
      "confirmations m k = Some C" "ts x \<notin> C" "num_confirmations m \<le> card C mod 2 ^ 32 + 1"
      "execute_request ts e (request r) (removed ts k r m) = Inr (v, ps, m')"
proof -
  from assms obtain x C r where c: "current_member e m = Some x" "requests m k = Some r"
      "confirmations m k = Some C" "ts x \<notin> C" "fits 32 (card C mod 2 ^ 32 + 1)"
    by (auto simp: confirm_def assert_valid_request_def)
  show thesis
  proof (cases "num_confirmations m \<le> card C mod 2 ^ 32 + 1")
    case True
    then have "execute_request ts e (request r) (removed ts k r m) = Inr (v, ps, m')"
      using assms c by (auto simp: confirm_def assert_valid_request_def remove_request_Inr)
    with c True show thesis by (intro executed)
  next
    case False
    then have "v = ValueRet True \<and> ps = [] \<and> m' = m\<lparr>confirmations := (confirmations m)(k \<mapsto> insert (ts x) C)\<rparr>"
      using assms c by (auto simp: confirm_def assert_valid_request_def)
    with c False show thesis by (intro recorded) auto
  qed
qed

lemma delete_requestE:
  assumes "delete_request ts e k m = Inr m'"
  obtains x r where "current_member e m = Some x" "requests m k = Some r"
    "added_timestamp r + REQUEST_COOLDOWN < env_block_timestamp e" "m' = removed ts k r m"
  using assms by (auto simp: delete_request_def assert_valid_request_def remove_request_Inr)

lemma add_request_and_confirmE:
  assumes "add_request_and_confirm ts e req m = Inr (k, ps, m')"
  obtains m1 v where "add_request ts e req m = Inr (k, m1)" "confirm ts e k m1 = Inr (v, ps, m')"
  using assms by (auto simp: add_request_and_confirm_def)

text \<open>Every message is an addition, a confirmation, both, or a deletion.\<close>

lemma multisig_exec_cases:
  assumes "multisig_exec ts e msg m = Inr (ps, m')"
  obtains (added) req k where "msg = Add_request req" "add_request ts e req m = Inr (k, m')" "ps = []"
  | (both) req k m1 v where "msg = Add_request_and_confirm req" "add_request ts e req m = Inr (k, m1)"
      "confirm ts e k m1 = Inr (v, ps, m')"
  | (confirmed) k v where "msg = Confirm k" "confirm ts e k m = Inr (v, ps, m')"
  | (deleted) k where "msg = Delete_request k" "delete_request ts e k m = Inr m'" "ps = []"
  using assms by (cases msg) (auto elim!: add_request_and_confirmE)

subsection \<open>The invariant\<close>

definition multisig_inv :: "(multisig_member \<Rightarrow> string) \<Rightarrow> multisig_contract \<Rightarrow> bool" where
  "multisig_inv ts m \<longleftrightarrow> inj ts \<and> finite (members m) \<and> finite (dom (requests m))
     \<and> dom (confirmations m) = dom (requests m)
     \<and> (\<forall>k r. requests m k = Some r \<longrightarrow> k < request_nonce m \<and> req_member r \<in> members m)
     \<and> (\<forall>x. pk_count ts m x = card (requests_of m x))
     \<and> (\<forall>k C. confirmations m k = Some C \<longrightarrow> finite C)"

lemma requests_of_sub: "requests_of m x \<subseteq> dom (requests m)"
  by (auto simp: requests_of_def)

lemma requests_of_removed:
  assumes "requests m k = Some r" and "finite (dom (requests m))"
  shows "card (requests_of (removed ts k r m) x) =
    (if x = req_member r then card (requests_of m x) - 1 else card (requests_of m x))"
proof -
  have "requests_of (removed ts k r m) x = requests_of m x - {k}"
    by (auto simp: requests_of_def split: if_splits)
  moreover have "k \<in> requests_of m x \<longleftrightarrow> x = req_member r"
    using assms(1) by (auto simp: requests_of_def)
  moreover have "finite (requests_of m x)"
    using assms(2) requests_of_sub by (rule rev_finite_subset)
  ultimately show ?thesis by (cases "x = req_member r") (simp_all add: card_Diff_singleton)
qed

lemma pk_count_removed:
  "inj ts \<Longrightarrow> pk_count ts (removed ts k r m) x =
    (if x = req_member r then pk_count ts m x - 1 else pk_count ts m x)"
  by (auto simp: pk_count_def removed_def dest: injD)

lemma removed_inv:
  assumes "multisig_inv ts m" and "requests m k = Some r"
  shows "multisig_inv ts (removed ts k r m)"
  using assms
  by (auto simp: multisig_inv_def pk_count_removed requests_of_removed split: if_splits)

lemma add_request_inv:
  assumes "add_request ts e req m = Inr (k, m')" and inv: "multisig_inv ts m"
  shows "multisig_inv ts m'"
  using assms(1)
proof (cases rule: add_requestE)
  case (1 x)
  let ?n = "request_nonce m"
  have new: "requests m ?n = None"
    using inv unfolding multisig_inv_def by (metis less_irrefl not_None_eq)
  have fin: "finite (requests_of m y)" for y
    using inv requests_of_sub by (auto simp: multisig_inv_def intro: finite_subset)
  have "requests_of m' y = (if y = x then insert ?n (requests_of m y) else requests_of m y)" for y
    using new by (auto simp: 1 requests_of_def)
  moreover have "?n \<notin> requests_of m y" for y using new by (auto simp: requests_of_def)
  moreover have "pk_count ts m' y = (if y = x then pk_count ts m y + 1 else pk_count ts m y)" for y
    using inv by (auto simp: 1 multisig_inv_def pk_count_def dest: injD)
  ultimately have "pk_count ts m' y = card (requests_of m' y)" for y
    using inv fin by (simp add: multisig_inv_def)
  then show ?thesis
    using inv current_memberD [OF 1(1)] by (auto simp: multisig_inv_def 1 less_SucI)
qed

lemma add_member_snd [simp]: "snd (add_member e p x m) = m\<lparr>members := insert x (members m)\<rparr>"
  by (cases x) (simp_all add: add_member_def)

lemma insert_member_inv:
  "multisig_inv ts m \<Longrightarrow> multisig_inv ts (m\<lparr>members := insert x (members m)\<rparr>)"
  by (auto simp: multisig_inv_def pk_count_def requests_of_def)

text \<open>What \<open>delete_member\<close> leaves behind.\<close>

definition without_member :: "(multisig_member \<Rightarrow> string) \<Rightarrow> multisig_member \<Rightarrow> multisig_contract
    \<Rightarrow> multisig_contract" where
  "without_member ts x m = m\<lparr>
     confirmations := (\<lambda>k. if k \<in> requests_of m x then None else confirmations m k),
     requests := (\<lambda>k. if k \<in> requests_of m x then None else requests m k),
     num_requests_pk := (num_requests_pk m)(ts x := None),
     members := members m - {x}\<rparr>"

lemma outstanding_iff:
  "(case requests m k of Some r \<Rightarrow> req_member r = x | None \<Rightarrow> False) \<longleftrightarrow> k \<in> requests_of m x"
  by (auto simp: requests_of_def split: option.splits)

lemma delete_memberE:
  assumes "delete_member ts p x m = Inr (p', m')"
  shows "num_confirmations m < card (members m) \<and> m' = without_member ts x m
    \<and> p' = (case x of AccessKey pk \<Rightarrow> add_action p (DeleteKey pk) | Account a \<Rightarrow> p)"
  using assms
  by (auto simp: delete_member_def Let_def outstanding_iff without_member_def
      split: multisig_member.splits)

lemma without_member_inv:
  assumes "multisig_inv ts m"
  shows "multisig_inv ts (without_member ts x m)"
proof -
  let ?m = "without_member ts x m"
  have "requests_of ?m y = (if y = x then {} else requests_of m y)" for y
    by (auto simp: requests_of_def without_member_def)
  moreover have "pk_count ts ?m y = (if y = x then 0 else pk_count ts m y)" for y
    using assms by (auto simp: pk_count_def without_member_def multisig_inv_def dest: injD)
  ultimately have "pk_count ts ?m y = card (requests_of ?m y)" for y
    using assms by (simp add: multisig_inv_def)
  moreover have "dom (confirmations ?m) = dom (requests ?m)"
  proof -
    have "dom (confirmations ?m) = dom (confirmations m) - requests_of m x"
      and "dom (requests ?m) = dom (requests m) - requests_of m x"
      by (auto simp: without_member_def split: if_splits)
    then show ?thesis using assms by (simp add: multisig_inv_def)
  qed
  moreover have "finite (dom (requests ?m))"
    using assms by (auto simp: multisig_inv_def without_member_def
        intro: finite_subset [of _ "dom (requests m)"] split: if_splits)
  ultimately show ?thesis
    using assms by (auto simp: multisig_inv_def without_member_def requests_of_def split: if_splits)
qed

text \<open>
  The execution of a request as a fold: what each action does to the contract and which actions
  it puts on the promise.
\<close>

fun act_state :: "(multisig_member \<Rightarrow> string) \<Rightarrow> multisig_action \<Rightarrow> multisig_contract \<Rightarrow> multisig_contract" where
  "act_state ts (AddMember x) m = m\<lparr>members := insert x (members m)\<rparr>"
| "act_state ts (DeleteMember x) m = without_member ts x m"
| "act_state ts (SetNumConfirmations num) m = m\<lparr>num_confirmations := num\<rparr>"
| "act_state ts (SetActiveRequestsLimit limit) m = m\<lparr>active_requests_limit := limit\<rparr>"
| "act_state ts _ m = m"

fun act_sent :: "host \<Rightarrow> multisig_action \<Rightarrow> raw_call action list" where
  "act_sent e (ATransfer amount) = [Transfer amount]"
| "act_sent e ACreateAccount = [CreateAccount]"
| "act_sent e (ADeployContract code) = [DeployContract code]"
| "act_sent e (AddMember (AccessKey pk)) =
     [AddAccessKey pk (allowance_of e DEFAULT_ALLOWANCE) (env_current_account_id e) MULTISIG_METHOD_NAMES]"
| "act_sent e (DeleteMember (AccessKey pk)) = [DeleteKey pk]"
| "act_sent e (AddKey pk None) = [AddFullAccessKey pk]"
| "act_sent e (AddKey pk (Some p)) =
     [AddAccessKey pk (allowance_of e (case perm_allowance p of Some a \<Rightarrow> a | None \<Rightarrow> DEFAULT_ALLOWANCE))
        (perm_receiver_id p) (join (perm_method_names p))]"
| "act_sent e (AFunctionCall name args deposit gas) = [FunctionCall (name, args) deposit gas]"
| "act_sent e _ = []"

fun privileged :: "multisig_action \<Rightarrow> bool" where
  "privileged (AddMember x) = True"
| "privileged (DeleteMember x) = True"
| "privileged (AddKey pk p) = True"
| "privileged (SetNumConfirmations n) = True"
| "privileged (SetActiveRequestsLimit n) = True"
| "privileged _ = False"

lemma privileged_act_state: "\<not> privileged a \<Longrightarrow> act_state ts a m = m"
  by (cases a) auto

fun setting :: "multisig_action \<Rightarrow> bool" where
  "setting (SetNumConfirmations n) = True"
| "setting (SetActiveRequestsLimit n) = True"
| "setting _ = False"

lemma setting_privileged: "setting a \<Longrightarrow> privileged a"
  by (cases a) auto

lemma unprivileged_fold: "\<forall>a \<in> set acts. \<not> privileged a \<Longrightarrow> fold (act_state ts) acts n = n"
  by (induction acts) (auto simp: privileged_act_state)

lemma execute_AddMember [simp]:
  "execute_actions ts e receiver n (AddMember x # as) promise m =
     bindE (assert_self_request e receiver) (\<lambda>_.
     execute_actions ts e receiver n as (fst (add_member e promise x m))
       (m\<lparr>members := insert x (members m)\<rparr>))"
  by (simp add: split_beta)

declare execute_actions.simps(5) [simp del]

lemma assert_self_request_Inr [simp]:
  "assert_self_request e rcv = Inr u \<longleftrightarrow> rcv = env_current_account_id e"
  by (simp add: assert_self_request_def)

lemma assert_one_action_only_Inr [simp]:
  "assert_one_action_only e rcv n = Inr u \<longleftrightarrow> rcv = env_current_account_id e \<and> n = 1"
  by (auto simp: assert_one_action_only_def)

lemma add_member_fst:
  "fst (add_member e (Promise r acc) x m) = Promise r (acc @ act_sent e (AddMember x))"
  by (cases x) (simp_all add: add_member_def)

definition may_delete :: "multisig_action \<Rightarrow> multisig_contract \<Rightarrow> bool" where
  "may_delete a m \<longleftrightarrow> (\<forall>x. a = DeleteMember x \<longrightarrow> num_confirmations m < card (members m))"

lemma execute_actions_Cons:
  assumes "execute_actions ts e rcv n (a # acts) (Promise r acc) m = Inr (v, ps, m')"
  shows "(privileged a \<longrightarrow> rcv = env_current_account_id e) \<and> may_delete a m
    \<and> (setting a \<longrightarrow> n = 1 \<and> v = ValueRet True \<and> ps = [Promise r acc] \<and> m' = act_state ts a m)
    \<and> (\<not> setting a \<longrightarrow> execute_actions ts e rcv n acts (Promise r (acc @ act_sent e a))
      (act_state ts a m) = Inr (v, ps, m'))"
proof (cases a)
  case (DeleteMember x)
  then show ?thesis using assms
    by (cases x) (auto dest!: delete_memberE simp: may_delete_def)
next
  case (AddKey pk p)
  then show ?thesis using assms by (cases p) (auto simp: may_delete_def Let_def)
qed (use assms in \<open>auto simp: add_member_fst may_delete_def\<close>)

lemma setting_sends_nothing [simp]: "setting a \<Longrightarrow> act_sent e a = []"
  by (cases a) auto

lemma execute_actions_result:
  "execute_actions ts e rcv n acts (Promise r acc) m = Inr (v, ps, m') \<Longrightarrow> n = 1 \<longrightarrow> length acts \<le> 1
    \<Longrightarrow> m' = fold (act_state ts) acts m \<and> ps = [Promise r (acc @ concat (map (act_sent e) acts))]
      \<and> (\<forall>a \<in> set acts. privileged a \<longrightarrow> rcv = env_current_account_id e)
      \<and> (v = PromiseRet (hd ps) \<or> v = ValueRet True \<and> n = 1 \<and> (\<exists>a \<in> set acts. setting a))"
proof (induction acts arbitrary: acc m)
  case (Cons a acts)
  note step = execute_actions_Cons [OF Cons.prems(1)]
  show ?case
  proof (cases "setting a")
    case True
    with step Cons.prems(2) show ?thesis by auto
  next
    case False
    with step Cons.prems(2) Cons.IH [of "acc @ act_sent e a" "act_state ts a m"] show ?thesis by auto
  qed
qed auto

lemma execute_requestE:
  assumes "execute_request ts e req m = Inr (v, ps, m')"
  shows "m' = fold (act_state ts) (actions req) m"
    and "ps = [Promise (receiver_id req) (concat (map (act_sent e) (actions req)))]"
    and "a \<in> set (actions req) \<Longrightarrow> privileged a \<Longrightarrow> receiver_id req = env_current_account_id e"
    and "v = PromiseRet (hd ps) \<or> v = ValueRet True \<and> (\<exists>a. setting a \<and> actions req = [a])"
proof -
  have "length (actions req) = 1 \<longrightarrow> length (actions req) \<le> 1" by simp
  note r = execute_actions_result [OF assms [unfolded execute_request_def] this]
  show "m' = fold (act_state ts) (actions req) m"
    and "ps = [Promise (receiver_id req) (concat (map (act_sent e) (actions req)))]"
    and "a \<in> set (actions req) \<Longrightarrow> privileged a \<Longrightarrow> receiver_id req = env_current_account_id e"
    and "v = PromiseRet (hd ps) \<or> v = ValueRet True \<and> (\<exists>a. setting a \<and> actions req = [a])"
    using r by (auto simp: length_Suc_conv)
qed

lemma act_state_inv: "multisig_inv ts m \<Longrightarrow> multisig_inv ts (act_state ts a m)"
  by (cases a) (auto intro: insert_member_inv without_member_inv,
    simp_all add: multisig_inv_def pk_count_def requests_of_def)

lemma fold_act_state_inv: "multisig_inv ts m \<Longrightarrow> multisig_inv ts (fold (act_state ts) acts m)"
  by (induction acts arbitrary: m) (auto intro: act_state_inv)

lemma confirm_inv:
  assumes "confirm ts e k m = Inr (v, ps, m')" and "multisig_inv ts m"
  shows "multisig_inv ts m'"
  using assms(1)
proof (cases rule: confirmE)
  case (recorded x C r)
  then show ?thesis
    using assms(2) by (auto simp: multisig_inv_def pk_count_def requests_of_def split: if_splits)
next
  case (executed x C r)
  then show ?thesis using removed_inv [OF assms(2)] fold_act_state_inv
    by (auto dest!: execute_requestE(1))
qed

lemma multisig_exec_inv:
  "multisig_exec ts e msg m = Inr (ps, m') \<Longrightarrow> multisig_inv ts m \<Longrightarrow> multisig_inv ts m'"
  by (erule multisig_exec_cases)
    (auto intro: confirm_inv add_request_inv removed_inv elim!: delete_requestE)

lemma add_members_snd [simp]:
  "snd (add_members e p xs m) = m\<lparr>members := members m \<union> set xs\<rparr>"
  by (induction xs arbitrary: p m) (simp_all add: split_beta)

lemma new_multisigE:
  assumes "new_multisig e mems num = Inr (m, ps)"
  shows "num \<le> length mems \<and> m = \<lparr>members = set mems, num_confirmations = num, request_nonce = 0,
    requests = Map.empty, confirmations = Map.empty, num_requests_pk = Map.empty,
    active_requests_limit = ACTIVE_REQUESTS_LIMIT\<rparr>"
  using assms by (auto simp: new_multisig_def split_beta Let_def)

definition multisig_init :: "(multisig_member \<Rightarrow> string) \<Rightarrow> multisig_contract \<Rightarrow> bool" where
  "multisig_init ts m \<longleftrightarrow> inj ts \<and> (\<exists>e mems num ps. new_multisig e mems num = Inr (m, ps))"

lemma multisig_init_inv: "multisig_init ts m \<Longrightarrow> multisig_inv ts m"
  by (auto simp: multisig_init_def multisig_inv_def pk_count_def requests_of_def dest!: new_multisigE)

interpretation multisig_invariant:
  inductive_invariant "multisig_step ts" "multisig_inv ts" "multisig_init ts" for ts
  by unfold_locales (auto elim!: multisig_stepE intro: multisig_exec_inv multisig_init_inv)

subsection \<open>Requests and confirmations only leave by removal\<close>

lemma fold_act_requests: "requests (fold (act_state ts) acts m) \<subseteq>\<^sub>m requests m"
proof (induction acts arbitrary: m)
  case (Cons a acts)
  have "requests (act_state ts a m) \<subseteq>\<^sub>m requests m"
    by (cases a) (auto simp: map_le_def without_member_def)
  with Cons show ?case by (auto intro: map_le_trans)
qed simp

lemma fold_act_confirmations: "confirmations (fold (act_state ts) acts m) \<subseteq>\<^sub>m confirmations m"
proof (induction acts arbitrary: m)
  case (Cons a acts)
  have "confirmations (act_state ts a m) \<subseteq>\<^sub>m confirmations m"
    by (cases a) (auto simp: map_le_def without_member_def)
  with Cons show ?case by (auto intro: map_le_trans)
qed simp

lemma map_le_None: "f \<subseteq>\<^sub>m g \<Longrightarrow> g x = None \<Longrightarrow> f x = None"
  by (metis domIff map_le_def)

lemma map_le_Some: "f \<subseteq>\<^sub>m g \<Longrightarrow> f x = Some y \<Longrightarrow> g x = Some y"
  by (metis domI map_le_def)

lemma executed_requestE:
  assumes "execute_request ts e (request r) (removed ts k r m) = Inr (v, ps, m')"
  shows "requests m' k = None" and "confirmations m' \<subseteq>\<^sub>m confirmations m"
proof -
  have m': "m' = fold (act_state ts) (actions (request r)) (removed ts k r m)"
    using assms by (rule execute_requestE(1))
  show "requests m' k = None"
    unfolding m' by (rule map_le_None [OF fold_act_requests]) simp
  have "confirmations (removed ts k r m) \<subseteq>\<^sub>m confirmations m"
    by (auto simp: map_le_def)
  then show "confirmations m' \<subseteq>\<^sub>m confirmations m"
    using fold_act_confirmations map_le_trans unfolding m' by blast
qed

lemma removed_confirmations: "confirmations (removed ts k r m) \<subseteq>\<^sub>m confirmations m"
  by (simp add: map_le_def)

text \<open>\<open>confs_in S m\<close>: every recorded confirmation of request \<open>k\<close> is in \<open>S k\<close>.\<close>

definition confs_in :: "(nat \<Rightarrow> string set) \<Rightarrow> multisig_contract \<Rightarrow> bool" where
  "confs_in S m \<longleftrightarrow> (\<forall>k C. confirmations m k = Some C \<longrightarrow> C \<subseteq> S k)"

lemma confs_inD: "confs_in S m \<Longrightarrow> confirmations m k = Some C \<Longrightarrow> C \<subseteq> S k"
  by (simp add: confs_in_def)

lemma confs_in_le: "confs_in S m \<Longrightarrow> confirmations m' \<subseteq>\<^sub>m confirmations m \<Longrightarrow> confs_in S m'"
  unfolding confs_in_def using map_le_Some by metis

lemma confs_in_upd:
  "confs_in S m \<Longrightarrow> confirmations m' = (confirmations m)(k \<mapsto> C) \<Longrightarrow> C \<subseteq> S k \<Longrightarrow> confs_in S m'"
  unfolding confs_in_def by (simp split: if_splits)

lemma confs_in_mono: "confs_in S m \<Longrightarrow> (\<And>k. S k \<subseteq> T k) \<Longrightarrow> confs_in T m"
  unfolding confs_in_def by blast

text \<open>
  What the execution of request \<open>k\<close> with the contents \<open>req\<close> does: one promise to the receiver with the
  actions of \<open>req\<close>, and the members and settings that these actions make of the ones before.
\<close>

definition settings :: "multisig_contract \<Rightarrow> multisig_member set \<times> nat \<times> nat" where
  "settings m = (members m, num_confirmations m, active_requests_limit m)"

definition executes :: "(multisig_member \<Rightarrow> string) \<Rightarrow> host \<Rightarrow> nat \<Rightarrow> multisig_request \<Rightarrow> multisig_contract
    \<Rightarrow> effects \<Rightarrow> multisig_contract \<Rightarrow> bool" where
  "executes ts e k req m ps m' \<longleftrightarrow>
     ps = [Promise (receiver_id req) (concat (map (act_sent e) (actions req)))] \<and> requests m' k = None
     \<and> (\<exists>m1. settings m1 = settings m \<and> m' = fold (act_state ts) (actions req) m1)
     \<and> ((\<exists>a \<in> set (actions req). privileged a) \<longrightarrow> receiver_id req = env_current_account_id e)"

lemma settings_simps [simp]:
  "settings (removed ts k r m) = settings m"
  "settings (m\<lparr>confirmations := C\<rparr>) = settings m"
  by (simp_all add: settings_def)

lemma executes_settings: "settings m1 = settings m \<Longrightarrow> executes ts e k req m1 ps m' \<Longrightarrow> executes ts e k req m ps m'"
  by (auto simp: executes_def)

lemma execute_request_executes:
  assumes "execute_request ts e (request r) (removed ts k r m) = Inr (v, ps, m')"
  shows "executes ts e k (request r) m ps m'"
  unfolding executes_def
  using execute_requestE(1-3) [OF assms] executed_requestE(1) [OF assms] by (metis settings_simps(1))

lemma confs_in_confirm:
  assumes "confirm ts e k m = Inr (v, ps, m')" and "confs_in S m"
    and x: "current_member e m = Some x" and S: "ts x \<in> S k" "finite (S k)"
  shows "confs_in S m'
    \<and> (ps \<noteq> [] \<longrightarrow> num_confirmations m \<le> card (S k)
        \<and> (\<exists>r. requests m k = Some r \<and> executes ts e k (request r) m ps m'))
    \<and> (ps = [] \<longrightarrow> settings m' = settings m)"
  using assms(1)
proof (cases rule: confirmE)
  case (recorded y C r)
  have "confs_in S m'" using assms(2)
  proof (rule confs_in_upd)
    show "confirmations m' = (confirmations m)(k \<mapsto> insert (ts y) C)" by (simp add: recorded)
    show "insert (ts y) C \<subseteq> S k" using confs_inD [OF assms(2)] recorded x S by auto
  qed
  then show ?thesis using recorded by simp
next
  case (executed y C r)
  have sub: "insert (ts y) C \<subseteq> S k" using confs_inD [OF assms(2)] executed x S by auto
  then have "finite C" using S by (auto intro: finite_subset)
  then have "card C + 1 \<le> card (S k)" using card_mono [OF S(2) sub] executed by simp
  moreover have "card C mod 2 ^ 32 \<le> card C" by (rule mod_less_eq_dividend)
  ultimately have "num_confirmations m \<le> card (S k)" using executed(5) by linarith
  moreover have "confs_in S m'"
    using assms(2) executed_requestE(2) [OF executed(6)] by (rule confs_in_le)
  moreover have "ps \<noteq> []" using execute_requestE(2) [OF executed(6)] by simp
  ultimately show ?thesis using execute_request_executes [OF executed(6)] executed(2) by blast
qed

lemma add_request_frame:
  assumes "add_request ts e req m = Inr (k, m')"
  shows "settings m' = settings m \<and> k = request_nonce m
    \<and> confirmations m' = (confirmations m)(k \<mapsto> {}) \<and> current_member e m' = current_member e m
    \<and> (\<exists>r. request r = req \<and> requests m' = (requests m)(k \<mapsto> r)) \<and> request_nonce m' = request_nonce m + 1"
  using assms
  by (auto elim!: add_requestE simp: current_member_def settings_def
      intro: exI [of _ "\<lparr>request = req, req_member = x, added_timestamp = t\<rparr>" for x t])

lemma confirm_current: "confirm ts e k m = Inr z \<Longrightarrow> \<exists>x. current_member e m = Some x"
  by (auto simp: confirm_def)

lemma confirm_request: "confirm ts e k m = Inr z \<Longrightarrow> \<exists>r. requests m k = Some r"
  by (auto simp: confirm_def assert_valid_request_def)

lemma delete_confirmations:
  "delete_request ts e k m = Inr m' \<Longrightarrow> confirmations m' \<subseteq>\<^sub>m confirmations m \<and> settings m' = settings m"
  by (auto elim!: delete_requestE intro: removed_confirmations)

text \<open>
  The one argument behind quorum and lock-out: if the confirmations recorded so far lie in \<open>S\<close> and
  so does the one that this message adds, then a request is executed only if \<open>S\<close> has enough for it, and
  it is the request that the message confirms.
\<close>

lemma confs_in_exec:
  assumes "multisig_exec ts e msg m = Inr (ps, m')" and "confs_in S m"
    and "\<And>kr c. (kr, c) \<in> confirmed_by ts e msg m \<Longrightarrow> c \<in> S (fst kr) \<and> finite (S (fst kr))"
  shows "confs_in S m'
    \<and> (ps \<noteq> [] \<longrightarrow> (\<exists>k req. confirmed_request msg m = Some (k, req) \<and> num_confirmations m \<le> card (S k)
        \<and> executes ts e k req m ps m'))
    \<and> (ps = [] \<longrightarrow> settings m' = settings m)"
  using assms(1)
proof (cases rule: multisig_exec_cases)
  case (added req k)
  note f = add_request_frame [OF added(2)]
  have "confs_in S m'" using assms(2) by (rule confs_in_upd) (use f in auto)
  with f added(3) show ?thesis by simp
next
  case (both req k m1 v)
  note f = add_request_frame [OF both(2)]
  obtain x where x: "current_member e m1 = Some x" using confirm_current both(3) by blast
  have "confs_in S m1" using assms(2) by (rule confs_in_upd) (use f in auto)
  note c = confs_in_confirm [OF both(3) this x]
  have "current_member e m = Some x" and "confirmed_request msg m = Some (k, req)" using f x both(1) by simp_all
  then have "((k, req), ts x) \<in> confirmed_by ts e msg m" by (simp add: confirmed_by_def)
  from assms(3) [OF this] have "ts x \<in> S k" "finite (S k)" by simp_all
  note c = c [OF this]
  have "num_confirmations m1 = num_confirmations m" using f by (simp add: settings_def)
  moreover have "\<exists>r. requests m1 k = Some r \<and> request r = req" using f by auto
  ultimately show ?thesis
    using c f executes_settings \<open>confirmed_request msg m = Some (k, req)\<close> by (metis option.inject)
next
  case (confirmed k v)
  obtain x r where x: "current_member e m = Some x" and r: "requests m k = Some r"
    using confirm_current confirm_request confirmed(2) by blast
  then have "confirmed_request msg m = Some (k, request r)" by (simp add: confirmed(1))
  moreover from this x have "((k, request r), ts x) \<in> confirmed_by ts e msg m" by (simp add: confirmed_by_def)
  note assms(3) [OF this]
  ultimately show ?thesis
    using confs_in_confirm [OF confirmed(2) assms(2) x] r by auto
next
  case (deleted k)
  note d = delete_confirmations [OF deleted(2)]
  have "confs_in S m'" by (rule confs_in_le [OF assms(2)]) (use d in simp)
  with d deleted show ?thesis by simp
qed

subsection \<open>The log of confirmations\<close>

text \<open>The log knows every recorded confirmation, and what it says of a pending request is its contents.\<close>

definition logged :: "confirmation_log \<Rightarrow> nat \<Rightarrow> string set" where
  "logged L k = {c. \<exists>q. ((k, q), c) \<in> L}"

definition log_inv :: "(multisig_member \<Rightarrow> string) \<Rightarrow> multisig_contract \<times> confirmation_log \<Rightarrow> bool" where
  "log_inv ts s \<longleftrightarrow> finite (snd s) \<and> confs_in (logged (snd s)) (fst s) \<and> multisig_inv ts (fst s)
     \<and> (\<forall>k q c. ((k, q), c) \<in> snd s \<longrightarrow> k < request_nonce (fst s)
          \<and> (\<forall>r. requests (fst s) k = Some r \<longrightarrow> request r = q))"

lemma finite_logged: "finite L \<Longrightarrow> finite (logged L k)"
  by (rule finite_subset [of _ "snd ` L"]) (force simp: logged_def)+

lemma finite_confirmed_by: "finite (confirmed_by ts e msg m)"
  by (simp add: confirmed_by_def split: option.splits)

lemma fold_act_nonce: "request_nonce (fold (act_state ts) acts m) = request_nonce m"
proof (induction acts arbitrary: m)
  case (Cons a acts)
  have "request_nonce (act_state ts a m) = request_nonce m" by (cases a) (simp_all add: without_member_def)
  with Cons show ?case by simp
qed simp

lemma confirm_requests:
  assumes "confirm ts e k m = Inr (v, ps, m')"
  shows "requests m' \<subseteq>\<^sub>m requests m \<and> request_nonce m' = request_nonce m"
  using assms
proof (cases rule: confirmE)
  case (executed x C r)
  have "requests (removed ts k r m) \<subseteq>\<^sub>m requests m" by (simp add: map_le_def)
  then have "requests m' \<subseteq>\<^sub>m requests m"
    unfolding execute_requestE(1) [OF executed(6)] using fold_act_requests map_le_trans by blast
  then show ?thesis by (simp add: execute_requestE(1) [OF executed(6)] fold_act_nonce)
qed simp

text \<open>No message changes a pending request, and the only new one is under the next ID.\<close>

lemma multisig_exec_requests:
  assumes "multisig_exec ts e msg m = Inr (ps, m')"
  shows "request_nonce m \<le> request_nonce m'
    \<and> (\<forall>k r. requests m' k = Some r \<longrightarrow> requests m k = Some r \<or>
         k = request_nonce m \<and> msg \<in> {Add_request (request r), Add_request_and_confirm (request r)})"
  using assms
proof (cases rule: multisig_exec_cases)
  case (added req k)
  then show ?thesis using add_request_frame [OF added(2)] by (auto split: if_splits)
next
  case (both req k m1 v)
  have le: "requests m' \<subseteq>\<^sub>m requests m1" and n: "request_nonce m' = request_nonce m1"
    using confirm_requests [OF both(3)] by simp_all
  have "requests m j = Some r \<or> j = request_nonce m \<and> req = request r" if "requests m' j = Some r" for j r
    using map_le_Some [OF le that] add_request_frame [OF both(2)] by (auto split: if_splits)
  then show ?thesis using both(1) n add_request_frame [OF both(2)] by auto
next
  case (confirmed k v)
  then show ?thesis using confirm_requests [OF confirmed(2)] by (auto dest: map_le_Some)
next
  case (deleted k)
  then show ?thesis by (auto elim!: delete_requestE split: if_splits)
qed

text \<open>
  After a message the log still tells the contents of the pending requests: an old entry is below the
  nonce, so a new request is not under its ID, and the new entry is about the request it confirms.
\<close>

lemma log_tells_contents:
  assumes "multisig_exec ts e msg m = Inr (ps, m')" and "log_inv ts (m, L)"
    and "((k, q), c) \<in> L \<union> confirmed_by ts e msg m"
  shows "(k < request_nonce m \<or> k = request_nonce m \<and> request_nonce m < request_nonce m')
    \<and> (\<forall>r. requests m' k = Some r \<longrightarrow> request r = q)"
    and "confirmed_request msg m = Some (k, req) \<Longrightarrow> q = req"
proof -
  note nonce = multisig_exec_requests [OF assms(1)]
  have pending: "k < request_nonce m" if "requests m k = Some r" for k r
    using assms(2) that by (auto simp: log_inv_def multisig_inv_def)
  have old: "k < request_nonce m \<and> (\<forall>r. requests m k = Some r \<longrightarrow> request r = q)" if "((k, q), c) \<in> L"
    using assms(2) that by (auto simp: log_inv_def)
  have new: "confirmed_request msg m = Some (k, q)" if "((k, q), c) \<in> confirmed_by ts e msg m"
    using that by (auto simp: confirmed_by_def split: option.splits)
  show "confirmed_request msg m = Some (k, req) \<Longrightarrow> q = req"
    using assms(3) old new by (cases msg) auto
  consider (before) "k < request_nonce m" "\<forall>r. requests m k = Some r \<longrightarrow> request r = q"
    | (added) rq where "msg = Add_request_and_confirm rq" "k = request_nonce m" "q = rq"
  proof (cases "((k, q), c) \<in> L")
    case False
    then have cr: "confirmed_request msg m = Some (k, q)" using assms(3) new by simp
    then show thesis
    proof (cases msg)
      case (Confirm j)
      with cr obtain r where "requests m k = Some r" "q = request r" by auto
      with pending show thesis by (intro that(1)) auto
    qed (use cr that in auto)
  qed (use old that in auto)
  then show "(k < request_nonce m \<or> k = request_nonce m \<and> request_nonce m < request_nonce m')
    \<and> (\<forall>r. requests m' k = Some r \<longrightarrow> request r = q)"
  proof cases
    case before
    then show ?thesis using nonce by blast
  next
    case (added rq)
    obtain i m1 v where a: "add_request ts e rq m = Inr (i, m1)" "confirm ts e i m1 = Inr (v, ps, m')"
      using assms(1) unfolding added(1) by (auto elim!: add_request_and_confirmE)
    have "request_nonce m' = request_nonce m + 1"
      using add_request_frame [OF a(1)] confirm_requests [OF a(2)] by simp
    moreover have "requests m (request_nonce m) = None" using pending by (meson less_irrefl not_None_eq)
    then have "request r = q" if "requests m' k = Some r" for r
      using nonce that added by fastforce
    ultimately show ?thesis using added(2) by simp
  qed
qed

lemma logged_exec:
  assumes "multisig_exec ts e msg m = Inr (ps, m')" and "log_inv ts (m, L)"
  defines "L' \<equiv> L \<union> confirmed_by ts e msg m"
  shows "log_inv ts (m', L')"
    and "ps \<noteq> [] \<or> settings m' \<noteq> settings m \<Longrightarrow>
      \<exists>k req. confirmed_request msg m = Some (k, req) \<and> num_confirmations m \<le> card {c. ((k, req), c) \<in> L'}
        \<and> executes ts e k req m ps m'"
proof -
  have fin: "finite L'" using assms(2) finite_confirmed_by by (simp add: L'_def log_inv_def)
  have "confs_in (logged L) m" using assms(2) by (simp add: log_inv_def)
  then have "confs_in (logged L') m" by (rule confs_in_mono) (auto simp: logged_def L'_def)
  note exec = confs_in_exec [OF assms(1) this]
  have "c \<in> logged L' (fst kr) \<and> finite (logged L' (fst kr))" if "(kr, c) \<in> confirmed_by ts e msg m" for kr c
    using finite_logged [OF fin] that by (cases kr) (auto simp: logged_def L'_def)
  note exec = exec [OF this]
  have "multisig_inv ts m'" using assms(1,2) by (auto simp: log_inv_def intro: multisig_exec_inv)
  moreover have "k < request_nonce m' \<and> (\<forall>r. requests m' k = Some r \<longrightarrow> request r = q)"
    if "((k, q), c) \<in> L'" for k q c
    using log_tells_contents(1) [OF assms(1,2) that [unfolded L'_def]] multisig_exec_requests [OF assms(1)]
    by auto
  ultimately show "log_inv ts (m', L')" using exec fin unfolding log_inv_def by auto
  assume "ps \<noteq> [] \<or> settings m' \<noteq> settings m"
  then obtain k req where kr: "confirmed_request msg m = Some (k, req)"
      "num_confirmations m \<le> card (logged L' k)" "executes ts e k req m ps m'"
    using exec by blast
  have "logged L' k = {c. ((k, req), c) \<in> L'}"
    using log_tells_contents(2) [OF assms(1,2) _ kr(1)] unfolding logged_def L'_def by blast
  with kr show "\<exists>k req. confirmed_request msg m = Some (k, req)
      \<and> num_confirmations m \<le> card {c. ((k, req), c) \<in> L'} \<and> executes ts e k req m ps m'" by auto
qed

definition logged_init ::
  "(multisig_member \<Rightarrow> string) \<Rightarrow> multisig_contract \<times> confirmation_log \<Rightarrow> bool" where
  "logged_init ts s \<longleftrightarrow> multisig_init ts (fst s) \<and> snd s = {}"

lemma logged_init_inv: "logged_init ts s \<Longrightarrow> log_inv ts s"
  using multisig_init_inv [of ts "fst s"]
  by (auto simp: logged_init_def log_inv_def confs_in_def multisig_init_def dest!: new_multisigE)

interpretation multisig_log:
  inductive_invariant "logged_step ts" "log_inv ts" "logged_init ts" for ts
proof unfold_locales
  fix s t assume "log_inv ts s" and "logged_step ts s t"
  then show "log_inv ts t" by (auto elim!: logged_stepE intro: logged_exec(1))
next
  fix s assume "logged_init ts s"
  then show "log_inv ts s" by (rule logged_init_inv)
qed

subsection \<open>Locked contracts\<close>

definition locked_out :: "(multisig_member \<Rightarrow> string) \<Rightarrow> multisig_contract \<Rightarrow> bool" where
  "locked_out ts m \<longleftrightarrow> finite (members m) \<and> card (members m) < num_confirmations m
     \<and> confs_in (\<lambda>_. ts ` members m) m"

lemma confirmed_by_members: "(kr, c) \<in> confirmed_by ts e msg m \<Longrightarrow> c \<in> ts ` members m"
  by (auto simp: confirmed_by_def split: option.splits dest: current_memberD)

lemma locked_exec:
  assumes "multisig_exec ts e msg m = Inr (ps, m')" and "locked_out ts m"
  shows "ps = [] \<and> locked_out ts m'"
proof -
  let ?S = "\<lambda>_::nat. ts ` members m"
  have l: "finite (members m)" "card (members m) < num_confirmations m" "confs_in ?S m"
    using assms(2) by (auto simp: locked_out_def)
  have *: "\<And>kr c. (kr, c) \<in> confirmed_by ts e msg m \<Longrightarrow> c \<in> ?S (fst kr) \<and> finite (?S (fst kr))"
    using confirmed_by_members l(1) by blast
  have "card (ts ` members m) < num_confirmations m"
    using card_image_le [OF l(1), of ts] l(2) by simp
  then show ?thesis using confs_in_exec [OF assms(1) l(3) *] l
    by (auto simp: locked_out_def settings_def)
qed

interpretation lockout: stable_property "multisig_step ts" "locked_out ts" for ts
  by unfold_locales (auto elim!: multisig_stepE dest: locked_exec)

subsection \<open>Properties\<close>

text \<open>
  C3. A request is executed only with a quorum of distinct confirmations of its contents: in every
  history of a deployed multisig, a call that schedules a promise, or that changes the members, the number
  of confirmations or the request limit, is a \<open>confirm\<close> or \<open>add_request_and_confirm\<close> that confirms some
  request \<open>k\<close> with the contents \<open>req\<close>; at least \<open>num_confirmations\<close> different members have confirmed
  exactly these contents under this ID, each with a call of their own while they were members (the confirmation of this
  call included); what is scheduled is one promise to the receiver of \<open>req\<close> with the actions of \<open>req\<close>,
  in order; members and settings afterwards are what the actions of \<open>req\<close> make of those before, and such
  actions require the receiver to be the multisig itself; and the request is gone.
\<close>

theorem executed_only_with_quorum:
  assumes "reach (logged_init ts) (logged_step ts) (m, L)"
    and "multisig_exec ts e msg m = Inr (ps, m')"
    and "ps \<noteq> [] \<or> settings m' \<noteq> settings m"
  shows "\<exists>k req. confirmed_request msg m = Some (k, req)
    \<and> num_confirmations m \<le> card {c. ((k, req), c) \<in> L \<union> confirmed_by ts e msg m}
    \<and> ps = [Promise (receiver_id req) (concat (map (act_sent e) (actions req)))] \<and> requests m' k = None
    \<and> (\<exists>m1. settings m1 = settings m \<and> m' = fold (act_state ts) (actions req) m1)
    \<and> ((\<exists>a \<in> set (actions req). privileged a) \<longrightarrow> receiver_id req = env_current_account_id e)"
  using logged_exec(2) [OF assms(2) multisig_log.reachable_inv [OF assms(1)] assms(3)]
  unfolding executes_def .

definition pay_bob :: multisig_request where
  "pay_bob = \<lparr>receiver_id = ''bob'', actions = [ATransfer 5]\<rparr>"

definition by_caller :: "account_id \<Rightarrow> host" where
  "by_caller a = sample_host\<lparr>env_predecessor_account_id := a\<rparr>"

text \<open>A serialisation of members for the examples.\<close>

definition sample_ts :: "multisig_member \<Rightarrow> string" where
  "sample_ts x = (case x of AccessKey k \<Rightarrow> CHR ''k'' # k | Account a \<Rightarrow> CHR ''a'' # a)"

lemma inj_sample_ts: "inj sample_ts"
  by (auto intro!: injI simp: sample_ts_def split: multisig_member.splits)

lemma by_caller_simps [simp]:
  "env_current_account_id (by_caller a) = ''contract''"
  "env_predecessor_account_id (by_caller a) = a"
  "env_block_timestamp (by_caller a) = 0"
  by (simp_all add: by_caller_def)

definition fresh_multisig :: multisig_contract where
  "fresh_multisig = \<lparr>members = {Account ''alice'', Account ''bob''}, num_confirmations = 2,
     request_nonce = 0, requests = Map.empty, confirmations = Map.empty,
     num_requests_pk = Map.empty, active_requests_limit = 12\<rparr>"

definition pending_multisig :: multisig_contract where
  "pending_multisig = fresh_multisig\<lparr>request_nonce := 1,
     requests := [0 \<mapsto> \<lparr>request = pay_bob, req_member = Account ''alice'', added_timestamp = 0\<rparr>],
     confirmations := [0 \<mapsto> {''aalice''}], num_requests_pk := [''aalice'' \<mapsto> 1]\<rparr>"

lemmas multisig_eval = fresh_multisig_def pending_multisig_def pay_bob_def sample_ts_def
  new_multisig_def add_member_def add_request_def add_request_and_confirm_def confirm_def
  assert_valid_request_def current_member_def remove_request_def execute_request_def
  checked_add_def checked_sub_def fits_def ACTIVE_REQUESTS_LIMIT_def Let_def

lemma new_fresh:
  "new_multisig (by_caller ''alice'') [Account ''alice'', Account ''bob''] 2
     = Inr (fresh_multisig, [Promise ''contract'' []])"
  by (simp add: multisig_eval insert_commute)

lemma fresh_pending:
  "multisig_exec sample_ts (by_caller ''alice'') (Add_request_and_confirm pay_bob) fresh_multisig
     = Inr ([], pending_multisig)"
  by (simp add: multisig_eval cong: eval_cong)

lemma fresh_init: "multisig_init sample_ts fresh_multisig"
  using inj_sample_ts new_fresh unfolding multisig_init_def by blast

lemma pending_reached:
  "reach (logged_init sample_ts) (logged_step sample_ts) (pending_multisig, {((0, pay_bob), ''aalice'')})"
proof (rule reach_step)
  show "reach (logged_init sample_ts) (logged_step sample_ts) (fresh_multisig, {})"
    by (rule reach_init) (simp add: logged_init_def fresh_init)
  have "confirmed_by sample_ts (by_caller ''alice'') (Add_request_and_confirm pay_bob) fresh_multisig
      = {((0, pay_bob), ''aalice'')}"
    by (simp add: multisig_eval confirmed_by_def)
  then show "logged_step sample_ts (fresh_multisig, {}) (pending_multisig, {((0, pay_bob), ''aalice'')})"
    using logged_step.intros [OF fresh_pending, of "{}"] by simp
qed

lemma pending_executed:
  "multisig_exec sample_ts (by_caller ''bob'') (Confirm 0) pending_multisig
     = Inr ([Promise ''bob'' [Transfer 5]], fresh_multisig\<lparr>request_nonce := 1,
              num_requests_pk := [''aalice'' \<mapsto> 0]\<rparr>)"
  by (simp add: multisig_eval cong: eval_cong)

theorem executed_only_with_quorum_witness:
  "confirmed_request (Confirm 0) pending_multisig = Some (0, pay_bob)
    \<and> 2 \<le> card {c. ((0, pay_bob), c) \<in> {((0, pay_bob), ''aalice'')}
                  \<union> confirmed_by sample_ts (by_caller ''bob'') (Confirm 0) pending_multisig}"
  using executed_only_with_quorum [OF pending_reached pending_executed]
  by (auto simp: pending_multisig_def fresh_multisig_def)

lemma pending_inv: "reach (multisig_init sample_ts) (multisig_step sample_ts) pending_multisig"
proof (rule reach_step)
  show "reach (multisig_init sample_ts) (multisig_step sample_ts) fresh_multisig"
    by (rule reach_init) (rule fresh_init)
qed (rule multisig_step_exec [OF fresh_pending])

text \<open>
  C14. The bookkeeping of a deployed multisig: requests and confirmation sets have the same IDs (so
  \<open>Internal error: confirmations mismatch requests\<close> is never raised), every ID is below the nonce,
  every pending request belongs to a current member, and \<open>num_requests_pk\<close> is, for every member, the
  number of its pending requests, which no accepted \<open>add_request\<close> leaves above
  \<open>active_requests_limit\<close>. (The serialisation of members is assumed injective.)
\<close>

theorem multisig_bookkeeping:
  assumes "reach (multisig_init ts) (multisig_step ts) m"
  shows "dom (confirmations m) = dom (requests m)
    \<and> (\<forall>k r. requests m k = Some r \<longrightarrow> k < request_nonce m \<and> req_member r \<in> members m)
    \<and> get_num_requests_per_member ts x m = card {k. \<exists>r. requests m k = Some r \<and> req_member r = x}
    \<and> (\<forall>e req k m'. add_request ts e req m = Inr (k, m') \<longrightarrow>
         requests m k = None \<and> request_nonce m' = k + 1 \<and>
         (\<exists>y. current_member e m = Some y \<and> requests_of m' y = insert k (requests_of m y) \<and>
              card (requests_of m' y) \<le> active_requests_limit m'))"
proof -
  have inv: "multisig_inv ts m" using assms by (rule multisig_invariant.reachable_inv)
  have "requests m k = None \<and> request_nonce m' = k + 1 \<and>
      (\<exists>y. current_member e m = Some y \<and> requests_of m' y = insert k (requests_of m y) \<and>
           card (requests_of m' y) \<le> active_requests_limit m')"
    if add: "add_request ts e req m = Inr (k, m')" for e req k m'
    using add
  proof (cases rule: add_requestE)
    case (1 y)
    have new: "requests m k = None"
      using inv 1(3) unfolding multisig_inv_def by (metis less_irrefl not_None_eq)
    moreover have "requests_of m' y = insert k (requests_of m y)"
      using new by (auto simp: 1 requests_of_def)
    moreover have "card (requests_of m' y) = pk_count ts m' y"
      using add_request_inv [OF add inv] by (simp add: multisig_inv_def)
    moreover have "pk_count ts m' y \<le> active_requests_limit m'" using 1 by (simp add: pk_count_def)
    ultimately show ?thesis using 1 by simp
  qed
  then show ?thesis using inv
    by (auto simp: multisig_inv_def get_num_requests_per_member_def pk_count_def requests_of_def)
qed

theorem multisig_bookkeeping_witness:
  "get_num_requests_per_member sample_ts (Account ''alice'') pending_multisig = 1
    \<and> card {k. \<exists>r. requests pending_multisig k = Some r \<and> req_member r = Account ''alice''} = 1"
  using multisig_bookkeeping [OF pending_inv, of "Account ''alice''", THEN conjunct2, THEN conjunct2,
      THEN conjunct1]
  by (simp add: get_num_requests_per_member_def pending_multisig_def sample_ts_def)

text \<open>
  What an accepted \<open>confirm\<close> does. Below the threshold the confirmation is recorded and nothing
  else changes; the confirmation that reaches the threshold removes the request and schedules one
  promise to its receiver, which carries exactly the request's actions, in order. Members, the
  number of confirmations, the request limit and the access keys of the account are changed only by
  an executed request whose receiver is the multisig account itself.
\<close>

theorem confirm_threshold:
  assumes "confirm ts e k m = Inr (v, ps, m')"
    and "requests m k = Some r" and "confirmations m k = Some C" and "card C < 2 ^ 32"
  shows "if card C + 1 < num_confirmations m
    then v = ValueRet True \<and> ps = [] \<and>
      (\<exists>x. current_member e m = Some x \<and> ts x \<notin> C \<and>
           m' = m\<lparr>confirmations := (confirmations m)(k \<mapsto> insert (ts x) C)\<rparr>)
    else requests m' k = None \<and>
      ps = [Promise (receiver_id (request r)) (concat (map (act_sent e) (actions (request r))))] \<and>
      ((\<exists>a \<in> set (actions (request r)). privileged a) \<longrightarrow>
         receiver_id (request r) = env_current_account_id e) \<and>
      ((\<forall>a \<in> set (actions (request r)). \<not> privileged a) \<longrightarrow>
         v = PromiseRet (hd ps) \<and> members m' = members m \<and> num_confirmations m' = num_confirmations m
         \<and> active_requests_limit m' = active_requests_limit m)"
  using assms(1)
proof (cases rule: confirmE)
  case (recorded x C' r')
  then show ?thesis using assms(2-4) by auto
next
  case (executed x C' r')
  have "\<not> card C + 1 < num_confirmations m" using executed assms(2-4) by simp
  moreover have "r' = r" using executed(2) assms(2) by simp
  moreover have "v = PromiseRet (hd ps) \<and> members m' = members m
      \<and> num_confirmations m' = num_confirmations m \<and> active_requests_limit m' = active_requests_limit m"
    if "\<forall>a \<in> set (actions (request r')). \<not> privileged a"
    using execute_requestE(1,4) [OF executed(6)] unprivileged_fold [OF that] that
    by (auto dest: setting_privileged)
  ultimately show ?thesis
    using execute_requestE(2,3) [OF executed(6)] executed_requestE(1) [OF executed(6)] by auto
qed

theorem confirm_threshold_witness:
  "\<exists>v ps m'. confirm sample_ts (by_caller ''bob'') 0 pending_multisig = Inr (v, ps, m')
     \<and> ps = [Promise ''bob'' [Transfer 5]] \<and> requests m' 0 = None"
proof -
  obtain v ps m' where c: "confirm sample_ts (by_caller ''bob'') 0 pending_multisig = Inr (v, ps, m')"
    using pending_executed by auto
  have "requests pending_multisig 0
      = Some \<lparr>request = pay_bob, req_member = Account ''alice'', added_timestamp = 0\<rparr>"
    and "confirmations pending_multisig 0 = Some {''aalice''}"
    by (simp_all add: pending_multisig_def)
  from confirm_threshold [OF c this] c show ?thesis
    by (auto simp: pending_multisig_def fresh_multisig_def pay_bob_def)
qed

text \<open>
  A multisig can be deployed so that nothing is ever executed: \<open>new\<close> compares the number of
  confirmations with the length of the member list, not with the number of distinct members. If
  the list has fewer distinct members than confirmations are required, then whatever calls are
  made, no request is ever executed, and the configuration can never be repaired.
\<close>

theorem duplicate_members_lock_out:
  assumes "new_multisig e0 mems num = Inr (m0, ps0)" and "card (set mems) < num"
    and "(multisig_step ts)\<^sup>*\<^sup>* m0 m" and "multisig_exec ts e msg m = Inr (ps, m')"
  shows "ps = [] \<and> card (members m') < num_confirmations m'"
proof -
  have "locked_out ts m0"
    using new_multisigE [OF assms(1)] assms(2) by (simp add: locked_out_def confs_in_def)
  with assms(3) have "locked_out ts m" by (rule lockout.steps_inv)
  with assms(4) show ?thesis by (auto simp: locked_out_def dest: locked_exec)
qed

theorem duplicate_members_lock_out_witness:
  "\<exists>m ps ps' m'. new_multisig (by_caller ''alice'') [Account ''alice'', Account ''alice''] 2 = Inr (m, ps)
     \<and> multisig_exec sample_ts (by_caller ''alice'') (Add_request_and_confirm pay_bob) m = Inr (ps', m')
     \<and> ps' = []"
proof -
  obtain m ps where m: "new_multisig (by_caller ''alice'') [Account ''alice'', Account ''alice''] 2 = Inr (m, ps)"
    by (simp add: multisig_eval)
  moreover obtain ps' m' where
    x: "multisig_exec sample_ts (by_caller ''alice'') (Add_request_and_confirm pay_bob) m = Inr (ps', m')"
    using m by (auto simp: multisig_eval cong: eval_cong)
  moreover have "ps' = []"
    using duplicate_members_lock_out [OF m _ rtranclp.rtrancl_refl x] by simp
  ultimately show ?thesis by blast
qed

text \<open>
  A pending request can be deleted by any member, but only more than fifteen minutes after it was
  added, and until it is executed or deleted (by the cooldown, or together with its member) its
  contents never change.
\<close>

theorem requests_are_immutable:
  assumes "multisig_exec ts e msg m = Inr (ps, m')" and "requests m k = Some r"
    and "reach (multisig_init ts) (multisig_step ts) m"
  shows "(requests m' k = Some r \<or> requests m' k = None)
    \<and> (msg = Delete_request k \<longrightarrow> requests m' k = None
         \<and> added_timestamp r + 900000000000 < env_block_timestamp e)
    \<and> (ps = [] \<and> msg \<noteq> Delete_request k \<longrightarrow> requests m' k = Some r)"
proof -
  have k: "k \<noteq> request_nonce m"
    using multisig_invariant.reachable_inv [OF assms(3)] assms(2) by (auto simp: multisig_inv_def)
  have conf: "(requests n' k = Some r \<or> requests n' k = None) \<and> (qs = [] \<longrightarrow> requests n' k = Some r)"
    if "confirm ts e j n = Inr (v, qs, n')" and "requests n k = Some r" for j n v qs n'
    using that(1)
  proof (cases rule: confirmE)
    case (executed x C r')
    have "requests n' \<subseteq>\<^sub>m requests (removed ts j r' n)"
      unfolding execute_requestE(1) [OF executed(6)] by (rule fold_act_requests)
    then have "requests n' k = Some r \<or> requests n' k = None"
      using that(2) by (cases "requests n' k") (auto dest!: map_le_Some split: if_splits)
    then show ?thesis using execute_requestE(2) [OF executed(6)] by auto
  qed (use that(2) in simp)
  from assms(1) show ?thesis
  proof (cases rule: multisig_exec_cases)
    case (added req j)
    then show ?thesis using k assms(2) by (auto elim!: add_requestE)
  next
    case (both req j m1 v)
    then show ?thesis using k assms(2) conf [OF both(3)] by (auto elim!: add_requestE)
  next
    case (confirmed j v)
    then show ?thesis using conf [OF confirmed(2) assms(2)] by auto
  next
    case (deleted j)
    then show ?thesis using assms(2) by (auto elim!: delete_requestE simp: REQUEST_COOLDOWN_def split: if_splits)
  qed
qed

theorem requests_are_immutable_witness:
  "requests (fresh_multisig\<lparr>request_nonce := 1, num_requests_pk := [''aalice'' \<mapsto> 0]\<rparr>) 0 \<in> {None,
     requests pending_multisig 0}"
  using requests_are_immutable [OF pending_executed _ pending_inv, of 0]
  by (auto simp: pending_multisig_def)

end
