(* ===== verification/MultisigFactory.thy ===== *)
theory MultisigFactory
  imports Multisig
begin

section \<open>The multisig factory (\<open>multisig-factory/src/lib.rs\<close>)\<close>

text \<open>
  The factory has no state; \<open>create\<close> deploys a multisig contract (\<open>CODE\<close> is the parameter \<open>code\<close>)
  to a sub-account and calls its constructor. The arguments are passed on unchecked; the number of
  confirmations has 64 bits here and 32 bits in the multisig contract.
\<close>

definition CREATE_CALL_GAS :: nat where "CREATE_CALL_GAS = 50000000000000"

datatype multisig_factory_call = MF_new "multisig_member list" nat

definition create_multisig ::
  "bytes \<Rightarrow> host \<Rightarrow> account_id \<Rightarrow> multisig_member list \<Rightarrow> nat \<Rightarrow> multisig_factory_call promise res" where
  "create_multisig code e name mems num =
     bindE (unwrap (env_parse_account_id e (name @ ''.'' @ env_current_account_id e))) (\<lambda>account_id.
     Inr (Promise account_id
       [CreateAccount, DeployContract code, Transfer (env_attached_deposit e),
        FunctionCall (MF_new mems num) 0 (sat_sub (env_prepaid_gas e) CREATE_CALL_GAS)]))"

end
