(* ===== verification/Lockup.thy ===== *)
theory Lockup
  imports Interfaces
begin

section \<open>The lockup contract: data, getters and assertions\<close>

text \<open>
  \<open>lockup/src/types.rs\<close>, \<open>gas.rs\<close>, \<open>lib.rs\<close> (the constructor), \<open>internal.rs\<close> and
  \<open>getters.rs\<close>. The contract holds the tokens of one owner: they are released linearly after a
  lockup timestamp, may be vested (the foundation can terminate the vesting and take the unvested
  tokens back), and can be delegated to one staking pool at a time. The methods of the owner, of the
  foundation and the callbacks are in the theory \<open>LockupMethods\<close>.
\<close>

subsection \<open>Types (\<open>types.rs\<close>)\<close>

type_synonym duration = nat
type_synonym timestamp = nat

datatype transfers_information =
    TransfersEnabled timestamp
  | TransfersDisabled account_id

record lockup_information =
  lockup_amount :: nat
  termination_withdrawn_tokens :: nat
  lockup_duration :: duration
  release_duration :: "duration option"
  lockup_timestamp :: "timestamp option"
  transfers_information :: transfers_information

datatype transaction_status = Idle | Busy

record staking_information =
  staking_pool_account_id :: account_id
  status :: transaction_status
  deposit_amount :: nat

record vesting_schedule =
  start_timestamp :: timestamp
  cliff_timestamp :: timestamp
  end_timestamp :: timestamp

definition assert_valid :: "vesting_schedule \<Rightarrow> unit res" where
  "assert_valid vs =
     bindE (ensure (start_timestamp vs \<le> cliff_timestamp vs)
       ''Cliff timestamp can't be earlier than vesting start timestamp'') (\<lambda>_.
     bindE (ensure (cliff_timestamp vs \<le> end_timestamp vs)
       ''Cliff timestamp can't be later than vesting end timestamp'') (\<lambda>_.
     ensure (start_timestamp vs < end_timestamp vs) ''The total vesting time should be positive''))"

datatype vesting_schedule_or_hash =
    InitVestingHash bytes
  | InitVestingSchedule vesting_schedule

datatype termination_status =
    VestingTerminatedWithDeficit
  | UnstakingInProgress
  | EverythingUnstaked
  | WithdrawingFromStakingPoolInProgress
  | ReadyToWithdraw
  | WithdrawingFromAccountInProgress

record termination_information =
  unvested_amount :: nat
  termination_status :: termination_status

datatype vesting_information =
    NoVesting
  | VestingHash bytes
  | VestingSchedule vesting_schedule
  | Terminating termination_information

record vesting_schedule_with_salt =
  salted_vesting_schedule :: vesting_schedule
  salt :: bytes

text \<open>\<open>ser\<close> is \<open>borsh::to_vec\<close> for the derived serialisation, a third-party crate.\<close>

definition hash :: "(vesting_schedule_with_salt \<Rightarrow> bytes) \<Rightarrow> host \<Rightarrow> vesting_schedule_with_salt \<Rightarrow> bytes" where
  "hash ser e vss = env_sha256 e (ser vss)"

subsection \<open>Gas constants (\<open>gas.rs\<close>)\<close>

definition BASE_GAS :: nat where "BASE_GAS = 25000000000000"

definition gas_IS_WHITELISTED :: nat where "gas_IS_WHITELISTED = BASE_GAS"
definition gas_DEPOSIT :: nat where "gas_DEPOSIT = BASE_GAS * 2"
definition gas_DEPOSIT_AND_STAKE :: nat where "gas_DEPOSIT_AND_STAKE = BASE_GAS * 3"
definition gas_WITHDRAW :: nat where "gas_WITHDRAW = BASE_GAS * 3"
definition gas_STAKE :: nat where "gas_STAKE = BASE_GAS * 3"
definition gas_UNSTAKE :: nat where "gas_UNSTAKE = BASE_GAS * 3"
definition gas_UNSTAKE_ALL :: nat where "gas_UNSTAKE_ALL = BASE_GAS * 3"
definition gas_GET_ACCOUNT_STAKED_BALANCE :: nat where "gas_GET_ACCOUNT_STAKED_BALANCE = BASE_GAS"
definition gas_GET_ACCOUNT_UNSTAKED_BALANCE :: nat where "gas_GET_ACCOUNT_UNSTAKED_BALANCE = BASE_GAS"
definition gas_GET_ACCOUNT_TOTAL_BALANCE :: nat where "gas_GET_ACCOUNT_TOTAL_BALANCE = BASE_GAS"
definition gas_GET_RESULT :: nat where "gas_GET_RESULT = BASE_GAS"
definition gas_ON_WHITELIST_IS_WHITELISTED :: nat where "gas_ON_WHITELIST_IS_WHITELISTED = BASE_GAS"
definition gas_ON_STAKING_POOL_DEPOSIT :: nat where "gas_ON_STAKING_POOL_DEPOSIT = BASE_GAS"
definition gas_ON_STAKING_POOL_DEPOSIT_AND_STAKE :: nat where
  "gas_ON_STAKING_POOL_DEPOSIT_AND_STAKE = BASE_GAS"
definition gas_ON_STAKING_POOL_WITHDRAW :: nat where "gas_ON_STAKING_POOL_WITHDRAW = BASE_GAS"
definition gas_ON_STAKING_POOL_STAKE :: nat where "gas_ON_STAKING_POOL_STAKE = BASE_GAS"
definition gas_ON_STAKING_POOL_UNSTAKE_ALL :: nat where "gas_ON_STAKING_POOL_UNSTAKE_ALL = BASE_GAS"
definition gas_ON_VOTING_GET_RESULT :: nat where "gas_ON_VOTING_GET_RESULT = BASE_GAS"
definition gas_ON_GET_ACCOUNT_TOTAL_BALANCE :: nat where "gas_ON_GET_ACCOUNT_TOTAL_BALANCE = BASE_GAS"
definition gas_ON_GET_ACCOUNT_UNSTAKED_BALANCE_TO_WITHDRAW_BY_OWNER :: nat where
  "gas_ON_GET_ACCOUNT_UNSTAKED_BALANCE_TO_WITHDRAW_BY_OWNER =
     BASE_GAS + gas_WITHDRAW + gas_ON_STAKING_POOL_WITHDRAW"
definition gas_ON_STAKING_POOL_UNSTAKE_FOR_TERMINATION :: nat where
  "gas_ON_STAKING_POOL_UNSTAKE_FOR_TERMINATION = BASE_GAS"
definition gas_ON_GET_ACCOUNT_STAKED_BALANCE_TO_UNSTAKE :: nat where
  "gas_ON_GET_ACCOUNT_STAKED_BALANCE_TO_UNSTAKE =
     BASE_GAS + gas_UNSTAKE + gas_ON_STAKING_POOL_UNSTAKE_FOR_TERMINATION"
definition gas_ON_STAKING_POOL_WITHDRAW_FOR_TERMINATION :: nat where
  "gas_ON_STAKING_POOL_WITHDRAW_FOR_TERMINATION = BASE_GAS"
definition gas_ON_GET_ACCOUNT_UNSTAKED_BALANCE_TO_WITHDRAW :: nat where
  "gas_ON_GET_ACCOUNT_UNSTAKED_BALANCE_TO_WITHDRAW =
     BASE_GAS + gas_WITHDRAW + gas_ON_STAKING_POOL_WITHDRAW_FOR_TERMINATION"
definition gas_ON_WITHDRAW_UNVESTED_AMOUNT :: nat where "gas_ON_WITHDRAW_UNVESTED_AMOUNT = BASE_GAS"

lemmas gas_defs =
  gas_IS_WHITELISTED_def gas_DEPOSIT_def gas_DEPOSIT_AND_STAKE_def gas_WITHDRAW_def gas_STAKE_def
  gas_UNSTAKE_def gas_UNSTAKE_ALL_def gas_GET_ACCOUNT_STAKED_BALANCE_def
  gas_GET_ACCOUNT_UNSTAKED_BALANCE_def gas_GET_ACCOUNT_TOTAL_BALANCE_def gas_GET_RESULT_def
  gas_ON_WHITELIST_IS_WHITELISTED_def gas_ON_STAKING_POOL_DEPOSIT_def
  gas_ON_STAKING_POOL_DEPOSIT_AND_STAKE_def gas_ON_STAKING_POOL_WITHDRAW_def
  gas_ON_STAKING_POOL_STAKE_def gas_ON_STAKING_POOL_UNSTAKE_ALL_def gas_ON_VOTING_GET_RESULT_def
  gas_ON_GET_ACCOUNT_TOTAL_BALANCE_def gas_ON_GET_ACCOUNT_UNSTAKED_BALANCE_TO_WITHDRAW_BY_OWNER_def
  gas_ON_STAKING_POOL_UNSTAKE_FOR_TERMINATION_def gas_ON_GET_ACCOUNT_STAKED_BALANCE_TO_UNSTAKE_def
  gas_ON_STAKING_POOL_WITHDRAW_FOR_TERMINATION_def gas_ON_GET_ACCOUNT_UNSTAKED_BALANCE_TO_WITHDRAW_def
  gas_ON_WITHDRAW_UNVESTED_AMOUNT_def

subsection \<open>State and constructor (\<open>lib.rs\<close>)\<close>

definition MIN_BALANCE_FOR_STORAGE :: nat where
  "MIN_BALANCE_FOR_STORAGE = 3500000000000000000000000"

record lockup_contract =
  owner_account_id :: account_id
  lockup_information :: lockup_information
  vesting_information :: vesting_information
  staking_pool_whitelist_account_id :: account_id
  staking_information :: "staking_information option"
  foundation_account :: "account_id option"

definition new_lockup ::
  "host \<Rightarrow> account_id \<Rightarrow> duration \<Rightarrow> timestamp option \<Rightarrow> transfers_information
     \<Rightarrow> vesting_schedule_or_hash option \<Rightarrow> duration option \<Rightarrow> account_id \<Rightarrow> account_id option
     \<Rightarrow> lockup_contract res" where
  "new_lockup e owner duration lockup_ts transfers schedule release whitelist foundation =
     bindE (ensure (env_is_valid_account_id e owner) ''The account ID of the owner is invalid'') (\<lambda>_.
     bindE (ensure (env_is_valid_account_id e whitelist)
       ''The staking pool whitelist account ID is invalid'') (\<lambda>_.
     bindE (case transfers of
              TransfersDisabled poll \<Rightarrow>
                ensure (env_is_valid_account_id e poll) ''The transfer poll account ID is invalid''
            | TransfersEnabled _ \<Rightarrow> Inr ()) (\<lambda>_.
     let lockup = \<lparr>lockup_amount = env_account_balance e, termination_withdrawn_tokens = 0,
                   lockup_duration = duration, release_duration = release,
                   lockup_timestamp = lockup_ts, transfers_information = transfers\<rparr> in
     bindE (case schedule of
              None \<Rightarrow>
                bindE (ensure (foundation = None)
                  ''Foundation account can't be added without vesting schedule'') (\<lambda>_. Inr NoVesting)
            | Some (InitVestingHash h) \<Rightarrow> Inr (VestingHash h)
            | Some (InitVestingSchedule vs) \<Rightarrow> Inr (VestingSchedule vs)) (\<lambda>vesting.
     bindE (if vesting = NoVesting then Inr True
            else bindE (unwrap foundation) (\<lambda>f. Inr (env_is_valid_account_id e f))) (\<lambda>ok.
     bindE (ensure ok ''Foundation account should be added for vesting schedule'') (\<lambda>_.
     Inr \<lparr>owner_account_id = owner, lockup_information = lockup, vesting_information = vesting,
          staking_pool_whitelist_account_id = whitelist, staking_information = None,
          foundation_account = foundation\<rparr>))))))"

subsection \<open>Getters (\<open>getters.rs\<close>) and internal methods (\<open>internal.rs\<close>)\<close>

definition get_account_balance :: "host \<Rightarrow> nat" where
  "get_account_balance e = sat_sub (env_account_balance e) MIN_BALANCE_FOR_STORAGE"

definition get_owner_account_id :: "lockup_contract \<Rightarrow> account_id" where
  "get_owner_account_id c = owner_account_id c"

definition get_staking_pool_account_id :: "lockup_contract \<Rightarrow> account_id option" where
  "get_staking_pool_account_id c = map_option staking_pool_account_id (staking_information c)"

definition get_known_deposited_balance :: "lockup_contract \<Rightarrow> nat" where
  "get_known_deposited_balance c =
     (case map_option deposit_amount (staking_information c) of Some n \<Rightarrow> n | None \<Rightarrow> 0)"

definition get_termination_status :: "lockup_contract \<Rightarrow> termination_status option" where
  "get_termination_status c =
     (case vesting_information c of Terminating t \<Rightarrow> Some (termination_status t) | _ \<Rightarrow> None)"

definition get_terminated_unvested_balance :: "lockup_contract \<Rightarrow> nat" where
  "get_terminated_unvested_balance c =
     (case vesting_information c of Terminating t \<Rightarrow> unvested_amount t | _ \<Rightarrow> 0)"

definition get_terminated_unvested_balance_deficit :: "host \<Rightarrow> lockup_contract \<Rightarrow> nat" where
  "get_terminated_unvested_balance_deficit e c =
     sat_sub (get_terminated_unvested_balance c) (get_account_balance e)"

definition get_unvested_amount :: "host \<Rightarrow> vesting_schedule \<Rightarrow> lockup_contract \<Rightarrow> nat res" where
  "get_unvested_amount e vs c =
     (let amount = lockup_amount (lockup_information c) in
      case vesting_information c of
        Terminating t \<Rightarrow> Inr (unvested_amount t)
      | NoVesting \<Rightarrow> Inr 0
      | _ \<Rightarrow>
          if env_block_timestamp e < cliff_timestamp vs then Inr amount
          else if end_timestamp vs \<le> env_block_timestamp e then Inr 0
          else
            bindE (checked_sub (end_timestamp vs) (env_block_timestamp e)) (\<lambda>time_left.
            bindE (checked_sub (end_timestamp vs) (start_timestamp vs)) (\<lambda>total_time.
            bindE (checked_div (amount * time_left) total_time) as_u128)))"

definition get_locked_amount :: "host \<Rightarrow> lockup_contract \<Rightarrow> nat res" where
  "get_locked_amount e c =
     (let info = lockup_information c; amount = lockup_amount info;
          everything = checked_sub amount (termination_withdrawn_tokens info) in
      case transfers_information info of
        TransfersDisabled _ \<Rightarrow> everything
      | TransfersEnabled transfers_timestamp \<Rightarrow>
          let lockup_ts = max (sat_add 64 transfers_timestamp (lockup_duration info))
                (case lockup_timestamp info of Some t \<Rightarrow> t | None \<Rightarrow> 0);
              block_ts = env_block_timestamp e in
          if lockup_ts \<le> block_ts then
            bindE (case release_duration info of
                     Some release \<Rightarrow>
                       let end_ts = sat_add 64 lockup_ts release in
                       if end_ts \<le> block_ts then Inr 0
                       else
                         bindE (checked_sub end_ts block_ts) (\<lambda>time_left.
                         bindE (checked_div (amount * time_left) release) as_u128)
                   | None \<Rightarrow> Inr 0) (\<lambda>unreleased.
            bindE (case vesting_information c of
                     VestingSchedule vs \<Rightarrow> get_unvested_amount e vs c
                   | Terminating t \<Rightarrow> Inr (unvested_amount t)
                   | _ \<Rightarrow> Inr 0) (\<lambda>unvested.
            Inr (max (sat_sub unreleased (termination_withdrawn_tokens info)) unvested)))
          else everything)"

definition get_locked_vested_amount :: "host \<Rightarrow> vesting_schedule \<Rightarrow> lockup_contract \<Rightarrow> nat res" where
  "get_locked_vested_amount e vs c =
     bindE (get_locked_amount e c) (\<lambda>locked.
     bindE (get_unvested_amount e vs c) (\<lambda>unvested.
     checked_sub locked unvested))"

definition get_vesting_information :: "lockup_contract \<Rightarrow> vesting_information" where
  "get_vesting_information c = vesting_information c"

definition get_owners_balance :: "host \<Rightarrow> lockup_contract \<Rightarrow> nat res" where
  "get_owners_balance e c =
     bindE (get_locked_amount e c) (\<lambda>locked.
     Inr (sat_sub (sat_add 128 (env_account_balance e) (get_known_deposited_balance c)) locked))"

definition get_balance :: "host \<Rightarrow> lockup_contract \<Rightarrow> nat" where
  "get_balance e c = sat_add 128 (env_account_balance e) (get_known_deposited_balance c)"

definition get_liquid_owners_balance :: "host \<Rightarrow> lockup_contract \<Rightarrow> nat res" where
  "get_liquid_owners_balance e c =
     bindE (get_owners_balance e c) (\<lambda>n. Inr (min n (get_account_balance e)))"

definition are_transfers_enabled :: "lockup_contract \<Rightarrow> bool" where
  "are_transfers_enabled c =
     (case transfers_information (lockup_information c) of
        TransfersEnabled _ \<Rightarrow> True | TransfersDisabled _ \<Rightarrow> False)"

definition set_staking_pool_status :: "transaction_status \<Rightarrow> lockup_contract \<Rightarrow> lockup_contract res" where
  "set_staking_pool_status st c =
     bindE (expect (staking_information c) ''Staking pool should be selected'') (\<lambda>info.
     Inr (c\<lparr>staking_information := Some (info\<lparr>status := st\<rparr>)\<rparr>))"

definition set_termination_status :: "termination_status \<Rightarrow> lockup_contract \<Rightarrow> lockup_contract res" where
  "set_termination_status st c =
     (case vesting_information c of
        Terminating t \<Rightarrow> Inr (c\<lparr>vesting_information := Terminating (t\<lparr>termination_status := st\<rparr>)\<rparr>)
      | _ \<Rightarrow> Inl (Unreachable ''The vesting information is not at the terminating stage''))"

definition assert_vesting ::
  "(vesting_schedule_with_salt \<Rightarrow> bytes) \<Rightarrow> host \<Rightarrow> vesting_schedule_with_salt option
     \<Rightarrow> lockup_contract \<Rightarrow> vesting_schedule res" where
  "assert_vesting ser e vss c =
     (case vesting_information c of
        VestingHash h \<Rightarrow>
          (case vss of
             Some v \<Rightarrow>
               bindE (ensure (hash ser e v = h)
                 ''Presented vesting schedule and salt don't match the hash'') (\<lambda>_.
               Inr (salted_vesting_schedule v))
           | None \<Rightarrow> Inl (Panic ''Expected vesting schedule and salt, but it was not provided''))
      | VestingSchedule vs \<Rightarrow>
          bindE (ensure (vss = None) ''Explicit vesting schedule exists'') (\<lambda>_. Inr vs)
      | Terminating _ \<Rightarrow> Inl (Panic ''Vesting was terminated'')
      | NoVesting \<Rightarrow> Inl (Panic ''Vesting is None''))"

definition assert_no_termination :: "lockup_contract \<Rightarrow> unit res" where
  "assert_no_termination c =
     (case vesting_information c of
        Terminating _ \<Rightarrow>
          Inl (Panic ''All operations are blocked until vesting termination is completed'')
      | _ \<Rightarrow> Inr ())"

definition assert_transfers_enabled :: "lockup_contract \<Rightarrow> unit res" where
  "assert_transfers_enabled c = ensure (are_transfers_enabled c) ''Transfers are disabled''"

definition assert_transfers_disabled :: "lockup_contract \<Rightarrow> unit res" where
  "assert_transfers_disabled c = ensure (\<not> are_transfers_enabled c) ''Transfers are already enabled''"

definition assert_idle_status :: "transaction_status \<Rightarrow> unit res" where
  "assert_idle_status st =
     (case st of Idle \<Rightarrow> Inr ()
      | Busy \<Rightarrow> Inl (Panic ''Contract is currently busy with another operation''))"

definition assert_no_staking_or_idle :: "lockup_contract \<Rightarrow> unit res" where
  "assert_no_staking_or_idle c =
     (case staking_information c of Some info \<Rightarrow> assert_idle_status (status info) | None \<Rightarrow> Inr ())"

definition assert_staking_pool_is_idle :: "lockup_contract \<Rightarrow> unit res" where
  "assert_staking_pool_is_idle c =
     bindE (ensure (staking_information c \<noteq> None) ''Staking pool is not selected'') (\<lambda>_.
     bindE (unwrap (staking_information c)) (\<lambda>info. assert_idle_status (status info)))"

definition assert_staking_pool_is_not_selected :: "lockup_contract \<Rightarrow> unit res" where
  "assert_staking_pool_is_not_selected c =
     ensure (staking_information c = None) ''Staking pool is already selected''"

definition assert_called_by_foundation_lockup :: "host \<Rightarrow> lockup_contract \<Rightarrow> unit res" where
  "assert_called_by_foundation_lockup e c =
     (case foundation_account c of
        Some f \<Rightarrow> ensure (env_predecessor_account_id e = f) ''Can only be called by UNC Foundation''
      | None \<Rightarrow> Inl (Panic ''No UNC Foundation account is specified in the contract''))"

definition assert_owner_lockup :: "host \<Rightarrow> lockup_contract \<Rightarrow> unit res" where
  "assert_owner_lockup e c =
     ensure (env_predecessor_account_id e = owner_account_id c) ''Can only be called by the owner''"

subsection \<open>The constructor, inverted\<close>

lemma new_lockupE:
  assumes "new_lockup e owner d lts tr vs rel wl f = Inr c"
  shows "lockup_information c = \<lparr>lockup_amount = env_account_balance e, termination_withdrawn_tokens = 0,
      lockup_duration = d, release_duration = rel, lockup_timestamp = lts, transfers_information = tr\<rparr>
    \<and> vesting_information c = (case vs of None \<Rightarrow> NoVesting | Some (InitVestingHash h) \<Rightarrow> VestingHash h
         | Some (InitVestingSchedule s) \<Rightarrow> VestingSchedule s)
    \<and> staking_information c = None \<and> owner_account_id c = owner \<and> foundation_account c = f
    \<and> (vs = None \<longleftrightarrow> f = None)"
  using assms
  by (cases vs) (auto simp: new_lockup_def Let_def split: vesting_schedule_or_hash.splits)

lemma new_lockup_returns:
  assumes "env_is_valid_account_id e owner" and "env_is_valid_account_id e wl"
    and "\<And>poll. tr = TransfersDisabled poll \<Longrightarrow> env_is_valid_account_id e poll"
    and "vs = None \<longleftrightarrow> f = None" and "\<And>a. f = Some a \<Longrightarrow> env_is_valid_account_id e a"
  shows "\<exists>c. new_lockup e owner d lts tr vs rel wl f = Inr c"
proof (cases vs)
  case None
  with assms show ?thesis by (cases tr) (simp_all add: new_lockup_def Let_def)
next
  case (Some v)
  with assms show ?thesis by (cases tr; cases v; cases f) (simp_all add: new_lockup_def Let_def)
qed

end
