(* ===== verification/LockupMethods.thy ===== *)
theory LockupMethods
  imports Lockup
begin

section \<open>The lockup contract: methods of the owner and of the foundation, and callbacks\<close>

text \<open>
  \<open>lockup/src/owner.rs\<close>, \<open>owner_callbacks.rs\<close>, \<open>foundation.rs\<close> and
  \<open>foundation_callbacks.rs\<close>. A method returns the new state with the promise it creates or the value
  it returns. An argument marked \<open>#[callback]\<close> is what the SDK parses from the result of the awaited
  call: it is an option, \<open>None\<close> for a failed call, on which the SDK panics. \<open>assert_self\<close> and
  \<open>is_promise_success\<close> are functions of the SDK here, so they are fields of \<open>host\<close>.
\<close>

subsection \<open>Remote calls\<close>

text \<open>
  The calls this contract makes: of a whitelist, a staking pool and a transfer poll, and its own
  callbacks (the traits of \<open>lib.rs\<close>).
\<close>

datatype lockup_call =
    C_is_whitelisted account_id
  | C_deposit
  | C_deposit_and_stake
  | C_withdraw nat
  | C_stake nat
  | C_unstake nat
  | C_unstake_all
  | C_get_account_staked_balance account_id
  | C_get_account_unstaked_balance account_id
  | C_get_account_total_balance account_id
  | C_get_result
  | C_on_whitelist_is_whitelisted account_id
  | C_on_staking_pool_deposit nat
  | C_on_staking_pool_deposit_and_stake nat
  | C_on_staking_pool_withdraw nat
  | C_on_staking_pool_stake nat
  | C_on_staking_pool_unstake nat
  | C_on_staking_pool_unstake_all
  | C_on_get_result_from_transfer_poll
  | C_on_get_account_total_balance
  | C_on_get_account_unstaked_balance_to_withdraw_by_owner
  | C_on_get_account_staked_balance_to_unstake
  | C_on_staking_pool_unstake_for_termination nat
  | C_on_get_account_unstaked_balance_to_withdraw
  | C_on_staking_pool_withdraw_for_termination nat
  | C_on_withdraw_unvested_amount nat account_id

type_synonym lockup_promise = "lockup_call promise"

text \<open>One call of one method, and \<open>ext_a::ext(r).with_static_gas(g).m(..).then(callback)\<close>.\<close>

definition call :: "account_id \<Rightarrow> lockup_call \<Rightarrow> nat \<Rightarrow> nat \<Rightarrow> lockup_promise" where
  "call receiver c deposit gas = Promise receiver [FunctionCall c deposit gas]"

definition callback_arg :: "'a option \<Rightarrow> 'a res" where
  "callback_arg r = expect r ''Callback computation 0 was not successful''"

subsection \<open>Methods of the owner (\<open>owner.rs\<close>)\<close>

definition select_staking_pool ::
  "host \<Rightarrow> account_id \<Rightarrow> lockup_contract \<Rightarrow> (lockup_contract \<times> lockup_promise) res" where
  "select_staking_pool e pool c =
     bindE (assert_owner_lockup e c) (\<lambda>_.
     bindE (ensure (env_is_valid_account_id e pool) ''The staking pool account ID is invalid'') (\<lambda>_.
     bindE (assert_staking_pool_is_not_selected c) (\<lambda>_.
     bindE (assert_no_termination c) (\<lambda>_.
     Inr (c, Then (call (staking_pool_whitelist_account_id c) (C_is_whitelisted pool) 0 gas_IS_WHITELISTED)
                  (call (env_current_account_id e) (C_on_whitelist_is_whitelisted pool) 0
                     gas_ON_WHITELIST_IS_WHITELISTED))))))"

definition unselect_staking_pool :: "host \<Rightarrow> lockup_contract \<Rightarrow> lockup_contract res" where
  "unselect_staking_pool e c =
     bindE (assert_owner_lockup e c) (\<lambda>_.
     bindE (assert_staking_pool_is_idle c) (\<lambda>_.
     bindE (assert_no_termination c) (\<lambda>_.
     bindE (unwrap (staking_information c)) (\<lambda>info.
     bindE (ensure (deposit_amount info = 0) ''There is still a deposit on the staking pool'') (\<lambda>_.
     Inr (c\<lparr>staking_information := None\<rparr>))))))"

definition deposit_to_staking_pool ::
  "host \<Rightarrow> nat \<Rightarrow> lockup_contract \<Rightarrow> (lockup_contract \<times> lockup_promise) res" where
  "deposit_to_staking_pool e amount c =
     bindE (assert_owner_lockup e c) (\<lambda>_.
     bindE (ensure (0 < amount) ''Amount should be positive'') (\<lambda>_.
     bindE (assert_staking_pool_is_idle c) (\<lambda>_.
     bindE (assert_no_termination c) (\<lambda>_.
     bindE (ensure (amount \<le> get_account_balance e)
       ''The balance that can be deposited to the staking pool is lower than the extra amount'') (\<lambda>_.
     bindE (set_staking_pool_status Busy c) (\<lambda>c.
     bindE (unwrap (staking_information c)) (\<lambda>info.
     Inr (c, Then (call (staking_pool_account_id info) C_deposit amount gas_DEPOSIT)
                  (call (env_current_account_id e) (C_on_staking_pool_deposit amount) 0
                     gas_ON_STAKING_POOL_DEPOSIT)))))))))"

definition deposit_and_stake_lockup ::
  "host \<Rightarrow> nat \<Rightarrow> lockup_contract \<Rightarrow> (lockup_contract \<times> lockup_promise) res" where
  "deposit_and_stake_lockup e amount c =
     bindE (assert_owner_lockup e c) (\<lambda>_.
     bindE (ensure (0 < amount) ''Amount should be positive'') (\<lambda>_.
     bindE (assert_staking_pool_is_idle c) (\<lambda>_.
     bindE (assert_no_termination c) (\<lambda>_.
     bindE (ensure (amount \<le> get_account_balance e)
       ''The balance that can be deposited to the staking pool is lower than the extra amount'') (\<lambda>_.
     bindE (set_staking_pool_status Busy c) (\<lambda>c.
     bindE (unwrap (staking_information c)) (\<lambda>info.
     Inr (c, Then (call (staking_pool_account_id info) C_deposit_and_stake amount gas_DEPOSIT_AND_STAKE)
                  (call (env_current_account_id e) (C_on_staking_pool_deposit_and_stake amount) 0
                     gas_ON_STAKING_POOL_DEPOSIT_AND_STAKE)))))))))"

text \<open>The query of the balance is addressed to this contract itself, with the pool as its argument.\<close>

definition refresh_staking_pool_balance ::
  "host \<Rightarrow> lockup_contract \<Rightarrow> (lockup_contract \<times> lockup_promise) res" where
  "refresh_staking_pool_balance e c =
     bindE (assert_owner_lockup e c) (\<lambda>_.
     bindE (assert_staking_pool_is_idle c) (\<lambda>_.
     bindE (assert_no_termination c) (\<lambda>_.
     bindE (set_staking_pool_status Busy c) (\<lambda>c.
     bindE (unwrap (staking_information c)) (\<lambda>info.
     Inr (c, Then (call (env_current_account_id e) (C_get_account_total_balance (staking_pool_account_id info)) 0 gas_GET_ACCOUNT_TOTAL_BALANCE)
                  (call (env_current_account_id e) C_on_get_account_total_balance 0
                     gas_ON_GET_ACCOUNT_TOTAL_BALANCE)))))))"

definition withdraw_from_staking_pool ::
  "host \<Rightarrow> nat \<Rightarrow> lockup_contract \<Rightarrow> (lockup_contract \<times> lockup_promise) res" where
  "withdraw_from_staking_pool e amount c =
     bindE (assert_owner_lockup e c) (\<lambda>_.
     bindE (ensure (0 < amount) ''Amount should be positive'') (\<lambda>_.
     bindE (assert_staking_pool_is_idle c) (\<lambda>_.
     bindE (assert_no_termination c) (\<lambda>_.
     bindE (set_staking_pool_status Busy c) (\<lambda>c.
     bindE (unwrap (staking_information c)) (\<lambda>info.
     Inr (c, Then (call (staking_pool_account_id info) (C_withdraw amount) 0 gas_WITHDRAW)
                  (call (env_current_account_id e) (C_on_staking_pool_withdraw amount) 0
                     gas_ON_STAKING_POOL_WITHDRAW))))))))"

definition withdraw_all_from_staking_pool ::
  "host \<Rightarrow> lockup_contract \<Rightarrow> (lockup_contract \<times> lockup_promise) res" where
  "withdraw_all_from_staking_pool e c =
     bindE (assert_owner_lockup e c) (\<lambda>_.
     bindE (assert_staking_pool_is_idle c) (\<lambda>_.
     bindE (assert_no_termination c) (\<lambda>_.
     bindE (set_staking_pool_status Busy c) (\<lambda>c.
     bindE (unwrap (staking_information c)) (\<lambda>info.
     Inr (c, Then (call (env_current_account_id e) (C_get_account_unstaked_balance (staking_pool_account_id info)) 0 gas_GET_ACCOUNT_UNSTAKED_BALANCE)
                  (call (env_current_account_id e) C_on_get_account_unstaked_balance_to_withdraw_by_owner 0
                     gas_ON_GET_ACCOUNT_UNSTAKED_BALANCE_TO_WITHDRAW_BY_OWNER)))))))"

definition stake_lockup ::
  "host \<Rightarrow> nat \<Rightarrow> lockup_contract \<Rightarrow> (lockup_contract \<times> lockup_promise) res" where
  "stake_lockup e amount c =
     bindE (assert_owner_lockup e c) (\<lambda>_.
     bindE (ensure (0 < amount) ''Amount should be positive'') (\<lambda>_.
     bindE (assert_staking_pool_is_idle c) (\<lambda>_.
     bindE (assert_no_termination c) (\<lambda>_.
     bindE (set_staking_pool_status Busy c) (\<lambda>c.
     bindE (unwrap (staking_information c)) (\<lambda>info.
     Inr (c, Then (call (staking_pool_account_id info) (C_stake amount) 0 gas_STAKE)
                  (call (env_current_account_id e) (C_on_staking_pool_stake amount) 0
                     gas_ON_STAKING_POOL_STAKE))))))))"

text \<open>The callback of \<open>unstake\<close> is scheduled without static gas.\<close>

definition unstake_lockup ::
  "host \<Rightarrow> nat \<Rightarrow> lockup_contract \<Rightarrow> (lockup_contract \<times> lockup_promise) res" where
  "unstake_lockup e amount c =
     bindE (assert_owner_lockup e c) (\<lambda>_.
     bindE (ensure (0 < amount) ''Amount should be positive'') (\<lambda>_.
     bindE (assert_staking_pool_is_idle c) (\<lambda>_.
     bindE (assert_no_termination c) (\<lambda>_.
     bindE (set_staking_pool_status Busy c) (\<lambda>c.
     bindE (unwrap (staking_information c)) (\<lambda>info.
     Inr (c, Then (call (staking_pool_account_id info) (C_unstake amount) 0 gas_UNSTAKE)
                  (call (env_current_account_id e) (C_on_staking_pool_unstake amount) 0
                     0))))))))"

definition unstake_all_lockup ::
  "host \<Rightarrow> lockup_contract \<Rightarrow> (lockup_contract \<times> lockup_promise) res" where
  "unstake_all_lockup e c =
     bindE (assert_owner_lockup e c) (\<lambda>_.
     bindE (assert_staking_pool_is_idle c) (\<lambda>_.
     bindE (assert_no_termination c) (\<lambda>_.
     bindE (set_staking_pool_status Busy c) (\<lambda>c.
     bindE (unwrap (staking_information c)) (\<lambda>info.
     Inr (c, Then (call (staking_pool_account_id info) C_unstake_all 0 gas_UNSTAKE_ALL)
                  (call (env_current_account_id e) C_on_staking_pool_unstake_all 0
                     gas_ON_STAKING_POOL_UNSTAKE_ALL)))))))"

text \<open>The transfer poll is asked under the account ID of this contract.\<close>

definition check_transfers_vote ::
  "host \<Rightarrow> lockup_contract \<Rightarrow> (lockup_contract \<times> lockup_promise) res" where
  "check_transfers_vote e c =
     bindE (assert_owner_lockup e c) (\<lambda>_.
     bindE (assert_transfers_disabled c) (\<lambda>_.
     bindE (assert_no_termination c) (\<lambda>_.
     case transfers_information (lockup_information c) of
       TransfersDisabled transfer_poll_account_id \<Rightarrow>
         Inr (c, Then (call (env_current_account_id e) C_get_result 0 gas_GET_RESULT)
                      (call (env_current_account_id e) C_on_get_result_from_transfer_poll 0
                         gas_ON_VOTING_GET_RESULT))
     | _ \<Rightarrow> Inl (Unreachable ''internal error: entered unreachable code''))))"

definition transfer ::
  "host \<Rightarrow> nat \<Rightarrow> account_id \<Rightarrow> lockup_contract \<Rightarrow> (lockup_contract \<times> lockup_promise) res" where
  "transfer e amount receiver_id c =
     bindE (assert_owner_lockup e c) (\<lambda>_.
     bindE (ensure (0 < amount) ''Amount should be positive'') (\<lambda>_.
     bindE (ensure (env_is_valid_account_id e receiver_id) ''The receiver account ID is invalid'') (\<lambda>_.
     bindE (assert_transfers_enabled c) (\<lambda>_.
     bindE (assert_no_staking_or_idle c) (\<lambda>_.
     bindE (assert_no_termination c) (\<lambda>_.
     bindE (get_liquid_owners_balance e c) (\<lambda>liquid.
     bindE (ensure (amount \<le> liquid)
       ''The available liquid balance is smaller than the requested transfer amount'') (\<lambda>_.
     Inr (c, Promise receiver_id [Transfer amount])))))))))"

definition add_full_access_key ::
  "host \<Rightarrow> public_key \<Rightarrow> lockup_contract \<Rightarrow> (lockup_contract \<times> lockup_promise) res" where
  "add_full_access_key e new_public_key c =
     bindE (assert_owner_lockup e c) (\<lambda>_.
     bindE (assert_transfers_enabled c) (\<lambda>_.
     bindE (assert_no_staking_or_idle c) (\<lambda>_.
     bindE (assert_no_termination c) (\<lambda>_.
     bindE (get_locked_amount e c) (\<lambda>locked.
     bindE (ensure (locked = 0) ''Tokens are still locked/unvested'') (\<lambda>_.
     Inr (c, Promise (env_current_account_id e) [AddFullAccessKey new_public_key])))))))"

subsection \<open>Callbacks of the owner's methods (\<open>owner_callbacks.rs\<close>)\<close>

definition on_whitelist_is_whitelisted ::
  "host \<Rightarrow> bool option \<Rightarrow> account_id \<Rightarrow> lockup_contract \<Rightarrow> (lockup_contract \<times> bool) res" where
  "on_whitelist_is_whitelisted e is_whitelisted pool c =
     bindE (callback_arg is_whitelisted) (\<lambda>is_whitelisted.
     bindE (env_assert_self e) (\<lambda>_.
     bindE (ensure is_whitelisted ''The given staking pool account ID is not whitelisted'') (\<lambda>_.
     bindE (assert_staking_pool_is_not_selected c) (\<lambda>_.
     bindE (assert_no_termination c) (\<lambda>_.
     Inr (c\<lparr>staking_information :=
              Some \<lparr>staking_pool_account_id = pool, status = Idle, deposit_amount = 0\<rparr>\<rparr>, True))))))"

definition on_staking_pool_deposit ::
  "host \<Rightarrow> nat \<Rightarrow> lockup_contract \<Rightarrow> (lockup_contract \<times> bool) res" where
  "on_staking_pool_deposit e amount c =
     bindE (env_assert_self e) (\<lambda>_.
     bindE (env_is_promise_success e) (\<lambda>succeeded.
     bindE (set_staking_pool_status Idle c) (\<lambda>c.
     if succeeded then
       bindE (unwrap (staking_information c)) (\<lambda>info.
       bindE (checked_add 128 (deposit_amount info) amount) (\<lambda>n.
       Inr (c\<lparr>staking_information := Some (info\<lparr>deposit_amount := n\<rparr>)\<rparr>, succeeded)))
     else Inr (c, succeeded))))"

definition on_staking_pool_deposit_and_stake ::
  "host \<Rightarrow> nat \<Rightarrow> lockup_contract \<Rightarrow> (lockup_contract \<times> bool) res" where
  "on_staking_pool_deposit_and_stake e amount c =
     bindE (env_assert_self e) (\<lambda>_.
     bindE (env_is_promise_success e) (\<lambda>succeeded.
     bindE (set_staking_pool_status Idle c) (\<lambda>c.
     if succeeded then
       bindE (unwrap (staking_information c)) (\<lambda>info.
       bindE (checked_add 128 (deposit_amount info) amount) (\<lambda>n.
       Inr (c\<lparr>staking_information := Some (info\<lparr>deposit_amount := n\<rparr>)\<rparr>, succeeded)))
     else Inr (c, succeeded))))"

definition on_staking_pool_withdraw ::
  "host \<Rightarrow> nat \<Rightarrow> lockup_contract \<Rightarrow> (lockup_contract \<times> bool) res" where
  "on_staking_pool_withdraw e amount c =
     bindE (env_assert_self e) (\<lambda>_.
     bindE (env_is_promise_success e) (\<lambda>succeeded.
     bindE (set_staking_pool_status Idle c) (\<lambda>c.
     if succeeded then
       bindE (unwrap (staking_information c)) (\<lambda>info.
       Inr (c\<lparr>staking_information :=
                Some (info\<lparr>deposit_amount := sat_sub (deposit_amount info) amount\<rparr>)\<rparr>, succeeded))
     else Inr (c, succeeded))))"

definition on_staking_pool_stake ::
  "host \<Rightarrow> nat \<Rightarrow> lockup_contract \<Rightarrow> (lockup_contract \<times> bool) res" where
  "on_staking_pool_stake e amount c =
     bindE (env_assert_self e) (\<lambda>_.
     bindE (env_is_promise_success e) (\<lambda>succeeded.
     bindE (set_staking_pool_status Idle c) (\<lambda>c.
     Inr (c, succeeded))))"

definition on_staking_pool_unstake ::
  "host \<Rightarrow> nat \<Rightarrow> lockup_contract \<Rightarrow> (lockup_contract \<times> bool) res" where
  "on_staking_pool_unstake e amount c =
     bindE (env_assert_self e) (\<lambda>_.
     bindE (env_is_promise_success e) (\<lambda>succeeded.
     bindE (set_staking_pool_status Idle c) (\<lambda>c.
     Inr (c, succeeded))))"

definition on_staking_pool_unstake_all ::
  "host \<Rightarrow> lockup_contract \<Rightarrow> (lockup_contract \<times> bool) res" where
  "on_staking_pool_unstake_all e c =
     bindE (env_assert_self e) (\<lambda>_.
     bindE (env_is_promise_success e) (\<lambda>succeeded.
     bindE (set_staking_pool_status Idle c) (\<lambda>c.
     Inr (c, succeeded))))"

definition on_get_result_from_transfer_poll ::
  "host \<Rightarrow> timestamp option option \<Rightarrow> lockup_contract \<Rightarrow> (lockup_contract \<times> bool) res" where
  "on_get_result_from_transfer_poll e poll_result c =
     bindE (callback_arg poll_result) (\<lambda>poll_result.
     bindE (env_assert_self e) (\<lambda>_.
     bindE (assert_transfers_disabled c) (\<lambda>_.
     Inr (case poll_result of
            Some transfers_timestamp \<Rightarrow>
              (c\<lparr>lockup_information := (lockup_information c)
                  \<lparr>transfers_information := TransfersEnabled transfers_timestamp\<rparr>\<rparr>, True)
          | None \<Rightarrow> (c, False)))))"

definition on_get_account_total_balance ::
  "host \<Rightarrow> nat option \<Rightarrow> lockup_contract \<Rightarrow> lockup_contract res" where
  "on_get_account_total_balance e total_balance c =
     bindE (callback_arg total_balance) (\<lambda>total_balance.
     bindE (env_assert_self e) (\<lambda>_.
     bindE (set_staking_pool_status Idle c) (\<lambda>c.
     bindE (unwrap (staking_information c)) (\<lambda>info.
     Inr (c\<lparr>staking_information := Some (info\<lparr>deposit_amount := total_balance\<rparr>)\<rparr>)))))"

definition on_get_account_unstaked_balance_to_withdraw_by_owner ::
  "host \<Rightarrow> nat option \<Rightarrow> lockup_contract \<Rightarrow> (lockup_contract \<times> lockup_call promise_or_value) res" where
  "on_get_account_unstaked_balance_to_withdraw_by_owner e unstaked_balance c =
     bindE (callback_arg unstaked_balance) (\<lambda>unstaked_balance.
     bindE (env_assert_self e) (\<lambda>_.
     if 0 < unstaked_balance then
       bindE (unwrap (staking_information c)) (\<lambda>info.
       Inr (c, PromiseRet (Then
         (call (staking_pool_account_id info) (C_withdraw unstaked_balance) 0 gas_WITHDRAW)
         (call (env_current_account_id e) (C_on_staking_pool_withdraw unstaked_balance) 0
            gas_ON_STAKING_POOL_WITHDRAW))))
     else
       bindE (set_staking_pool_status Idle c) (\<lambda>c. Inr (c, ValueRet True))))"

subsection \<open>Methods of the foundation (\<open>foundation.rs\<close>)\<close>

definition terminate_vesting ::
  "(vesting_schedule_with_salt \<Rightarrow> bytes) \<Rightarrow> host \<Rightarrow> vesting_schedule_with_salt option
     \<Rightarrow> lockup_contract \<Rightarrow> lockup_contract res" where
  "terminate_vesting ser e vss c =
     bindE (assert_called_by_foundation_lockup e c) (\<lambda>_.
     bindE (assert_vesting ser e vss c) (\<lambda>vesting_schedule.
     bindE (get_unvested_amount e vesting_schedule c) (\<lambda>unvested.
     bindE (ensure (0 < unvested) ''The account is fully vested'') (\<lambda>_.
     let deficit = sat_sub unvested (get_account_balance e);
         st = (if 0 < deficit \<and> staking_information c \<noteq> None
               then VestingTerminatedWithDeficit else ReadyToWithdraw) in
     Inr (c\<lparr>vesting_information :=
              Terminating \<lparr>unvested_amount = unvested, termination_status = st\<rparr>\<rparr>)))))"

definition termination_prepare_to_withdraw ::
  "host \<Rightarrow> lockup_contract \<Rightarrow> (lockup_contract \<times> lockup_promise) res" where
  "termination_prepare_to_withdraw e c =
     bindE (assert_called_by_foundation_lockup e c) (\<lambda>_.
     bindE (assert_staking_pool_is_idle c) (\<lambda>_.
     case get_termination_status c of
       None \<Rightarrow> Inl (Panic ''There is no termination in progress'')
     | Some VestingTerminatedWithDeficit \<Rightarrow>
         bindE (set_termination_status UnstakingInProgress c) (\<lambda>c.
         bindE (set_staking_pool_status Busy c) (\<lambda>c.
         bindE (unwrap (staking_information c)) (\<lambda>info.
         Inr (c, Then
           (call (env_current_account_id e)
              (C_get_account_staked_balance (staking_pool_account_id info)) 0
              gas_GET_ACCOUNT_STAKED_BALANCE)
           (call (env_current_account_id e) C_on_get_account_staked_balance_to_unstake 0
              gas_ON_GET_ACCOUNT_STAKED_BALANCE_TO_UNSTAKE)))))
     | Some EverythingUnstaked \<Rightarrow>
         bindE (set_termination_status WithdrawingFromStakingPoolInProgress c) (\<lambda>c.
         bindE (set_staking_pool_status Busy c) (\<lambda>c.
         bindE (unwrap (staking_information c)) (\<lambda>info.
         Inr (c, Then
           (call (env_current_account_id e)
              (C_get_account_unstaked_balance (staking_pool_account_id info)) 0
              gas_GET_ACCOUNT_UNSTAKED_BALANCE)
           (call (env_current_account_id e) C_on_get_account_unstaked_balance_to_withdraw 0
              gas_ON_GET_ACCOUNT_UNSTAKED_BALANCE_TO_WITHDRAW)))))
     | Some ReadyToWithdraw \<Rightarrow>
         Inl (Panic ''The account is ready to withdraw unvested balance.'')
     | Some _ \<Rightarrow> Inl (Panic ''Another transaction is already in progress.'')))"

definition termination_withdraw ::
  "host \<Rightarrow> account_id \<Rightarrow> lockup_contract \<Rightarrow> (lockup_contract \<times> lockup_promise) res" where
  "termination_withdraw e receiver_id c =
     bindE (assert_called_by_foundation_lockup e c) (\<lambda>_.
     bindE (ensure (env_is_valid_account_id e receiver_id) ''The receiver account ID is invalid'') (\<lambda>_.
     bindE (ensure (get_termination_status c = Some ReadyToWithdraw)
       ''Termination status is not ready to withdraw'') (\<lambda>_.
     let amount = min (get_terminated_unvested_balance c) (get_account_balance e) in
     bindE (ensure (0 < amount)
       ''The account doesn't have enough liquid balance to withdraw any amount'') (\<lambda>_.
     bindE (set_termination_status WithdrawingFromAccountInProgress c) (\<lambda>c.
     Inr (c, Then (Promise receiver_id [Transfer amount])
                  (call (env_current_account_id e) (C_on_withdraw_unvested_amount amount receiver_id) 0
                     gas_ON_WITHDRAW_UNVESTED_AMOUNT)))))))"

subsection \<open>Callbacks of the foundation's methods (\<open>foundation_callbacks.rs\<close>)\<close>

definition on_get_account_staked_balance_to_unstake ::
  "host \<Rightarrow> nat option \<Rightarrow> lockup_contract \<Rightarrow> (lockup_contract \<times> lockup_call promise_or_value) res" where
  "on_get_account_staked_balance_to_unstake e staked_balance c =
     bindE (callback_arg staked_balance) (\<lambda>staked_balance.
     bindE (env_assert_self e) (\<lambda>_.
     if 0 < staked_balance then
       bindE (unwrap (staking_information c)) (\<lambda>info.
       Inr (c, PromiseRet (Then
         (call (staking_pool_account_id info) (C_unstake staked_balance) 0 gas_UNSTAKE)
         (call (env_current_account_id e) (C_on_staking_pool_unstake_for_termination staked_balance) 0
            gas_ON_STAKING_POOL_UNSTAKE_FOR_TERMINATION))))
     else
       bindE (set_staking_pool_status Idle c) (\<lambda>c.
       bindE (set_termination_status EverythingUnstaked c) (\<lambda>c.
       Inr (c, ValueRet True)))))"

definition on_staking_pool_unstake_for_termination ::
  "host \<Rightarrow> nat \<Rightarrow> lockup_contract \<Rightarrow> (lockup_contract \<times> bool) res" where
  "on_staking_pool_unstake_for_termination e amount c =
     bindE (env_assert_self e) (\<lambda>_.
     bindE (env_is_promise_success e) (\<lambda>succeeded.
     bindE (set_staking_pool_status Idle c) (\<lambda>c.
     bindE (set_termination_status
              (if succeeded then EverythingUnstaked else VestingTerminatedWithDeficit) c) (\<lambda>c.
     Inr (c, succeeded)))))"

definition on_get_account_unstaked_balance_to_withdraw ::
  "host \<Rightarrow> nat option \<Rightarrow> lockup_contract \<Rightarrow> (lockup_contract \<times> lockup_call promise_or_value) res" where
  "on_get_account_unstaked_balance_to_withdraw e unstaked_balance c =
     bindE (callback_arg unstaked_balance) (\<lambda>unstaked_balance.
     bindE (env_assert_self e) (\<lambda>_.
     if 0 < unstaked_balance then
       bindE (unwrap (staking_information c)) (\<lambda>info.
       Inr (c, PromiseRet (Then
         (call (staking_pool_account_id info) (C_withdraw unstaked_balance) 0 gas_WITHDRAW)
         (call (env_current_account_id e) (C_on_staking_pool_withdraw_for_termination unstaked_balance) 0
            gas_ON_STAKING_POOL_WITHDRAW_FOR_TERMINATION))))
     else
       bindE (set_staking_pool_status Idle c) (\<lambda>c.
       bindE (set_termination_status ReadyToWithdraw c) (\<lambda>c.
       Inr (c, ValueRet True)))))"

definition on_staking_pool_withdraw_for_termination ::
  "host \<Rightarrow> nat \<Rightarrow> lockup_contract \<Rightarrow> (lockup_contract \<times> bool) res" where
  "on_staking_pool_withdraw_for_termination e amount c =
     bindE (env_assert_self e) (\<lambda>_.
     bindE (env_is_promise_success e) (\<lambda>succeeded.
     bindE (set_staking_pool_status Idle c) (\<lambda>c.
     if succeeded then
       bindE (set_termination_status ReadyToWithdraw c) (\<lambda>c.
       bindE (unwrap (staking_information c)) (\<lambda>info.
       Inr (c\<lparr>staking_information :=
                Some (info\<lparr>deposit_amount := sat_sub (deposit_amount info) amount\<rparr>)\<rparr>, succeeded)))
     else
       bindE (set_termination_status EverythingUnstaked c) (\<lambda>c. Inr (c, succeeded)))))"

definition on_withdraw_unvested_amount ::
  "host \<Rightarrow> nat \<Rightarrow> account_id \<Rightarrow> lockup_contract \<Rightarrow> (lockup_contract \<times> bool) res" where
  "on_withdraw_unvested_amount e amount receiver_id c =
     bindE (env_assert_self e) (\<lambda>_.
     bindE (env_is_promise_success e) (\<lambda>succeeded.
     if succeeded then
       bindE (checked_add 128 (termination_withdrawn_tokens (lockup_information c)) amount) (\<lambda>withdrawn.
       let c = c\<lparr>lockup_information := (lockup_information c)\<lparr>termination_withdrawn_tokens := withdrawn\<rparr>\<rparr>;
           unvested = get_terminated_unvested_balance c in
       if amount < unvested then
         bindE (checked_sub unvested amount) (\<lambda>remaining.
         Inr (c\<lparr>vesting_information :=
                  Terminating \<lparr>unvested_amount = remaining, termination_status = ReadyToWithdraw\<rparr>\<rparr>,
              succeeded))
       else
         Inr (c\<lparr>foundation_account := None, vesting_information := NoVesting\<rparr>, succeeded))
     else
       bindE (set_termination_status ReadyToWithdraw c) (\<lambda>c. Inr (c, succeeded))))"

end
