(* ===== verification/LockupProofs.thy ===== *)
theory LockupProofs
  imports LockupMethods "HOL-Library.Multiset"
begin

section \<open>The lockup contract: calls in flight and the invariants over them\<close>

text \<open>
  The dispatcher of the contract, the transition system of the contract together with its
  outstanding callbacks, and the invariants that the properties in \<open>LockupTheorems\<close> rest on.
\<close>

subsection \<open>When the assertions hold\<close>

lemma assert_owner_lockup_Inr [simp]:
  "assert_owner_lockup e c = Inr u \<longleftrightarrow> env_predecessor_account_id e = owner_account_id c"
  by (simp add: assert_owner_lockup_def)

lemma assert_called_by_foundation_lockup_Inr [simp]:
  "assert_called_by_foundation_lockup e c = Inr u \<longleftrightarrow> foundation_account c = Some (env_predecessor_account_id e)"
  by (auto simp: assert_called_by_foundation_lockup_def split: option.splits)

lemma assert_idle_status_Inr [simp]: "assert_idle_status st = Inr u \<longleftrightarrow> st = Idle"
  by (simp add: assert_idle_status_def split: transaction_status.splits)

lemma assert_staking_pool_is_idle_Inr [simp]:
  "assert_staking_pool_is_idle c = Inr u \<longleftrightarrow> (\<exists>info. staking_information c = Some info \<and> status info = Idle)"
  by (auto simp: assert_staking_pool_is_idle_def)

lemma assert_no_staking_or_idle_Inr [simp]:
  "assert_no_staking_or_idle c = Inr u \<longleftrightarrow> (\<forall>info. staking_information c = Some info \<longrightarrow> status info = Idle)"
  by (auto simp: assert_no_staking_or_idle_def split: option.splits)

lemma assert_staking_pool_is_not_selected_Inr [simp]:
  "assert_staking_pool_is_not_selected c = Inr u \<longleftrightarrow> staking_information c = None"
  by (simp add: assert_staking_pool_is_not_selected_def)

lemma assert_no_termination_Inr [simp]:
  "assert_no_termination c = Inr u \<longleftrightarrow> get_termination_status c = None"
  by (auto simp: assert_no_termination_def get_termination_status_def split: vesting_information.splits)

lemma assert_transfers_enabled_Inr [simp]: "assert_transfers_enabled c = Inr u \<longleftrightarrow> are_transfers_enabled c"
  by (simp add: assert_transfers_enabled_def)

lemma assert_transfers_disabled_Inr [simp]: "assert_transfers_disabled c = Inr u \<longleftrightarrow> \<not> are_transfers_enabled c"
  by (simp add: assert_transfers_disabled_def)

lemma callback_arg_Inr [simp]: "callback_arg r = Inr x \<longleftrightarrow> r = Some x"
  by (simp add: callback_arg_def)

definition with_status :: "transaction_status \<Rightarrow> lockup_contract \<Rightarrow> lockup_contract" where
  "with_status st c = c\<lparr>staking_information := map_option (\<lambda>i. i\<lparr>status := st\<rparr>) (staking_information c)\<rparr>"

definition with_termination :: "termination_status \<Rightarrow> lockup_contract \<Rightarrow> lockup_contract" where
  "with_termination st c = c\<lparr>vesting_information :=
     (case vesting_information c of
        Terminating t \<Rightarrow> Terminating (t\<lparr>termination_status := st\<rparr>) | v \<Rightarrow> v)\<rparr>"

lemma set_staking_pool_status_Inr [simp]:
  "set_staking_pool_status st c = Inr c' \<longleftrightarrow> staking_information c \<noteq> None \<and> c' = with_status st c"
  by (auto simp: set_staking_pool_status_def with_status_def)

lemma set_termination_status_Inr [simp]:
  "set_termination_status st c = Inr c' \<longleftrightarrow> get_termination_status c \<noteq> None \<and> c' = with_termination st c"
  by (auto simp: set_termination_status_def with_termination_def get_termination_status_def
      split: vesting_information.splits)

lemma with_status_simps [simp]:
  "owner_account_id (with_status st c) = owner_account_id c"
  "lockup_information (with_status st c) = lockup_information c"
  "vesting_information (with_status st c) = vesting_information c"
  "foundation_account (with_status st c) = foundation_account c"
  "staking_pool_whitelist_account_id (with_status st c) = staking_pool_whitelist_account_id c"
  "staking_information (with_status st c) = map_option (\<lambda>i. i\<lparr>status := st\<rparr>) (staking_information c)"
  "get_termination_status (with_status st c) = get_termination_status c"
  "get_terminated_unvested_balance (with_status st c) = get_terminated_unvested_balance c"
  by (simp_all add: with_status_def get_termination_status_def get_terminated_unvested_balance_def)

lemma with_termination_simps [simp]:
  "owner_account_id (with_termination st' c) = owner_account_id c"
  "lockup_information (with_termination st' c) = lockup_information c"
  "foundation_account (with_termination st' c) = foundation_account c"
  "staking_pool_whitelist_account_id (with_termination st' c) = staking_pool_whitelist_account_id c"
  "staking_information (with_termination st' c) = staking_information c"
  "get_termination_status (with_termination st' c) = map_option (\<lambda>_. st') (get_termination_status c)"
  "get_terminated_unvested_balance (with_termination st' c) = get_terminated_unvested_balance c"
  by (simp_all add: with_termination_def get_termination_status_def get_terminated_unvested_balance_def
      split: vesting_information.splits)

subsection \<open>Dispatch\<close>

text \<open>The exported methods of the owner and of the foundation as one type of messages.\<close>

datatype lockup_msg =
    L_select_staking_pool account_id
  | L_unselect_staking_pool
  | L_deposit_to_staking_pool nat
  | L_deposit_and_stake nat
  | L_refresh_staking_pool_balance
  | L_withdraw_from_staking_pool nat
  | L_withdraw_all_from_staking_pool
  | L_stake nat
  | L_unstake nat
  | L_unstake_all
  | L_check_transfers_vote
  | L_transfer nat account_id
  | L_add_full_access_key public_key
  | L_terminate_vesting "vesting_schedule_with_salt option"
  | L_termination_prepare_to_withdraw
  | L_termination_withdraw account_id

type_synonym lockup_run = "(lockup_contract \<times> lockup_promise list) res"

definition one :: "(lockup_contract \<times> lockup_promise) res \<Rightarrow> lockup_run" where
  "one m = bindE m (\<lambda>(c, p). Inr (c, [p]))"

fun lockup_exec :: "(vesting_schedule_with_salt \<Rightarrow> bytes) \<Rightarrow> host \<Rightarrow> lockup_msg \<Rightarrow> lockup_contract
    \<Rightarrow> lockup_run" where
  "lockup_exec ser e (L_select_staking_pool a) c = one (select_staking_pool e a c)"
| "lockup_exec ser e L_unselect_staking_pool c = bindE (unselect_staking_pool e c) (\<lambda>c. Inr (c, []))"
| "lockup_exec ser e (L_deposit_to_staking_pool n) c = one (deposit_to_staking_pool e n c)"
| "lockup_exec ser e (L_deposit_and_stake n) c = one (deposit_and_stake_lockup e n c)"
| "lockup_exec ser e L_refresh_staking_pool_balance c = one (refresh_staking_pool_balance e c)"
| "lockup_exec ser e (L_withdraw_from_staking_pool n) c = one (withdraw_from_staking_pool e n c)"
| "lockup_exec ser e L_withdraw_all_from_staking_pool c = one (withdraw_all_from_staking_pool e c)"
| "lockup_exec ser e (L_stake n) c = one (stake_lockup e n c)"
| "lockup_exec ser e (L_unstake n) c = one (unstake_lockup e n c)"
| "lockup_exec ser e L_unstake_all c = one (unstake_all_lockup e c)"
| "lockup_exec ser e L_check_transfers_vote c = one (check_transfers_vote e c)"
| "lockup_exec ser e (L_transfer n a) c = one (transfer e n a c)"
| "lockup_exec ser e (L_add_full_access_key pk) c = one (add_full_access_key e pk c)"
| "lockup_exec ser e (L_terminate_vesting v) c = bindE (terminate_vesting ser e v c) (\<lambda>c. Inr (c, []))"
| "lockup_exec ser e L_termination_prepare_to_withdraw c = one (termination_prepare_to_withdraw e c)"
| "lockup_exec ser e (L_termination_withdraw a) c = one (termination_withdraw e a c)"

text \<open>What a remote call may answer, and what the SDK makes of it for a callback.\<close>

datatype call_result = R_failed | R_unit | R_bool bool | R_balance nat | R_poll "timestamp option"

fun as_bool :: "call_result \<Rightarrow> bool option" where
  "as_bool (R_bool b) = Some b" | "as_bool _ = None"

fun as_balance :: "call_result \<Rightarrow> nat option" where
  "as_balance (R_balance n) = Some n" | "as_balance _ = None"

fun as_poll :: "call_result \<Rightarrow> timestamp option option" where
  "as_poll (R_poll t) = Some t" | "as_poll _ = None"

definition no_promise :: "(lockup_contract \<times> bool) res \<Rightarrow> lockup_run" where
  "no_promise m = bindE m (\<lambda>(c, _). Inr (c, []))"

definition maybe_promise :: "(lockup_contract \<times> lockup_call promise_or_value) res \<Rightarrow> lockup_run" where
  "maybe_promise m = bindE m (\<lambda>(c, v). Inr (c, case v of PromiseRet p \<Rightarrow> [p] | ValueRet _ \<Rightarrow> []))"

fun run_callback :: "host \<Rightarrow> call_result \<Rightarrow> lockup_call \<Rightarrow> lockup_contract \<Rightarrow> lockup_run" where
  "run_callback e r (C_on_whitelist_is_whitelisted a) c =
     no_promise (on_whitelist_is_whitelisted e (as_bool r) a c)"
| "run_callback e r (C_on_staking_pool_deposit n) c = no_promise (on_staking_pool_deposit e n c)"
| "run_callback e r (C_on_staking_pool_deposit_and_stake n) c =
     no_promise (on_staking_pool_deposit_and_stake e n c)"
| "run_callback e r (C_on_staking_pool_withdraw n) c = no_promise (on_staking_pool_withdraw e n c)"
| "run_callback e r (C_on_staking_pool_stake n) c = no_promise (on_staking_pool_stake e n c)"
| "run_callback e r (C_on_staking_pool_unstake n) c = no_promise (on_staking_pool_unstake e n c)"
| "run_callback e r C_on_staking_pool_unstake_all c = no_promise (on_staking_pool_unstake_all e c)"
| "run_callback e r C_on_get_result_from_transfer_poll c =
     no_promise (on_get_result_from_transfer_poll e (as_poll r) c)"
| "run_callback e r C_on_get_account_total_balance c =
     bindE (on_get_account_total_balance e (as_balance r) c) (\<lambda>c. Inr (c, []))"
| "run_callback e r C_on_get_account_unstaked_balance_to_withdraw_by_owner c =
     maybe_promise (on_get_account_unstaked_balance_to_withdraw_by_owner e (as_balance r) c)"
| "run_callback e r C_on_get_account_staked_balance_to_unstake c =
     maybe_promise (on_get_account_staked_balance_to_unstake e (as_balance r) c)"
| "run_callback e r (C_on_staking_pool_unstake_for_termination n) c =
     no_promise (on_staking_pool_unstake_for_termination e n c)"
| "run_callback e r C_on_get_account_unstaked_balance_to_withdraw c =
     maybe_promise (on_get_account_unstaked_balance_to_withdraw e (as_balance r) c)"
| "run_callback e r (C_on_staking_pool_withdraw_for_termination n) c =
     no_promise (on_staking_pool_withdraw_for_termination e n c)"
| "run_callback e r (C_on_withdraw_unvested_amount n a) c =
     no_promise (on_withdraw_unvested_amount e n a c)"
| "run_callback e r _ c = Inl (Panic ''MethodNotFound'')"

subsection \<open>The contract with its outstanding callbacks\<close>

fun awaiting :: "lockup_promise \<Rightarrow> lockup_call multiset" where
  "awaiting (Then p (Promise r [FunctionCall c d g])) = {#c#}"
| "awaiting _ = {#}"

type_synonym world = "lockup_contract \<times> lockup_call multiset"

text \<open>
  A step of the world is an accepted call of a method by anyone, or the arrival of an outstanding
  callback, which the contract itself calls with an arbitrary result of the awaited call. A callback
  that panics is used up and changes nothing. (Everybody else who calls a callback is rejected by
  \<open>assert_self\<close>.)
\<close>

inductive world_step :: "(vesting_schedule_with_salt \<Rightarrow> bytes) \<Rightarrow> world \<Rightarrow> world \<Rightarrow> bool" for ser where
  world_call: "lockup_exec ser e msg c = Inr (c', ps)
    \<Longrightarrow> world_step ser (c, P) (c', P + sum_list (map awaiting ps))"
| world_callback: "cb \<in># P \<Longrightarrow> env_assert_self e = Inr () \<Longrightarrow> env_is_promise_success e = Inr (r \<noteq> R_failed)
    \<Longrightarrow> run_callback e r cb c = Inr (c', ps)
    \<Longrightarrow> world_step ser (c, P) (c', P - {#cb#} + sum_list (map awaiting ps))"
| world_panic: "cb \<in># P \<Longrightarrow> env_assert_self e = Inr () \<Longrightarrow> env_is_promise_success e = Inr (r \<noteq> R_failed)
    \<Longrightarrow> run_callback e r cb c = Inl p \<Longrightarrow> world_step ser (c, P) (c, P - {#cb#})"

inductive_cases world_stepE: "world_step ser w w'"

text \<open>The callbacks by the operation they belong to.\<close>

datatype callback_kind = K_owner_pool | K_unstake | K_withdraw | K_payout | K_check

fun kind_of :: "lockup_call \<Rightarrow> callback_kind" where
  "kind_of (C_on_staking_pool_deposit n) = K_owner_pool"
| "kind_of (C_on_staking_pool_deposit_and_stake n) = K_owner_pool"
| "kind_of (C_on_staking_pool_withdraw n) = K_owner_pool"
| "kind_of (C_on_staking_pool_stake n) = K_owner_pool"
| "kind_of (C_on_staking_pool_unstake n) = K_owner_pool"
| "kind_of C_on_staking_pool_unstake_all = K_owner_pool"
| "kind_of C_on_get_account_total_balance = K_owner_pool"
| "kind_of C_on_get_account_unstaked_balance_to_withdraw_by_owner = K_owner_pool"
| "kind_of C_on_get_account_staked_balance_to_unstake = K_unstake"
| "kind_of (C_on_staking_pool_unstake_for_termination n) = K_unstake"
| "kind_of C_on_get_account_unstaked_balance_to_withdraw = K_withdraw"
| "kind_of (C_on_staking_pool_withdraw_for_termination n) = K_withdraw"
| "kind_of (C_on_withdraw_unvested_amount n a) = K_payout"
| "kind_of _ = K_check"

fun pool_kind :: "callback_kind \<Rightarrow> bool" where
  "pool_kind K_owner_pool = True"
| "pool_kind K_unstake = True"
| "pool_kind K_withdraw = True"
| "pool_kind _ = False"

abbreviation owner_pool_cb :: "lockup_call \<Rightarrow> bool" where
  "owner_pool_cb cb \<equiv> kind_of cb = K_owner_pool"

abbreviation unstake_cb :: "lockup_call \<Rightarrow> bool" where
  "unstake_cb cb \<equiv> kind_of cb = K_unstake"

abbreviation withdraw_cb :: "lockup_call \<Rightarrow> bool" where
  "withdraw_cb cb \<equiv> kind_of cb = K_withdraw"

abbreviation payout_cb :: "lockup_call \<Rightarrow> bool" where
  "payout_cb cb \<equiv> kind_of cb = K_payout"

abbreviation pool_cb :: "lockup_call \<Rightarrow> bool" where
  "pool_cb cb \<equiv> pool_kind (kind_of cb)"

definition busy :: "lockup_contract \<Rightarrow> bool" where
  "busy c \<longleftrightarrow> (\<exists>info. staking_information c = Some info \<and> status info = Busy)"

subsection \<open>Accepted calls, inverted\<close>

lemmas owner_methods = select_staking_pool_def unselect_staking_pool_def deposit_to_staking_pool_def
  deposit_and_stake_lockup_def refresh_staking_pool_balance_def withdraw_from_staking_pool_def
  withdraw_all_from_staking_pool_def stake_lockup_def unstake_lockup_def unstake_all_lockup_def
  check_transfers_vote_def transfer_def add_full_access_key_def

lemmas foundation_methods = terminate_vesting_def termination_prepare_to_withdraw_def
  termination_withdraw_def

lemmas lockup_callbacks = on_whitelist_is_whitelisted_def on_staking_pool_deposit_def
  on_staking_pool_deposit_and_stake_def on_staking_pool_withdraw_def on_staking_pool_stake_def
  on_staking_pool_unstake_def on_staking_pool_unstake_all_def on_get_result_from_transfer_poll_def
  on_get_account_total_balance_def on_get_account_unstaked_balance_to_withdraw_by_owner_def
  on_get_account_staked_balance_to_unstake_def on_staking_pool_unstake_for_termination_def
  on_get_account_unstaked_balance_to_withdraw_def on_staking_pool_withdraw_for_termination_def
  on_withdraw_unvested_amount_def

lemma one_Inr [simp]: "one m = Inr (c, ps) \<longleftrightarrow> (\<exists>p. m = Inr (c, p) \<and> ps = [p])"
  by (auto simp: one_def)

lemma no_promise_Inr [simp]: "no_promise m = Inr (c, ps) \<longleftrightarrow> (\<exists>b. m = Inr (c, b)) \<and> ps = []"
  by (auto simp: no_promise_def)

lemma maybe_promise_Inr [simp]: "maybe_promise m = Inr (c, ps) \<longleftrightarrow>
    (\<exists>v. m = Inr (c, v) \<and> ps = (case v of PromiseRet p \<Rightarrow> [p] | ValueRet _ \<Rightarrow> []))"
  by (auto simp: maybe_promise_def)

lemma awaiting_call [simp]: "awaiting (Then p (call r cb d g)) = {#cb#}"
  by (simp add: call_def)

definition awaited :: "lockup_promise list \<Rightarrow> lockup_call multiset" where
  "awaited ps = sum_list (map awaiting ps)"

lemma awaited_simps [simp]:
  "awaited [] = {#}"
  "awaited [p] = awaiting p"
  by (simp_all add: awaited_def)

text \<open>
  What the calls of owner and foundation have in common: they start a pool operation (the contract
  gets busy and exactly one callback is outstanding), start a check that leaves the state alone,
  drop the pool, pay, or move the termination on.
\<close>

lemma start_cases:
  assumes "lockup_exec ser e msg c = Inr (c', ps)"
    and "msg \<in> {L_refresh_staking_pool_balance, L_withdraw_all_from_staking_pool, L_unstake_all} \<or>
         (\<exists>n. msg \<in> {L_deposit_to_staking_pool n, L_deposit_and_stake n, L_withdraw_from_staking_pool n,
                     L_stake n, L_unstake n})"
  shows "\<exists>cb info. awaited ps = {#cb#} \<and> owner_pool_cb cb \<and> staking_information c = Some info
    \<and> status info = Idle \<and> get_termination_status c = None \<and> c' = with_status Busy c
    \<and> env_predecessor_account_id e = owner_account_id c"
  using assms by (auto simp: owner_methods)

lemma lockup_exec_cases:
  assumes "lockup_exec ser e msg c = Inr (c', ps)"
  obtains (start) cb info where "awaited ps = {#cb#}" "owner_pool_cb cb" "staking_information c = Some info"
      "status info = Idle" "get_termination_status c = None" "c' = with_status Busy c"
      "env_predecessor_account_id e = owner_account_id c"
  | (look) cb where "awaited ps = {#cb#}" "\<not> pool_cb cb" "\<not> payout_cb cb" "c' = c"
      "env_predecessor_account_id e = owner_account_id c"
  | (unselect) info where "awaited ps = {#}" "staking_information c = Some info" "status info = Idle"
      "deposit_amount info = 0" "get_termination_status c = None" "c' = c\<lparr>staking_information := None\<rparr>"
      "env_predecessor_account_id e = owner_account_id c"
  | (pay) "awaited ps = {#}" "c' = c" "get_termination_status c = None" "\<not> busy c"
      "env_predecessor_account_id e = owner_account_id c"
      "(\<exists>n a. msg = L_transfer n a) \<or> (\<exists>k. msg = L_add_full_access_key k)"
  | (terminate) vss vs n st where "msg = L_terminate_vesting vss" "awaited ps = {#}"
      "foundation_account c = Some (env_predecessor_account_id e)"
      "assert_vesting ser e vss c = Inr vs" "get_unvested_amount e vs c = Inr n" "0 < n"
      "st \<in> {VestingTerminatedWithDeficit, ReadyToWithdraw}"
      "c' = c\<lparr>vesting_information := Terminating \<lparr>unvested_amount = n, termination_status = st\<rparr>\<rparr>"
  | (prepare) info st st' cb where "awaited ps = {#cb#}" "staking_information c = Some info"
      "status info = Idle" "foundation_account c = Some (env_predecessor_account_id e)"
      "get_termination_status c = Some st" "c' = with_status Busy (with_termination st' c)"
      "st = VestingTerminatedWithDeficit \<and> st' = UnstakingInProgress \<and> unstake_cb cb
       \<or> st = EverythingUnstaked \<and> st' = WithdrawingFromStakingPoolInProgress \<and> withdraw_cb cb"
  | (payout) a n where "msg = L_termination_withdraw a" "awaited ps = {#C_on_withdraw_unvested_amount n a#}"
      "foundation_account c = Some (env_predecessor_account_id e)"
      "get_termination_status c = Some ReadyToWithdraw"
      "n = min (get_terminated_unvested_balance c) (get_account_balance e)" "0 < n"
      "c' = with_termination WithdrawingFromAccountInProgress c"
proof (cases msg)
  case (L_select_staking_pool a)
  with assms show thesis by (intro look) (auto simp: owner_methods)
next
  case L_unselect_staking_pool
  with assms obtain info where "staking_information c = Some info" "status info = Idle"
      "deposit_amount info = 0" "get_termination_status c = None" "c' = c\<lparr>staking_information := None\<rparr>"
      "env_predecessor_account_id e = owner_account_id c" "ps = []"
    by (auto simp: owner_methods)
  then show thesis by (intro unselect) auto
next
  case L_check_transfers_vote
  with assms show thesis
    by (intro look) (auto simp: owner_methods split: transfers_information.splits)
next
  case (L_transfer n a)
  with assms show thesis by (intro pay) (auto simp: owner_methods busy_def)
next
  case (L_add_full_access_key pk)
  with assms show thesis by (intro pay) (auto simp: owner_methods busy_def)
next
  case (L_terminate_vesting v)
  with assms obtain vs n where "foundation_account c = Some (env_predecessor_account_id e)"
      "assert_vesting ser e v c = Inr vs" "get_unvested_amount e vs c = Inr n" "0 < n" "ps = []"
      "c' = c\<lparr>vesting_information := Terminating \<lparr>unvested_amount = n, termination_status =
          (if 0 < sat_sub n (get_account_balance e) \<and> staking_information c \<noteq> None
           then VestingTerminatedWithDeficit else ReadyToWithdraw)\<rparr>\<rparr>"
    by (auto simp: foundation_methods Let_def)
  then show thesis using L_terminate_vesting by (intro terminate) auto
next
  case L_termination_prepare_to_withdraw
  with assms obtain info st where i: "staking_information c = Some info" "status info = Idle"
      "foundation_account c = Some (env_predecessor_account_id e)" "get_termination_status c = Some st"
    by (cases "get_termination_status c") (auto simp: foundation_methods)
  show thesis
  proof (cases st)
    case VestingTerminatedWithDeficit
    with assms i L_termination_prepare_to_withdraw show thesis
      by (intro prepare [of C_on_get_account_staked_balance_to_unstake info st UnstakingInProgress])
        (auto simp: foundation_methods)
  next
    case EverythingUnstaked
    with assms i L_termination_prepare_to_withdraw show thesis
      by (intro prepare [of C_on_get_account_unstaked_balance_to_withdraw info st
            WithdrawingFromStakingPoolInProgress])
        (auto simp: foundation_methods)
  qed (use assms i L_termination_prepare_to_withdraw in \<open>simp_all add: foundation_methods\<close>)
next
  case (L_termination_withdraw a)
  with assms show thesis by (intro payout [OF L_termination_withdraw]) (auto simp: foundation_methods Let_def)
qed (use start_cases [OF assms] start in blast)+

text \<open>The contract after a pool operation that leaves \<open>n\<close> tokens known to be deposited.\<close>

definition settled :: "nat \<Rightarrow> lockup_contract \<Rightarrow> lockup_contract" where
  "settled n c = c\<lparr>staking_information :=
     map_option (\<lambda>i. i\<lparr>status := Idle, deposit_amount := n\<rparr>) (staking_information c)\<rparr>"

lemma settled_simps [simp]:
  "owner_account_id (settled n c) = owner_account_id c"
  "lockup_information (settled n c) = lockup_information c"
  "vesting_information (settled n c) = vesting_information c"
  "foundation_account (settled n c) = foundation_account c"
  "staking_information (settled n c) =
     map_option (\<lambda>i. i\<lparr>status := Idle, deposit_amount := n\<rparr>) (staking_information c)"
  "get_termination_status (settled n c) = get_termination_status c"
  "get_terminated_unvested_balance (settled n c) = get_terminated_unvested_balance c"
  by (simp_all add: settled_def get_termination_status_def get_terminated_unvested_balance_def)

lemma settled_Idle: "staking_information c = Some info \<Longrightarrow> with_status Idle c = settled (deposit_amount info) c"
  by (simp add: with_status_def settled_def)

lemma settled_upd:
  "staking_information c = Some info \<Longrightarrow>
    c\<lparr>staking_information := Some (info\<lparr>status := Idle, deposit_amount := n\<rparr>)\<rparr> = settled n c"
  "staking_information c = Some info \<Longrightarrow>
    settled m c\<lparr>staking_information := Some (info\<lparr>status := Idle, deposit_amount := n\<rparr>)\<rparr> = settled n c"
  "staking_information c = Some info \<Longrightarrow>
    with_termination st (settled m c)\<lparr>staking_information := Some (info\<lparr>status := Idle, deposit_amount := n\<rparr>)\<rparr>
      = with_termination st (settled n c)"
  by (simp_all add: settled_def with_status_def with_termination_def)

lemma owner_callback_cases:
  assumes "run_callback e r cb c = Inr (c', ps)" and "owner_pool_cb cb"
  shows "(\<exists>n. awaited ps = {#} \<and> staking_information c \<noteq> None \<and> c' = settled n c)
    \<or> (\<exists>cb'. awaited ps = {#cb'#} \<and> owner_pool_cb cb' \<and> c' = c)"
  using assms
  by (cases cb)
    (auto simp: lockup_callbacks settled_Idle settled_upd split: if_splits)

lemma callback_cases:
  assumes "run_callback e r cb c = Inr (c', ps)"
  obtains (settle) n where "owner_pool_cb cb" "awaited ps = {#}" "staking_information c \<noteq> None" "c' = settled n c"
  | (again) cb' where "owner_pool_cb cb" "awaited ps = {#cb'#}" "owner_pool_cb cb'" "c' = c"
  | (listed) a where "cb = C_on_whitelist_is_whitelisted a" "r = R_bool True" "awaited ps = {#}"
      "staking_information c = None" "get_termination_status c = None"
      "c' = c\<lparr>staking_information :=
              Some \<lparr>staking_pool_account_id = a, status = Idle, deposit_amount = 0\<rparr>\<rparr>"
  | (polled) t where "cb = C_on_get_result_from_transfer_poll" "r = R_poll t" "awaited ps = {#}"
      "\<not> are_transfers_enabled c"
      "c' = (case t of Some ts \<Rightarrow> c\<lparr>lockup_information :=
                (lockup_information c)\<lparr>transfers_information := TransfersEnabled ts\<rparr>\<rparr> | None \<Rightarrow> c)"
  | (unstake_again) cb' where "unstake_cb cb" "awaited ps = {#cb'#}" "unstake_cb cb'" "c' = c"
  | (unstaked) st where "unstake_cb cb" "awaited ps = {#}" "c' = with_termination st (with_status Idle c)"
      "st \<in> {EverythingUnstaked, VestingTerminatedWithDeficit}"
  | (withdraw_again) cb' where "withdraw_cb cb" "awaited ps = {#cb'#}" "withdraw_cb cb'" "c' = c"
  | (withdrawn) st n where "withdraw_cb cb" "awaited ps = {#}" "c' = with_termination st (settled n c)"
      "st \<in> {ReadyToWithdraw, EverythingUnstaked}"
  | (paid) n a w where "cb = C_on_withdraw_unvested_amount n a" "env_is_promise_success e = Inr True"
      "awaited ps = {#}" "w = termination_withdrawn_tokens (lockup_information c) + n" "fits 128 w"
      "c' = (let c1 = c\<lparr>lockup_information := (lockup_information c)\<lparr>termination_withdrawn_tokens := w\<rparr>\<rparr> in
             if n < get_terminated_unvested_balance c
             then c1\<lparr>vesting_information := Terminating \<lparr>
                    unvested_amount = get_terminated_unvested_balance c - n,
                    termination_status = ReadyToWithdraw\<rparr>\<rparr>
             else c1\<lparr>foundation_account := None, vesting_information := NoVesting\<rparr>)"
  | (unpaid) n a where "cb = C_on_withdraw_unvested_amount n a" "env_is_promise_success e = Inr False"
      "awaited ps = {#}" "c' = with_termination ReadyToWithdraw c"
proof (cases "owner_pool_cb cb")
  case True
  with owner_callback_cases [OF assms] show thesis using settle again by blast
next
  case False
  have bal: "get_terminated_unvested_balance (c\<lparr>lockup_information := i\<rparr>) = get_terminated_unvested_balance c" for i
    by (simp add: get_terminated_unvested_balance_def)
  show thesis
  proof (cases cb)
    case (C_on_whitelist_is_whitelisted a)
    with assms show thesis by (intro listed) (auto simp: lockup_callbacks elim!: as_bool.elims)
  next
    case C_on_get_result_from_transfer_poll
    with assms obtain t where "as_poll r = Some t" and "\<not> are_transfers_enabled c" and "ps = []"
      and "c' = (case t of Some ts \<Rightarrow> c\<lparr>lockup_information :=
                (lockup_information c)\<lparr>transfers_information := TransfersEnabled ts\<rparr>\<rparr> | None \<Rightarrow> c)"
      by (auto simp: lockup_callbacks split: option.splits)
    with C_on_get_result_from_transfer_poll show thesis by (intro polled [of t]) (auto elim: as_poll.elims)
  next
    case C_on_get_account_staked_balance_to_unstake
    with assms obtain v where r: "as_balance r = Some v" by (auto simp: lockup_callbacks)
    show thesis
    proof (cases "0 < v")
      case True
      with assms r C_on_get_account_staked_balance_to_unstake show thesis
        by (intro unstake_again [of "C_on_staking_pool_unstake_for_termination v"]) (auto simp: lockup_callbacks)
    next
      case False
      with assms r C_on_get_account_staked_balance_to_unstake show thesis
        by (intro unstaked [of EverythingUnstaked]) (auto simp: lockup_callbacks)
    qed
  next
    case (C_on_staking_pool_unstake_for_termination n)
    with assms obtain b where "c' = with_termination
          (if b then EverythingUnstaked else VestingTerminatedWithDeficit) (with_status Idle c)" and "ps = []"
      by (auto simp: lockup_callbacks)
    with C_on_staking_pool_unstake_for_termination show thesis
      by (cases b) (auto intro: unstaked)
  next
    case C_on_get_account_unstaked_balance_to_withdraw
    with assms obtain v where r: "as_balance r = Some v" by (auto simp: lockup_callbacks)
    show thesis
    proof (cases "0 < v")
      case True
      with assms r C_on_get_account_unstaked_balance_to_withdraw show thesis
        by (intro withdraw_again [of "C_on_staking_pool_withdraw_for_termination v"]) (auto simp: lockup_callbacks)
    next
      case False
      with assms r C_on_get_account_unstaked_balance_to_withdraw obtain info where
        "staking_information c = Some info" "c' = with_termination ReadyToWithdraw (with_status Idle c)" "ps = []"
        by (auto simp: lockup_callbacks)
      with C_on_get_account_unstaked_balance_to_withdraw show thesis
        by (intro withdrawn [of ReadyToWithdraw]) (auto simp: settled_Idle)
    qed
  next
    case (C_on_staking_pool_withdraw_for_termination n)
    with assms obtain info m st where "staking_information c = Some info"
      "c' = with_termination st (settled m c)" "ps = []" "st \<in> {ReadyToWithdraw, EverythingUnstaked}"
      by (auto simp: lockup_callbacks settled_Idle settled_upd split: if_splits)
    with C_on_staking_pool_withdraw_for_termination show thesis by (intro withdrawn) auto
  next
    case (C_on_withdraw_unvested_amount n a)
    with assms obtain b where b: "env_is_promise_success e = Inr b" by (auto simp: lockup_callbacks)
    show thesis
    proof (cases b)
      case True
      with assms b C_on_withdraw_unvested_amount show thesis
        by (intro paid [of n a]) (auto simp: lockup_callbacks Let_def bal split: if_splits)
    next
      case False
      with assms b C_on_withdraw_unvested_amount show thesis
        by (intro unpaid [of n a]) (auto simp: lockup_callbacks)
    qed
  qed (use assms False in simp_all)
qed

end
