(* ===== verification/LockupWorld.thy ===== *)
theory LockupWorld
  imports LockupProofs
begin

section \<open>The lockup contract: invariants of the contract with its outstanding callbacks\<close>

text \<open>
  At most one staking pool operation is in flight, and while one is, the contract is busy; at most
  one payout to the foundation is in flight; the termination never pays more than it found
  unvested; the steps of a termination come in order.
\<close>

subsection \<open>At most one element of a kind\<close>

definition slot :: "('a \<Rightarrow> bool) \<Rightarrow> 'a multiset \<Rightarrow> bool" where
  "slot p P \<longleftrightarrow> size (filter_mset p P) \<le> 1"

lemma slot_empty [simp]: "slot p {#}"
  by (simp add: slot_def)

lemma slot_diff: "slot p P \<Longrightarrow> slot p (P - {#x#})"
  unfolding slot_def by (metis diff_subset_eq_self multiset_filter_mono order_trans size_mset_mono)

lemma slot_add_other: "\<not> p x \<Longrightarrow> slot p (add_mset x P) = slot p P"
  by (simp add: slot_def)

lemma slot_add_first:
  assumes "\<forall>y \<in># P. \<not> p y"
  shows "slot p (add_mset x P)"
proof -
  have "size (filter_mset p P) = 0" using assms by simp
  then show ?thesis by (simp add: slot_def del: size_eq_0_iff_empty)
qed

lemma slot_only:
  assumes "slot p P" and "x \<in># P" and "p x"
  shows "\<forall>y \<in># P - {#x#}. \<not> p y"
proof -
  obtain Q where P: "P = add_mset x Q" using assms(2) by (metis insert_DiffM)
  with assms have "filter_mset p Q = {#}" by (simp add: slot_def)
  then show ?thesis by (simp add: P)
qed

lemma all_diff: "\<forall>y \<in># P. R y \<Longrightarrow> \<forall>y \<in># P - {#x#}. R y"
  by (meson in_diffD)

subsection \<open>The invariant\<close>

definition callback_ok :: "lockup_contract \<Rightarrow> lockup_call \<Rightarrow> bool" where
  "callback_ok c cb \<longleftrightarrow>
     (pool_cb cb \<longrightarrow> busy c)
     \<and> (owner_pool_cb cb \<longrightarrow> get_termination_status c \<noteq> Some UnstakingInProgress
          \<and> get_termination_status c \<noteq> Some WithdrawingFromStakingPoolInProgress)
     \<and> (unstake_cb cb \<longrightarrow> get_termination_status c = Some UnstakingInProgress)
     \<and> (withdraw_cb cb \<longrightarrow> get_termination_status c = Some WithdrawingFromStakingPoolInProgress)
     \<and> (\<forall>n a. cb = C_on_withdraw_unvested_amount n a \<longrightarrow>
          get_termination_status c = Some WithdrawingFromAccountInProgress
          \<and> 0 < n \<and> n \<le> get_terminated_unvested_balance c)"

definition world_inv :: "world \<Rightarrow> bool" where
  "world_inv w \<longleftrightarrow> slot pool_cb (snd w) \<and> slot payout_cb (snd w) \<and> (\<forall>cb \<in># snd w. callback_ok (fst w) cb)"

lemma world_invD:
  assumes "world_inv (c, P)"
  shows "slot pool_cb P" and "slot payout_cb P" and "\<forall>cb \<in># P. callback_ok c cb"
  using assms by (auto simp: world_inv_def)

lemma pool_kind_iff: "pool_kind k \<longleftrightarrow> k = K_owner_pool \<or> k = K_unstake \<or> k = K_withdraw"
  by (cases k) auto

lemma payout_cb_iff: "payout_cb cb \<longleftrightarrow> (\<exists>n a. cb = C_on_withdraw_unvested_amount n a)"
  by (cases cb) auto

lemma busy_with_status [simp]: "busy (with_status st c) \<longleftrightarrow> staking_information c \<noteq> None \<and> st = Busy"
  by (auto simp: busy_def)

lemma busy_with_termination [simp]: "busy (with_termination st c) = busy c"
  by (simp add: busy_def)

lemma busy_settled [simp]: "\<not> busy (settled n c)"
  by (auto simp: busy_def)

text \<open>How each change of the contract carries the conditions on the callbacks that stay outstanding.\<close>

lemma callback_ok_cong:
  assumes "get_termination_status c' = get_termination_status c"
    and "get_terminated_unvested_balance c' = get_terminated_unvested_balance c"
    and "pool_cb cb \<longrightarrow> busy c \<longrightarrow> busy c'"
  shows "callback_ok c cb \<Longrightarrow> callback_ok c' cb"
  using assms by (auto simp: callback_ok_def)

lemma callback_ok_neutral: "\<not> pool_cb cb \<Longrightarrow> \<not> payout_cb cb \<Longrightarrow> callback_ok c cb"
  by (auto simp: callback_ok_def pool_kind_iff)

lemma idle_no_pool_cb: "world_inv (c, P) \<Longrightarrow> \<not> busy c \<Longrightarrow> \<forall>cb \<in># P. \<not> pool_cb cb"
  by (auto simp: world_inv_def callback_ok_def)

lemma not_paying_no_payout:
  "world_inv (c, P) \<Longrightarrow> get_termination_status c \<noteq> Some WithdrawingFromAccountInProgress
    \<Longrightarrow> \<forall>cb \<in># P. \<not> payout_cb cb"
  by (auto simp: world_inv_def callback_ok_def payout_cb_iff)

lemma idle_not_busy: "staking_information c = Some info \<Longrightarrow> status info = Idle \<Longrightarrow> \<not> busy c"
  by (simp add: busy_def)

lemma world_inv_call:
  assumes "lockup_exec ser e msg c = Inr (c', ps)" and inv: "world_inv (c, P)"
  shows "world_inv (c', P + awaited ps)"
  using assms(1)
proof (cases rule: lockup_exec_cases)
  case (start cb info)
  have "\<not> busy c" using start by (simp add: busy_def)
  then have none: "\<forall>cb \<in># P. \<not> pool_cb cb" using inv by (intro idle_no_pool_cb)
  moreover have "\<forall>cb \<in># P. \<not> payout_cb cb" using inv start by (intro not_paying_no_payout) auto
  moreover have "callback_ok c' cb" using start by (auto simp: callback_ok_def payout_cb_iff)
  ultimately show ?thesis using inv start
    by (auto simp: world_inv_def slot_add_first slot_add_other callback_ok_neutral)
next
  case (look cb)
  then show ?thesis using inv
    by (auto simp: world_inv_def slot_add_other callback_ok_neutral)
next
  case (unselect info)
  have "\<not> busy c" using unselect by (simp add: busy_def)
  then have none: "\<forall>cb \<in># P. \<not> pool_cb cb" using inv by (intro idle_no_pool_cb)
  moreover have "\<forall>cb \<in># P. \<not> payout_cb cb" using inv unselect by (intro not_paying_no_payout) auto
  ultimately show ?thesis using inv unselect by (auto simp: world_inv_def callback_ok_neutral)
next
  case pay
  then show ?thesis using inv by (simp add: world_inv_def)
next
  case (terminate vss vs n st)
  have "get_termination_status c = None"
    using terminate(4) by (auto simp: assert_vesting_def get_termination_status_def
        split: vesting_information.splits)
  then have ok: "callback_ok c cb \<Longrightarrow> callback_ok c' cb" for cb
    using terminate by (auto simp: callback_ok_def busy_def get_termination_status_def)
  show ?thesis using inv ok terminate(2) by (auto simp: world_inv_def)
next
  case (prepare info st st' cb)
  have "\<not> busy c" using prepare by (simp add: busy_def)
  then have none: "\<forall>cb \<in># P. \<not> pool_cb cb" using inv by (intro idle_no_pool_cb)
  moreover have "\<forall>cb \<in># P. \<not> payout_cb cb" using inv prepare by (intro not_paying_no_payout) auto
  moreover have "callback_ok c' cb \<and> pool_cb cb" using prepare by (auto simp: callback_ok_def payout_cb_iff)
  ultimately show ?thesis using inv prepare(1)
    by (auto simp: world_inv_def slot_add_first slot_add_other callback_ok_neutral)
next
  case (payout a n)
  have none: "\<forall>cb \<in># P. \<not> payout_cb cb" using inv payout by (intro not_paying_no_payout) auto
  then have ok: "cb \<in># P \<Longrightarrow> callback_ok c' cb" for cb
    using world_invD(3) [OF inv] payout by (force simp: callback_ok_def payout_cb_iff)
  moreover have "callback_ok c' (C_on_withdraw_unvested_amount n a)"
    using payout by (auto simp: callback_ok_def)
  ultimately show ?thesis using inv none payout(2)
    by (auto simp: world_inv_def slot_add_first slot_add_other)
qed

lemma callback_ok_status:
  "\<not> pool_cb cb \<Longrightarrow> callback_ok c cb \<Longrightarrow> callback_ok (with_status st c) cb"
  "\<not> pool_cb cb \<Longrightarrow> callback_ok c cb \<Longrightarrow> callback_ok (settled n c) cb"
  by (auto simp: callback_ok_def)

text \<open>A callback of the pool that sends the next one in its place.\<close>

lemma world_inv_again:
  assumes inv: "world_inv (c, P)" and cb: "cb \<in># P" and "pool_cb cb" and "pool_cb cb'" and "callback_ok c cb'"
  shows "world_inv (c, P - {#cb#} + {#cb'#})"
proof -
  note inv' = world_invD [OF inv]
  have "\<forall>x \<in># P - {#cb#}. \<not> pool_cb x" using slot_only [OF inv'(1) cb] assms(3) by simp
  moreover have "slot pool_cb (P - {#cb#})" "slot payout_cb (P - {#cb#})" "\<forall>x \<in># P - {#cb#}. callback_ok c x"
    using inv' by (auto intro: slot_diff dest: in_diffD)
  moreover have "\<not> payout_cb cb'" using assms(4) by (cases cb') auto
  ultimately show ?thesis using assms(4,5) by (simp add: world_inv_def slot_add_first slot_add_other)
qed

lemma world_inv_callback:
  assumes "run_callback e r cb c = Inr (c', ps)" and inv: "world_inv (c, P)" and cb: "cb \<in># P"
  shows "world_inv (c', P - {#cb#} + awaited ps)"
proof -
  let ?Q = "P - {#cb#}"
  note inv' = world_invD [OF inv]
  have ok: "callback_ok c cb" using inv'(3) cb by blast
  have Q: "slot pool_cb ?Q" "slot payout_cb ?Q" "\<forall>x \<in># ?Q. callback_ok c x"
    using inv' by (auto intro: slot_diff dest: in_diffD)
  have alone: "pool_cb cb \<Longrightarrow> \<forall>x \<in># ?Q. \<not> pool_cb x"
    using slot_only [OF inv'(1) cb] by simp
  have lone: "payout_cb cb \<Longrightarrow> \<forall>x \<in># ?Q. \<not> payout_cb x"
    using slot_only [OF inv'(2) cb] by simp
  from assms(1) show ?thesis
  proof (cases rule: callback_cases)
    case (settle n)
    then have "\<forall>x \<in># ?Q. callback_ok c' x" using Q(3) alone by (auto intro: callback_ok_status)
    with settle(2) Q show ?thesis by (simp add: world_inv_def)
  next
    case (again cb')
    have "callback_ok c cb'" using ok again by (auto simp: callback_ok_def)
    with again world_inv_again [OF inv cb] show ?thesis by simp
  next
    case (listed a)
    have "\<not> busy c" using listed by (simp add: busy_def)
    then have "\<forall>x \<in># P. \<not> pool_cb x" using inv by (intro idle_no_pool_cb)
    moreover have "\<forall>x \<in># P. \<not> payout_cb x" using inv listed by (intro not_paying_no_payout) auto
    ultimately have "\<forall>x \<in># ?Q. callback_ok c' x" by (meson callback_ok_neutral in_diffD)
    with listed(3) Q show ?thesis by (simp add: world_inv_def)
  next
    case (polled t)
    have "get_termination_status c' = get_termination_status c"
      and "get_terminated_unvested_balance c' = get_terminated_unvested_balance c"
      and "busy c' = busy c"
      using polled(5) by (cases t; simp add: get_termination_status_def
          get_terminated_unvested_balance_def busy_def)+
    then have "callback_ok c x \<Longrightarrow> callback_ok c' x" for x by (simp add: callback_ok_def)
    with polled(3) Q show ?thesis by (simp add: world_inv_def)
  next
    case (unstake_again cb')
    have "callback_ok c cb'" using ok unstake_again by (auto simp: callback_ok_def)
    with unstake_again world_inv_again [OF inv cb] show ?thesis by simp
  next
    case (unstaked st)
    have t: "get_termination_status c = Some UnstakingInProgress"
      using ok unstaked by (simp add: callback_ok_def)
    then have "\<forall>x \<in># P. \<not> payout_cb x" using inv by (intro not_paying_no_payout) auto
    then have "\<forall>x \<in># ?Q. callback_ok c' x"
      using alone unstaked(1) by (auto intro!: callback_ok_neutral dest: in_diffD)
    with unstaked(2) Q show ?thesis by (simp add: world_inv_def)
  next
    case (withdraw_again cb')
    have "callback_ok c cb'" using ok withdraw_again by (auto simp: callback_ok_def)
    with withdraw_again world_inv_again [OF inv cb] show ?thesis by simp
  next
    case (withdrawn st n)
    have t: "get_termination_status c = Some WithdrawingFromStakingPoolInProgress"
      using ok withdrawn by (simp add: callback_ok_def)
    then have "\<forall>x \<in># P. \<not> payout_cb x" using inv by (intro not_paying_no_payout) auto
    then have "\<forall>x \<in># ?Q. callback_ok c' x"
      using alone withdrawn(1) by (auto intro!: callback_ok_neutral dest: in_diffD)
    with withdrawn(2) Q show ?thesis by (simp add: world_inv_def)
  next
    case (paid n a w)
    have t: "get_termination_status c = Some WithdrawingFromAccountInProgress"
      using ok paid by (simp add: callback_ok_def)
    have "busy c' = busy c" and "get_termination_status c' = Some ReadyToWithdraw \<or> get_termination_status c' = None"
      using paid(6) by (auto simp: Let_def busy_def get_termination_status_def split: if_splits)
    then have "callback_ok c x \<Longrightarrow> \<not> payout_cb x \<Longrightarrow> callback_ok c' x" for x
      using t by (auto simp: callback_ok_def)
    with Q lone paid(1,3) show ?thesis by (auto simp: world_inv_def)
  next
    case (unpaid n a)
    have "get_termination_status c = Some WithdrawingFromAccountInProgress"
      using ok unpaid by (simp add: callback_ok_def)
    then have "callback_ok c x \<Longrightarrow> \<not> payout_cb x \<Longrightarrow> callback_ok c' x" for x
      using unpaid(4) by (auto simp: callback_ok_def)
    with Q lone unpaid(1,3) show ?thesis by (auto simp: world_inv_def)
  qed
qed

definition lockup_init :: "world \<Rightarrow> bool" where
  "lockup_init w \<longleftrightarrow> snd w = {#} \<and>
     (\<exists>e owner d lts tr vs rel wl f. new_lockup e owner d lts tr vs rel wl f = Inr (fst w))"

lemma world_inv_step:
  assumes "world_step ser w w'" and "world_inv w"
  shows "world_inv w'"
  using assms(1)
proof (cases rule: world_step.cases)
  case (world_call e msg c c' ps P)
  then show ?thesis using world_inv_call assms(2) by (simp add: awaited_def)
next
  case (world_callback cb P e r c c' ps)
  then show ?thesis using world_inv_callback assms(2) by (simp add: awaited_def)
next
  case (world_panic cb P e r c p)
  then show ?thesis using assms(2) by (auto simp: world_inv_def intro: slot_diff dest: in_diffD)
qed

interpretation lockup_world: inductive_invariant "world_step ser" world_inv lockup_init for ser
proof unfold_locales
  show "world_inv w \<Longrightarrow> world_step ser w w' \<Longrightarrow> world_inv w'" for w w' by (rule world_inv_step)
  show "lockup_init w \<Longrightarrow> world_inv w" for w by (simp add: lockup_init_def world_inv_def)
qed

subsection \<open>What a termination pays\<close>

text \<open>\<open>K\<close> is the amount that was unvested when the vesting was terminated.\<close>

definition terminated_total :: "nat \<Rightarrow> lockup_contract \<Rightarrow> bool" where
  "terminated_total K c \<longleftrightarrow>
     (case vesting_information c of
        Terminating t \<Rightarrow> termination_withdrawn_tokens (lockup_information c) + unvested_amount t = K
      | NoVesting \<Rightarrow> termination_withdrawn_tokens (lockup_information c) = K
      | _ \<Rightarrow> False)"

lemma terminated_total_cong:
  "vesting_information c' = vesting_information c \<Longrightarrow>
   termination_withdrawn_tokens (lockup_information c') = termination_withdrawn_tokens (lockup_information c) \<Longrightarrow>
   terminated_total K c' = terminated_total K c"
  by (simp add: terminated_total_def split: vesting_information.splits)

lemma terminated_total_status [simp]:
  "terminated_total K (with_status st c) = terminated_total K c"
  "terminated_total K (settled n c) = terminated_total K c"
  "terminated_total K (with_termination ts c) = terminated_total K c"
  by (simp_all add: terminated_total_def with_termination_def split: vesting_information.splits)

lemma terminated_total_call:
  assumes "lockup_exec ser e msg c = Inr (c', ps)" and "terminated_total K c"
  shows "terminated_total K c'"
  using assms(1)
proof (cases rule: lockup_exec_cases)
  case (terminate vss vs n st)
  then show ?thesis using assms(2)
    by (auto simp: assert_vesting_def terminated_total_def split: vesting_information.splits)
qed (use assms(2) in \<open>auto intro: terminated_total_cong [THEN iffD2]\<close>)

lemma terminated_total_callback:
  assumes "run_callback e r cb c = Inr (c', ps)" and "terminated_total K c" and "callback_ok c cb"
  shows "terminated_total K c'"
  using assms(1)
proof (cases rule: callback_cases)
  case (polled t)
  then show ?thesis using assms(2)
    by (cases t) (auto intro: terminated_total_cong [THEN iffD2])
next
  case (paid n a w)
  then obtain t where t: "vesting_information c = Terminating t" and n: "n \<le> unvested_amount t"
    using assms(3) by (auto simp: callback_ok_def get_termination_status_def
        get_terminated_unvested_balance_def split: vesting_information.splits)
  then show ?thesis using paid assms(2)
    by (auto simp: terminated_total_def Let_def get_terminated_unvested_balance_def)
qed (use assms(2) in \<open>auto intro: terminated_total_cong [THEN iffD2]\<close>)

definition payout_inv :: "nat \<Rightarrow> world \<Rightarrow> bool" where
  "payout_inv K w \<longleftrightarrow> world_inv w \<and> terminated_total K (fst w)"

lemma payout_inv_step:
  assumes "world_step ser w w'" and "payout_inv K w"
  shows "payout_inv K w'"
proof -
  have "terminated_total K (fst w')"
    using assms(1)
  proof (cases rule: world_step.cases)
    case (world_callback cb P e r c c' ps)
    then have "callback_ok c cb" using assms(2) by (auto simp: payout_inv_def world_inv_def)
    with world_callback assms(2) show ?thesis
      by (auto simp: payout_inv_def intro: terminated_total_callback)
  qed (use assms(2) terminated_total_call in \<open>auto simp: payout_inv_def\<close>)
  with assms show ?thesis by (simp add: payout_inv_def world_inv_step)
qed

interpretation payouts: stable_property "world_step ser" "payout_inv K" for ser K
  by unfold_locales (rule payout_inv_step)

subsection \<open>Transfers are enabled once and for all\<close>

definition enabled_at :: "world \<Rightarrow> timestamp option" where
  "enabled_at w = (case transfers_information (lockup_information (fst w)) of
     TransfersEnabled t \<Rightarrow> Some t | TransfersDisabled _ \<Rightarrow> None)"

lemma enabled_at_step:
  assumes "enabled_at w = Some t" and "world_step ser w w'"
  shows "enabled_at w' = Some t"
  using assms(2)
proof (cases rule: world_step.cases)
  case (world_call e msg c c' ps P)
  have "lockup_information c' = lockup_information c"
    using world_call(3) by (cases rule: lockup_exec_cases) auto
  with world_call assms(1) show ?thesis by (simp add: enabled_at_def)
next
  case (world_callback cb P e r c c' ps)
  have "transfers_information (lockup_information c') = transfers_information (lockup_information c)
      \<or> \<not> are_transfers_enabled c"
    using world_callback(6) by (cases rule: callback_cases) (auto simp: Let_def split: if_splits)
  with world_callback assms(1) show ?thesis
    by (auto simp: enabled_at_def are_transfers_enabled_def split: transfers_information.splits)
qed (use assms(1) in \<open>simp add: enabled_at_def\<close>)

interpretation lockup_transfers: final_poll enabled_at "world_step ser" for ser
  by unfold_locales (rule enabled_at_step)

subsection \<open>A pool operation whose callback is lost\<close>

definition stuck :: "world \<Rightarrow> bool" where
  "stuck w \<longleftrightarrow> busy (fst w) \<and> (\<forall>cb \<in># snd w. \<not> pool_cb cb)"

lemma stuck_step:
  assumes "stuck w" and "world_step ser w w'"
  shows "stuck w'"
  using assms(2)
proof (cases rule: world_step.cases)
  case (world_call e msg c c' ps P)
  then have b: "busy c" using assms(1) by (simp add: stuck_def)
  have "busy c' \<and> (\<forall>cb \<in># awaited ps. \<not> pool_cb cb)"
    using world_call(3) by (cases rule: lockup_exec_cases) (use b in \<open>auto simp: busy_def\<close>)
  with world_call assms(1) show ?thesis by (auto simp: stuck_def awaited_def)
next
  case (world_callback cb P e r c c' ps)
  then have b: "busy c" "\<not> pool_cb cb" using assms(1) by (auto simp: stuck_def)
  have "busy c' \<and> awaited ps = {#}"
    using world_callback(6) b
    by (cases rule: callback_cases) (auto simp: busy_def Let_def split: if_splits option.splits)
  with world_callback assms(1) show ?thesis by (auto simp: stuck_def awaited_def dest: in_diffD)
qed (use assms(1) in \<open>auto simp: stuck_def dest: in_diffD\<close>)

interpretation lost_callback: stable_property "world_step ser" stuck for ser
  by unfold_locales (rule stuck_step)

end
