(* ===== verification/LockupAmounts.thy ===== *)
theory LockupAmounts
  imports Lockup
begin

section \<open>The lockup contract: the locked amount\<close>

text \<open>
  An abstract specification of what is unvested, unreleased and locked at a time, without the
  machine arithmetic of the getters; the getters compute it for every well-formed contract, and the
  well-formedness holds in every state of a contract that was created with a valid schedule.
\<close>

subsection \<open>Specification\<close>

definition valid_schedule :: "vesting_schedule \<Rightarrow> bool" where
  "valid_schedule vs \<longleftrightarrow> start_timestamp vs \<le> cliff_timestamp vs
     \<and> cliff_timestamp vs \<le> end_timestamp vs \<and> start_timestamp vs < end_timestamp vs"

lemma assert_valid_Inr [simp]: "assert_valid vs = Inr u \<longleftrightarrow> valid_schedule vs"
  by (simp add: assert_valid_def valid_schedule_def)

text \<open>Linear decrease of \<open>n\<close> to 0 over \<open>whole\<close>, when \<open>left\<close> is still to go.\<close>

definition share_left :: "nat \<Rightarrow> nat \<Rightarrow> nat \<Rightarrow> nat" where
  "share_left n left whole = n * left div whole"

definition unvested_at :: "nat \<Rightarrow> vesting_schedule \<Rightarrow> timestamp \<Rightarrow> nat" where
  "unvested_at n vs t =
     (if t < cliff_timestamp vs then n
      else share_left n (end_timestamp vs - t) (end_timestamp vs - start_timestamp vs))"

definition release_start :: "lockup_information \<Rightarrow> timestamp \<Rightarrow> timestamp" where
  "release_start info enabled = max (sat_add 64 enabled (lockup_duration info))
     (case lockup_timestamp info of Some t \<Rightarrow> t | None \<Rightarrow> 0)"

definition unreleased_at :: "lockup_information \<Rightarrow> timestamp \<Rightarrow> timestamp \<Rightarrow> nat" where
  "unreleased_at info enabled t =
     (case release_duration info of
        None \<Rightarrow> 0
      | Some d \<Rightarrow> share_left (lockup_amount info) (sat_add 64 (release_start info enabled) d - t) d)"

definition unvested_part :: "lockup_contract \<Rightarrow> timestamp \<Rightarrow> nat" where
  "unvested_part c t =
     (case vesting_information c of
        VestingSchedule vs \<Rightarrow> unvested_at (lockup_amount (lockup_information c)) vs t
      | Terminating i \<Rightarrow> unvested_amount i
      | _ \<Rightarrow> 0)"

definition locked_at :: "lockup_contract \<Rightarrow> timestamp \<Rightarrow> nat" where
  "locked_at c t =
     (let info = lockup_information c; w = termination_withdrawn_tokens info in
      case transfers_information info of
        TransfersDisabled _ \<Rightarrow> lockup_amount info - w
      | TransfersEnabled enabled \<Rightarrow>
          if release_start info enabled \<le> t
          then max (unreleased_at info enabled t - w) (unvested_part c t)
          else lockup_amount info - w)"

text \<open>
  Well-formed: the balance is a 128-bit number, the schedule is valid, and what the foundation took
  or still has to take is covered by the lockup amount.
\<close>

definition wf_lockup :: "lockup_contract \<Rightarrow> bool" where
  "wf_lockup c \<longleftrightarrow>
     (let info = lockup_information c; w = termination_withdrawn_tokens info; n = lockup_amount info in
      fits 128 n \<and> w \<le> n \<and>
      (case vesting_information c of
         VestingSchedule vs \<Rightarrow> valid_schedule vs \<and> w = 0
       | Terminating i \<Rightarrow> w + unvested_amount i \<le> n
       | VestingHash h \<Rightarrow> w = 0
       | NoVesting \<Rightarrow> True))"

subsection \<open>Arithmetic\<close>

lemma share_left_le: "left \<le> whole \<Longrightarrow> share_left n left whole \<le> n"
  unfolding share_left_def
  by (cases "whole = 0") (auto intro: div_le_mono [THEN order_trans, of _ "n * whole"])

lemma share_left_mono: "l \<le> l' \<Longrightarrow> share_left n l whole \<le> share_left n l' whole"
  unfolding share_left_def by (intro div_le_mono mult_le_mono2)

lemma share_left_0 [simp]: "share_left n 0 whole = 0"
  by (simp add: share_left_def)

lemma unvested_at_le: "valid_schedule vs \<Longrightarrow> unvested_at n vs t \<le> n"
  by (auto simp: unvested_at_def valid_schedule_def intro!: share_left_le)

lemma unvested_at_antimono: "valid_schedule vs \<Longrightarrow> t \<le> t' \<Longrightarrow> unvested_at n vs t' \<le> unvested_at n vs t"
  by (auto simp: unvested_at_def valid_schedule_def intro!: share_left_le share_left_mono)

lemma unreleased_at_le: "release_start info en \<le> t \<Longrightarrow> unreleased_at info en t \<le> lockup_amount info"
proof -
  assume t: "release_start info en \<le> t"
  have "sat_add 64 (release_start info en) d - t \<le> d" for d
    using sat_add_le [of 64 "release_start info en" d] t by linarith
  then show ?thesis
    by (auto simp: unreleased_at_def intro!: share_left_le split: option.split)
qed

lemma unreleased_at_antimono: "t \<le> t' \<Longrightarrow> unreleased_at info en t' \<le> unreleased_at info en t"
  by (auto simp: unreleased_at_def intro!: share_left_mono split: option.split)

subsection \<open>The getters compute the specification\<close>

lemma get_unvested_amount_eq:
  assumes "vesting_information c = VestingSchedule vs'" and "valid_schedule vs"
    and "fits 128 (lockup_amount (lockup_information c))"
  shows "get_unvested_amount e vs c
    = Inr (unvested_at (lockup_amount (lockup_information c)) vs (env_block_timestamp e))"
proof -
  let ?n = "lockup_amount (lockup_information c)" and ?t = "env_block_timestamp e"
  show ?thesis
  proof (cases "cliff_timestamp vs \<le> ?t \<and> ?t < end_timestamp vs")
    case True
    moreover have "fits 128 (unvested_at ?n vs ?t)"
      using assms(2,3) unvested_at_le by (blast intro: fits_mono)
    ultimately show ?thesis using assms(1,2)
      by (simp add: get_unvested_amount_def unvested_at_def share_left_def valid_schedule_def
          checked_sub_def checked_div_def as_u128_def)
  next
    case False
    then show ?thesis using assms(1,2)
      by (auto simp: get_unvested_amount_def unvested_at_def valid_schedule_def)
  qed
qed

lemma unvested_part_le: "wf_lockup c \<Longrightarrow>
    unvested_part c t \<le> lockup_amount (lockup_information c) - termination_withdrawn_tokens (lockup_information c)"
  by (auto simp: unvested_part_def wf_lockup_def Let_def unvested_at_le split: vesting_information.splits)

lemma unvested_part_antimono: "wf_lockup c \<Longrightarrow> t \<le> t' \<Longrightarrow> unvested_part c t' \<le> unvested_part c t"
  by (auto simp: unvested_part_def wf_lockup_def Let_def unvested_at_antimono split: vesting_information.splits)

lemma released_eq:
  assumes "fits 128 (lockup_amount info)" and "release_start info en \<le> t"
  shows "(case release_duration info of
            Some release \<Rightarrow>
              let end_ts = sat_add 64 (release_start info en) release in
              if end_ts \<le> t then Inr 0
              else bindE (checked_sub end_ts t) (\<lambda>time_left.
                   bindE (checked_div (lockup_amount info * time_left) release) as_u128)
          | None \<Rightarrow> Inr 0) = Inr (unreleased_at info en t)"
proof (cases "release_duration info")
  case (Some d)
  let ?end_ts = "sat_add 64 (release_start info en) d"
  have "fits 128 (unreleased_at info en t)"
    using assms unreleased_at_le by (blast intro: fits_mono)
  moreover have "?end_ts \<le> release_start info en + d" by (rule sat_add_le)
  ultimately show ?thesis using Some assms
    by (auto simp: Let_def unreleased_at_def share_left_def checked_sub_def checked_div_def as_u128_def)
qed (simp add: unreleased_at_def)

lemma get_locked_amount_eq:
  assumes "wf_lockup c"
  shows "get_locked_amount e c = Inr (locked_at c (env_block_timestamp e))"
proof -
  let ?info = "lockup_information c" and ?t = "env_block_timestamp e"
  have n: "fits 128 (lockup_amount ?info)" and w: "termination_withdrawn_tokens ?info \<le> lockup_amount ?info"
    using assms by (auto simp: wf_lockup_def Let_def)
  have vest: "(case vesting_information c of
                 VestingSchedule vs \<Rightarrow> get_unvested_amount e vs c
               | Terminating t \<Rightarrow> Inr (unvested_amount t)
               | _ \<Rightarrow> Inr 0) = Inr (unvested_part c ?t)"
    using assms get_unvested_amount_eq
    by (auto simp: wf_lockup_def unvested_part_def Let_def split: vesting_information.splits)
  show ?thesis
  proof (cases "transfers_information ?info")
    case (TransfersDisabled a)
    with w show ?thesis by (simp add: get_locked_amount_def locked_at_def Let_def checked_sub_def)
  next
    case (TransfersEnabled en)
    show ?thesis
    proof (cases "release_start ?info en \<le> ?t")
      case True
      note r = released_eq [OF n True]
      show ?thesis using True TransfersEnabled
        by (simp add: get_locked_amount_def locked_at_def r
            release_start_def [symmetric] vest sat_sub_eq Let_def)
    next
      case False
      then show ?thesis using TransfersEnabled w
        by (simp add: get_locked_amount_def locked_at_def release_start_def [symmetric] Let_def checked_sub_def)
    qed
  qed
qed

lemma locked_at_le: "wf_lockup c \<Longrightarrow>
    locked_at c t \<le> lockup_amount (lockup_information c) - termination_withdrawn_tokens (lockup_information c)"
  using unvested_part_le [of c t] unreleased_at_le [of "lockup_information c"]
  by (auto simp: locked_at_def Let_def intro: diff_le_mono split: transfers_information.splits)

lemma locked_at_antimono:
  assumes "wf_lockup c" and "t \<le> t'"
  shows "locked_at c t' \<le> locked_at c t"
proof (cases "transfers_information (lockup_information c)")
  case (TransfersDisabled a)
  then show ?thesis by (simp add: locked_at_def Let_def)
next
  case (TransfersEnabled en)
  let ?info = "lockup_information c"
  show ?thesis
  proof (cases "release_start ?info en \<le> t")
    case True
    then have now: "locked_at c x = max (unreleased_at ?info en x - termination_withdrawn_tokens ?info)
        (unvested_part c x)" if "t \<le> x" for x
      using TransfersEnabled that by (simp add: locked_at_def Let_def)
    show ?thesis unfolding now [OF assms(2)] now [OF order_refl]
      using unvested_part_antimono [OF assms] unreleased_at_antimono [OF assms(2)]
      by (intro max.mono diff_le_mono)
  next
    case False
    then have "locked_at c t = lockup_amount ?info - termination_withdrawn_tokens ?info"
      using TransfersEnabled by (simp add: locked_at_def Let_def)
    with locked_at_le [OF assms(1)] show ?thesis by simp
  qed
qed

end
