(* ===== verification/LockupTheorems.thy ===== *)
theory LockupTheorems
  imports LockupWorld LockupAmounts
begin

section \<open>Properties of the lockup contract\<close>

subsection \<open>Well-formed contracts stay well-formed\<close>

definition explicit :: "lockup_contract \<Rightarrow> bool" where
  "explicit c \<longleftrightarrow> wf_lockup c \<and> (\<forall>h. vesting_information c \<noteq> VestingHash h)"

lemma explicit_cong:
  "vesting_information c' = vesting_information c \<Longrightarrow>
   lockup_amount (lockup_information c') = lockup_amount (lockup_information c) \<Longrightarrow>
   termination_withdrawn_tokens (lockup_information c') = termination_withdrawn_tokens (lockup_information c) \<Longrightarrow>
   explicit c \<Longrightarrow> explicit c'"
  by (cases "vesting_information c") (simp_all add: explicit_def wf_lockup_def Let_def)

lemma explicit_termination:
  "explicit c \<Longrightarrow> explicit (with_termination st c)"
  by (auto simp: explicit_def wf_lockup_def with_termination_def Let_def split: vesting_information.splits)

lemma explicit_call:
  assumes "lockup_exec ser e msg c = Inr (c', ps)" and "explicit c"
  shows "explicit c'"
  using assms(1)
proof (cases rule: lockup_exec_cases)
  case (terminate vss vs n st)
  let ?info = "lockup_information c"
  have v: "vesting_information c = VestingSchedule vs"
    using terminate(4) assms(2) by (auto simp: assert_vesting_def explicit_def split: vesting_information.splits)
  with assms(2) have wf: "valid_schedule vs" "fits 128 (lockup_amount ?info)" "termination_withdrawn_tokens ?info = 0"
    by (auto simp: explicit_def wf_lockup_def Let_def)
  then have "n \<le> lockup_amount ?info"
    using terminate(5) get_unvested_amount_eq [OF v wf(1,2)] unvested_at_le [OF wf(1)] by auto
  with wf show ?thesis by (simp add: terminate explicit_def wf_lockup_def Let_def)
next
  case (prepare info st st' cb)
  show ?thesis unfolding prepare(6)
    by (rule explicit_cong [OF _ _ _ explicit_termination [OF assms(2)]]) simp_all
next
  case (payout a n)
  then show ?thesis using explicit_termination assms(2) by simp
qed (use assms(2) explicit_cong in auto)

lemma explicit_callback:
  assumes "run_callback e r cb c = Inr (c', ps)" and "explicit c" and "callback_ok c cb"
  shows "explicit c'"
  using assms(1)
proof (cases rule: callback_cases)
  case (polled t)
  then show ?thesis using assms(2) by (cases t) (auto intro: explicit_cong)
next
  case (unstaked st)
  show ?thesis unfolding unstaked(3)
    by (rule explicit_termination, rule explicit_cong [OF _ _ _ assms(2)]) simp_all
next
  case (withdrawn st n)
  show ?thesis unfolding withdrawn(3)
    by (rule explicit_termination, rule explicit_cong [OF _ _ _ assms(2)]) simp_all
next
  case (paid n a w)
  then obtain t where "vesting_information c = Terminating t" and "n \<le> unvested_amount t"
    using assms(3) by (auto simp: callback_ok_def get_termination_status_def
        get_terminated_unvested_balance_def split: vesting_information.splits)
  then show ?thesis using paid assms(2)
    by (auto simp: explicit_def wf_lockup_def Let_def get_terminated_unvested_balance_def)
next
  case (unpaid n a)
  then show ?thesis using explicit_termination assms(2) by simp
qed (use assms(2) in \<open>auto intro: explicit_cong\<close>)

lemma explicit_step:
  assumes "world_step ser w w'" and "world_inv w" and "explicit (fst w)"
  shows "explicit (fst w')"
  using assms(1)
proof (cases rule: world_step.cases)
  case (world_callback cb P e r c c' ps)
  then have "callback_ok c cb" using assms(2) by (auto simp: world_inv_def)
  with world_callback assms(3) show ?thesis by (auto intro: explicit_callback)
qed (use assms(3) explicit_call in auto)

text \<open>A deployment with an explicit valid schedule, or without one, by an account with a 128-bit balance.\<close>

definition valid_init :: "world \<Rightarrow> bool" where
  "valid_init w \<longleftrightarrow> snd w = {#} \<and>
     (\<exists>e owner d lts tr vs rel wl f. new_lockup e owner d lts tr vs rel wl f = Inr (fst w)
        \<and> fits 128 (env_account_balance e)
        \<and> (vs = None \<or> (\<exists>s. vs = Some (InitVestingSchedule s) \<and> assert_valid s = Inr ())))"

lemma valid_init_explicit: "valid_init w \<Longrightarrow> explicit (fst w)"
  by (auto simp: valid_init_def explicit_def wf_lockup_def Let_def dest!: new_lockupE)

interpretation valid_lockup:
  inductive_invariant "world_step ser" "\<lambda>w. world_inv w \<and> explicit (fst w)" valid_init for ser
proof unfold_locales
  show "world_inv w \<and> explicit (fst w) \<Longrightarrow> world_step ser w w' \<Longrightarrow> world_inv w' \<and> explicit (fst w')" for w w'
    using world_inv_step explicit_step by blast
  show "valid_init w \<Longrightarrow> world_inv w \<and> explicit (fst w)" for w
    using valid_init_explicit by (auto simp: valid_init_def world_inv_def)
qed

subsection \<open>Examples\<close>

definition sample_schedule :: vesting_schedule where
  "sample_schedule = \<lparr>start_timestamp = 0, cliff_timestamp = 100, end_timestamp = 400\<rparr>"

definition lockup_host :: "account_id \<Rightarrow> nat \<Rightarrow> nat \<Rightarrow> host" where
  "lockup_host caller balance t = sample_host\<lparr>env_predecessor_account_id := caller,
     env_account_balance := balance + 3500000000000000000000000, env_block_timestamp := t\<rparr>"

definition sample_lockup :: lockup_contract where
  "sample_lockup = \<lparr>owner_account_id = ''alice'',
     lockup_information = \<lparr>lockup_amount = 3500000000000000000001000, termination_withdrawn_tokens = 0,
       lockup_duration = 0, release_duration = None, lockup_timestamp = None,
       transfers_information = TransfersEnabled 10\<rparr>,
     vesting_information = VestingSchedule sample_schedule,
     staking_pool_whitelist_account_id = ''whitelist'', staking_information = None,
     foundation_account = Some ''foundation''\<rparr>"

lemmas lockup_eval = new_lockup_def sample_lockup_def lockup_host_def sample_schedule_def
  get_account_balance_def MIN_BALANCE_FOR_STORAGE_def get_known_deposited_balance_def
  get_termination_status_def get_terminated_unvested_balance_def get_unvested_amount_def
  get_locked_amount_def get_owners_balance_def get_liquid_owners_balance_def are_transfers_enabled_def
  set_staking_pool_status_def set_termination_status_def assert_vesting_def assert_no_termination_def
  assert_transfers_enabled_def assert_transfers_disabled_def assert_idle_status_def
  assert_no_staking_or_idle_def assert_staking_pool_is_idle_def assert_staking_pool_is_not_selected_def
  assert_called_by_foundation_lockup_def assert_owner_lockup_def
  checked_add_def checked_sub_def checked_div_def as_u128_def fits_def sat_sub_def sat_add_def max_of_def

lemma sample_new:
  "new_lockup (lockup_host ''root'' 1000 5) ''alice'' 0 None (TransfersEnabled 10)
     (Some (InitVestingSchedule sample_schedule)) None ''whitelist'' (Some ''foundation'') = Inr sample_lockup"
  by (simp add: lockup_eval Let_def cong: eval_cong)

lemma sample_valid_init: "valid_init (sample_lockup, {#})"
proof -
  have "fits 128 (env_account_balance (lockup_host ''root'' 1000 5))"
    by (simp add: lockup_host_def fits_def)
  moreover have "assert_valid sample_schedule = Inr ()"
    by (simp add: sample_schedule_def valid_schedule_def)
  ultimately show ?thesis unfolding valid_init_def using sample_new by fastforce
qed

lemma valid_init_init: "valid_init w \<Longrightarrow> lockup_init w"
  unfolding valid_init_def lockup_init_def by blast

subsection \<open>The locked amount\<close>

text \<open>
  C2. For a lockup contract that was created with a valid explicit vesting schedule or without one,
  \<open>get_locked_amount\<close> never panics, in no state that the contract can reach and at no time (its
  subtractions do not underflow and its casts do not overflow). It computes the specification: everything
  not yet taken by the foundation before the release starts, and afterwards the larger of the
  linearly decreasing unreleased and unvested parts. The amount never exceeds the lockup amount less
  what the foundation took, and it never grows as time passes.
\<close>

theorem locked_amount_specified:
  assumes "reach valid_init (world_step ser) (c, P)" and "env_block_timestamp e \<le> env_block_timestamp e'"
  shows "\<exists>locked locked'. get_locked_amount e c = Inr locked \<and> get_locked_amount e' c = Inr locked'
    \<and> locked = locked_at c (env_block_timestamp e) \<and> locked' \<le> locked
    \<and> locked + termination_withdrawn_tokens (lockup_information c) \<le> lockup_amount (lockup_information c)"
proof -
  have wf: "wf_lockup c"
    using valid_lockup.reachable_inv [OF assms(1)] by (simp add: explicit_def)
  moreover have "termination_withdrawn_tokens (lockup_information c) \<le> lockup_amount (lockup_information c)"
    using wf by (simp add: wf_lockup_def Let_def)
  ultimately show ?thesis
    using get_locked_amount_eq [OF wf] locked_at_le [OF wf] locked_at_antimono [OF wf assms(2)]
    by (simp add: le_diff_conv2)
qed

theorem locked_amount_specified_witness:
  "\<exists>n. get_locked_amount (lockup_host ''alice'' 0 200) sample_lockup = Inr n
     \<and> n = locked_at sample_lockup 200 \<and> n \<le> 3500000000000000000001000"
proof -
  have "reach valid_init (world_step (\<lambda>_. [])) (sample_lockup, {#})"
    by (rule reach_init) (rule sample_valid_init)
  from locked_amount_specified [OF this, of "lockup_host ''alice'' 0 200" "lockup_host ''alice'' 0 300"]
  show ?thesis by (auto simp: lockup_host_def sample_lockup_def)
qed

text \<open>
  The constructor does not check the vesting schedule (\<open>VestingSchedule::assert_valid\<close> is never
  called), although the getter relies on it: a contract is accepted with a schedule that ends no
  later than it starts, and then, between cliff and end, the unvested amount, the locked amount and
  every transfer of the owner panic.
\<close>

theorem invalid_schedule_accepted:
  assumes "end_timestamp vs \<le> start_timestamp vs"
    and "env_is_valid_account_id e0 owner" and "env_is_valid_account_id e0 wl"
    and "env_is_valid_account_id e0 f"
    and "cliff_timestamp vs \<le> env_block_timestamp e" and "env_block_timestamp e < end_timestamp vs"
    and "enabled + d \<le> env_block_timestamp e" and "fits 64 (enabled + d)"
  shows "\<exists>c. new_lockup e0 owner d None (TransfersEnabled enabled) (Some (InitVestingSchedule vs)) None wl (Some f)
      = Inr c \<and> \<not> returns (assert_valid vs) \<and> \<not> returns (get_unvested_amount e vs c)
    \<and> \<not> returns (get_locked_amount e c) \<and> (\<forall>n a. \<not> returns (transfer e n a c))"
proof -
  obtain c where c: "new_lockup e0 owner d None (TransfersEnabled enabled) (Some (InitVestingSchedule vs))
      None wl (Some f) = Inr c"
    using assms(2-4) by (auto simp: new_lockup_def Let_def)
  note c' = new_lockupE [OF c]
  have u: "\<not> returns (get_unvested_amount e vs c)"
    using c' assms(1,5,6) by (auto simp: get_unvested_amount_def returns_def)
  then have "\<not> returns (get_locked_amount e c)"
    using c' assms(7,8) by (auto simp: get_locked_amount_def returns_def Let_def)
  moreover from this have "\<not> returns (transfer e n a c)" for n a
    by (auto simp: transfer_def get_liquid_owners_balance_def get_owners_balance_def returns_def)
  moreover have "\<not> returns (assert_valid vs)"
    using assms(1) by (auto simp: returns_def valid_schedule_def)
  ultimately show ?thesis using c u by blast
qed

theorem invalid_schedule_accepted_witness:
  "\<exists>c. new_lockup (lockup_host ''root'' 1000 0) ''alice'' 0 None (TransfersEnabled 10)
     (Some (InitVestingSchedule \<lparr>start_timestamp = 400, cliff_timestamp = 100, end_timestamp = 400\<rparr>)) None
     ''whitelist'' (Some ''foundation'') = Inr c
   \<and> \<not> returns (get_locked_amount (lockup_host ''alice'' 1000 200) c)"
  using invalid_schedule_accepted [of "\<lparr>start_timestamp = 400, cliff_timestamp = 100, end_timestamp = 400\<rparr>"
      "lockup_host ''root'' 1000 0" "''alice''" "''whitelist''" "''foundation''"
      "lockup_host ''alice'' 1000 200" 10 0]
  by (auto simp: lockup_host_def fits_def)

subsection \<open>What the owner can take\<close>

lemma pos_le_diff: "0 < n \<Longrightarrow> n \<le> a - b \<longleftrightarrow> n + b \<le> (a::nat)"
  by linarith

text \<open>
  C1. The owner can not take locked tokens. An accepted \<open>transfer\<close> is a call of the owner while
  transfers are enabled, no vesting termination is going on and no staking pool operation is in
  flight; the tokens sent leave at least the locked amount in the account and the staking pool
  together and at least the storage minimum in the account, and the state does not change. An accepted
  \<open>add_full_access_key\<close>, which ends the protection, requires in addition that nothing is locked.
\<close>

theorem owner_cannot_take_locked_tokens:
  assumes "lockup_exec ser e msg c = Inr (c', ps)"
    and "fits 128 (env_account_balance e + get_known_deposited_balance c)"
  shows "(\<forall>n a. msg = L_transfer n a \<longrightarrow>
      (\<exists>locked. get_locked_amount e c = Inr locked
        \<and> n + locked \<le> env_account_balance e + get_known_deposited_balance c
        \<and> n + MIN_BALANCE_FOR_STORAGE \<le> env_account_balance e)
      \<and> c' = c \<and> ps = [Promise a [Transfer n]])
    \<and> (\<forall>pk. msg = L_add_full_access_key pk \<longrightarrow> get_locked_amount e c = Inr 0
        \<and> c' = c \<and> ps = [Promise (env_current_account_id e) [AddFullAccessKey pk]])
    \<and> ((\<exists>n a. msg = L_transfer n a) \<or> (\<exists>pk. msg = L_add_full_access_key pk) \<longrightarrow>
        env_predecessor_account_id e = owner_account_id c \<and> are_transfers_enabled c
        \<and> get_termination_status c = None \<and> \<not> busy c)"
  using assms
  by (auto simp: transfer_def add_full_access_key_def get_liquid_owners_balance_def
      get_owners_balance_def get_account_balance_def sat_sub_eq busy_def pos_le_diff)

lemma sample_transfer:
  "lockup_exec (\<lambda>_. []) (lockup_host ''alice'' 1000 500) (L_transfer 300 ''bob'') sample_lockup
     = Inr (sample_lockup, [Promise ''bob'' [Transfer 300]])"
  by (simp add: one_def transfer_def lockup_eval Let_def cong: eval_cong)

theorem owner_cannot_take_locked_tokens_witness:
  "\<exists>locked. get_locked_amount (lockup_host ''alice'' 1000 500) sample_lockup = Inr locked
     \<and> 300 + locked \<le> 3500000000000000000001000"
  using owner_cannot_take_locked_tokens [OF sample_transfer]
  by (auto simp: lockup_host_def sample_lockup_def get_known_deposited_balance_def fits_def)

subsection \<open>Staking pool operations\<close>

text \<open>
  C11. In every history of a lockup contract at most one staking pool operation is in flight: among the
  outstanding callbacks at most one belongs to a pool operation, and while there is one, the contract is
  busy and rejects every call that would start another operation, transfer tokens, add a key or
  unselect the pool, whoever makes it. At most one payout to the foundation is in flight.
\<close>

theorem one_pool_operation_at_a_time:
  assumes "reach lockup_init (world_step ser) (c, P)"
  shows "size (filter_mset pool_cb P) \<le> 1 \<and> size (filter_mset payout_cb P) \<le> 1
    \<and> (\<forall>cb e msg c' ps. cb \<in># P \<and> pool_cb cb \<and> lockup_exec ser e msg c = Inr (c', ps) \<longrightarrow>
         busy c \<and> busy c' \<and> (\<forall>cb' \<in># awaited ps. \<not> pool_cb cb')
         \<and> (\<forall>n a k. msg \<noteq> L_transfer n a \<and> msg \<noteq> L_add_full_access_key k \<and> msg \<noteq> L_unselect_staking_pool))"
proof -
  have inv: "world_inv (c, P)" using assms by (rule lockup_world.reachable_inv)
  have "busy c \<and> busy c' \<and> (\<forall>cb' \<in># awaited ps. \<not> pool_cb cb')
      \<and> (\<forall>n a k. msg \<noteq> L_transfer n a \<and> msg \<noteq> L_add_full_access_key k \<and> msg \<noteq> L_unselect_staking_pool)"
    if "cb \<in># P" "pool_cb cb" and run: "lockup_exec ser e msg c = Inr (c', ps)" for cb e msg c' ps
  proof -
    have b: "busy c" using inv that(1,2) by (auto simp: world_inv_def callback_ok_def)
    have "busy c' \<and> (\<forall>cb' \<in># awaited ps. \<not> pool_cb cb')"
      using run by (cases rule: lockup_exec_cases) (use b in \<open>auto simp: busy_def\<close>)
    moreover have "msg \<noteq> L_transfer n a \<and> msg \<noteq> L_add_full_access_key k \<and> msg \<noteq> L_unselect_staking_pool" for n a k
      using run b by (auto simp: owner_methods busy_def)
    ultimately show ?thesis using b by blast
  qed
  with world_invD(1,2) [OF inv] show ?thesis unfolding slot_def by blast
qed

definition delegating :: lockup_contract where
  "delegating = sample_lockup\<lparr>staking_information :=
     Some \<lparr>staking_pool_account_id = ''pool'', status = Idle, deposit_amount = 0\<rparr>\<rparr>"

text \<open>A run of the sample contract: select a pool, get its approval, deposit.\<close>

lemma delegating_reached: "reach lockup_init (world_step ser) (delegating, {#})"
proof (rule reach_step)
  let ?cb = "C_on_whitelist_is_whitelisted ''pool''"
  have sel: "lockup_exec ser (lockup_host ''alice'' 1000 5) (L_select_staking_pool ''pool'') sample_lockup
      = Inr (sample_lockup, [Then (call ''whitelist'' (C_is_whitelisted ''pool'') 0 gas_IS_WHITELISTED)
               (call ''contract'' ?cb 0 gas_ON_WHITELIST_IS_WHITELISTED)])"
    by (simp add: one_def select_staking_pool_def lockup_eval cong: eval_cong)
  show "reach lockup_init (world_step ser) (sample_lockup, {#?cb#})"
  proof (rule reach_step)
    show "reach lockup_init (world_step ser) (sample_lockup, {#})"
      by (rule reach_init) (rule valid_init_init [OF sample_valid_init])
    show "world_step ser (sample_lockup, {#}) (sample_lockup, {#?cb#})"
      using world_call [OF sel, of "{#}"] by simp
  qed
  let ?e = "sample_host\<lparr>env_assert_self := Inr (), env_is_promise_success := Inr True\<rparr>"
  have "run_callback ?e (R_bool True) ?cb sample_lockup = Inr (delegating, [])"
    by (simp add: no_promise_def on_whitelist_is_whitelisted_def callback_arg_def delegating_def lockup_eval
        cong: eval_cong)
  from world_callback [OF _ _ _ this, of "{#?cb#}" ser]
  show "world_step ser (sample_lockup, {#?cb#}) (delegating, {#})" by simp
qed

lemma deposit_sample:
  "lockup_exec ser (lockup_host ''alice'' 1000 5) (L_deposit_to_staking_pool 700) delegating
     = Inr (with_status Busy delegating,
         [Then (call ''pool'' C_deposit 700 gas_DEPOSIT)
               (call ''contract'' (C_on_staking_pool_deposit 700) 0 gas_ON_STAKING_POOL_DEPOSIT)])"
  by (simp add: one_def deposit_to_staking_pool_def delegating_def with_status_def lockup_eval cong: eval_cong)

lemma depositing_reached:
  "reach lockup_init (world_step ser) (with_status Busy delegating, {#C_on_staking_pool_deposit 700#})"
proof (rule reach_step)
  show "reach lockup_init (world_step ser) (delegating, {#})" by (rule delegating_reached)
  show "world_step ser (delegating, {#}) (with_status Busy delegating, {#C_on_staking_pool_deposit 700#})"
    using world_call [OF deposit_sample, of ser "{#}"] by simp
qed

theorem one_pool_operation_at_a_time_witness:
  "\<not> returns (lockup_exec (\<lambda>_. []) (lockup_host ''alice'' 1000 500) (L_transfer 3 ''bob'')
     (with_status Busy delegating))"
proof
  assume "returns (lockup_exec (\<lambda>_. []) (lockup_host ''alice'' 1000 500) (L_transfer 3 ''bob'')
      (with_status Busy delegating))"
  then obtain c' ps where "lockup_exec (\<lambda>_. []) (lockup_host ''alice'' 1000 500) (L_transfer 3 ''bob'')
      (with_status Busy delegating) = Inr (c', ps)"
    unfolding returns_def by (metis surj_pair)
  moreover have "C_on_staking_pool_deposit 700 \<in># {#C_on_staking_pool_deposit 700#}"
    and "pool_cb (C_on_staking_pool_deposit 700)" by simp_all
  ultimately show False
    using one_pool_operation_at_a_time [OF depositing_reached, of "\<lambda>_. []", THEN conjunct2, THEN conjunct2]
    by blast
qed

text \<open>
  C38. The query methods of the lockup contract address the contract itself instead of the staking pool:
  \<open>refresh_staking_pool_balance\<close> (like \<open>withdraw_all_from_staking_pool\<close>) marks the contract busy and
  then calls \<open>get_account_total_balance\<close> on its own account, which has no such method. The query
  fails, its callback panics, and nothing ever makes the contract idle again: whatever is called
  afterwards, every transfer and every further pool operation is rejected, so that deposited tokens
  can not be withdrawn and liquid ones can not be transferred.
\<close>

theorem refresh_locks_the_account:
  assumes "world_inv (c, P)" and "refresh_staking_pool_balance e c = Inr (c1, p)"
  shows "\<exists>query pool. p = Then (call (env_current_account_id e) query 0 gas_GET_ACCOUNT_TOTAL_BALANCE)
        (call (env_current_account_id e) C_on_get_account_total_balance 0 gas_ON_GET_ACCOUNT_TOTAL_BALANCE)
      \<and> query = C_get_account_total_balance pool
      \<and> (\<forall>e' r. run_callback e' r query c1 = Inl (Panic ''MethodNotFound''))
      \<and> (\<forall>e'. \<not> returns (run_callback e' R_failed C_on_get_account_total_balance c1))
      \<and> (\<forall>w e' n a. (world_step ser)\<^sup>*\<^sup>* (c1, P) w \<longrightarrow> busy (fst w)
           \<and> \<not> returns (transfer e' n a (fst w)) \<and> \<not> returns (withdraw_from_staking_pool e' n (fst w))
           \<and> \<not> returns (unstake_all_lockup e' (fst w)))"
proof -
  from assms(2) obtain info where i: "staking_information c = Some info" "status info = Idle"
      "c1 = with_status Busy c"
      "p = Then (call (env_current_account_id e) (C_get_account_total_balance (staking_pool_account_id info)) 0
              gas_GET_ACCOUNT_TOTAL_BALANCE)
           (call (env_current_account_id e) C_on_get_account_total_balance 0 gas_ON_GET_ACCOUNT_TOTAL_BALANCE)"
    by (auto simp: refresh_staking_pool_balance_def)
  have "\<not> busy c" using i by (simp add: busy_def)
  with assms(1) have "stuck (c1, P)"
    using idle_no_pool_cb i by (simp add: stuck_def)
  then have b: "busy (fst w)" if "(world_step ser)\<^sup>*\<^sup>* (c1, P) w" for w
    using lost_callback.steps_inv [OF that] by (simp add: stuck_def)
  have rejected: "\<not> returns (transfer e' n a d) \<and> \<not> returns (withdraw_from_staking_pool e' n d)
      \<and> \<not> returns (unstake_all_lockup e' d)" if "busy d" for d e' n a
    using that by (auto simp: owner_methods returns_def busy_def)
  have "\<not> returns (run_callback e' R_failed C_on_get_account_total_balance c1)" for e'
    by (simp add: on_get_account_total_balance_def returns_def)
  then show ?thesis using i(4) b rejected by (metis run_callback.simps(25))
qed

theorem refresh_locks_the_account_witness:
  "\<exists>c1 p. refresh_staking_pool_balance (lockup_host ''alice'' 1000 5) delegating = Inr (c1, p)
     \<and> \<not> returns (transfer (lockup_host ''alice'' 1000 500) 3 ''bob'' c1)"
proof -
  obtain c1 p where r: "refresh_staking_pool_balance (lockup_host ''alice'' 1000 5) delegating = Inr (c1, p)"
    by (simp add: refresh_staking_pool_balance_def delegating_def lockup_eval cong: eval_cong)
  have "world_inv (delegating, {#})" by (simp add: world_inv_def)
  from refresh_locks_the_account [OF this r, of "\<lambda>_. []"]
  have "\<forall>w e' n a. (world_step (\<lambda>_. []))\<^sup>*\<^sup>* (c1, {#}) w \<longrightarrow> \<not> returns (transfer e' n a (fst w))"
    by (elim exE conjE) simp
  then have "\<not> returns (transfer (lockup_host ''alice'' 1000 500) 3 ''bob'' (fst (c1, {#}::lockup_call multiset)))"
    by blast
  with r show ?thesis by auto
qed

subsection \<open>Termination of the vesting\<close>

text \<open>
  C9. The foundation takes exactly what was unvested when it terminated the vesting: whatever happens
  afterwards (failed transfers, partial payouts, other calls of owner and foundation), the tokens
  withdrawn since the termination never exceed that amount, are equal to it once the termination is
  completed, and what is still to be paid is the rest.
\<close>

theorem foundation_takes_the_unvested_amount:
  assumes "reach lockup_init (world_step ser) (c, P)" and "terminate_vesting ser e vss c = Inr c1"
    and "(world_step ser)\<^sup>*\<^sup>* (c1, P) (c2, P2)"
  defines "taken \<equiv> \<lambda>d. termination_withdrawn_tokens (lockup_information d)"
  shows "\<exists>vs unvested. assert_vesting ser e vss c = Inr vs \<and> get_unvested_amount e vs c = Inr unvested
    \<and> 0 < unvested \<and> foundation_account c = Some (env_predecessor_account_id e)
    \<and> taken c2 + get_terminated_unvested_balance c2 = taken c + unvested
    \<and> (vesting_information c2 = NoVesting \<longrightarrow> taken c2 = taken c + unvested)"
proof -
  have "world_inv (c, P)" using assms(1) by (rule lockup_world.reachable_inv)
  moreover have run: "lockup_exec ser e (L_terminate_vesting vss) c = Inr (c1, [])" using assms(2) by simp
  ultimately have inv: "world_inv (c1, P)" using world_inv_call [OF run] by simp
  from assms(2) obtain vs n where n: "assert_vesting ser e vss c = Inr vs" "get_unvested_amount e vs c = Inr n"
      "0 < n" "foundation_account c = Some (env_predecessor_account_id e)"
    and "terminated_total (taken c + n) c1"
    by (auto simp: terminate_vesting_def Let_def terminated_total_def taken_def)
  with inv have "payout_inv (taken c + n) (c1, P)" by (simp add: payout_inv_def)
  with assms(3) have "payout_inv (taken c + n) (c2, P2)" by (rule payouts.steps_inv)
  then have "taken c2 + get_terminated_unvested_balance c2 = taken c + n"
    by (auto simp: payout_inv_def terminated_total_def taken_def get_terminated_unvested_balance_def
        split: vesting_information.splits)
  moreover from this have "vesting_information c2 = NoVesting \<longrightarrow> taken c2 = taken c + n"
    by (auto simp: get_terminated_unvested_balance_def)
  ultimately show ?thesis using n by blast
qed

theorem foundation_takes_the_unvested_amount_witness:
  "\<exists>c1 n. terminate_vesting (\<lambda>_. []) (lockup_host ''foundation'' 1000 50) None sample_lockup = Inr c1
     \<and> 0 < n \<and> termination_withdrawn_tokens (lockup_information c1) + get_terminated_unvested_balance c1 = n"
proof -
  obtain c1 where t: "terminate_vesting (\<lambda>_. []) (lockup_host ''foundation'' 1000 50) None sample_lockup = Inr c1"
    by (simp add: terminate_vesting_def lockup_eval cong: eval_cong)
  have "reach lockup_init (world_step (\<lambda>_. [])) (sample_lockup, {#})"
    by (rule reach_init) (rule valid_init_init [OF sample_valid_init])
  from foundation_takes_the_unvested_amount [OF this t rtranclp.rtrancl_refl] t
  show ?thesis by (auto simp: sample_lockup_def)
qed

lemma get_termination_status_upd [simp]:
  "get_termination_status (c\<lparr>staking_information := x\<rparr>) = get_termination_status c"
  "get_termination_status (c\<lparr>lockup_information := y\<rparr>) = get_termination_status c"
  "get_termination_status (c\<lparr>vesting_information := Terminating t\<rparr>) = Some (termination_status t)"
  "get_termination_status (c\<lparr>vesting_information := NoVesting\<rparr>) = None"
  "get_termination_status (c\<lparr>foundation_account := f\<rparr>) = get_termination_status c"
  by (simp_all add: get_termination_status_def)

text \<open>A computation that never ends in an \<open>unreachable!\<close>.\<close>

definition no_unreachable :: "'a res \<Rightarrow> bool" where
  "no_unreachable m \<longleftrightarrow> (\<forall>msg. m \<noteq> Inl (Unreachable msg))"

lemma no_unreachable_bindE:
  "no_unreachable m \<Longrightarrow> (\<And>x. m = Inr x \<Longrightarrow> no_unreachable (f x)) \<Longrightarrow> no_unreachable (bindE m f)"
  by (auto simp: no_unreachable_def bindE_eq_Inl)

lemma no_unreachable_basic:
  "no_unreachable (Inr x)"
  "no_unreachable (ensure b msg)"
  "no_unreachable (expect y msg)"
  "no_unreachable (unwrap y)"
  "no_unreachable (checked_add w m n)"
  "no_unreachable (checked_sub m n)"
  "no_unreachable (Inl (Panic msg))"
  by (auto simp: no_unreachable_def ensure_def expect_def unwrap_def checked_add_def checked_sub_def
      split: option.splits)

lemma no_unreachable_lockup:
  "no_unreachable (callback_arg y)"
  "no_unreachable (set_staking_pool_status st c)"
  "no_unreachable (assert_no_termination c)"
  "no_unreachable (assert_transfers_disabled c)"
  "no_unreachable (assert_staking_pool_is_not_selected c)"
  "get_termination_status c \<noteq> None \<Longrightarrow> no_unreachable (set_termination_status ts c)"
  by (auto simp: callback_arg_def set_staking_pool_status_def assert_no_termination_def
      assert_transfers_disabled_def assert_staking_pool_is_not_selected_def set_termination_status_def
      get_termination_status_def intro!: no_unreachable_basic no_unreachable_bindE
      split: vesting_information.splits)

lemmas no_unreachable_rules = no_unreachable_bindE no_unreachable_basic no_unreachable_lockup

lemma callback_no_unreachable:
  assumes "callback_ok c cb" and "env_assert_self e = Inr ()" and "env_is_promise_success e = Inr b"
  shows "no_unreachable (run_callback e r cb c)"
proof (cases "kind_of cb = K_check \<or> kind_of cb = K_owner_pool")
  case True
  then show ?thesis
    by (cases cb) (auto simp: lockup_callbacks no_promise_def maybe_promise_def assms(2,3) split_beta Let_def
        intro!: no_unreachable_rules split: option.splits)
next
  case False
  then have "get_termination_status c \<noteq> None"
    using assms(1) by (cases cb) (auto simp: callback_ok_def)
  with False show ?thesis
    by (cases cb) (auto simp: lockup_callbacks no_promise_def maybe_promise_def assms(2,3) split_beta Let_def
        intro!: no_unreachable_rules)
qed

text \<open>The order of the steps of a termination.\<close>

inductive termination_move :: "termination_status option \<Rightarrow> termination_status option \<Rightarrow> bool" where
  "termination_move None (Some VestingTerminatedWithDeficit)"
| "termination_move None (Some ReadyToWithdraw)"
| "termination_move (Some VestingTerminatedWithDeficit) (Some UnstakingInProgress)"
| "termination_move (Some UnstakingInProgress) (Some EverythingUnstaked)"
| "termination_move (Some UnstakingInProgress) (Some VestingTerminatedWithDeficit)"
| "termination_move (Some EverythingUnstaked) (Some WithdrawingFromStakingPoolInProgress)"
| "termination_move (Some WithdrawingFromStakingPoolInProgress) (Some ReadyToWithdraw)"
| "termination_move (Some WithdrawingFromStakingPoolInProgress) (Some EverythingUnstaked)"
| "termination_move (Some ReadyToWithdraw) (Some WithdrawingFromAccountInProgress)"
| "termination_move (Some WithdrawingFromAccountInProgress) (Some ReadyToWithdraw)"
| "termination_move (Some WithdrawingFromAccountInProgress) None"

inductive_simps termination_move_simps [simp]:
  "termination_move None s"
  "termination_move (Some VestingTerminatedWithDeficit) s"
  "termination_move (Some UnstakingInProgress) s"
  "termination_move (Some EverythingUnstaked) s"
  "termination_move (Some WithdrawingFromStakingPoolInProgress) s"
  "termination_move (Some ReadyToWithdraw) s"
  "termination_move (Some WithdrawingFromAccountInProgress) s"

text \<open>
  The steps of a termination come in the documented order: every step of a reachable contract
  (a call of anyone, or a callback with any result) leaves the termination status alone or makes one
  of the moves of \<open>termination_move\<close>; a failed pool operation goes back, and the termination ends
  only after a payout. No callback ever hits the \<open>unreachable!\<close> of \<open>set_termination_status\<close>.
\<close>

theorem termination_steps_in_order:
  assumes "reach lockup_init (world_step ser) (c, P)"
  shows "(world_step ser (c, P) w \<longrightarrow>
      get_termination_status (fst w) = get_termination_status c
      \<or> termination_move (get_termination_status c) (get_termination_status (fst w)))
    \<and> (\<forall>cb e r b msg. cb \<in># P \<and> env_assert_self e = Inr () \<and> env_is_promise_success e = Inr b \<longrightarrow>
         run_callback e r cb c \<noteq> Inl (Unreachable msg))"
proof -
  have inv: "world_inv (c, P)" using assms by (rule lockup_world.reachable_inv)
  have calls: "get_termination_status c' = get_termination_status c
      \<or> termination_move (get_termination_status c) (get_termination_status c')"
    if "lockup_exec ser e msg c = Inr (c', ps)" for e msg c' ps
    using that
  proof (cases rule: lockup_exec_cases)
    case (terminate vss vs n st)
    have "get_termination_status c = None"
      using terminate(4) by (auto simp: assert_vesting_def get_termination_status_def
          split: vesting_information.splits)
    then show ?thesis using terminate by auto
  qed auto
  have callbacks: "get_termination_status c' = get_termination_status c
      \<or> termination_move (get_termination_status c) (get_termination_status c')"
    if "run_callback e r cb c = Inr (c', ps)" and "cb \<in># P" for e r cb c' ps
  proof -
    have ok: "callback_ok c cb" using inv that(2) by (auto simp: world_inv_def)
    from that(1) show ?thesis
    proof (cases rule: callback_cases)
      case (polled t)
      then show ?thesis by (cases t) auto
    next
      case (paid n a w)
      then have "get_termination_status c' \<in> {Some ReadyToWithdraw, None}"
        by (auto simp: Let_def)
      then show ?thesis using ok paid(1) by (auto simp: callback_ok_def)
    qed (use ok in \<open>auto simp: callback_ok_def\<close>)
  qed
  have "get_termination_status (fst w) = get_termination_status c
      \<or> termination_move (get_termination_status c) (get_termination_status (fst w))"
    if "world_step ser (c, P) w"
    using that
  proof (cases rule: world_step.cases)
    case (world_call e msg c' ps)
    then show ?thesis using calls by simp
  next
    case (world_callback cb e r c' ps)
    then show ?thesis using callbacks by simp
  qed simp
  moreover have "run_callback e r cb c \<noteq> Inl (Unreachable msg)"
    if "cb \<in># P" "env_assert_self e = Inr ()" "env_is_promise_success e = Inr b" for cb e r b msg
    using callback_no_unreachable [OF _ that(2,3), of c cb r] inv that(1)
    by (auto simp: world_inv_def no_unreachable_def)
  ultimately show ?thesis by blast
qed

theorem termination_steps_in_order_witness:
  "\<exists>c1. terminate_vesting (\<lambda>_. []) (lockup_host ''foundation'' 1000 50) None sample_lockup = Inr c1
     \<and> termination_move (get_termination_status sample_lockup) (get_termination_status c1)"
proof -
  have t: "\<exists>c1. terminate_vesting (\<lambda>_. []) (lockup_host ''foundation'' 1000 50) None sample_lockup = Inr c1
      \<and> get_termination_status c1 \<noteq> None"
    by (simp add: terminate_vesting_def lockup_eval cong: eval_cong)
  then obtain c1 where c1: "terminate_vesting (\<lambda>_. []) (lockup_host ''foundation'' 1000 50) None sample_lockup = Inr c1"
    and "get_termination_status c1 \<noteq> None" by blast
  moreover have "get_termination_status sample_lockup = None"
    by (simp add: sample_lockup_def get_termination_status_def)
  moreover have "world_step (\<lambda>_. []) (sample_lockup, {#}) (c1, {#})"
    using world_call [of "\<lambda>_. []" "lockup_host ''foundation'' 1000 50" "L_terminate_vesting None" _ c1 "[]" "{#}"] c1
    by simp
  moreover have "reach lockup_init (world_step (\<lambda>_. [])) (sample_lockup, {#})"
    by (rule reach_init) (rule valid_init_init [OF sample_valid_init])
  ultimately show ?thesis
    using termination_steps_in_order [of "\<lambda>_. []" sample_lockup "{#}" "(c1, {#})", THEN conjunct1] by auto
qed

subsection \<open>Gas\<close>

text \<open>The gas that the documentation of each method asks for (\<open>Requires .. TGas\<close>).\<close>

fun documented_gas :: "lockup_msg \<Rightarrow> nat" where
  "documented_gas (L_select_staking_pool a) = 3 * BASE_GAS"
| "documented_gas L_unselect_staking_pool = BASE_GAS"
| "documented_gas (L_deposit_to_staking_pool n) = 4 * BASE_GAS"
| "documented_gas (L_deposit_and_stake n) = 5 * BASE_GAS"
| "documented_gas L_refresh_staking_pool_balance = 3 * BASE_GAS"
| "documented_gas (L_withdraw_from_staking_pool n) = 5 * BASE_GAS"
| "documented_gas L_withdraw_all_from_staking_pool = 7 * BASE_GAS"
| "documented_gas (L_stake n) = 5 * BASE_GAS"
| "documented_gas (L_unstake n) = 5 * BASE_GAS"
| "documented_gas L_unstake_all = 5 * BASE_GAS"
| "documented_gas L_check_transfers_vote = 3 * BASE_GAS"
| "documented_gas (L_transfer n a) = 2 * BASE_GAS"
| "documented_gas (L_add_full_access_key pk) = 2 * BASE_GAS"
| "documented_gas (L_terminate_vesting v) = BASE_GAS"
| "documented_gas L_termination_prepare_to_withdraw = 7 * BASE_GAS"
| "documented_gas (L_termination_withdraw a) = 3 * BASE_GAS"

lemma call_gas [simp]: "promise_gas (call r c d g) = g"
  by (simp add: call_def)

text \<open>The static gas of each callback, where the methods schedule it.\<close>

fun callback_gas :: "lockup_call \<Rightarrow> nat" where
  "callback_gas (C_on_whitelist_is_whitelisted a) = gas_ON_WHITELIST_IS_WHITELISTED"
| "callback_gas (C_on_staking_pool_deposit n) = gas_ON_STAKING_POOL_DEPOSIT"
| "callback_gas (C_on_staking_pool_deposit_and_stake n) = gas_ON_STAKING_POOL_DEPOSIT_AND_STAKE"
| "callback_gas (C_on_staking_pool_withdraw n) = gas_ON_STAKING_POOL_WITHDRAW"
| "callback_gas (C_on_staking_pool_stake n) = gas_ON_STAKING_POOL_STAKE"
| "callback_gas (C_on_staking_pool_unstake n) = 0"
| "callback_gas C_on_staking_pool_unstake_all = gas_ON_STAKING_POOL_UNSTAKE_ALL"
| "callback_gas C_on_get_result_from_transfer_poll = gas_ON_VOTING_GET_RESULT"
| "callback_gas C_on_get_account_total_balance = gas_ON_GET_ACCOUNT_TOTAL_BALANCE"
| "callback_gas C_on_get_account_unstaked_balance_to_withdraw_by_owner =
     gas_ON_GET_ACCOUNT_UNSTAKED_BALANCE_TO_WITHDRAW_BY_OWNER"
| "callback_gas C_on_get_account_staked_balance_to_unstake = gas_ON_GET_ACCOUNT_STAKED_BALANCE_TO_UNSTAKE"
| "callback_gas (C_on_staking_pool_unstake_for_termination n) = gas_ON_STAKING_POOL_UNSTAKE_FOR_TERMINATION"
| "callback_gas C_on_get_account_unstaked_balance_to_withdraw = gas_ON_GET_ACCOUNT_UNSTAKED_BALANCE_TO_WITHDRAW"
| "callback_gas (C_on_staking_pool_withdraw_for_termination n) = gas_ON_STAKING_POOL_WITHDRAW_FOR_TERMINATION"
| "callback_gas (C_on_withdraw_unvested_amount n a) = gas_ON_WITHDRAW_UNVESTED_AMOUNT"
| "callback_gas _ = 0"

definition gas_fits :: "lockup_msg \<Rightarrow> lockup_promise list \<Rightarrow> bool" where
  "gas_fits msg ps \<longleftrightarrow> sum_list (map promise_gas ps) + BASE_GAS \<le> documented_gas msg
    \<and> (\<forall>p q. ps = [Then p q] \<longrightarrow> (\<exists>cb. awaiting (Then p q) = {#cb#} \<and> promise_gas q = callback_gas cb
         \<and> (\<forall>n. cb = C_on_staking_pool_unstake n \<longleftrightarrow> msg = L_unstake n)))"

lemma exec_gas_fits:
  assumes "lockup_exec ser e msg c = Inr (c', ps)"
  shows "gas_fits msg ps"
proof (cases msg)
  case L_termination_prepare_to_withdraw
  show ?thesis
  proof (cases "get_termination_status c")
    case None
    with assms L_termination_prepare_to_withdraw show ?thesis by (simp add: foundation_methods)
  next
    case (Some st)
    with assms L_termination_prepare_to_withdraw show ?thesis
      by (cases st) (auto simp: foundation_methods gas_fits_def gas_defs)
  qed
next
  case L_check_transfers_vote
  with assms show ?thesis
    by (auto simp: owner_methods gas_fits_def gas_defs split: transfers_information.splits)
qed (use assms in \<open>auto simp: owner_methods foundation_methods gas_fits_def gas_defs Let_def\<close>)

lemma callback_gas_fits:
  assumes "run_callback e r cb c = Inr (c', ps)" and "\<forall>n. cb \<noteq> C_on_staking_pool_unstake n"
  shows "sum_list (map promise_gas ps) + BASE_GAS \<le> callback_gas cb"
  using assms by (cases cb) (auto simp: lockup_callbacks gas_defs split: if_splits)

text \<open>
  C40. The documented gas is enough: the static gas that an accepted call reserves for its promises,
  with \<open>BASE_GAS\<close> for its own execution, is at most what the method's documentation requires, and
  the callback it schedules gets enough for its own execution and for everything it may schedule in
  turn. The one exception is \<open>unstake\<close>, whose callback is scheduled with no static gas at all.
\<close>

theorem documented_gas_suffices:
  assumes "lockup_exec ser e msg c = Inr (c', ps)"
  shows "sum_list (map promise_gas ps) + BASE_GAS \<le> documented_gas msg
    \<and> (\<forall>p q. ps = [Then p q] \<longrightarrow> (\<exists>cb. awaiting (Then p q) = {#cb#} \<and>
         (if \<exists>n. msg = L_unstake n then promise_gas q = 0
          else \<forall>e' r c1 c2 qs. run_callback e' r cb c1 = Inr (c2, qs)
             \<longrightarrow> sum_list (map promise_gas qs) + BASE_GAS \<le> promise_gas q)))"
proof -
  note fits = exec_gas_fits [OF assms, unfolded gas_fits_def]
  have "\<exists>cb. awaiting (Then p q) = {#cb#} \<and>
         (if \<exists>n. msg = L_unstake n then promise_gas q = 0
          else \<forall>e' r c1 c2 qs. run_callback e' r cb c1 = Inr (c2, qs)
             \<longrightarrow> sum_list (map promise_gas qs) + BASE_GAS \<le> promise_gas q)" if ps: "ps = [Then p q]" for p q
  proof -
    from fits ps obtain cb where cb: "awaiting (Then p q) = {#cb#}" "promise_gas q = callback_gas cb"
      "\<forall>n. cb = C_on_staking_pool_unstake n \<longleftrightarrow> msg = L_unstake n" by blast
    show ?thesis
    proof (cases "\<exists>n. msg = L_unstake n")
      case True
      with cb show ?thesis by (intro exI [of _ cb]) auto
    next
      case False
      with cb have "\<forall>n. cb \<noteq> C_on_staking_pool_unstake n" by blast
      from callback_gas_fits [OF _ this] cb False show ?thesis by (intro exI [of _ cb]) auto
    qed
  qed
  with fits show ?thesis by blast
qed

theorem documented_gas_suffices_witness:
  "promise_gas (Then (call ''pool'' C_deposit 700 gas_DEPOSIT)
      (call ''contract'' (C_on_staking_pool_deposit 700) 0 gas_ON_STAKING_POOL_DEPOSIT)) + BASE_GAS
     \<le> 100000000000000"
  using documented_gas_suffices [OF deposit_sample, THEN conjunct1] by (simp add: BASE_GAS_def)

end
