(* ===== verification/LockupFactory.thy ===== *)
theory LockupFactory
  imports Lockup
begin

section \<open>The lockup factory (\<open>lockup-factory/src/lib.rs\<close>) and the multisig factory\<close>

text \<open>
  Anyone can have a lockup contract deployed for an owner; the account ID is derived from the hash of
  the owner's. The factory's copy of the lockup types (\<open>lockup-factory/src/types.rs\<close>) is the one of
  the theory \<open>Lockup\<close>. The deployed code is the parameter \<open>code\<close>, \<open>hex::encode\<close> is \<open>hex\<close>, and
  \<open>as_bytes\<close> is \<open>ascii\<close> on account IDs.
\<close>

definition LOCKUP_NEW :: nat where "LOCKUP_NEW = 25000000000000"
definition LOCKUP_CALLBACK :: nat where "LOCKUP_CALLBACK = 25000000000000"
definition TRANSFERS_STARTED :: nat where "TRANSFERS_STARTED = 1602614338293769340"
definition LOCKUP_MIN_ATTACHED_BALANCE :: nat where
  "LOCKUP_MIN_ATTACHED_BALANCE = 3500000000000000000000000"

record lockup_factory =
  lf_whitelist_account_id :: account_id
  lf_foundation_account_id :: account_id

record lockup_args =
  la_owner_account_id :: account_id
  la_lockup_duration :: duration
  la_lockup_timestamp :: "timestamp option"
  la_transfers_information :: transfers_information
  la_vesting_schedule :: "vesting_schedule_or_hash option"
  la_release_duration :: "duration option"
  la_staking_pool_whitelist_account_id :: account_id
  la_foundation_account_id :: "account_id option"

datatype lockup_factory_call =
    LF_new lockup_args
  | LF_on_lockup_create account_id nat account_id

definition ascii :: "string \<Rightarrow> bytes" where
  "ascii s = map (\<lambda>c. of_char c) s"

definition new_lockup_factory :: "host \<Rightarrow> account_id \<Rightarrow> account_id \<Rightarrow> lockup_factory res" where
  "new_lockup_factory e whitelist foundation =
     bindE (ensure (\<not> env_state_exists e) ''The contract is already initialized'') (\<lambda>_.
     bindE (ensure (length (env_current_account_id e) \<le> 23)
       ''The account ID of this contract can't be more than 23 characters'') (\<lambda>_.
     Inr \<lparr>lf_whitelist_account_id = whitelist, lf_foundation_account_id = foundation\<rparr>))"

definition get_foundation_account_id :: "lockup_factory \<Rightarrow> account_id" where
  "get_foundation_account_id f = lf_foundation_account_id f"

definition get_lockup_master_account_id :: "host \<Rightarrow> account_id" where
  "get_lockup_master_account_id e = env_current_account_id e"

definition get_min_attached_balance_lockup :: nat where
  "get_min_attached_balance_lockup = LOCKUP_MIN_ATTACHED_BALANCE"

definition lockup_args_of ::
  "account_id \<Rightarrow> duration \<Rightarrow> timestamp option \<Rightarrow> vesting_schedule_or_hash option \<Rightarrow> duration option
     \<Rightarrow> account_id option \<Rightarrow> lockup_factory \<Rightarrow> lockup_args" where
  "lockup_args_of owner duration lockup_ts schedule release whitelist f =
     \<lparr>la_owner_account_id = owner, la_lockup_duration = duration, la_lockup_timestamp = lockup_ts,
      la_transfers_information = TransfersEnabled TRANSFERS_STARTED, la_vesting_schedule = schedule,
      la_release_duration = release,
      la_staking_pool_whitelist_account_id =
        (case whitelist of Some account_id \<Rightarrow> account_id | None \<Rightarrow> lf_whitelist_account_id f),
      la_foundation_account_id =
        (if schedule \<noteq> None then Some (lf_foundation_account_id f) else None)\<rparr>"

definition create_lockup ::
  "bytes \<Rightarrow> (bytes \<Rightarrow> string) \<Rightarrow> host \<Rightarrow> account_id \<Rightarrow> duration \<Rightarrow> timestamp option
     \<Rightarrow> vesting_schedule_or_hash option \<Rightarrow> duration option \<Rightarrow> account_id option \<Rightarrow> lockup_factory
     \<Rightarrow> lockup_factory_call promise res" where
  "create_lockup code hex e owner duration lockup_ts schedule release whitelist f =
     bindE (ensure (LOCKUP_MIN_ATTACHED_BALANCE \<le> env_attached_deposit e) ''Not enough attached deposit'') (\<lambda>_.
     let byte_slice = env_sha256 e (ascii owner) in
     bindE (ensure (20 \<le> length byte_slice) ''range end index 20 out of range'') (\<lambda>_.
     bindE (unwrap (env_parse_account_id e
              (hex (take 20 byte_slice) @ ''.'' @ env_current_account_id e))) (\<lambda>lockup_account_id.
     Inr (Then (Promise lockup_account_id
                  [CreateAccount, DeployContract code, Transfer (env_attached_deposit e),
                   FunctionCall (LF_new (lockup_args_of owner duration lockup_ts schedule release whitelist f))
                     0 LOCKUP_NEW])
               (Promise (env_current_account_id e)
                  [FunctionCall (LF_on_lockup_create lockup_account_id (env_attached_deposit e)
                     (env_predecessor_account_id e)) 0 LOCKUP_CALLBACK])))))"

definition on_lockup_create ::
  "host \<Rightarrow> account_id \<Rightarrow> nat \<Rightarrow> account_id \<Rightarrow> (bool \<times> lockup_factory_call promise list) res" where
  "on_lockup_create e lockup_account_id deposit predecessor =
     bindE (assert_self e) (\<lambda>_.
     bindE (is_promise_success e) (\<lambda>created.
     if created then Inr (True, [])
     else Inr (False, [Promise predecessor [Transfer deposit]])))"

subsection \<open>What the new contract makes of the arguments\<close>

text \<open>The remote call \<open>new\<close> with the serialised arguments.\<close>

definition run_lockup_new :: "host \<Rightarrow> lockup_args \<Rightarrow> lockup_contract res" where
  "run_lockup_new e a = new_lockup e (la_owner_account_id a) (la_lockup_duration a) (la_lockup_timestamp a)
     (la_transfers_information a) (la_vesting_schedule a) (la_release_duration a)
     (la_staking_pool_whitelist_account_id a) (la_foundation_account_id a)"

text \<open>
  C34. Every deployment of the lockup factory is accepted by the lockup contract: the promise transfers
  exactly the attached deposit to the new account, and \<open>new\<close>, run there with the arguments that
  the factory built, returns (if the account IDs in them are valid). The contract then locks the
  whole deposit for the given owner with transfers enabled since \<open>TRANSFERS_STARTED\<close>, trusts the
  chosen whitelist, and has the factory's foundation exactly if there is something to vest. If the
  deployment fails, the callback returns exactly the deposit.
\<close>

theorem deployed_lockup_initialises:
  assumes "create_lockup code hex e owner d lts schedule rel wl f = Inr p"
    and "env_account_balance e' = env_attached_deposit e"
    and "env_is_valid_account_id e' owner" and "env_is_valid_account_id e' (lf_foundation_account_id f)"
    and "env_is_valid_account_id e' (case wl of Some a \<Rightarrow> a | None \<Rightarrow> lf_whitelist_account_id f)"
  shows "\<exists>account args c g cb. p = Then (Promise account [CreateAccount, DeployContract code,
        Transfer (env_attached_deposit e), FunctionCall (LF_new args) 0 g]) cb
    \<and> promise_tokens p = env_attached_deposit e
    \<and> run_lockup_new e' args = Inr c
    \<and> owner_account_id c = owner
    \<and> lockup_amount (lockup_information c) = env_attached_deposit e
    \<and> transfers_information (lockup_information c) = TransfersEnabled TRANSFERS_STARTED
    \<and> (foundation_account c = (if schedule = None then None else Some (lf_foundation_account_id f)))
    \<and> (vesting_information c = NoVesting \<longleftrightarrow> schedule = None)
    \<and> cb = Promise (env_current_account_id e) [FunctionCall (LF_on_lockup_create account
        (env_attached_deposit e) (env_predecessor_account_id e)) 0 LOCKUP_CALLBACK]
    \<and> (\<forall>e2 b ps. on_lockup_create e2 account (env_attached_deposit e) (env_predecessor_account_id e) = Inr (b, ps)
         \<longrightarrow> (if b then ps = [] else ps = [Promise (env_predecessor_account_id e) [Transfer (env_attached_deposit e)]]))"
proof -
  from assms(1) obtain account where
    p: "p = Then (Promise account [CreateAccount, DeployContract code, Transfer (env_attached_deposit e),
               FunctionCall (LF_new (lockup_args_of owner d lts schedule rel wl f)) 0 LOCKUP_NEW])
            (Promise (env_current_account_id e) [FunctionCall (LF_on_lockup_create account
               (env_attached_deposit e) (env_predecessor_account_id e)) 0 LOCKUP_CALLBACK])"
    by (auto simp: create_lockup_def Let_def)
  obtain c where c: "run_lockup_new e' (lockup_args_of owner d lts schedule rel wl f) = Inr c"
    unfolding run_lockup_new_def using assms(3-5)
    by (atomize_elim, intro new_lockup_returns) (auto simp: lockup_args_of_def split: if_splits)
  moreover from c have "owner_account_id c = owner" "lockup_amount (lockup_information c) = env_attached_deposit e"
      "transfers_information (lockup_information c) = TransfersEnabled TRANSFERS_STARTED"
      "foundation_account c = (if schedule = None then None else Some (lf_foundation_account_id f))"
      "vesting_information c = NoVesting \<longleftrightarrow> schedule = None"
    using assms(2)
    by (auto simp: run_lockup_new_def lockup_args_of_def dest!: new_lockupE
        split: option.splits vesting_schedule_or_hash.splits)
  moreover have "on_lockup_create e2 account n who = Inr (b, ps) \<longrightarrow>
      (if b then ps = [] else ps = [Promise who [Transfer n]])" for e2 n who b ps
    by (auto simp: on_lockup_create_def split: if_splits)
  ultimately show ?thesis using p
    by (intro exI [of _ account] exI [of _ "lockup_args_of owner d lts schedule rel wl f"] exI [of _ c] exI) auto
qed

theorem deployed_lockup_initialises_witness:
  "\<exists>p. create_lockup [1] (\<lambda>_. ''ab'') (sample_host\<lparr>env_attached_deposit := 4000000000000000000000000,
        env_sha256 := \<lambda>_. replicate 32 0\<rparr>) ''bob'' 0 None None (Some 10) None
        \<lparr>lf_whitelist_account_id = ''whitelist'', lf_foundation_account_id = ''foundation''\<rparr> = Inr p
     \<and> promise_tokens p = 4000000000000000000000000"
proof -
  let ?e = "sample_host\<lparr>env_attached_deposit := 4000000000000000000000000, env_sha256 := \<lambda>_. replicate 32 0\<rparr>"
  let ?f = "\<lparr>lf_whitelist_account_id = ''whitelist'', lf_foundation_account_id = ''foundation''\<rparr>"
  obtain p where p: "create_lockup [1] (\<lambda>_. ''ab'') ?e ''bob'' 0 None None (Some 10) None ?f = Inr p"
    by (simp add: create_lockup_def LOCKUP_MIN_ATTACHED_BALANCE_def Let_def cong: eval_cong)
  from deployed_lockup_initialises [OF p, of "sample_host\<lparr>env_account_balance := 4000000000000000000000000\<rparr>"] p
  show ?thesis by auto
qed

end
