(* ===== verification/PoolFactory.thy ===== *)
theory PoolFactory
  imports Interfaces
begin

section \<open>The staking pool factory (\<open>staking-pool-factory/src/lib.rs\<close>)\<close>

text \<open>
  Anyone can have a staking pool deployed to a sub-account of the factory; the factory remembers the
  pools it created and is meant to report them to the whitelist. The code of the pool
  (\<open>include_bytes!\<close>) is the parameter \<open>code\<close>. The factory has its own copy of the fee fraction.
\<close>

subsection \<open>Constants, state and methods\<close>

definition POOL_MIN_ATTACHED_BALANCE :: nat where
  "POOL_MIN_ATTACHED_BALANCE = 30000000000000000000000000"
definition FACTORY_BASE :: nat where "FACTORY_BASE = 25000000000000"
definition STAKING_POOL_NEW :: nat where "STAKING_POOL_NEW = FACTORY_BASE * 2"
definition FACTORY_CALLBACK :: nat where "FACTORY_CALLBACK = FACTORY_BASE * 2"
definition WHITELIST_STAKING_POOL :: nat where "WHITELIST_STAKING_POOL = FACTORY_BASE"

record factory_fee_fraction =
  fee_numerator :: nat
  fee_denominator :: nat

definition assert_valid_factory_fee :: "factory_fee_fraction \<Rightarrow> unit res" where
  "assert_valid_factory_fee f =
     bindE (ensure (fee_denominator f \<noteq> 0) ''Denominator must be a positive number'') (\<lambda>_.
     ensure (fee_numerator f \<le> fee_denominator f) ''The reward fee must be less or equal to 1'')"

record staking_pool_args =
  arg_owner_id :: account_id
  arg_stake_public_key :: public_key
  arg_reward_fee_fraction :: factory_fee_fraction

record pool_factory =
  factory_whitelist_account_id :: account_id
  staking_pool_account_ids :: "account_id set"

datatype factory_call =
    F_new staking_pool_args
  | F_on_staking_pool_create account_id nat account_id
  | F_add_staking_pool account_id

definition new_pool_factory :: "host \<Rightarrow> account_id \<Rightarrow> pool_factory res" where
  "new_pool_factory e whitelist =
     bindE (ensure (\<not> env_state_exists e) ''The contract is already initialized'') (\<lambda>_.
     bindE (ensure (env_is_valid_account_id e whitelist)
       ''The staking pool whitelist account ID is invalid'') (\<lambda>_.
     Inr \<lparr>factory_whitelist_account_id = whitelist, staking_pool_account_ids = {}\<rparr>))"

definition get_min_attached_balance :: nat where
  "get_min_attached_balance = POOL_MIN_ATTACHED_BALANCE"

definition get_number_of_staking_pools_created :: "pool_factory \<Rightarrow> nat" where
  "get_number_of_staking_pools_created f = card (staking_pool_account_ids f)"

definition sub_account :: "string \<Rightarrow> host \<Rightarrow> string" where
  "sub_account name e = name @ ''.'' @ env_current_account_id e"

definition create_staking_pool ::
  "bytes \<Rightarrow> host \<Rightarrow> account_id \<Rightarrow> account_id \<Rightarrow> public_key \<Rightarrow> factory_fee_fraction \<Rightarrow> pool_factory
     \<Rightarrow> (pool_factory \<times> factory_call promise) res" where
  "create_staking_pool code e pool_id owner pk fee f =
     bindE (ensure (POOL_MIN_ATTACHED_BALANCE \<le> env_attached_deposit e)
       ''Not enough attached deposit to complete staking pool creation'') (\<lambda>_.
     bindE (ensure (CHR ''.'' \<notin> set pool_id) ''The staking pool ID can't contain `.`'') (\<lambda>_.
     bindE (unwrap (env_parse_account_id e (sub_account pool_id e))) (\<lambda>pool.
     bindE (ensure (env_is_valid_account_id e pool) ''The staking pool account ID is invalid'') (\<lambda>_.
     bindE (ensure (env_is_valid_account_id e owner) ''The owner account ID is invalid'') (\<lambda>_.
     bindE (assert_valid_factory_fee fee) (\<lambda>_.
     bindE (ensure (pool \<notin> staking_pool_account_ids f)
       ''The staking pool account ID already exists'') (\<lambda>_.
     Inr (f\<lparr>staking_pool_account_ids := insert pool (staking_pool_account_ids f)\<rparr>,
          Then (Promise pool
                  [CreateAccount, Transfer (env_attached_deposit e), DeployContract code,
                   FunctionCall (F_new \<lparr>arg_owner_id = owner, arg_stake_public_key = pk,
                     arg_reward_fee_fraction = fee\<rparr>) 0 STAKING_POOL_NEW])
               (Promise (env_current_account_id e)
                  [FunctionCall (F_on_staking_pool_create pool (env_attached_deposit e)
                     (env_predecessor_account_id e)) 0 FACTORY_CALLBACK])))))))))"

text \<open>The call of \<open>add_staking_pool\<close> is addressed to the factory's own account.\<close>

definition on_staking_pool_create ::
  "host \<Rightarrow> account_id \<Rightarrow> nat \<Rightarrow> account_id \<Rightarrow> pool_factory
     \<Rightarrow> (pool_factory \<times> factory_call promise_or_value \<times> factory_call promise list) res" where
  "on_staking_pool_create e pool deposit predecessor f =
     bindE (assert_self e) (\<lambda>_.
     bindE (is_promise_success e) (\<lambda>created.
     if created then
       let p = Promise (env_current_account_id e)
                 [FunctionCall (F_add_staking_pool pool) 0 WHITELIST_STAKING_POOL] in
       Inr (f, PromiseRet p, [p])
     else
       Inr (f\<lparr>staking_pool_account_ids := staking_pool_account_ids f - {pool}\<rparr>,
            ValueRet False, [Promise predecessor [Transfer deposit]])))"

subsection \<open>The factory with the creations in progress\<close>

text \<open>
  A creation in progress is recorded from the call that started it, not from what the code schedules:
  the account ID that the requested name denotes, the deposit that the host attached to the call, the
  account that made the call, and the promise that the call returned.
\<close>

record creation =
  cr_pool :: account_id
  cr_deposit :: nat
  cr_payer :: account_id
  cr_promise :: "factory_call promise"

definition started :: "host \<Rightarrow> account_id \<Rightarrow> factory_call promise \<Rightarrow> creation" where
  "started e pool p = \<lparr>cr_pool = pool, cr_deposit = env_attached_deposit e,
     cr_payer = env_predecessor_account_id e, cr_promise = p\<rparr>"

text \<open>
  The calls that the factory runs: creations; the callback of a creation in progress, with the arguments that
  its promise holds and with the factory itself as the predecessor; and the same method called by
  anybody else, with any arguments.
\<close>

inductive pool_factory_step ::
  "bytes \<Rightarrow> account_id \<Rightarrow> pool_factory \<times> creation set \<Rightarrow> factory_call promise list
     \<Rightarrow> pool_factory \<times> creation set \<Rightarrow> bool" for code self where
  step_create:
    "env_current_account_id e = self \<Longrightarrow> create_staking_pool code e pool_id owner pk fee f = Inr (f', p)
     \<Longrightarrow> env_parse_account_id e (sub_account pool_id e) = Some pool
     \<Longrightarrow> pool_factory_step code self (f, C) [p] (f', insert (started e pool p) C)"
| step_callback:
    "env_current_account_id e = self \<Longrightarrow> env_predecessor_account_id e = self \<Longrightarrow> cr \<in> C
     \<Longrightarrow> cr_promise cr = Then q (Promise self [FunctionCall (F_on_staking_pool_create pool d who) dep g])
     \<Longrightarrow> on_staking_pool_create e pool d who f = Inr (f', v, ps)
     \<Longrightarrow> pool_factory_step code self (f, C) ps (f', C - {cr})"
| step_outsider:
    "env_current_account_id e = self \<Longrightarrow> env_predecessor_account_id e \<noteq> self
     \<Longrightarrow> on_staking_pool_create e pool d who f = Inr (f', v, ps)
     \<Longrightarrow> pool_factory_step code self (f, C) ps (f', C)"

inductive_cases pool_factory_stepE: "pool_factory_step code self s ps s'"

lemma create_staking_poolE:
  assumes "create_staking_pool code e pool_id owner pk fee f = Inr (f', p)"
  obtains pool where "env_parse_account_id e (sub_account pool_id e) = Some pool"
    "POOL_MIN_ATTACHED_BALANCE \<le> env_attached_deposit e" "env_is_valid_account_id e owner"
    "fee_denominator fee \<noteq> 0" "fee_numerator fee \<le> fee_denominator fee"
    "pool \<notin> staking_pool_account_ids f"
    "f' = f\<lparr>staking_pool_account_ids := insert pool (staking_pool_account_ids f)\<rparr>"
    "p = Then (Promise pool
                  [CreateAccount, Transfer (env_attached_deposit e), DeployContract code,
                   FunctionCall (F_new \<lparr>arg_owner_id = owner, arg_stake_public_key = pk,
                     arg_reward_fee_fraction = fee\<rparr>) 0 STAKING_POOL_NEW])
               (Promise (env_current_account_id e)
                  [FunctionCall (F_on_staking_pool_create pool (env_attached_deposit e)
                     (env_predecessor_account_id e)) 0 FACTORY_CALLBACK])"
  using assms by (auto simp: create_staking_pool_def assert_valid_factory_fee_def)

lemma on_staking_pool_createE:
  assumes "on_staking_pool_create e pool d who f = Inr (f', v, ps)"
  obtains (created) "f' = f" "ps = [Promise (env_current_account_id e)
        [FunctionCall (F_add_staking_pool pool) 0 WHITELIST_STAKING_POOL]]" "v = PromiseRet (hd ps)"
  | (failed) "f' = f\<lparr>staking_pool_account_ids := staking_pool_account_ids f - {pool}\<rparr>"
      "v = ValueRet False" "ps = [Promise who [Transfer d]]"
  using assms by (auto simp: on_staking_pool_create_def Let_def split: if_splits)

lemma outsiders_rejected:
  "env_predecessor_account_id e \<noteq> env_current_account_id e \<Longrightarrow> on_staking_pool_create e pool d who f \<noteq> Inr r"
  by (auto simp: on_staking_pool_create_def)

text \<open>
  Every creation in progress is of a listed pool, no two are of the same one, and its promise moves the
  deposit of its call to the pool and calls back with the pool, the deposit and the payer of its call.
\<close>

definition scheduled :: "account_id \<Rightarrow> creation \<Rightarrow> bool" where
  "scheduled self cr \<longleftrightarrow> (\<exists>acts g. cr_promise cr =
       Then (Promise (cr_pool cr) ([CreateAccount, Transfer (cr_deposit cr)] @ acts))
         (Promise self [FunctionCall (F_on_staking_pool_create (cr_pool cr) (cr_deposit cr) (cr_payer cr)) 0 g])
     \<and> promise_tokens (cr_promise cr) = cr_deposit cr)"

definition creating_inv :: "account_id \<Rightarrow> pool_factory \<times> creation set \<Rightarrow> bool" where
  "creating_inv self s \<longleftrightarrow> cr_pool ` snd s \<subseteq> staking_pool_account_ids (fst s) \<and> inj_on cr_pool (snd s)
     \<and> (\<forall>cr \<in> snd s. scheduled self cr)"

lemma create_scheduled:
  assumes "create_staking_pool code e pool_id owner pk fee f = Inr (f', p)"
    and "env_parse_account_id e (sub_account pool_id e) = Some pool"
  shows "scheduled (env_current_account_id e) (started e pool p)"
    and "pool \<notin> staking_pool_account_ids f"
    and "staking_pool_account_ids f' = insert pool (staking_pool_account_ids f)"
  using assms by (auto elim!: create_staking_poolE simp: scheduled_def started_def)

lemma creating_inv_step:
  assumes "pool_factory_step code self s ps s'" and "creating_inv self s"
  shows "creating_inv self s'"
  using assms(1)
proof (cases rule: pool_factory_step.cases)
  case (step_create e pool_id owner pk fee f f' p pool C)
  note c = create_scheduled [OF step_create(5,6)]
  have "cr_pool (started e pool p) = pool" by (simp add: started_def)
  moreover from this have "cr_pool (started e pool p) \<notin> cr_pool ` C"
    using c(2) assms(2) step_create(1) by (auto simp: creating_inv_def)
  ultimately show ?thesis using assms(2) step_create(1-4) c(1,3)
    by (auto simp: creating_inv_def inj_on_insert)
next
  case (step_callback e cr C q pool d who dep g f f' v)
  have inv: "cr_pool ` C \<subseteq> staking_pool_account_ids f" "inj_on cr_pool C" "\<forall>cr \<in> C. scheduled self cr"
    using assms(2) step_callback(1) by (simp_all add: creating_inv_def)
  have "pool = cr_pool cr" using inv(3) step_callback(5,6) by (auto simp: scheduled_def)
  moreover have "staking_pool_account_ids f - {pool} \<subseteq> staking_pool_account_ids f'"
    using step_callback(7) by (cases rule: on_staking_pool_createE) auto
  ultimately have "staking_pool_account_ids f - {cr_pool cr} \<subseteq> staking_pool_account_ids f'" by simp
  moreover have "cr_pool ` (C - {cr}) \<subseteq> staking_pool_account_ids f - {cr_pool cr}"
    using inv(1,2) step_callback(5) by (auto simp: inj_on_def)
  ultimately show ?thesis using inv(2,3)
    unfolding step_callback(2) creating_inv_def by (auto intro: inj_on_diff)
next
  case (step_outsider e pool d who f f' v C)
  then show ?thesis using outsiders_rejected by simp
qed

definition pool_factory_init :: "pool_factory \<times> creation set \<Rightarrow> bool" where
  "pool_factory_init s \<longleftrightarrow> snd s = {} \<and> (\<exists>e wl. new_pool_factory e wl = Inr (fst s))"

interpretation pool_creations: inductive_invariant
  "\<lambda>s s'. \<exists>ps. pool_factory_step code self s ps s'" "creating_inv self" pool_factory_init for code self
proof unfold_locales
  show "creating_inv self s \<Longrightarrow> \<exists>ps. pool_factory_step code self s ps s' \<Longrightarrow> creating_inv self s'" for s s'
    using creating_inv_step by blast
  show "pool_factory_init s \<Longrightarrow> creating_inv self s" for s
    by (simp add: pool_factory_init_def creating_inv_def)
qed

subsection \<open>Properties\<close>

text \<open>
  C32. A deposit is either used for its pool or returned to its sender. In every history of a factory, take
  a creation in progress: \<open>cr_pool\<close> is the account that the caller asked for, \<open>cr_deposit\<close> what it
  attached and \<open>cr_payer\<close> who it is. The pool is listed and no other creation in progress is for it; what
  was scheduled creates the pool, transfers exactly the attached deposit to it and nothing else to
  anybody, and then calls the factory back with this pool, deposit and payer. Whenever that
  callback is accepted, the caller is the factory itself; if the creation succeeded, the pool stays listed
  and nothing is paid out, and otherwise the pool is removed from the list and exactly the attached
  deposit is returned to the account that attached it. Nobody can create a pool that is in progress.
\<close>

theorem deposit_used_or_returned:
  assumes "reach pool_factory_init (\<lambda>s s'. \<exists>ps. pool_factory_step code self s ps s') (f, C)" and "cr \<in> C"
  shows "cr_pool cr \<in> staking_pool_account_ids f \<and> (\<forall>cr' \<in> C. cr_pool cr' = cr_pool cr \<longrightarrow> cr' = cr)
    \<and> (\<exists>acts g. cr_promise cr = Then (Promise (cr_pool cr) ([CreateAccount, Transfer (cr_deposit cr)] @ acts))
           (Promise self [FunctionCall (F_on_staking_pool_create (cr_pool cr) (cr_deposit cr) (cr_payer cr)) 0 g])
         \<and> promise_tokens (cr_promise cr) = cr_deposit cr)
    \<and> (\<forall>e f' v ps. on_staking_pool_create e (cr_pool cr) (cr_deposit cr) (cr_payer cr) f = Inr (f', v, ps) \<longrightarrow>
         env_predecessor_account_id e = env_current_account_id e
         \<and> (if is_promise_success e = Inr True
            then f' = f \<and> sum_list (map promise_tokens ps) = 0
            else staking_pool_account_ids f' = staking_pool_account_ids f - {cr_pool cr}
               \<and> ps = [Promise (cr_payer cr) [Transfer (cr_deposit cr)]] \<and> v = ValueRet False))
    \<and> (\<forall>e code2 pool_id owner pk fee f2 p. create_staking_pool code2 e pool_id owner pk fee f = Inr (f2, p) \<longrightarrow>
         env_parse_account_id e (sub_account pool_id e) \<noteq> Some (cr_pool cr))"
proof (intro conjI allI impI ballI)
  have inv: "creating_inv self (f, C)" using assms(1) by (rule pool_creations.reachable_inv)
  then show pool: "cr_pool cr \<in> staking_pool_account_ids f" using assms(2) by (auto simp: creating_inv_def)
  show "cr' = cr" if "cr' \<in> C" "cr_pool cr' = cr_pool cr" for cr'
    using inv assms(2) that by (auto simp: creating_inv_def dest: inj_onD)
  show "\<exists>acts g. cr_promise cr = Then (Promise (cr_pool cr) ([CreateAccount, Transfer (cr_deposit cr)] @ acts))
         (Promise self [FunctionCall (F_on_staking_pool_create (cr_pool cr) (cr_deposit cr) (cr_payer cr)) 0 g])
       \<and> promise_tokens (cr_promise cr) = cr_deposit cr"
    using inv assms(2) unfolding creating_inv_def scheduled_def by simp
  fix e f' v ps
  assume call: "on_staking_pool_create e (cr_pool cr) (cr_deposit cr) (cr_payer cr) f = Inr (f', v, ps)"
  then show "env_predecessor_account_id e = env_current_account_id e" using outsiders_rejected by blast
  show "if is_promise_success e = Inr True
       then f' = f \<and> sum_list (map promise_tokens ps) = 0
       else staking_pool_account_ids f' = staking_pool_account_ids f - {cr_pool cr}
          \<and> ps = [Promise (cr_payer cr) [Transfer (cr_deposit cr)]] \<and> v = ValueRet False"
    using call by (auto simp: on_staking_pool_create_def Let_def split: if_splits)
next
  have "cr_pool cr \<in> staking_pool_account_ids f"
    using pool_creations.reachable_inv [OF assms(1)] assms(2) by (auto simp: creating_inv_def)
  then show "env_parse_account_id e (sub_account pool_id e) \<noteq> Some (cr_pool cr)"
    if "create_staking_pool code2 e pool_id owner pk fee f = Inr (f2, p)" for e code2 pool_id owner pk fee f2 p
    using that by (auto elim!: create_staking_poolE)
qed

text \<open>
  A created pool is never whitelisted: no promise that the factory ever creates contains a call of
  \<open>add_staking_pool\<close> on another account than the factory's own. The callback of a successful creation
  sends it to the factory itself, which has no such method, and the account ID of the whitelist with
  which the factory was initialised is not used.
\<close>

theorem factory_never_calls_the_whitelist:
  assumes "pool_factory_step code self s ps s'" and "p \<in> set ps" and "(receiver, acts) \<in> set (batches p)"
    and "FunctionCall (F_add_staking_pool pool) d g \<in> set acts"
  shows "receiver = self"
  using assms(1)
proof (cases rule: pool_factory_step.cases)
  case (step_create e pool_id owner pk fee f f' q pool' C)
  then show ?thesis using assms(2-4) by (auto elim!: create_staking_poolE)
next
  case (step_callback e cr C q pool' d' who dep g' f f' v)
  then show ?thesis using assms(2-4) by (auto elim!: on_staking_pool_createE)
next
  case (step_outsider e pool' d' who f f' v C)
  then show ?thesis using outsiders_rejected by simp
qed

definition sample_factory :: pool_factory where
  "sample_factory = \<lparr>factory_whitelist_account_id = ''whitelist'', staking_pool_account_ids = {}\<rparr>"

definition factory_host :: host where
  "factory_host = sample_host\<lparr>env_attached_deposit := 30000000000000000000000000\<rparr>"

definition half :: factory_fee_fraction where
  "half = \<lparr>fee_numerator = 1, fee_denominator = 2\<rparr>"

definition sample_creation :: "factory_call promise" where
  "sample_creation = Then (Promise ''pool.contract''
       [CreateAccount, Transfer 30000000000000000000000000, DeployContract [],
        FunctionCall (F_new \<lparr>arg_owner_id = ''bob'', arg_stake_public_key = ''key'',
          arg_reward_fee_fraction = half\<rparr>) 0 STAKING_POOL_NEW])
     (Promise ''contract'' [FunctionCall (F_on_staking_pool_create ''pool.contract''
        30000000000000000000000000 ''alice'') 0 FACTORY_CALLBACK])"

lemma sample_create:
  "create_staking_pool [] factory_host ''pool'' ''bob'' ''key'' half sample_factory
     = Inr (sample_factory\<lparr>staking_pool_account_ids := {''pool.contract''}\<rparr>, sample_creation)"
  by (simp add: create_staking_pool_def factory_host_def sample_factory_def half_def sub_account_def
      assert_valid_factory_fee_def POOL_MIN_ATTACHED_BALANCE_def sample_creation_def cong: eval_cong)

definition pool_in_progress :: creation where
  "pool_in_progress = \<lparr>cr_pool = ''pool.contract'', cr_deposit = 30000000000000000000000000,
     cr_payer = ''alice'', cr_promise = sample_creation\<rparr>"

lemma sample_create_step:
  "pool_factory_step [] ''contract'' (sample_factory, {}) [sample_creation]
     (sample_factory\<lparr>staking_pool_account_ids := {''pool.contract''}\<rparr>, {pool_in_progress})"
  using step_create [OF _ sample_create, of "''contract''" "''pool.contract''"]
  by (simp add: factory_host_def sub_account_def started_def pool_in_progress_def)

definition failed_host :: host where
  "failed_host = sample_host\<lparr>env_predecessor_account_id := ''contract'', env_promise_results := [Failed]\<rparr>"

theorem deposit_used_or_returned_witness:
  "\<exists>f' v ps. on_staking_pool_create failed_host ''pool.contract'' 30000000000000000000000000 ''alice''
       (sample_factory\<lparr>staking_pool_account_ids := {''pool.contract''}\<rparr>) = Inr (f', v, ps)
     \<and> ps = [Promise ''alice'' [Transfer 30000000000000000000000000]]"
proof -
  have "new_pool_factory sample_host ''whitelist'' = Inr sample_factory"
    by (simp add: new_pool_factory_def sample_factory_def cong: eval_cong)
  then have "reach pool_factory_init (\<lambda>s s'. \<exists>ps. pool_factory_step [] ''contract'' s ps s') (sample_factory, {})"
    by (intro reach_init) (auto simp: pool_factory_init_def)
  then have r: "reach pool_factory_init (\<lambda>s s'. \<exists>ps. pool_factory_step [] ''contract'' s ps s')
      (sample_factory\<lparr>staking_pool_account_ids := {''pool.contract''}\<rparr>, {pool_in_progress})"
    using sample_create_step by (blast intro: reach_step)
  obtain f' v ps where c: "on_staking_pool_create failed_host ''pool.contract'' 30000000000000000000000000 ''alice''
       (sample_factory\<lparr>staking_pool_account_ids := {''pool.contract''}\<rparr>) = Inr (f', v, ps)"
    by (simp add: on_staking_pool_create_def assert_self_def is_promise_success_def failed_host_def cong: eval_cong)
  have "is_promise_success failed_host = Inr False"
    by (simp add: is_promise_success_Inr failed_host_def)
  moreover have "cr_pool pool_in_progress = ''pool.contract''" "cr_payer pool_in_progress = ''alice''"
      "cr_deposit pool_in_progress = 30000000000000000000000000"
    by (simp_all add: pool_in_progress_def)
  moreover note deposit_used_or_returned [OF r singletonI, THEN conjunct2, THEN conjunct2, THEN conjunct2,
      THEN conjunct1, rule_format, of failed_host f' v ps]
  ultimately show ?thesis using c by auto
qed

definition created_host :: host where
  "created_host = sample_host\<lparr>env_predecessor_account_id := ''contract'', env_promise_results := [Successful []]\<rparr>"

theorem factory_never_calls_the_whitelist_witness:
  "\<exists>f' v receiver acts. on_staking_pool_create created_host ''pool.contract'' 5 ''alice'' sample_factory
       = Inr (f', v, [Promise receiver acts]) \<and> receiver = ''contract''
     \<and> FunctionCall (F_add_staking_pool ''pool.contract'') 0 WHITELIST_STAKING_POOL \<in> set acts"
proof -
  obtain f' v receiver acts where c: "on_staking_pool_create created_host ''pool.contract'' 5 ''alice'' sample_factory
       = Inr (f', v, [Promise receiver acts])"
    and a: "FunctionCall (F_add_staking_pool ''pool.contract'') 0 WHITELIST_STAKING_POOL \<in> set acts"
    by (simp add: on_staking_pool_create_def assert_self_def is_promise_success_def created_host_def Let_def
        cong: eval_cong)
  have "env_current_account_id created_host = ''contract''" by (simp add: created_host_def)
  moreover have "env_predecessor_account_id created_host = ''contract''" by (simp add: created_host_def)
  moreover define cr where "cr = \<lparr>cr_pool = ''pool.contract'', cr_deposit = 5, cr_payer = ''alice'',
      cr_promise = Then (Promise ''pool.contract'' [])
        (Promise ''contract'' [FunctionCall (F_on_staking_pool_create ''pool.contract'' 5 ''alice'') 0 0])\<rparr>"
  ultimately have "pool_factory_step [] ''contract'' (sample_factory, {cr}) [Promise receiver acts] (f', {cr} - {cr})"
    by (intro step_callback [OF _ _ _ _ c]) (simp_all add: cr_def)
  from factory_never_calls_the_whitelist [OF this _ _ a, of "Promise receiver acts" receiver]
  have "receiver = ''contract''" by simp
  with c a show ?thesis by blast
qed

end
