(* ===== verification/AirDrop.thy ===== *)
theory AirDrop
  imports Interfaces
begin

section \<open>The airdrop contract (\<open>airdrop/src/lib.rs\<close>, \<open>models.rs\<close>)\<close>

text \<open>
  Tokens are sent to a public key and claimed by whoever signs with it, either to an existing account
  or to one that is created by the claim. Promises that a method drops are scheduled as well;
  every method returns all the promises it created, in order.
\<close>

subsection \<open>State and methods\<close>

record airdrop =
  key_balances :: "public_key \<rightharpoonup> nat"

record limited_access_key =
  lak_public_key :: public_key
  lak_allowance :: nat
  lak_receiver_id :: account_id
  lak_method_names :: string

record create_account_options =
  full_access_keys :: "public_key list option"
  limited_access_keys :: "limited_access_key list option"
  contract_bytes :: "bytes option"

record key_info =
  key_balance :: nat

datatype airdrop_call =
    AD_on_account_created account_id nat
  | AD_on_account_created_and_claimed nat

type_synonym airdrop_result = "(airdrop \<times> airdrop_call promise list) res"

definition ACCESS_KEY_ALLOWANCE :: nat where "ACCESS_KEY_ALLOWANCE = 1000000000000000000000000"
definition ON_CREATE_ACCOUNT_CALLBACK_GAS :: nat where "ON_CREATE_ACCOUNT_CALLBACK_GAS = 13000000000000"
definition ACCESS_KEY_METHOD_NAMES :: string where
  "ACCESS_KEY_METHOD_NAMES = ''claim,create_account_and_claim''"

definition new_airdrop :: airdrop where
  "new_airdrop = \<lparr>key_balances = Map.empty\<rparr>"

definition key_allowance :: "host \<Rightarrow> nat \<Rightarrow> allowance" where
  "key_allowance e n = (case env_allowance_limited e n of Some a \<Rightarrow> a | None \<Rightarrow> Unlimited)"

definition send :: "host \<Rightarrow> public_key \<Rightarrow> airdrop \<Rightarrow> airdrop_result" where
  "send e pk s =
     bindE (ensure (ACCESS_KEY_ALLOWANCE < env_attached_deposit e)
       ''Attached deposit must be greater than ACCESS_KEY_ALLOWANCE'') (\<lambda>_.
     let value = (case key_balances s pk of Some v \<Rightarrow> v | None \<Rightarrow> 0) in
     Inr (s\<lparr>key_balances := (key_balances s)(pk \<mapsto>
            sat_sub (sat_add 128 value (env_attached_deposit e)) ACCESS_KEY_ALLOWANCE)\<rparr>,
          [Promise (env_current_account_id e)
             [AddAccessKey pk (key_allowance e ACCESS_KEY_ALLOWANCE) (env_current_account_id e)
                ACCESS_KEY_METHOD_NAMES]]))"

definition claim :: "host \<Rightarrow> account_id \<Rightarrow> airdrop \<Rightarrow> airdrop_result" where
  "claim e account s =
     bindE (ensure (env_predecessor_account_id e = env_current_account_id e)
       ''Claim only can come from this account'') (\<lambda>_.
     bindE (ensure (env_is_valid_account_id e account) ''Invalid account id'') (\<lambda>_.
     bindE (expect (key_balances s (env_signer_account_pk e)) ''Unexpected public key'') (\<lambda>amount.
     Inr (s\<lparr>key_balances := (key_balances s)(env_signer_account_pk e := None)\<rparr>,
          [Promise (env_current_account_id e) [DeleteKey (env_signer_account_pk e)],
           Promise account [Transfer amount]]))))"

definition create_account_and_claim ::
  "host \<Rightarrow> account_id \<Rightarrow> public_key \<Rightarrow> airdrop \<Rightarrow> airdrop_result" where
  "create_account_and_claim e new_account new_pk s =
     bindE (ensure (env_predecessor_account_id e = env_current_account_id e)
       ''Create account and claim only can come from this account'') (\<lambda>_.
     bindE (ensure (env_is_valid_account_id e new_account) ''Invalid account id'') (\<lambda>_.
     bindE (expect (key_balances s (env_signer_account_pk e)) ''Unexpected public key'') (\<lambda>amount.
     Inr (s\<lparr>key_balances := (key_balances s)(env_signer_account_pk e := None)\<rparr>,
          [Then (Promise new_account [CreateAccount, AddFullAccessKey new_pk, Transfer amount])
                (Promise (env_current_account_id e)
                   [FunctionCall (AD_on_account_created_and_claimed amount) 0
                      ON_CREATE_ACCOUNT_CALLBACK_GAS])]))))"

definition create_account :: "host \<Rightarrow> account_id \<Rightarrow> public_key \<Rightarrow> airdrop \<Rightarrow> airdrop_result" where
  "create_account e new_account new_pk s =
     bindE (ensure (env_is_valid_account_id e new_account) ''Invalid account id'') (\<lambda>_.
     Inr (s, [Then (Promise new_account
                      [CreateAccount, AddFullAccessKey new_pk, Transfer (env_attached_deposit e)])
                   (Promise (env_current_account_id e)
                      [FunctionCall (AD_on_account_created (env_predecessor_account_id e)
                         (env_attached_deposit e)) 0 ON_CREATE_ACCOUNT_CALLBACK_GAS])]))"

definition create_account_advanced ::
  "host \<Rightarrow> account_id \<Rightarrow> create_account_options \<Rightarrow> airdrop \<Rightarrow> airdrop_result" where
  "create_account_advanced e new_account opts s =
     bindE (ensure (contract_bytes opts \<noteq> None \<or> full_access_keys opts \<noteq> None \<or> limited_access_keys opts \<noteq> None)
       ''Cannot create account with no options. Please specify either contract bytes, full access keys, or limited access keys.'') (\<lambda>_.
     let amount = env_attached_deposit e;
         acts = [CreateAccount, Transfer amount];
         acts = acts @ (case full_access_keys opts of
                          Some keys \<Rightarrow> map AddFullAccessKey keys | None \<Rightarrow> []);
         acts = acts @ (case limited_access_keys opts of
                          Some keys \<Rightarrow> map (\<lambda>k. AddAccessKey (lak_public_key k) (key_allowance e (lak_allowance k))
                                              (lak_receiver_id k) (lak_method_names k)) keys
                        | None \<Rightarrow> []);
         acts = acts @ (case contract_bytes opts of Some bytes \<Rightarrow> [DeployContract bytes] | None \<Rightarrow> []) in
     Inr (s, [Then (Promise new_account acts)
                   (Promise (env_current_account_id e)
                      [FunctionCall (AD_on_account_created (env_predecessor_account_id e) amount) 0
                         ON_CREATE_ACCOUNT_CALLBACK_GAS])]))"

definition on_account_created ::
  "host \<Rightarrow> account_id \<Rightarrow> nat \<Rightarrow> airdrop \<Rightarrow> (bool \<times> airdrop \<times> airdrop_call promise list) res" where
  "on_account_created e predecessor amount s =
     bindE (ensure (env_predecessor_account_id e = env_current_account_id e)
       ''Callback can only be called from the contract'') (\<lambda>_.
     bindE (is_promise_success e) (\<lambda>ok.
     Inr (ok, s, if ok then [] else [Promise predecessor [Transfer amount]])))"

definition on_account_created_and_claimed ::
  "host \<Rightarrow> nat \<Rightarrow> airdrop \<Rightarrow> (bool \<times> airdrop \<times> airdrop_call promise list) res" where
  "on_account_created_and_claimed e amount s =
     bindE (ensure (env_predecessor_account_id e = env_current_account_id e)
       ''Callback can only be called from the contract'') (\<lambda>_.
     bindE (is_promise_success e) (\<lambda>ok.
     Inr (ok,
          if ok then s
          else s\<lparr>key_balances := (key_balances s)(env_signer_account_pk e \<mapsto> amount)\<rparr>,
          if ok then [Promise (env_current_account_id e) [DeleteKey (env_signer_account_pk e)]] else [])))"

definition get_key_balance :: "public_key \<Rightarrow> airdrop \<Rightarrow> nat res" where
  "get_key_balance pk s = expect (key_balances s pk) ''Key is missing''"

definition get_key_information :: "public_key \<Rightarrow> airdrop \<Rightarrow> string + key_info" where
  "get_key_information pk s =
     (case key_balances s pk of Some b \<Rightarrow> Inr \<lparr>key_balance = b\<rparr> | None \<Rightarrow> Inl ''Key is missing'')"

subsection \<open>Histories with their books\<close>

text \<open>
  The contract with the claims whose account creation is still in progress (key and amount), and the
  books: what was credited by \<open>send\<close>, what was paid by claims, and what a failed claim overwrote.
\<close>

record airdrop_world =
  drop_state :: airdrop
  claiming :: "(public_key \<times> nat) list"
  credited :: nat
  claimed :: nat
  overwritten :: nat

inductive airdrop_step :: "airdrop_world \<Rightarrow> airdrop_world \<Rightarrow> bool" where
  drop_send:
    "send e pk (drop_state w) = Inr (s, ps)
     \<Longrightarrow> fits 128 ((case key_balances (drop_state w) pk of Some v \<Rightarrow> v | None \<Rightarrow> 0) + env_attached_deposit e)
     \<Longrightarrow> airdrop_step w (w\<lparr>drop_state := s, credited := credited w + (env_attached_deposit e - ACCESS_KEY_ALLOWANCE)\<rparr>)"
| drop_claim:
    "claim e a (drop_state w) = Inr (s, ps)
     \<Longrightarrow> airdrop_step w (w\<lparr>drop_state := s, claimed := claimed w + sum_list (map promise_tokens ps)\<rparr>)"
| drop_create_claim:
    "create_account_and_claim e a new_pk (drop_state w) = Inr (s, ps)
     \<Longrightarrow> airdrop_step w (w\<lparr>drop_state := s,
           claiming := (env_signer_account_pk e, sum_list (map promise_tokens ps)) # claiming w\<rparr>)"
| drop_create:
    "create_account e a new_pk (drop_state w) = Inr (s, ps)
     \<or> create_account_advanced e a opts (drop_state w) = Inr (s, ps)
     \<or> on_account_created e a amount (drop_state w) = Inr (ok, s, ps)
     \<Longrightarrow> airdrop_step w (w\<lparr>drop_state := s\<rparr>)"
| drop_callback:
    "claiming w = before @ (env_signer_account_pk e, amount) # after
     \<Longrightarrow> on_account_created_and_claimed e amount (drop_state w) = Inr (ok, s, ps)
     \<Longrightarrow> airdrop_step w (w\<lparr>drop_state := s, claiming := before @ after,
           claimed := claimed w + (if ok then amount else 0),
           overwritten := overwritten w + (if ok then 0
             else opt_measure id (key_balances (drop_state w) (env_signer_account_pk e)))\<rparr>)"

definition airdrop_init :: "airdrop_world \<Rightarrow> bool" where
  "airdrop_init w \<longleftrightarrow> w = \<lparr>drop_state = new_airdrop, claiming = [], credited = 0, claimed = 0, overwritten = 0\<rparr>"

definition owed :: "airdrop_world \<Rightarrow> nat" where
  "owed w = msum id (key_balances (drop_state w)) + sum_list (map snd (claiming w))"

definition books_balance :: "airdrop_world \<Rightarrow> bool" where
  "books_balance w \<longleftrightarrow> finite (dom (key_balances (drop_state w)))
     \<and> owed w + claimed w + overwritten w = credited w"

lemma sendE:
  assumes "send e pk s = Inr (s', ps)"
    and "fits 128 ((case key_balances s pk of Some v \<Rightarrow> v | None \<Rightarrow> 0) + env_attached_deposit e)"
  shows "ACCESS_KEY_ALLOWANCE < env_attached_deposit e
    \<and> key_balances s' = (key_balances s)(pk \<mapsto> opt_measure id (key_balances s pk)
         + (env_attached_deposit e - ACCESS_KEY_ALLOWANCE))"
  using assms by (auto simp: send_def Let_def sat_sub_eq opt_measure_def split: option.splits)

lemma claimE:
  assumes "claim e a s = Inr (s', ps)"
  obtains amount where "key_balances s (env_signer_account_pk e) = Some amount"
    "env_predecessor_account_id e = env_current_account_id e"
    "s' = s\<lparr>key_balances := (key_balances s)(env_signer_account_pk e := None)\<rparr>"
    "ps = [Promise (env_current_account_id e) [DeleteKey (env_signer_account_pk e)], Promise a [Transfer amount]]"
  using assms by (auto simp: claim_def)

lemma create_account_and_claimE:
  assumes "create_account_and_claim e a new_pk s = Inr (s', ps)"
  obtains amount where "key_balances s (env_signer_account_pk e) = Some amount"
    "env_predecessor_account_id e = env_current_account_id e"
    "s' = s\<lparr>key_balances := (key_balances s)(env_signer_account_pk e := None)\<rparr>"
    "ps = [Then (Promise a [CreateAccount, AddFullAccessKey new_pk, Transfer amount])
                (Promise (env_current_account_id e)
                   [FunctionCall (AD_on_account_created_and_claimed amount) 0 ON_CREATE_ACCOUNT_CALLBACK_GAS])]"
  using assms by (auto simp: create_account_and_claim_def)

lemma books_balance_step:
  assumes "airdrop_step w w'" and "books_balance w"
  shows "books_balance w'"
proof -
  let ?m = "key_balances (drop_state w)"
  have fin: "finite (dom ?m)" and bal: "owed w + claimed w + overwritten w = credited w"
    using assms(2) by (simp_all add: books_balance_def)
  note upd = msum_upd [OF fin, of id] and del = msum_del [OF fin, of id]
  from assms(1) show ?thesis
  proof (cases rule: airdrop_step.cases)
    case (drop_send e pk s ps)
    let ?n = "env_attached_deposit e - ACCESS_KEY_ALLOWANCE"
    have s: "key_balances s = ?m(pk \<mapsto> opt_measure id (?m pk) + ?n)"
      using sendE [OF drop_send(2,3)] by simp
    have "msum id (key_balances s) = msum id ?m + ?n"
      using upd [of pk "opt_measure id (?m pk) + ?n"] unfolding s id_apply by linarith
    then show ?thesis using drop_send(1) fin bal s
      by (simp add: books_balance_def owed_def)
  next
    case (drop_claim e a s ps)
    from drop_claim(2) show ?thesis
      by (rule claimE) (use drop_claim(1) fin bal del [of "env_signer_account_pk e"] in
        \<open>simp add: books_balance_def owed_def\<close>)
  next
    case (drop_create_claim e a new_pk s ps)
    from drop_create_claim(2) show ?thesis
      by (rule create_account_and_claimE) (use drop_create_claim(1) fin bal del [of "env_signer_account_pk e"] in
        \<open>simp add: books_balance_def owed_def\<close>)
  next
    case (drop_create e a new_pk s ps opts amount ok)
    then have "s = drop_state w"
      by (auto simp: create_account_def create_account_advanced_def on_account_created_def Let_def)
    then show ?thesis using drop_create(1) assms(2) by (simp add: books_balance_def owed_def)
  next
    case (drop_callback before e amount after ok s ps)
    then show ?thesis using fin bal upd [of "env_signer_account_pk e" amount]
      by (auto simp: books_balance_def owed_def on_account_created_and_claimed_def)
  qed
qed

interpretation airdrop_books: inductive_invariant airdrop_step books_balance airdrop_init
proof unfold_locales
  show "books_balance w \<Longrightarrow> airdrop_step w w' \<Longrightarrow> books_balance w'" for w w'
    using books_balance_step by blast
  show "airdrop_init w \<Longrightarrow> books_balance w" for w
    by (simp add: airdrop_init_def books_balance_def owed_def new_airdrop_def)
qed

subsection \<open>Properties\<close>

text \<open>
  C31. The books of the airdrop balance in every history: what was credited by \<open>send\<close> (each deposit less
  the fee) is what is still recorded for the keys, plus what account creations in progress carry, plus
  what was claimed, plus what was overwritten by failed claims. A claim pays exactly the recorded
  balance of the signing key, removes it and deletes the key, so it can not be claimed twice.
\<close>

theorem airdrop_books_balance:
  assumes "reach airdrop_init airdrop_step w"
  shows "msum id (key_balances (drop_state w)) + sum_list (map snd (claiming w))
      + claimed w + overwritten w = credited w
    \<and> (\<forall>e a s ps. claim e a (drop_state w) = Inr (s, ps) \<longrightarrow>
         get_key_balance (env_signer_account_pk e) (drop_state w) = Inr (sum_list (map promise_tokens ps))
         \<and> sum_list (map promise_tokens ps) \<le> credited w
         \<and> \<not> returns (claim e a s) \<and> \<not> returns (create_account_and_claim e a pk s))"
proof -
  have b: "books_balance w" using assms by (rule airdrop_books.reachable_inv)
  have "get_key_balance (env_signer_account_pk e) (drop_state w) = Inr (sum_list (map promise_tokens ps))
      \<and> sum_list (map promise_tokens ps) \<le> credited w
      \<and> \<not> returns (claim e a s) \<and> \<not> returns (create_account_and_claim e a pk s)"
    if "claim e a (drop_state w) = Inr (s, ps)" for e a s ps
    using that
  proof (rule claimE)
    fix amount assume c: "key_balances (drop_state w) (env_signer_account_pk e) = Some amount"
      "s = drop_state w\<lparr>key_balances := (key_balances (drop_state w))(env_signer_account_pk e := None)\<rparr>"
      "ps = [Promise (env_current_account_id e) [DeleteKey (env_signer_account_pk e)], Promise a [Transfer amount]]"
    have "amount \<le> msum id (key_balances (drop_state w))"
      using msum_point [of "key_balances (drop_state w)" id "env_signer_account_pk e"] b c(1)
      by (simp add: books_balance_def)
    then have "amount \<le> credited w" using b by (simp add: books_balance_def owed_def)
    with c show ?thesis
      by (auto simp: get_key_balance_def claim_def create_account_and_claim_def returns_def)
  qed
  with b show ?thesis by (simp add: books_balance_def owed_def)
qed

definition drop_host :: "nat \<Rightarrow> host" where
  "drop_host n = sample_host\<lparr>env_attached_deposit := n + 1000000000000000000000000\<rparr>"

definition key_host :: host where
  "key_host = sample_host\<lparr>env_predecessor_account_id := ''contract''\<rparr>"

text \<open>A run: 7 tokens are sent to the key \<open>pk\<close>.\<close>

definition sent_world :: airdrop_world where
  "sent_world = \<lparr>drop_state = \<lparr>key_balances = [''pk'' \<mapsto> 7]\<rparr>, claiming = [], credited = 7,
     claimed = 0, overwritten = 0\<rparr>"

lemma sent_reached: "reach airdrop_init airdrop_step sent_world"
proof (rule reach_step)
  let ?w = "\<lparr>drop_state = new_airdrop, claiming = [], credited = 0, claimed = 0, overwritten = 0\<rparr>"
  show "reach airdrop_init airdrop_step ?w" by (rule reach_init) (simp add: airdrop_init_def)
  obtain ps where "send (drop_host 7) ''pk'' (drop_state ?w) = Inr (\<lparr>key_balances = [''pk'' \<mapsto> 7]\<rparr>, ps)"
    by (simp add: send_def drop_host_def new_airdrop_def ACCESS_KEY_ALLOWANCE_def sat_sub_def
        sat_add_def max_of_def cong: eval_cong)
  from airdrop_step.drop_send [OF this]
  show "airdrop_step ?w sent_world"
    by (simp add: new_airdrop_def drop_host_def fits_def ACCESS_KEY_ALLOWANCE_def sent_world_def)
qed

theorem airdrop_books_balance_witness:
  "\<exists>s ps. claim key_host ''bob'' (drop_state sent_world) = Inr (s, ps) \<and> sum_list (map promise_tokens ps) \<le> 7
     \<and> \<not> returns (claim key_host ''bob'' s)"
proof -
  obtain s ps where c: "claim key_host ''bob'' (drop_state sent_world) = Inr (s, ps)"
    by (simp add: claim_def key_host_def sent_world_def cong: eval_cong)
  with airdrop_books_balance [OF sent_reached, THEN conjunct2, rule_format, OF c] show ?thesis
    by (auto simp: sent_world_def)
qed

text \<open>
  A failed claim destroys deposits: while the account creation of \<open>create_account_and_claim\<close> is in
  progress, the key has no entry and anyone may \<open>send\<close> to it again; if the creation then fails, the
  callback writes the claimed amount over the new balance instead of adding to it. The later deposit
  stays in the contract, but nobody can claim it.
\<close>

theorem failed_claim_overwrites_deposit:
  assumes "create_account_and_claim e1 a new_pk s = Inr (s1, ps1)"
    and "env_signer_account_pk e3 = env_signer_account_pk e1"
    and "send e2 (env_signer_account_pk e1) s1 = Inr (s2, ps2)"
    and "fits 128 (env_attached_deposit e2)"
    and "env_predecessor_account_id e3 = env_current_account_id e3" and "is_promise_success e3 = Inr False"
  shows "\<exists>amount s3. key_balances s (env_signer_account_pk e1) = Some amount
    \<and> key_balances s2 (env_signer_account_pk e1) = Some (env_attached_deposit e2 - ACCESS_KEY_ALLOWANCE)
    \<and> 0 < env_attached_deposit e2 - ACCESS_KEY_ALLOWANCE
    \<and> on_account_created_and_claimed e3 amount s2 = Inr (False, s3, [])
    \<and> s3 = s"
proof -
  let ?pk = "env_signer_account_pk e1"
  from assms(1) obtain amount where a: "key_balances s ?pk = Some amount"
    "s1 = s\<lparr>key_balances := (key_balances s)(?pk := None)\<rparr>" by (rule create_account_and_claimE)
  have s2: "ACCESS_KEY_ALLOWANCE < env_attached_deposit e2"
    "key_balances s2 = (key_balances s1)(?pk \<mapsto> env_attached_deposit e2 - ACCESS_KEY_ALLOWANCE)"
    using sendE [OF assms(3)] assms(4) a by (simp_all add: opt_measure_def)
  have "on_account_created_and_claimed e3 amount s2
      = Inr (False, s2\<lparr>key_balances := (key_balances s2)(?pk \<mapsto> amount)\<rparr>, [])"
    using assms(2,5,6) by (simp add: on_account_created_and_claimed_def)
  moreover have "(key_balances s2)(?pk \<mapsto> amount) = key_balances s"
    using s2(2) a by (auto simp: fun_eq_iff)
  ultimately show ?thesis using a s2 by simp
qed

theorem failed_claim_overwrites_deposit_witness:
  "\<exists>s1 ps1 s2 ps2 s3. create_account_and_claim key_host ''new'' ''newkey'' (drop_state sent_world) = Inr (s1, ps1)
     \<and> send (drop_host 5) ''pk'' s1 = Inr (s2, ps2)
     \<and> on_account_created_and_claimed (key_host\<lparr>env_promise_results := [Failed]\<rparr>) 7 s2 = Inr (False, s3, [])
     \<and> s3 = drop_state sent_world"
proof -
  obtain s1 ps1 where c: "create_account_and_claim key_host ''new'' ''newkey'' (drop_state sent_world) = Inr (s1, ps1)"
    by (simp add: create_account_and_claim_def key_host_def sent_world_def cong: eval_cong)
  obtain s2 ps2 where s: "send (drop_host 5) ''pk'' s1 = Inr (s2, ps2)"
    by (simp add: send_def drop_host_def ACCESS_KEY_ALLOWANCE_def Let_def cong: eval_cong)
  have pk: "env_signer_account_pk key_host = ''pk''" by (simp add: key_host_def)
  obtain amount s3 where "key_balances (drop_state sent_world) ''pk'' = Some amount"
    "on_account_created_and_claimed (key_host\<lparr>env_promise_results := [Failed]\<rparr>) amount s2 = Inr (False, s3, [])"
    "s3 = drop_state sent_world"
    using failed_claim_overwrites_deposit [OF c, of "key_host\<lparr>env_promise_results := [Failed]\<rparr>"
        "drop_host 5" s2 ps2, unfolded pk, OF _ s]
    by (auto simp: key_host_def drop_host_def fits_def is_promise_success_Inr)
  with c s show ?thesis by (auto simp: sent_world_def)
qed

end
