(* ===== verification/LockableToken.thy ===== *)
theory LockableToken
  imports Interfaces
begin

section \<open>The lockable fungible token (\<open>lockable-fungible-token/src/lib.rs\<close>)\<close>

text \<open>
  A token whose balances can be locked by an escrow: an owner allows an escrow an amount, the escrow
  can lock up to that amount out of the owner's balance and transfer locked and allowed tokens. The
  \<open>Err\<close> values of the methods are turned into panics by the SDK (\<open>handle_result\<close>), so they are the
  error side of \<open>res\<close> like every panic.

  The crate's release profile does not switch \<open>overflow-checks\<close> on, so in the deployed build \<open>+\<close>, \<open>-\<close>,
  \<open>+=\<close>, \<open>-=\<close> and \<open>sum\<close> wrap around at 128 bits; the definitions do so too, and the invariant below
  shows that in the states that calls can reach no sum or difference leaves its type.
\<close>

subsection \<open>Accounts\<close>

record token_account =
  balance :: nat
  allowances :: "account_id \<rightharpoonup> nat"
  locked_balances :: "account_id \<rightharpoonup> nat"

definition empty_account :: token_account where
  "empty_account = \<lparr>balance = 0, allowances = Map.empty, locked_balances = Map.empty\<rparr>"

definition set_allowance_of :: "token_account \<Rightarrow> account_id \<Rightarrow> nat \<Rightarrow> token_account" where
  "set_allowance_of a escrow n =
     a\<lparr>allowances := (allowances a)(escrow := (if 0 < n then Some n else None))\<rparr>"

definition get_allowance_of :: "token_account \<Rightarrow> account_id \<Rightarrow> nat" where
  "get_allowance_of a escrow = (case allowances a escrow of Some n \<Rightarrow> n | None \<Rightarrow> 0)"

definition set_locked_of :: "token_account \<Rightarrow> account_id \<Rightarrow> nat \<Rightarrow> token_account" where
  "set_locked_of a escrow n =
     a\<lparr>locked_balances := (locked_balances a)(escrow := (if 0 < n then Some n else None))\<rparr>"

definition get_locked_of :: "token_account \<Rightarrow> account_id \<Rightarrow> nat" where
  "get_locked_of a escrow = (case locked_balances a escrow of Some n \<Rightarrow> n | None \<Rightarrow> 0)"

definition total_balance :: "token_account \<Rightarrow> nat" where
  "total_balance a = wrap_add 128 (balance a) (msum id (locked_balances a) mod 2 ^ 128)"

subsection \<open>The contract\<close>

record fun_token =
  token_accounts :: "account_id \<rightharpoonup> token_account"
  total_supply :: nat

definition get_token_account :: "fun_token \<Rightarrow> account_id \<Rightarrow> token_account" where
  "get_token_account t a = (case token_accounts t a of Some acc \<Rightarrow> acc | None \<Rightarrow> empty_account)"

definition save_token_account :: "fun_token \<Rightarrow> account_id \<Rightarrow> token_account \<Rightarrow> fun_token" where
  "save_token_account t a acc = t\<lparr>token_accounts := (token_accounts t)(a \<mapsto> acc)\<rparr>"

definition new_token :: "account_id \<Rightarrow> nat \<Rightarrow> fun_token res" where
  "new_token owner supply =
     (let ft = \<lparr>token_accounts = Map.empty, total_supply = supply\<rparr>;
          account = get_token_account ft owner;
          account = account\<lparr>balance := supply\<rparr> in
      Inr (save_token_account ft owner account))"

definition set_allowance :: "host \<Rightarrow> account_id \<Rightarrow> nat \<Rightarrow> fun_token \<Rightarrow> fun_token res" where
  "set_allowance e escrow allowance t =
     (let owner = env_predecessor_account_id e in
      bindE (ensure (escrow \<noteq> owner) ''Can't set allowance for yourself'') (\<lambda>_.
      let account = get_token_account t owner; locked = get_locked_of account escrow in
      bindE (ensure (locked \<le> allowance)
        ''The new allowance can't be less than the amount of locked tokens'') (\<lambda>_.
      Inr (save_token_account t owner (set_allowance_of account escrow (wrap_sub 128 allowance locked))))))"

definition lock :: "host \<Rightarrow> account_id \<Rightarrow> nat \<Rightarrow> fun_token \<Rightarrow> fun_token res" where
  "lock e owner amount t =
     bindE (ensure (amount \<noteq> 0) ''Can't lock 0 tokens'') (\<lambda>_.
     let escrow = env_predecessor_account_id e; account = get_token_account t owner in
     bindE (ensure (amount \<le> balance account) ''Not enough unlocked balance'') (\<lambda>_.
     let account = account\<lparr>balance := wrap_sub 128 (balance account) amount\<rparr> in
     bindE (if escrow \<noteq> owner then
              let allowance = get_allowance_of account escrow in
              bindE (ensure (amount \<le> allowance) ''Not enough allowance'') (\<lambda>_.
              Inr (set_allowance_of account escrow (wrap_sub 128 allowance amount)))
            else Inr account) (\<lambda>account.
     let locked = get_locked_of account escrow in
     Inr (save_token_account t owner (set_locked_of account escrow (wrap_add 128 locked amount))))))"

definition unlock :: "host \<Rightarrow> account_id \<Rightarrow> nat \<Rightarrow> fun_token \<Rightarrow> fun_token res" where
  "unlock e owner amount t =
     bindE (ensure (amount \<noteq> 0) ''Can't unlock 0 tokens'') (\<lambda>_.
     let escrow = env_predecessor_account_id e; account = get_token_account t owner;
         locked = get_locked_of account escrow in
     bindE (ensure (amount \<le> locked) ''Not enough locked tokens'') (\<lambda>_.
     let account = set_locked_of account escrow (wrap_sub 128 locked amount);
         account = (if escrow \<noteq> owner then
                      let allowance = get_allowance_of account escrow in
                      set_allowance_of account escrow (wrap_add 128 allowance amount)
                    else account) in
     Inr (save_token_account t owner (account\<lparr>balance := wrap_add 128 (balance account) amount\<rparr>))))"

definition transfer_from :: "host \<Rightarrow> account_id \<Rightarrow> account_id \<Rightarrow> nat \<Rightarrow> fun_token \<Rightarrow> fun_token res" where
  "transfer_from e owner new_owner amount t =
     bindE (ensure (amount \<noteq> 0) ''Can't transfer 0 tokens'') (\<lambda>_.
     let escrow = env_predecessor_account_id e; account = get_token_account t owner;
         locked = get_locked_of account escrow;
         (account, remaining) =
           (if amount \<le> locked then (set_locked_of account escrow (wrap_sub 128 locked amount), 0)
            else (set_locked_of account escrow 0, wrap_sub 128 amount locked)) in
     bindE (if 0 < remaining then
              bindE (ensure (remaining \<le> balance account) ''Not enough unlocked balance'') (\<lambda>_.
              let account = account\<lparr>balance := wrap_sub 128 (balance account) remaining\<rparr> in
              if escrow \<noteq> owner then
                let allowance = get_allowance_of account escrow in
                bindE (ensure (remaining \<le> allowance) ''Not enough allowance'') (\<lambda>_.
                Inr (set_allowance_of account escrow (wrap_sub 128 allowance remaining)))
              else Inr account)
            else Inr account) (\<lambda>account.
     let t = save_token_account t owner account; new_account = get_token_account t new_owner in
     Inr (save_token_account t new_owner
       (new_account\<lparr>balance := wrap_add 128 (balance new_account) amount\<rparr>))))"

definition transfer_token :: "host \<Rightarrow> account_id \<Rightarrow> nat \<Rightarrow> fun_token \<Rightarrow> fun_token res" where
  "transfer_token e new_owner amount t = transfer_from e (env_predecessor_account_id e) new_owner amount t"

definition get_total_supply :: "fun_token \<Rightarrow> nat" where
  "get_total_supply t = total_supply t"

definition get_total_balance :: "account_id \<Rightarrow> fun_token \<Rightarrow> nat" where
  "get_total_balance a t = total_balance (get_token_account t a)"

definition get_unlocked_balance :: "account_id \<Rightarrow> fun_token \<Rightarrow> nat" where
  "get_unlocked_balance a t = balance (get_token_account t a)"

definition get_allowance :: "account_id \<Rightarrow> account_id \<Rightarrow> fun_token \<Rightarrow> nat" where
  "get_allowance owner escrow t = get_allowance_of (get_token_account t owner) escrow"

definition get_locked_balance :: "account_id \<Rightarrow> account_id \<Rightarrow> fun_token \<Rightarrow> nat" where
  "get_locked_balance owner escrow t = get_locked_of (get_token_account t owner) escrow"

text \<open>An amount of the caller is a \<open>U128\<close>, a number of 128 bits.\<close>

inductive token_step :: "fun_token \<Rightarrow> fun_token \<Rightarrow> bool" where
  tok_allow: "set_allowance e escrow n t = Inr t' \<Longrightarrow> fits 128 n \<Longrightarrow> token_step t t'"
| tok_lock: "lock e owner n t = Inr t' \<Longrightarrow> fits 128 n \<Longrightarrow> token_step t t'"
| tok_unlock: "unlock e owner n t = Inr t' \<Longrightarrow> fits 128 n \<Longrightarrow> token_step t t'"
| tok_transfer_from: "transfer_from e owner a n t = Inr t' \<Longrightarrow> fits 128 n \<Longrightarrow> token_step t t'"
| tok_transfer: "transfer_token e a n t = Inr t' \<Longrightarrow> fits 128 n \<Longrightarrow> token_step t t'"

inductive_cases token_stepE: "token_step t t'"

subsection \<open>The three stores\<close>

text \<open>
  Allowances, locked balances and accounts are the same kind of store: what is read after a write is
  what was written, for this key, and what was there before, for the others.
\<close>

interpretation allowance_store: account_store get_allowance_of set_allowance_of "\<lambda>n. n"
  by unfold_locales (auto simp: get_allowance_of_def set_allowance_of_def)

interpretation lock_store: account_store get_locked_of set_locked_of "\<lambda>n. n"
  by unfold_locales (auto simp: get_locked_of_def set_locked_of_def)

interpretation token_store: account_store get_token_account save_token_account "\<lambda>a. a"
  by unfold_locales (auto simp: get_token_account_def save_token_account_def)

lemmas stores [simp] = allowance_store.get_save lock_store.get_save token_store.get_save

lemma store_frames [simp]:
  "balance (set_allowance_of a k n) = balance a"
  "balance (set_locked_of a k n) = balance a"
  "get_locked_of (set_allowance_of a k n) j = get_locked_of a j"
  "get_allowance_of (set_locked_of a k n) j = get_allowance_of a j"
  "get_locked_of (a\<lparr>balance := b\<rparr>) j = get_locked_of a j"
  "get_allowance_of (a\<lparr>balance := b\<rparr>) j = get_allowance_of a j"
  "total_supply (save_token_account t x acc) = total_supply t"
  by (simp_all add: set_allowance_of_def set_locked_of_def get_locked_of_def get_allowance_of_def
      save_token_account_def)

subsection \<open>Tokens of an account\<close>

definition holdings :: "token_account \<Rightarrow> nat" where
  "holdings a = balance a + msum id (locked_balances a)"

definition good_account :: "token_account \<Rightarrow> bool" where
  "good_account a \<longleftrightarrow> finite (dom (locked_balances a))"

lemma good_account_simps [simp]:
  "good_account (set_allowance_of a k n) = good_account a"
  "good_account (a\<lparr>balance := b\<rparr>) = good_account a"
  "good_account empty_account"
  "good_account a \<Longrightarrow> good_account (set_locked_of a k n)"
  by (auto simp: good_account_def set_allowance_of_def set_locked_of_def empty_account_def)

lemma holdings_simps [simp]:
  "holdings (set_allowance_of a k n) = holdings a"
  "holdings empty_account = 0"
  by (simp_all add: holdings_def set_allowance_of_def empty_account_def)

lemma get_locked_measure: "get_locked_of a k = opt_measure id (locked_balances a k)"
  by (simp add: get_locked_of_def opt_measure_def split: option.splits)

lemma holdings_set_locked:
  assumes "good_account a"
  shows "holdings (set_locked_of a k n) + get_locked_of a k = holdings a + n"
proof -
  have fin: "finite (dom (locked_balances a))" using assms by (simp add: good_account_def)
  show ?thesis
    using msum_upd [OF fin, of id k n] msum_del [OF fin, of id k]
    by (simp add: holdings_def set_locked_of_def get_locked_measure)
qed

lemma locked_le_holdings: "good_account a \<Longrightarrow> get_locked_of a k \<le> holdings a - balance a"
  using msum_point [of "locked_balances a" id k] by (simp add: good_account_def holdings_def get_locked_measure)

lemma holdings_balance: "holdings (a\<lparr>balance := b\<rparr>) + balance a = holdings a + b"
  by (simp add: holdings_def)

subsection \<open>The supply\<close>

text \<open>What \<open>x\<close> may still take from \<open>owner\<close>: its allowance and the tokens it has locked.\<close>

definition escrow_power :: "account_id \<Rightarrow> account_id \<Rightarrow> fun_token \<Rightarrow> nat" where
  "escrow_power owner x t = get_allowance owner x t + get_locked_balance owner x t"

text \<open>
  The invariant: all tokens together are the supply, which is a number of 128 bits, and no account may
  take more than 128 bits from another one. It rules out every wrap-around.
\<close>

definition token_books :: "nat \<Rightarrow> fun_token \<Rightarrow> bool" where
  "token_books supply t \<longleftrightarrow> finite (dom (token_accounts t)) \<and> (\<forall>a. good_account (get_token_account t a))
     \<and> msum holdings (token_accounts t) = supply \<and> total_supply t = supply"

definition token_inv :: "fun_token \<Rightarrow> bool" where
  "token_inv t \<longleftrightarrow> token_books (total_supply t) t \<and> fits 128 (total_supply t)
     \<and> (\<forall>owner x. x \<noteq> owner \<longrightarrow> fits 128 (escrow_power owner x t))"

lemma token_invD:
  assumes "token_inv t"
  shows "finite (dom (token_accounts t))" "good_account (get_token_account t a)"
    "msum holdings (token_accounts t) = total_supply t" "fits 128 (total_supply t)"
    "x \<noteq> owner \<Longrightarrow> fits 128 (escrow_power owner x t)"
  using assms by (simp_all add: token_inv_def token_books_def)

lemma supply_save:
  assumes "finite (dom (token_accounts t))"
  shows "msum holdings (token_accounts (save_token_account t a acc)) + holdings (get_token_account t a)
    = msum holdings (token_accounts t) + holdings acc"
proof -
  have "opt_measure holdings (token_accounts t a) = holdings (get_token_account t a)"
    by (simp add: get_token_account_def opt_measure_def split: option.splits)
  then show ?thesis
    using msum_upd [OF assms, of holdings a acc] by (simp add: save_token_account_def)
qed

lemma holdings_within:
  assumes "finite (dom (token_accounts t))"
  shows "holdings (get_token_account t a) \<le> msum holdings (token_accounts t)"
proof -
  have "holdings (get_token_account t a) = opt_measure holdings (token_accounts t a)"
    by (simp add: get_token_account_def opt_measure_def split: option.splits)
  with msum_point [OF assms, of holdings a] show ?thesis by simp
qed

lemma account_within_supply: "token_inv t \<Longrightarrow> holdings (get_token_account t a) \<le> total_supply t"
  using holdings_within [of t a] by (simp add: token_invD)

text \<open>The sums of \<open>lock\<close>, \<open>unlock\<close> and \<open>transfer_from\<close> stay within the owner's tokens.\<close>

lemma token_inv_fits:
  assumes "token_inv t"
  shows "fits 128 (holdings (get_token_account t a))"
    and "fits 128 (balance (get_token_account t a) + get_locked_of (get_token_account t a) k)"
    and "k \<noteq> a \<Longrightarrow> fits 128 (get_allowance_of (get_token_account t a) k + get_locked_of (get_token_account t a) k)"
proof -
  have sup: "fits 128 (total_supply t)" using assms by (rule token_invD(4))
  then show h: "fits 128 (holdings (get_token_account t a))"
    by (rule fits_mono) (rule account_within_supply [OF assms])
  have "balance (get_token_account t a) + get_locked_of (get_token_account t a) k
      \<le> holdings (get_token_account t a)"
    using locked_le_holdings [OF token_invD(2) [OF assms], of a k] by (simp add: holdings_def)
  with h show "fits 128 (balance (get_token_account t a) + get_locked_of (get_token_account t a) k)"
    by (rule fits_mono)
  show "k \<noteq> a \<Longrightarrow> fits 128 (get_allowance_of (get_token_account t a) k + get_locked_of (get_token_account t a) k)"
    using token_invD(5) [OF assms, of k a] by (simp add: escrow_power_def get_allowance_def get_locked_balance_def)
qed

lemma token_inv_each:
  assumes "token_inv t"
  shows "fits 128 (balance (get_token_account t a))" "fits 128 (get_locked_of (get_token_account t a) k)"
    "k \<noteq> a \<Longrightarrow> fits 128 (get_allowance_of (get_token_account t a) k)"
    "n \<le> balance (get_token_account t a) \<Longrightarrow> fits 128 (get_locked_of (get_token_account t a) k + n)"
    "n \<le> get_locked_of (get_token_account t a) k \<Longrightarrow> fits 128 (balance (get_token_account t a) + n)"
    "k \<noteq> a \<Longrightarrow> n \<le> get_locked_of (get_token_account t a) k
      \<Longrightarrow> fits 128 (get_allowance_of (get_token_account t a) k + n)"
  using token_inv_fits(2) [OF assms, of a k] token_inv_fits(3) [OF assms, of k a] by (auto elim: fits_mono)

subsection \<open>The operations, inverted\<close>

lemma set_allowanceE:
  assumes "set_allowance e escrow n t = Inr t'" and "fits 128 n"
  obtains "escrow \<noteq> env_predecessor_account_id e"
    "get_locked_balance (env_predecessor_account_id e) escrow t \<le> n"
    "t' = save_token_account t (env_predecessor_account_id e) (set_allowance_of
       (get_token_account t (env_predecessor_account_id e)) escrow
       (n - get_locked_balance (env_predecessor_account_id e) escrow t))"
  using assms by (auto simp: set_allowance_def get_locked_balance_def wrap_sub_exact Let_def)

lemma lockE:
  assumes "lock e owner n t = Inr t'" and "token_inv t"
  obtains acc where "0 < n" "n \<le> get_unlocked_balance owner t"
    "env_predecessor_account_id e \<noteq> owner \<longrightarrow> n \<le> get_allowance owner (env_predecessor_account_id e) t"
    "acc = (get_token_account t owner)\<lparr>balance := get_unlocked_balance owner t - n\<rparr>"
    "t' = save_token_account t owner (set_locked_of
       (if env_predecessor_account_id e \<noteq> owner
        then set_allowance_of acc (env_predecessor_account_id e)
               (get_allowance owner (env_predecessor_account_id e) t - n) else acc)
       (env_predecessor_account_id e) (get_locked_balance owner (env_predecessor_account_id e) t + n))"
  using assms(1)
  by (cases "env_predecessor_account_id e = owner")
    (auto simp: lock_def get_locked_balance_def get_allowance_def get_unlocked_balance_def Let_def
      wrap_sub_exact wrap_add_exact token_inv_each [OF assms(2)])

lemma unlockE:
  assumes "unlock e owner n t = Inr t'" and "token_inv t"
  obtains acc where "0 < n" "n \<le> get_locked_balance owner (env_predecessor_account_id e) t"
    "acc = set_locked_of (get_token_account t owner) (env_predecessor_account_id e)
       (get_locked_balance owner (env_predecessor_account_id e) t - n)"
    "t' = save_token_account t owner ((if env_predecessor_account_id e \<noteq> owner
        then set_allowance_of acc (env_predecessor_account_id e)
               (get_allowance owner (env_predecessor_account_id e) t + n) else acc)
       \<lparr>balance := get_unlocked_balance owner t + n\<rparr>)"
  using assms(1)
  by (cases "env_predecessor_account_id e = owner")
    (auto simp: unlock_def get_locked_balance_def get_allowance_def get_unlocked_balance_def Let_def
      wrap_sub_exact wrap_add_exact token_inv_each [OF assms(2)])

text \<open>The owner's account after \<open>n\<close> tokens of it were spent by \<open>x\<close>.\<close>

definition spent :: "account_id \<Rightarrow> account_id \<Rightarrow> nat \<Rightarrow> token_account \<Rightarrow> token_account" where
  "spent owner x n acc =
     (let locked = get_locked_of acc x; rem = n - locked;
          a = (set_locked_of acc x (locked - n))\<lparr>balance := balance acc - rem\<rparr> in
      if x \<noteq> owner \<and> 0 < rem then set_allowance_of a x (get_allowance_of acc x - rem) else a)"

lemma spent_simps [simp]:
  "good_account acc \<Longrightarrow> good_account (spent owner x n acc)"
  "get_locked_of (spent owner x n acc) y = (if y = x then get_locked_of acc x - n else get_locked_of acc y)"
  "get_allowance_of (spent owner x n acc) y =
     (if y = x \<and> x \<noteq> owner then get_allowance_of acc x - (n - get_locked_of acc x) else get_allowance_of acc y)"
  by (auto simp: spent_def Let_def)

lemma spent_holdings:
  assumes "good_account acc" and "n - get_locked_of acc x \<le> balance acc"
  shows "holdings (spent owner x n acc) + n = holdings acc"
proof -
  let ?L = "get_locked_of acc x"
  have "holdings (spent owner x n acc)
      = holdings ((set_locked_of acc x (?L - n))\<lparr>balance := balance acc - (n - ?L)\<rparr>)"
    by (simp add: spent_def Let_def)
  moreover have "holdings ((set_locked_of acc x (?L - n))\<lparr>balance := balance acc - (n - ?L)\<rparr>) + balance acc
      = holdings (set_locked_of acc x (?L - n)) + (balance acc - (n - ?L))"
    using holdings_balance [where a = "set_locked_of acc x (?L - n)"] by simp
  ultimately show ?thesis
    using holdings_set_locked [OF assms(1), of x "?L - n"] assms(2) by linarith
qed

text \<open>A transfer adds to the new owner's balance what it took from the owner: the balance stays within the supply.\<close>

lemma spent_room:
  assumes "token_inv t" and "acc = get_token_account t owner" and "n - get_locked_of acc x \<le> balance acc"
    and "t1 = save_token_account t owner (spent owner x n acc)"
  shows "msum holdings (token_accounts t1) + n = total_supply t"
    and "fits 128 (balance (get_token_account t1 a) + n)"
proof -
  have good: "good_account acc" and fin: "finite (dom (token_accounts t))" and sup: "fits 128 (total_supply t)"
    using assms(1) by (simp_all add: token_invD assms(2))
  show h: "msum holdings (token_accounts t1) + n = total_supply t"
    using supply_save [OF fin, of owner "spent owner x n acc"] spent_holdings [OF good assms(3), of owner] token_invD(3) [OF assms(1)]
    unfolding assms(2,4) by linarith
  have "finite (dom (token_accounts t1))" using fin by (simp add: assms(4) save_token_account_def)
  from holdings_within [OF this, of a] h have "balance (get_token_account t1 a) + n \<le> total_supply t"
    by (simp add: holdings_def)
  with sup show "fits 128 (balance (get_token_account t1 a) + n)" by (rule fits_mono)
qed

lemma transfer_fromE:
  assumes "transfer_from e owner new_owner n t = Inr t'" and "token_inv t" and "fits 128 n"
  obtains acc x t1 where "x = env_predecessor_account_id e" "acc = get_token_account t owner"
    "0 < n" "n - get_locked_of acc x \<le> balance acc"
    "x \<noteq> owner \<longrightarrow> n \<le> get_locked_of acc x + get_allowance_of acc x"
    "t1 = save_token_account t owner (spent owner x n acc)"
    "t' = save_token_account t1 new_owner ((get_token_account t1 new_owner)
       \<lparr>balance := balance (get_token_account t1 new_owner) + n\<rparr>)"
proof -
  let ?x = "env_predecessor_account_id e" and ?acc = "get_token_account t owner"
  let ?L = "get_locked_of ?acc ?x" and ?t1 = "save_token_account t owner (spent owner ?x n ?acc)"
  note exact = wrap_sub_exact assms(3) token_inv_each [OF assms(2)]
  have same: "(set_locked_of ?acc ?x k)\<lparr>balance := balance ?acc\<rparr> = set_locked_of ?acc ?x k" for k
    by (simp add: set_locked_of_def)
  from assms have n: "0 < n" by (auto simp: transfer_from_def)
  have "n - ?L \<le> balance ?acc \<and> (?x \<noteq> owner \<longrightarrow> n \<le> ?L + get_allowance_of ?acc ?x)
      \<and> t' = save_token_account ?t1 new_owner ((get_token_account ?t1 new_owner)
            \<lparr>balance := wrap_add 128 (balance (get_token_account ?t1 new_owner)) n\<rparr>)"
  proof (cases "n \<le> ?L")
    case True
    then show ?thesis using assms(1) n
      by (auto simp: transfer_from_def spent_def same Let_def exact)
  next
    case False
    then show ?thesis using assms(1) n
      by (cases "?x = owner") (auto simp: transfer_from_def spent_def Let_def exact)
  qed
  moreover from this have "fits 128 (balance (get_token_account ?t1 new_owner) + n)"
    by (intro spent_room(2) [OF assms(2) refl _ refl]) simp
  ultimately show thesis using n by (intro that [OF refl refl]) (auto simp: wrap_add_exact)
qed

lemma save_same_holdings:
  assumes "token_inv t" and "holdings acc = holdings (get_token_account t a)" and "good_account acc"
  shows "token_books (total_supply t) (save_token_account t a acc)"
proof -
  have "finite (dom (token_accounts (save_token_account t a acc)))"
    using token_invD(1) [OF assms(1)] by (simp add: save_token_account_def)
  moreover have "msum holdings (token_accounts (save_token_account t a acc)) = total_supply t"
    using supply_save [OF token_invD(1) [OF assms(1)], of a acc] token_invD(3) [OF assms(1)] assms(2) by simp
  ultimately show ?thesis using assms(1,3) by (simp add: token_books_def token_invD)
qed

lemma lock_holdings:
  assumes "lock e owner n t = Inr t'" and "token_inv t"
  shows "token_books (total_supply t) t'"
  using assms
proof (rule lockE)
  let ?x = "env_predecessor_account_id e" and ?a = "get_token_account t owner"
  fix acc
  assume *: "n \<le> get_unlocked_balance owner t" "acc = ?a\<lparr>balance := get_unlocked_balance owner t - n\<rparr>"
    "t' = save_token_account t owner (set_locked_of
       (if ?x \<noteq> owner then set_allowance_of acc ?x (get_allowance owner ?x t - n) else acc)
       ?x (get_locked_balance owner ?x t + n))"
  let ?acc = "if ?x \<noteq> owner then set_allowance_of acc ?x (get_allowance owner ?x t - n) else acc"
  have good: "good_account ?a" using assms(2) by (simp add: token_invD)
  have "holdings acc + n = holdings ?a"
    using holdings_balance [where a = ?a and b = "balance ?a - n"] *(1)
    unfolding *(2) get_unlocked_balance_def by linarith
  then have h: "holdings ?acc + n = holdings ?a" by simp
  have "good_account ?acc" and "get_locked_of ?acc ?x = get_locked_balance owner ?x t"
    using good * by (simp_all add: get_locked_balance_def)
  with holdings_set_locked [of ?acc ?x "get_locked_balance owner ?x t + n"] h
  have "holdings (set_locked_of ?acc ?x (get_locked_balance owner ?x t + n)) = holdings ?a" by linarith
  with \<open>good_account ?acc\<close> show ?thesis unfolding *(3) using assms(2) by (intro save_same_holdings) auto
qed

lemma unlock_holdings:
  assumes "unlock e owner n t = Inr t'" and "token_inv t"
  shows "token_books (total_supply t) t'"
  using assms
proof (rule unlockE)
  let ?x = "env_predecessor_account_id e" and ?a = "get_token_account t owner"
  fix acc
  assume *: "n \<le> get_locked_balance owner ?x t"
    "acc = set_locked_of ?a ?x (get_locked_balance owner ?x t - n)"
    "t' = save_token_account t owner ((if ?x \<noteq> owner
        then set_allowance_of acc ?x (get_allowance owner ?x t + n) else acc)
       \<lparr>balance := get_unlocked_balance owner t + n\<rparr>)"
  let ?acc = "if ?x \<noteq> owner then set_allowance_of acc ?x (get_allowance owner ?x t + n) else acc"
  have good: "good_account ?a" using assms(2) by (simp add: token_invD)
  have "holdings acc + n = holdings ?a"
    using holdings_set_locked [OF good, of ?x "get_locked_balance owner ?x t - n"] *(1)
    unfolding *(2) get_locked_balance_def by linarith
  then have "holdings ?acc + n = holdings ?a" by simp
  moreover have "balance ?acc = balance ?a" and "good_account ?acc" using good *(2) by simp_all
  ultimately have "holdings (?acc\<lparr>balance := get_unlocked_balance owner t + n\<rparr>) = holdings ?a"
    using holdings_balance [where a = ?acc and b = "get_unlocked_balance owner t + n"]
    by (simp add: get_unlocked_balance_def)
  then show ?thesis unfolding *(3) using assms(2) \<open>good_account ?acc\<close> by (intro save_same_holdings) auto
qed

lemma transfer_from_holdings:
  assumes "transfer_from e owner new_owner n t = Inr t'" and "token_inv t" and "fits 128 n"
  shows "token_books (total_supply t) t'"
  using assms
proof (rule transfer_fromE)
  fix acc x t1
  assume *: "acc = get_token_account t owner" "n - get_locked_of acc x \<le> balance acc"
    "t1 = save_token_account t owner (spent owner x n acc)"
    "t' = save_token_account t1 new_owner ((get_token_account t1 new_owner)
       \<lparr>balance := balance (get_token_account t1 new_owner) + n\<rparr>)"
  have h: "msum holdings (token_accounts t1) + n = total_supply t" by (rule spent_room [OF assms(2) *(1-3)])
  have fin1: "finite (dom (token_accounts t1))"
    using token_invD(1) [OF assms(2)] by (simp add: *(3) save_token_account_def)
  let ?b = "get_token_account t1 new_owner"
  have "msum holdings (token_accounts t') = total_supply t"
    using supply_save [OF fin1, of new_owner "?b\<lparr>balance := balance ?b + n\<rparr>"]
      holdings_balance [where a = ?b and b = "balance ?b + n"] h unfolding *(4) by linarith
  moreover have "finite (dom (token_accounts t'))" using fin1 by (simp add: *(4) save_token_account_def)
  moreover have "good_account (get_token_account t' a)" for a
    using token_invD(2) [OF assms(2)] by (simp add: *(1,3,4))
  ultimately show ?thesis by (simp add: token_books_def *(3,4))
qed

lemma set_allowance_holdings:
  "set_allowance e escrow n t = Inr t' \<Longrightarrow> fits 128 n \<Longrightarrow> token_inv t \<Longrightarrow> token_books (total_supply t) t'"
  by (erule set_allowanceE) (auto intro!: save_same_holdings simp: token_invD)

subsection \<open>Sequences of calls\<close>

text \<open>
  A history of the token: calls with their hosts, in order; the history returns if every call does.
\<close>

datatype token_op =
    Set_allowance account_id nat
  | Lock account_id nat
  | Unlock account_id nat
  | Transfer_from account_id account_id nat
  | Transfer_token account_id nat

fun token_call :: "host \<Rightarrow> token_op \<Rightarrow> fun_token \<Rightarrow> fun_token res" where
  "token_call e (Set_allowance escrow n) t = set_allowance e escrow n t"
| "token_call e (Lock owner n) t = lock e owner n t"
| "token_call e (Unlock owner n) t = unlock e owner n t"
| "token_call e (Transfer_from owner a n) t = transfer_from e owner a n t"
| "token_call e (Transfer_token a n) t = transfer_token e a n t"

fun token_run :: "(host \<times> token_op) list \<Rightarrow> fun_token \<Rightarrow> fun_token res" where
  "token_run [] t = Inr t"
| "token_run ((e, op) # ops) t = bindE (token_call e op t) (token_run ops)"

text \<open>What a call takes from \<open>owner\<close> on behalf of \<open>x\<close>, and the calls that grant more.\<close>

fun taken_by :: "account_id \<Rightarrow> account_id \<Rightarrow> host \<times> token_op \<Rightarrow> nat" where
  "taken_by owner x (e, Transfer_from own a n) =
     (if own = owner \<and> env_predecessor_account_id e = x then n else 0)"
| "taken_by owner x (e, Transfer_token a n) =
     (if env_predecessor_account_id e = owner \<and> env_predecessor_account_id e = x then n else 0)"
| "taken_by owner x _ = 0"

fun grants :: "account_id \<Rightarrow> account_id \<Rightarrow> host \<times> token_op \<Rightarrow> bool" where
  "grants owner x (e, Set_allowance escrow n) \<longleftrightarrow> env_predecessor_account_id e = owner \<and> escrow = x"
| "grants owner x _ \<longleftrightarrow> False"

lemma power_transfer_from:
  assumes "transfer_from e own b n t = Inr t'" and "token_inv t" and "fits 128 n" and "x \<noteq> owner"
  shows "escrow_power owner x t' + taken_by owner x (e, Transfer_from own b n) = escrow_power owner x t"
  using assms(1-3)
proof (rule transfer_fromE)
  fix acc y t1
  assume *: "y = env_predecessor_account_id e" "acc = get_token_account t own"
    "y \<noteq> own \<longrightarrow> n \<le> get_locked_of acc y + get_allowance_of acc y"
    "t1 = save_token_account t own (spent own y n acc)"
    "t' = save_token_account t1 b ((get_token_account t1 b)\<lparr>balance := balance (get_token_account t1 b) + n\<rparr>)"
  have "escrow_power owner x t' = get_allowance_of (get_token_account t1 owner) x
      + get_locked_of (get_token_account t1 owner) x"
    by (simp add: *(5) escrow_power_def get_allowance_def get_locked_balance_def)
  moreover have "\<dots> + taken_by owner x (e, Transfer_from own b n) = escrow_power owner x t"
    using *(1-3) assms(4) by (auto simp: *(4) escrow_power_def get_allowance_def get_locked_balance_def)
  ultimately show ?thesis by simp
qed

lemma power_lock:
  "lock e own n t = Inr t' \<Longrightarrow> token_inv t \<Longrightarrow> x \<noteq> owner \<Longrightarrow> escrow_power owner x t' = escrow_power owner x t"
  by (erule lockE) (auto simp: escrow_power_def get_allowance_def get_locked_balance_def)

lemma power_unlock:
  "unlock e own n t = Inr t' \<Longrightarrow> token_inv t \<Longrightarrow> x \<noteq> owner \<Longrightarrow> escrow_power owner x t' = escrow_power owner x t"
  by (erule unlockE) (auto simp: escrow_power_def get_allowance_def get_locked_balance_def)

lemma power_set_allowance:
  "set_allowance e y n t = Inr t' \<Longrightarrow> fits 128 n
    \<Longrightarrow> escrow_power owner x t' =
        (if grants owner x (e, Set_allowance y n) then n else escrow_power owner x t)"
  by (erule set_allowanceE) (auto simp: escrow_power_def get_allowance_def get_locked_balance_def)

text \<open>One call, as the histories make it; its amount is a \<open>U128\<close>.\<close>

fun op_amount :: "token_op \<Rightarrow> nat" where
  "op_amount (Set_allowance escrow n) = n"
| "op_amount (Lock owner n) = n"
| "op_amount (Unlock owner n) = n"
| "op_amount (Transfer_from owner a n) = n"
| "op_amount (Transfer_token a n) = n"

lemma power_call:
  assumes "token_call e op t = Inr t'" and "token_inv t" and "fits 128 (op_amount op)" and "x \<noteq> owner"
  shows "escrow_power owner x t' + taken_by owner x (e, op)
    = (if grants owner x (e, op) then op_amount op else escrow_power owner x t)"
proof (cases op)
  case (Set_allowance y n)
  then show ?thesis using assms power_set_allowance [of e y n t t' owner x] by simp
next
  case (Lock own n)
  then show ?thesis using assms power_lock [of e own n t t' x owner] by simp
next
  case (Unlock own n)
  then show ?thesis using assms power_unlock [of e own n t t' x owner] by simp
next
  case (Transfer_from own a n)
  then show ?thesis using assms power_transfer_from [of e own a n t t' x owner] by simp
next
  case (Transfer_token a n)
  then show ?thesis
    using assms power_transfer_from [of e "env_predecessor_account_id e" a n t t' x owner]
    by (simp add: transfer_token_def)
qed

lemma books_call:
  "token_call e op t = Inr t' \<Longrightarrow> token_inv t \<Longrightarrow> fits 128 (op_amount op)
    \<Longrightarrow> token_books (total_supply t) t'"
  by (cases op)
    (auto intro: lock_holdings unlock_holdings transfer_from_holdings set_allowance_holdings
      simp: transfer_token_def)

lemma token_inv_call:
  assumes "token_call e op t = Inr t'" and "token_inv t" and "fits 128 (op_amount op)"
  shows "token_inv t'"
proof -
  have books: "token_books (total_supply t) t'" by (rule books_call [OF assms])
  then have sup: "total_supply t' = total_supply t" by (simp add: token_books_def)
  have "fits 128 (escrow_power owner x t')" if "x \<noteq> owner" for owner x
  proof -
    have "escrow_power owner x t' \<le> (if grants owner x (e, op) then op_amount op else escrow_power owner x t)"
      using power_call [OF assms that] by linarith
    moreover have "fits 128 (if grants owner x (e, op) then op_amount op else escrow_power owner x t)"
      using assms(3) token_invD(5) [OF assms(2) that] by simp
    ultimately show ?thesis by (rule fits_mono [rotated])
  qed
  with books sup show ?thesis using token_invD(4) [OF assms(2)] by (simp add: token_inv_def)
qed

lemma token_step_call:
  assumes "token_step t t'"
  obtains e op where "token_call e op t = Inr t'" "fits 128 (op_amount op)"
  using assms by cases (metis token_call.simps op_amount.simps)+

lemma token_inv_step: "token_step t t' \<Longrightarrow> token_inv t \<Longrightarrow> token_inv t'"
  by (erule token_step_call) (rule token_inv_call)

definition token_init :: "fun_token \<Rightarrow> bool" where
  "token_init t \<longleftrightarrow> (\<exists>owner supply. fits 128 supply \<and> new_token owner supply = Inr t)"

lemma new_token_inv: "new_token owner supply = Inr t \<Longrightarrow> fits 128 supply \<Longrightarrow> token_inv t"
  by (auto simp: new_token_def token_inv_def token_books_def get_token_account_def save_token_account_def
      empty_account_def holdings_def msum_def good_account_def escrow_power_def get_allowance_def
      get_locked_balance_def get_allowance_of_def get_locked_of_def Let_def)

interpretation token_supply: inductive_invariant token_step token_inv token_init
proof unfold_locales
  show "token_inv t \<Longrightarrow> token_step t t' \<Longrightarrow> token_inv t'" for t t' by (rule token_inv_step)
  show "token_init t \<Longrightarrow> token_inv t" for t using new_token_inv by (auto simp: token_init_def)
qed

subsection \<open>Properties\<close>

lemma total_balance_value: "fits 128 (holdings a) \<Longrightarrow> total_balance a = holdings a"
  using fits_mono [of 128 "holdings a" "msum id (locked_balances a)"]
  by (simp add: total_balance_def holdings_def wrap_add_exact fits_def)

text \<open>
  C26. Tokens are neither created nor destroyed: after any history of calls the balances and locked
  balances of all accounts add up to the total supply fixed by \<open>new\<close>; \<open>get_total_balance\<close> returns
  every account's tokens, which are at most the supply; and although the arithmetic of the contract wraps
  around, no amount that an account may take from another one ever leaves its 128 bits.
\<close>

theorem token_supply_conserved:
  assumes "reach token_init token_step t"
  shows "msum holdings (token_accounts t) = get_total_supply t
    \<and> get_total_balance a t = holdings (get_token_account t a)
    \<and> holdings (get_token_account t a) \<le> get_total_supply t
    \<and> (x \<noteq> a \<longrightarrow> fits 128 (escrow_power a x t))"
proof -
  have inv: "token_inv t" by (rule token_supply.reachable_inv [OF assms])
  have "get_total_balance a t = holdings (get_token_account t a)"
    using token_inv_fits(1) [OF inv] by (simp add: get_total_balance_def total_balance_value)
  then show ?thesis using token_invD [OF inv] account_within_supply [OF inv] by (simp add: get_total_supply_def)
qed

text \<open>
  C27. Escrows take exactly what they were granted: in a history without a \<open>set_allowance\<close> of the owner
  for the escrow, from any state that the contract can be in, the tokens that the escrow transferred away
  plus what it may still take (its allowance plus the tokens it has locked) are what it could take at
  the start. Locking and unlocking, by anyone, only move between the two parts, and no call of another
  account changes them.
\<close>

theorem escrow_takes_what_it_was_granted:
  assumes "reach token_init token_step t" and "token_run ops t = Inr t'"
    and "\<forall>(e, op) \<in> set ops. fits 128 (op_amount op)"
    and "x \<noteq> owner" and "\<forall>c \<in> set ops. \<not> grants owner x c"
  shows "escrow_power owner x t' + (\<Sum>c\<leftarrow>ops. taken_by owner x c) = escrow_power owner x t"
  using token_supply.reachable_inv [OF assms(1)] assms(2,3,5)
proof (induction ops arbitrary: t)
  case (Cons c ops)
  obtain e op where c: "c = (e, op)" by (cases c)
  from Cons.prems(2) obtain u where u: "token_call e op t = Inr u" "token_run ops u = Inr t'"
    by (auto simp: c)
  have n: "fits 128 (op_amount op)" using Cons.prems(3) by (simp add: c)
  have "escrow_power owner x u + taken_by owner x c = escrow_power owner x t"
    using power_call [OF u(1) Cons.prems(1) n assms(4)] Cons.prems(4) by (simp add: c)
  moreover have "escrow_power owner x t' + (\<Sum>c\<leftarrow>ops. taken_by owner x c) = escrow_power owner x u"
    using Cons.IH [OF token_inv_call [OF u(1) Cons.prems(1) n] u(2)] Cons.prems(3,4) by simp
  ultimately show ?case by simp
qed simp

subsection \<open>A run\<close>

text \<open>
  Carol owns 100 tokens and allows Bob 30; Bob locks 20 and transfers 25 to Dan, 20 of them locked.
\<close>

definition tok_host :: "account_id \<Rightarrow> host" where
  "tok_host who = sample_host\<lparr>env_predecessor_account_id := who\<rparr>"

definition bobs_calls :: "(host \<times> token_op) list" where
  "bobs_calls = [(tok_host ''bob'', Lock ''carol'' 20),
     (tok_host ''bob'', Transfer_from ''carol'' ''dan'' 25)]"

definition carols_token :: fun_token where
  "carols_token = \<lparr>token_accounts = [''carol'' \<mapsto> \<lparr>balance = 100, allowances = Map.empty,
     locked_balances = Map.empty\<rparr>], total_supply = 100\<rparr>"

definition bobs_token :: fun_token where
  "bobs_token = \<lparr>token_accounts = [''carol'' \<mapsto> \<lparr>balance = 100, allowances = [''bob'' \<mapsto> 30],
     locked_balances = Map.empty\<rparr>], total_supply = 100\<rparr>"

lemma bobs_token_reached: "reach token_init token_step bobs_token"
proof (rule reach_step)
  have "new_token ''carol'' 100 = Inr carols_token"
    by (simp add: new_token_def carols_token_def get_token_account_def save_token_account_def
        empty_account_def Let_def)
  then show "reach token_init token_step carols_token"
    unfolding token_init_def
    by (intro reach_init exI [of _ "''carol''"] exI [of _ 100]) (simp add: fits_def)
  have "set_allowance (tok_host ''carol'') ''bob'' 30 carols_token = Inr bobs_token"
    by (simp add: set_allowance_def tok_host_def carols_token_def bobs_token_def get_token_account_def
        save_token_account_def get_locked_of_def set_allowance_of_def wrap_sub_def cong: eval_cong)
  then show "token_step carols_token bobs_token" by (rule tok_allow) (simp add: fits_def)
qed

theorem token_supply_conserved_witness:
  "get_total_balance ''carol'' bobs_token = 100 \<and> get_total_supply bobs_token = 100
    \<and> fits 128 (escrow_power ''carol'' ''bob'' bobs_token)"
  using token_supply_conserved [OF bobs_token_reached, of "''carol''" "''bob''"]
  by (simp add: bobs_token_def get_total_supply_def get_token_account_def holdings_def)

theorem escrow_takes_what_it_was_granted_witness:
  "\<exists>t. token_run bobs_calls bobs_token = Inr t \<and> escrow_power ''carol'' ''bob'' t + 25 = 30"
proof -
  obtain t where t: "token_run bobs_calls bobs_token = Inr t"
    by (simp add: bobs_calls_def bobs_token_def lock_def transfer_from_def tok_host_def get_token_account_def
        save_token_account_def get_locked_of_def set_locked_of_def get_allowance_of_def set_allowance_of_def
        wrap_sub_def wrap_add_def empty_account_def Let_def cong: eval_cong)
  have "\<forall>c \<in> set bobs_calls. \<not> grants ''carol'' ''bob'' c" by (simp add: bobs_calls_def)
  moreover have "\<forall>(e, op) \<in> set bobs_calls. fits 128 (op_amount op)" by (simp add: bobs_calls_def fits_def)
  ultimately
  have "escrow_power ''carol'' ''bob'' t + (\<Sum>c\<leftarrow>bobs_calls. taken_by ''carol'' ''bob'' c)
      = escrow_power ''carol'' ''bob'' bobs_token"
    by (intro escrow_takes_what_it_was_granted [OF bobs_token_reached t]) simp_all
  moreover have "(\<Sum>c\<leftarrow>bobs_calls. taken_by ''carol'' ''bob'' c) = 25" by (simp add: bobs_calls_def tok_host_def)
  moreover have "escrow_power ''carol'' ''bob'' bobs_token = 30"
    by (simp add: escrow_power_def get_allowance_def get_locked_balance_def
        bobs_token_def get_token_account_def get_allowance_of_def get_locked_of_def)
  ultimately show ?thesis using t by auto
qed

end
