(* ===== verification/SocialData.thy ===== *)
theory SocialData
  imports Interfaces "HOL-Library.AList"
begin

section \<open>The social contract: state, nodes, storage tracking and shared pools\<close>

text \<open>
  \<open>social-web3/contract/src\<close>: a tree of nodes with string keys, whose first level are the accounts,
  with write permissions on subtrees and an account of the storage that each subtree uses. This
  theory has \<open>lib.rs\<close>, \<open>node.rs\<close>, \<open>storage_tracker.rs\<close>, the data of \<open>account.rs\<close>, \<open>legacy.rs\<close> and
  \<open>permission.rs\<close>, and the pools of \<open>shared_storage.rs\<close>.

  The children of a node are an \<open>UnorderedMap\<close>, which is read in the order of insertion: an
  association list, to which \<open>AList.update\<close> appends new keys. The entries of an account's
  \<open>permissions\<close> map are written to the storage under the node ID of the account at once, not with
  the account: they are the field \<open>permissions\<close> of the contract's state. The measured
  \<open>env::storage_usage()\<close> is a function of the state, a parameter of the methods that measure.
  (\<open>StorageTracker\<close> panics when it is dropped with a change that was not accounted for; every method
  resets the trackers that it drops, so this guard is not part of the model.)
\<close>

subsection \<open>JSON values (\<open>serde_json::Value\<close>)\<close>

text \<open>
  An object is a list of entries with distinct keys, in the order in which the contract iterates over
  it (the first key of the data of \<open>set\<close> receives the deposit); for the objects that \<open>get\<close> and \<open>keys\<close>
  return, the order has no meaning. Numbers are those that the contract produces: block heights and
  node IDs.
\<close>

datatype json =
    JNull
  | JBool bool
  | JNum nat
  | JStr string
  | JArr "json list"
  | JObj "(string \<times> json) list"

type_synonym json_map = "(string \<times> json) list"

subsection \<open>Data\<close>

datatype contract_status = Genesis | Live | ReadOnly

type_synonym node_id = nat

record value_at_height =
  vh_value :: string
  vh_block_height :: nat

datatype node_value =
    Value value_at_height
  | Node node_id
  | DeletedEntry nat

record node =
  node_id :: node_id
  block_height :: nat
  children :: "(string \<times> node_value) list"

record partial_node =
  pn_node_id :: node_id
  pn_block_height :: nat
  pn_children :: "(string \<times> node_value) list"
  pn_from_index :: nat
  pn_num_children :: nat

datatype permission_key = AccountId account_id | SignerPublicKey public_key

datatype permission = Granted "node_id set"

record storage_tracker =
  bytes_added :: nat
  bytes_released :: nat
  initial_storage_usage :: "nat option"

record shared_storage_pool =
  pool_storage_balance :: nat
  pool_used_bytes :: nat
  shared_bytes :: nat

record account_shared_storage =
  max_bytes :: nat
  shared_used_bytes :: nat
  pool_id :: account_id

record account =
  storage_balance :: nat
  used_bytes :: nat
  account_node_id :: node_id
  tracker :: storage_tracker
  shared_storage :: "account_shared_storage option"

record account_v0 =
  v0_storage_balance :: nat
  v0_used_bytes :: nat

datatype v_account = V0 account_v0 | Current account

record partial_account =
  pa_storage_balance :: nat
  pa_used_bytes :: nat
  pa_permissions :: "(permission_key \<times> permission) list"
  pa_node_id :: node_id

record social =
  accounts :: "node_id \<rightharpoonup> v_account"
  root_node :: node
  nodes :: "node_id \<rightharpoonup> node"
  node_count :: nat
  status :: contract_status
  shared_storage_pools :: "account_id \<rightharpoonup> shared_storage_pool"
  permissions :: "node_id \<Rightarrow> permission_key \<rightharpoonup> permission"

text \<open>What the runtime answers to this contract: the block height, the price of a byte, the usage.\<close>

record social_host = host +
  env_block_height :: nat
  env_storage_byte_cost :: nat
  env_storage_usage :: "social \<Rightarrow> nat"

type_synonym social_promise = "unit promise"

definition EMPTY_KEY :: string where "EMPTY_KEY = ''''"
definition ERR_PERMISSION_DENIED :: string where "ERR_PERMISSION_DENIED = ''Permission Denied''"
definition MIN_STORAGE_BYTES :: nat where "MIN_STORAGE_BYTES = 2000"
definition MIN_STORAGE_BALANCE :: nat where "MIN_STORAGE_BALANCE = 0"
definition MINIMUM_SHARED_STORAGE_BALANCE :: nat where
  "MINIMUM_SHARED_STORAGE_BALANCE = 100000000000000000000000000"

subsection \<open>Nodes (\<open>node.rs\<close>)\<close>

fun into_current_height :: "social_host \<Rightarrow> node_value \<Rightarrow> node_value" where
  "into_current_height e (Value v) = Value (v\<lparr>vh_block_height := env_block_height e\<rparr>)"
| "into_current_height e (Node i) = Node i"
| "into_current_height e (DeletedEntry h) = DeletedEntry (env_block_height e)"

fun get_block_height :: "node_value \<Rightarrow> nat option" where
  "get_block_height (Value v) = Some (vh_block_height v)"
| "get_block_height (Node i) = None"
| "get_block_height (DeletedEntry h) = Some h"

fun is_node :: "node_value \<Rightarrow> bool" where
  "is_node (Node i) = True"
| "is_node _ = False"

definition node_new :: "social_host \<Rightarrow> node_id \<Rightarrow> node_value option \<Rightarrow> node res" where
  "node_new e i v =
     bindE (case v of
              Some value \<Rightarrow>
                bindE (ensure (\<not> is_node value) ''Invariant: empty key value can't be a node'') (\<lambda>_.
                Inr [(EMPTY_KEY, value)])
            | None \<Rightarrow> Inr []) (\<lambda>cs.
     Inr \<lparr>node_id = i, block_height = env_block_height e, children = cs\<rparr>)"

definition node_set :: "social_host \<Rightarrow> string \<Rightarrow> json \<Rightarrow> node \<Rightarrow> node res" where
  "node_set e key value n =
     bindE (case value of
              JStr s \<Rightarrow> Inr (Value \<lparr>vh_value = s, vh_block_height = env_block_height e\<rparr>)
            | JNull \<Rightarrow> Inr (DeletedEntry (env_block_height e))
            | _ \<Rightarrow> Inl (Unreachable ''Invariant: value must be a string or null'')) (\<lambda>v.
     let prev_value = map_of (children n) key;
         n = n\<lparr>children := AList.update key v (children n)\<rparr> in
     bindE (ensure (\<not> (case prev_value of Some p \<Rightarrow> is_node p | None \<Rightarrow> False))
       ''Internal error, the replaced value was a node'') (\<lambda>_. Inr n))"

definition internal_get_node :: "social \<Rightarrow> node_id \<Rightarrow> node option" where
  "internal_get_node s i = map_option (\<lambda>n. n\<lparr>node_id := i\<rparr>) (nodes s i)"

definition internal_unwrap_node :: "social \<Rightarrow> node_id \<Rightarrow> node res" where
  "internal_unwrap_node s i = expect (internal_get_node s i) ''Node is missing''"

definition internal_set_node :: "social_host \<Rightarrow> node \<Rightarrow> social \<Rightarrow> social" where
  "internal_set_node e n s =
     s\<lparr>nodes := (nodes s)(node_id n \<mapsto> n\<lparr>block_height := env_block_height e\<rparr>)\<rparr>"

definition get_node_count :: "social \<Rightarrow> nat" where
  "get_node_count s = node_count s"

text \<open>A page of a list: \<open>from..min(len, from + limit)\<close>, with the sum at the given width.\<close>

definition page :: "nat \<Rightarrow> nat \<Rightarrow> nat \<Rightarrow> 'a list \<Rightarrow> 'a list res" where
  "page w from limit xs =
     bindE (checked_add w from limit) (\<lambda>end_index.
     Inr (drop from (take (min (length xs) end_index) xs)))"

definition partial_node_view :: "node \<Rightarrow> nat option \<Rightarrow> nat option \<Rightarrow> partial_node res" where
  "partial_node_view n from_index limit =
     (let num_children = length (children n) mod 2 ^ 32;
          from_index = (case from_index of Some i \<Rightarrow> i | None \<Rightarrow> 0);
          limit = (case limit of Some l \<Rightarrow> l | None \<Rightarrow> num_children) in
      bindE (page 32 from_index limit (take num_children (children n))) (\<lambda>cs.
      Inr \<lparr>pn_node_id = node_id n, pn_block_height = block_height n, pn_children = cs,
           pn_from_index = from_index, pn_num_children = num_children\<rparr>))"

definition get_node :: "social \<Rightarrow> node_id \<Rightarrow> nat option \<Rightarrow> nat option \<Rightarrow> partial_node option res" where
  "get_node s i from_index limit =
     (if i = 0 then bindE (partial_node_view (root_node s) from_index limit) (\<lambda>p. Inr (Some p))
      else case internal_get_node s i of
        None \<Rightarrow> Inr None
      | Some n \<Rightarrow> bindE (partial_node_view n from_index limit) (\<lambda>p. Inr (Some p)))"

definition get_nodes :: "social \<Rightarrow> nat option \<Rightarrow> nat option \<Rightarrow> partial_node option list res" where
  "get_nodes s from_index limit =
     (let from_index = (case from_index of Some i \<Rightarrow> i | None \<Rightarrow> 0);
          limit = (case limit of Some l \<Rightarrow> l | None \<Rightarrow> node_count s) in
      bindE (page 32 from_index limit [0..<node_count s]) (\<lambda>ids.
      mapE (\<lambda>i. get_node s i None None) ids))"

subsection \<open>The contract (\<open>lib.rs\<close>)\<close>

definition new_social :: "social_host \<Rightarrow> social" where
  "new_social e =
     \<lparr>accounts = Map.empty,
      root_node = \<lparr>node_id = 0, block_height = env_block_height e, children = []\<rparr>,
      nodes = Map.empty,
      node_count = 1,
      status = Genesis,
      shared_storage_pools = Map.empty,
      permissions = (\<lambda>_. Map.empty)\<rparr>"

text \<open>\<open>#[private]\<close>: only the contract's own account may call the method.\<close>

definition assert_private :: "social_host \<Rightarrow> unit res" where
  "assert_private e = ensure (env_predecessor_account_id e = env_current_account_id e) ''Method is private''"

definition set_status :: "social_host \<Rightarrow> contract_status \<Rightarrow> social \<Rightarrow> social res" where
  "set_status e st s =
     bindE (assert_private e) (\<lambda>_.
     bindE (ensure (st \<noteq> Genesis) ''The status can't be set to Genesis'') (\<lambda>_.
     Inr (s\<lparr>status := st\<rparr>)))"

definition get_status :: "social \<Rightarrow> contract_status" where
  "get_status s = status s"

definition create_node_id :: "social \<Rightarrow> (node_id \<times> social) res" where
  "create_node_id s =
     bindE (checked_add 32 (node_count s) 1) (\<lambda>n. Inr (node_count s, s\<lparr>node_count := n\<rparr>))"

definition assert_live :: "social \<Rightarrow> unit res" where
  "assert_live s = ensure (status s = Live) ''The contract status is not Live''"

subsection \<open>Tracking storage (\<open>storage_tracker.rs\<close>)\<close>

definition default_tracker :: storage_tracker where
  "default_tracker = \<lparr>bytes_added = 0, bytes_released = 0, initial_storage_usage = None\<rparr>"

definition start :: "social_host \<Rightarrow> social \<Rightarrow> storage_tracker \<Rightarrow> storage_tracker res" where
  "start e s t =
     bindE (ensure (initial_storage_usage t = None) ''The storage tracker is already tracking'') (\<lambda>_.
     Inr (t\<lparr>initial_storage_usage := Some (env_storage_usage e s)\<rparr>))"

definition stop :: "social_host \<Rightarrow> social \<Rightarrow> storage_tracker \<Rightarrow> storage_tracker res" where
  "stop e s t =
     bindE (expect (initial_storage_usage t) ''The storage tracker wasn't tracking'') (\<lambda>initial.
     let t = t\<lparr>initial_storage_usage := None\<rparr>; usage = env_storage_usage e s in
     if initial \<le> usage then
       bindE (checked_sub usage initial) (\<lambda>d.
       bindE (checked_add 64 (bytes_added t) d) (\<lambda>n. Inr (t\<lparr>bytes_added := n\<rparr>)))
     else
       bindE (checked_sub initial usage) (\<lambda>d.
       bindE (checked_add 64 (bytes_released t) d) (\<lambda>n. Inr (t\<lparr>bytes_released := n\<rparr>))))"

text \<open>\<open>t.consume(other)\<close>: what was released is overwritten, not added.\<close>

definition consume :: "storage_tracker \<Rightarrow> storage_tracker \<Rightarrow> (storage_tracker \<times> storage_tracker) res" where
  "consume t other =
     bindE (checked_add 64 (bytes_added t) (bytes_added other)) (\<lambda>n.
     let t = t\<lparr>bytes_added := n, bytes_released := bytes_released other\<rparr>;
         other = other\<lparr>bytes_added := 0, bytes_released := 0\<rparr> in
     bindE (ensure (initial_storage_usage other = None)
       ''Can't merge storage tracker that is tracking storage'') (\<lambda>_. Inr (t, other)))"

definition clear :: "storage_tracker \<Rightarrow> storage_tracker res" where
  "clear t =
     bindE (ensure (initial_storage_usage t = None) ''Can't clear storage tracker that is active'') (\<lambda>_.
     Inr (t\<lparr>bytes_added := 0, bytes_released := 0\<rparr>))"

definition tracker_is_empty :: "storage_tracker \<Rightarrow> bool" where
  "tracker_is_empty t \<longleftrightarrow> bytes_added t = 0 \<and> bytes_released t = 0 \<and> initial_storage_usage t = None"

subsection \<open>Shared pools (\<open>shared_storage.rs\<close>)\<close>

definition pool_new :: shared_storage_pool where
  "pool_new = \<lparr>pool_storage_balance = 0, pool_used_bytes = 0, shared_bytes = 0\<rparr>"

text \<open>The quotient is cast to 64 bits, and \<open>saturating_div\<close> by zero is zero.\<close>

definition pool_available_bytes :: "social_host \<Rightarrow> shared_storage_pool \<Rightarrow> nat res" where
  "pool_available_bytes e p =
     (let max_bytes = (pool_storage_balance p div env_storage_byte_cost e) mod 2 ^ 64 in
      checked_sub max_bytes (pool_used_bytes p))"

definition available_bytes ::
  "social_host \<Rightarrow> account_shared_storage \<Rightarrow> shared_storage_pool \<Rightarrow> nat res" where
  "available_bytes e sh p =
     bindE (checked_sub (max_bytes sh) (shared_used_bytes sh)) (\<lambda>own.
     bindE (pool_available_bytes e p) (\<lambda>n. Inr (min own n)))"

definition internal_get_shared_storage_pool :: "social \<Rightarrow> account_id \<Rightarrow> shared_storage_pool option" where
  "internal_get_shared_storage_pool s owner = shared_storage_pools s owner"

definition internal_unwrap_shared_storage_pool :: "social \<Rightarrow> account_id \<Rightarrow> shared_storage_pool res" where
  "internal_unwrap_shared_storage_pool s owner =
     expect (internal_get_shared_storage_pool s owner) ''Shared storage pool not found''"

definition internal_set_shared_storage_pool ::
  "account_id \<Rightarrow> shared_storage_pool \<Rightarrow> social \<Rightarrow> social" where
  "internal_set_shared_storage_pool owner p s =
     s\<lparr>shared_storage_pools := (shared_storage_pools s)(owner \<mapsto> p)\<rparr>"

definition get_shared_storage_pool :: "social \<Rightarrow> account_id \<Rightarrow> shared_storage_pool option" where
  "get_shared_storage_pool s owner = internal_get_shared_storage_pool s owner"

end
