(* ===== verification/SocialAccounts.thy ===== *)
theory SocialAccounts
  imports SocialData
begin

section \<open>The social contract: accounts\<close>

text \<open>
  The methods of \<open>account.rs\<close>, with the names of the source (suffix \<open>_social\<close> where the staking pool has a
  function of this name), and the keys and paths of \<open>api.rs\<close>. A method that may pay tokens out returns its promises, which are transfers, last.
\<close>

subsection \<open>Accounts (\<open>account.rs\<close>)\<close>

definition account_new :: "node_id \<Rightarrow> account" where
  "account_new i = \<lparr>storage_balance = 0, used_bytes = 0, account_node_id = i,
     tracker = default_tracker, shared_storage = None\<rparr>"

definition of_v0 :: "account_v0 \<Rightarrow> account res" where
  "of_v0 v =
     bindE (checked_add 64 (v0_used_bytes v) 1) (\<lambda>used.
     Inr \<lparr>storage_balance = v0_storage_balance v, used_bytes = used, account_node_id = 0,
          tracker = default_tracker, shared_storage = None\<rparr>)"

text \<open>The tracker and the node ID are not stored (\<open>borsh(skip)\<close>).\<close>

fun of_v_account :: "v_account \<Rightarrow> account res" where
  "of_v_account (V0 v) = of_v0 v"
| "of_v_account (Current a) = Inr (a\<lparr>account_node_id := 0, tracker := default_tracker\<rparr>)"

definition shared_used :: "account \<Rightarrow> nat" where
  "shared_used a = (case shared_storage a of Some sh \<Rightarrow> shared_used_bytes sh | None \<Rightarrow> 0)"

definition assert_storage_covered :: "social_host \<Rightarrow> account \<Rightarrow> unit res" where
  "assert_storage_covered e a =
     bindE (checked_sub (used_bytes a) (shared_used a)) (\<lambda>own.
     ensure (sat_mul 128 own (env_storage_byte_cost e) \<le> storage_balance a) ''Not enough storage balance'')"

definition load_account :: "social \<Rightarrow> node_id \<Rightarrow> account res" where
  "load_account s i =
     bindE (unwrap (accounts s i)) (\<lambda>v.
     bindE (of_v_account v) (\<lambda>a. Inr (a\<lparr>account_node_id := i\<rparr>)))"

definition internal_get_account_social :: "social \<Rightarrow> string \<Rightarrow> account option res" where
  "internal_get_account_social s account_id =
     (case map_of (children (root_node s)) account_id of
        None \<Rightarrow> Inr None
      | Some (Node i) \<Rightarrow> bindE (load_account s i) (\<lambda>a. Inr (Some a))
      | Some _ \<Rightarrow> Inl (Panic ''Unexpected account key. The value is not a node.''))"

definition internal_unwrap_account :: "social \<Rightarrow> string \<Rightarrow> account res" where
  "internal_unwrap_account s account_id =
     bindE (internal_get_account_social s account_id) (\<lambda>a. expect a ''The account doesn't exist'')"

text \<open>The two arms of \<open>internal_set_account\<close> in which the storage of the account changed.\<close>

definition account_grows :: "social_host \<Rightarrow> nat \<Rightarrow> account \<Rightarrow> social \<Rightarrow> (account \<times> social) res" where
  "account_grows e extra a s =
     bindE (checked_add 64 (used_bytes a) extra) (\<lambda>used.
     let a = a\<lparr>used_bytes := used\<rparr> in
     bindE (case shared_storage a of
              None \<Rightarrow> Inr (a, s)
            | Some sh \<Rightarrow>
                bindE (internal_unwrap_shared_storage_pool s (pool_id sh)) (\<lambda>p.
                bindE (available_bytes e sh p) (\<lambda>available.
                let pool_bytes = min available extra in
                if 0 < pool_bytes then
                  bindE (checked_add 64 (pool_used_bytes p) pool_bytes) (\<lambda>n.
                  let s = internal_set_shared_storage_pool (pool_id sh) (p\<lparr>pool_used_bytes := n\<rparr>) s in
                  bindE (checked_add 64 (shared_used_bytes sh) pool_bytes) (\<lambda>m.
                  Inr (a\<lparr>shared_storage := Some (sh\<lparr>shared_used_bytes := m\<rparr>)\<rparr>, s)))
                else Inr (a, s)))) (\<lambda>(a, s).
     bindE (assert_storage_covered e a) (\<lambda>_. Inr (a, s))))"

definition account_shrinks :: "nat \<Rightarrow> account \<Rightarrow> social \<Rightarrow> (account \<times> social) res" where
  "account_shrinks released a s =
     bindE (ensure (released \<le> used_bytes a) ''Internal storage accounting bug'') (\<lambda>_.
     bindE (case shared_storage a of
              None \<Rightarrow> Inr (a, s)
            | Some sh \<Rightarrow>
                let pool_bytes = min (shared_used_bytes sh) released in
                bindE (if 0 < pool_bytes then
                         bindE (internal_unwrap_shared_storage_pool s (pool_id sh)) (\<lambda>p.
                         bindE (ensure (pool_bytes \<le> pool_used_bytes p) ''Internal storage accounting bug'') (\<lambda>_.
                         bindE (checked_sub (pool_used_bytes p) pool_bytes) (\<lambda>n.
                         Inr (internal_set_shared_storage_pool (pool_id sh) (p\<lparr>pool_used_bytes := n\<rparr>) s))))
                       else Inr s) (\<lambda>s.
                bindE (checked_sub (shared_used_bytes sh) pool_bytes) (\<lambda>m.
                Inr (a\<lparr>shared_storage := Some (sh\<lparr>shared_used_bytes := m\<rparr>)\<rparr>, s)))) (\<lambda>(a, s).
     bindE (checked_sub (used_bytes a) released) (\<lambda>used. Inr (a\<lparr>used_bytes := used\<rparr>, s))))"

definition internal_set_account :: "social_host \<Rightarrow> account \<Rightarrow> social \<Rightarrow> (bool \<times> social) res" where
  "internal_set_account e a s =
     (let t = tracker a in
      bindE (if bytes_released t < bytes_added t then
               bindE (checked_sub (bytes_added t) (bytes_released t)) (\<lambda>extra. account_grows e extra a s)
             else if bytes_added t < bytes_released t then
               bindE (checked_sub (bytes_released t) (bytes_added t)) (\<lambda>released. account_shrinks released a s)
             else Inr (a, s)) (\<lambda>(a, s).
      let a = a\<lparr>tracker := (tracker a)\<lparr>bytes_released := 0, bytes_added := 0\<rparr>\<rparr> in
      Inr (accounts s (account_node_id a) \<noteq> None,
           s\<lparr>accounts := (accounts s)(account_node_id a \<mapsto> Current a)\<rparr>)))"

definition internal_initial_set_account ::
  "social_host \<Rightarrow> string \<Rightarrow> account \<Rightarrow> social \<Rightarrow> social res" where
  "internal_initial_set_account e account_id a s =
     bindE (start e s (tracker a)) (\<lambda>t.
     bindE (node_new e (account_node_id a) None) (\<lambda>n.
     let s = internal_set_node e n s;
         root = (root_node s)\<lparr>block_height := env_block_height e,
                  children := AList.update account_id (Node (account_node_id a)) (children (root_node s))\<rparr>;
         s = s\<lparr>root_node := root\<rparr>;
         temp_account = (account_new (account_node_id a))\<lparr>shared_storage := shared_storage a\<rparr> in
     bindE (internal_set_account e temp_account s) (\<lambda>(existed, s).
     bindE (ensure (\<not> existed) ''Internal bug. Account already exists.'') (\<lambda>_.
     bindE (stop e s t) (\<lambda>t.
     bindE (internal_set_account e (a\<lparr>tracker := t\<rparr>) s) (\<lambda>(_, s). Inr s))))))"

definition internal_create_account ::
  "social_host \<Rightarrow> string \<Rightarrow> nat \<Rightarrow> bool \<Rightarrow> social \<Rightarrow> (social \<times> social_promise list) res" where
  "internal_create_account e account_id storage_deposit registration_only s =
     (let min_balance = 0 in
      bindE (ensure (\<not> storage_deposit < min_balance)
        ''The attached deposit is less than the minimum storage balance'') (\<lambda>_.
      bindE (create_node_id s) (\<lambda>(i, s).
      let a = account_new i; refund = sat_sub storage_deposit min_balance;
          ps = (if registration_only \<and> 0 < refund
                then [Promise (env_predecessor_account_id e) [Transfer refund]] else []);
          a = a\<lparr>storage_balance := (if registration_only then min_balance else storage_deposit)\<rparr> in
      bindE (internal_initial_set_account e account_id a s) (\<lambda>s. Inr (s, ps)))))"

definition internal_unwrap_account_or_create ::
  "social_host \<Rightarrow> string \<Rightarrow> nat \<Rightarrow> social \<Rightarrow> (account \<times> social \<times> social_promise list) res" where
  "internal_unwrap_account_or_create e account_id storage_deposit s =
     bindE (ensure (env_is_valid_account_id e account_id) ''Invalid account id'') (\<lambda>_.
     bindE (internal_get_account_social s account_id) (\<lambda>found.
     case found of
       Some a \<Rightarrow> Inr (a\<lparr>storage_balance := sat_add 128 (storage_balance a) storage_deposit\<rparr>, s, [])
     | None \<Rightarrow>
         bindE (internal_create_account e account_id storage_deposit False s) (\<lambda>(s, ps).
         bindE (internal_unwrap_account s account_id) (\<lambda>a. Inr (a, s, ps)))))"

definition internal_create_account_from_shared_storage ::
  "social_host \<Rightarrow> string \<Rightarrow> nat \<Rightarrow> account_id \<Rightarrow> social \<Rightarrow> social res" where
  "internal_create_account_from_shared_storage e account_id max_b pool s =
     (let sh = \<lparr>max_bytes = max_b, shared_used_bytes = 0, pool_id = pool\<rparr> in
      bindE (ensure (MIN_STORAGE_BYTES \<le> max_bytes sh)
        ''The max bytes is less than the minimum storage required'') (\<lambda>_.
      bindE (internal_unwrap_shared_storage_pool s (pool_id sh)) (\<lambda>p.
      bindE (available_bytes e sh p) (\<lambda>available.
      bindE (ensure (MIN_STORAGE_BYTES \<le> available)
        ''Not enough storage available in the shared storage pool to create an account'') (\<lambda>_.
      bindE (create_node_id s) (\<lambda>(i, s).
      internal_initial_set_account e account_id ((account_new i)\<lparr>shared_storage := Some sh\<rparr>) s))))))"

record storage_balance_view =
  sb_total :: nat
  sb_available :: nat

definition storage_balance_of_account :: "social_host \<Rightarrow> account \<Rightarrow> storage_balance_view res" where
  "storage_balance_of_account e a =
     bindE (checked_sub (used_bytes a) (shared_used a)) (\<lambda>own.
     Inr \<lparr>sb_total = storage_balance a,
          sb_available = sat_sub (storage_balance a) (sat_mul 128 own (env_storage_byte_cost e))\<rparr>)"

definition internal_storage_balance_of ::
  "social_host \<Rightarrow> social \<Rightarrow> account_id \<Rightarrow> storage_balance_view option res" where
  "internal_storage_balance_of e s account_id =
     bindE (internal_get_account_social s account_id) (\<lambda>found.
     case found of
       None \<Rightarrow> Inr None
     | Some a \<Rightarrow> bindE (storage_balance_of_account e a) (\<lambda>b. Inr (Some b)))"

definition internal_storage_withdraw ::
  "social_host \<Rightarrow> account_id \<Rightarrow> nat option \<Rightarrow> social
     \<Rightarrow> (storage_balance_view \<times> social \<times> social_promise list) res" where
  "internal_storage_withdraw e withdraw_from amount s =
     bindE (internal_storage_balance_of e s withdraw_from) (\<lambda>found.
     case found of
       None \<Rightarrow> Inl (Panic ''The account is not registered'')
     | Some b \<Rightarrow>
         let amount = (case amount of Some n \<Rightarrow> n | None \<Rightarrow> sb_available b) in
         bindE (ensure (amount \<le> sb_available b) ''The amount is greater than the available storage balance'') (\<lambda>_.
         bindE (if 0 < amount then
                  bindE (internal_unwrap_account s withdraw_from) (\<lambda>a.
                  bindE (internal_set_account e (a\<lparr>storage_balance := sat_sub (storage_balance a) amount\<rparr>) s) (\<lambda>(_, s).
                  Inr (s, [Promise (env_predecessor_account_id e) [Transfer amount]])))
                else Inr (s, [])) (\<lambda>(s, ps).
         bindE (internal_storage_balance_of e s withdraw_from) (\<lambda>found.
         bindE (unwrap found) (\<lambda>b. Inr (b, s, ps))))))"

definition storage_deposit ::
  "social_host \<Rightarrow> account_id option \<Rightarrow> bool option \<Rightarrow> social
     \<Rightarrow> (storage_balance_view \<times> social \<times> social_promise list) res" where
  "storage_deposit e account_id registration_only s =
     bindE (assert_live s) (\<lambda>_.
     let attached_deposit = env_attached_deposit e;
         account_id = (case account_id of Some a \<Rightarrow> a | None \<Rightarrow> env_predecessor_account_id e) in
     bindE (internal_get_account_social s account_id) (\<lambda>found.
     let registration_only = (case registration_only of Some b \<Rightarrow> b | None \<Rightarrow> False) in
     bindE (case found of
              Some a \<Rightarrow>
                if registration_only \<and> 0 < attached_deposit then
                  Inr (s, [Promise (env_predecessor_account_id e) [Transfer attached_deposit]])
                else
                  bindE (internal_set_account e
                    (a\<lparr>storage_balance := sat_add 128 (storage_balance a) attached_deposit\<rparr>) s) (\<lambda>(_, s). Inr (s, []))
            | None \<Rightarrow> internal_create_account e account_id attached_deposit registration_only s) (\<lambda>(s, ps).
     bindE (internal_storage_balance_of e s account_id) (\<lambda>found.
     bindE (unwrap found) (\<lambda>b. Inr (b, s, ps))))))"

definition assert_one_atto :: "social_host \<Rightarrow> unit res" where
  "assert_one_atto e = ensure (env_attached_deposit e = 1) ''Requires attached deposit of exactly 1 atto''"

definition storage_withdraw ::
  "social_host \<Rightarrow> nat option \<Rightarrow> social \<Rightarrow> (storage_balance_view \<times> social \<times> social_promise list) res" where
  "storage_withdraw e amount s =
     bindE (assert_live s) (\<lambda>_.
     bindE (assert_one_atto e) (\<lambda>_.
     internal_storage_withdraw e (env_predecessor_account_id e) amount s))"

definition storage_unregister :: "social_host \<Rightarrow> bool option \<Rightarrow> social \<Rightarrow> bool res" where
  "storage_unregister e force s =
     bindE (assert_live s) (\<lambda>_. Inl (Panic ''The account can't be unregistered''))"

text \<open>The minimum, and no maximum.\<close>

definition storage_balance_bounds :: "nat \<times> nat option" where
  "storage_balance_bounds = (MIN_STORAGE_BALANCE, None)"

definition storage_balance_of ::
  "social_host \<Rightarrow> social \<Rightarrow> account_id \<Rightarrow> storage_balance_view option res" where
  "storage_balance_of e s account_id = internal_storage_balance_of e s account_id"

definition get_accounts_social ::
  "social_host \<Rightarrow> social \<Rightarrow> nat option \<Rightarrow> nat option \<Rightarrow> (account_id \<times> account) list res" where
  "get_accounts_social e s from_index limit =
     (let kvs = children (root_node s);
          from_index = (case from_index of Some i \<Rightarrow> i | None \<Rightarrow> 0);
          limit = (case limit of Some l \<Rightarrow> l | None \<Rightarrow> length kvs) in
      bindE (page 64 from_index limit kvs) (\<lambda>kvs.
      mapE (\<lambda>(key, value).
        bindE (case value of Node i \<Rightarrow> Inr i | _ \<Rightarrow> Inl (Unreachable '''')) (\<lambda>i.
        bindE (load_account s i) (\<lambda>a.
        bindE (unwrap (env_parse_account_id e key)) (\<lambda>account_id. Inr (account_id, a))))) kvs))"

definition get_account_social :: "social \<Rightarrow> account_id \<Rightarrow> account option res" where
  "get_account_social s account_id = internal_get_account_social s account_id"

definition get_account_count :: "social \<Rightarrow> nat" where
  "get_account_count s = length (children (root_node s)) mod 2 ^ 32"

subsection \<open>Keys and paths (\<open>api.rs\<close>)\<close>

definition MAX_KEY_LENGTH :: nat where "MAX_KEY_LENGTH = 256"
definition SEPARATOR :: char where "SEPARATOR = CHR ''/''"

text \<open>\<open>key.split(SEPARATOR).collect()\<close>: the parts between separators, at least one.\<close>

fun split :: "char \<Rightarrow> string \<Rightarrow> string list" where
  "split sep [] = [[]]"
| "split sep (c # cs) =
     (if c = sep then [] # split sep cs else (c # hd (split sep cs)) # tl (split sep cs))"

definition key_char :: "char \<Rightarrow> bool" where
  "key_char c \<longleftrightarrow> (let n = of_char c :: nat in
     97 \<le> n \<and> n \<le> 122 \<or> 65 \<le> n \<and> n \<le> 90 \<or> 48 \<le> n \<and> n \<le> 57
     \<or> c = CHR ''_'' \<or> c = CHR ''.'' \<or> c = CHR ''-'')"

definition is_key_valid :: "string \<Rightarrow> bool" where
  "is_key_valid key \<longleftrightarrow> length key \<le> MAX_KEY_LENGTH \<and> list_all key_char key"

definition assert_key_valid :: "string \<Rightarrow> unit res" where
  "assert_key_valid key = ensure (is_key_valid key) ''Key contains invalid character or longer than 256''"

end
