(* ===== verification/SocialMethods.thy ===== *)
theory SocialMethods
  imports SocialAccounts
begin

section \<open>The social contract: permissions, shared storage, upgrade\<close>

text \<open>The methods of \<open>permission.rs\<close>, \<open>shared_storage.rs\<close> and \<open>upgrade.rs\<close>, with the names of the source.\<close>

subsection \<open>Write permissions (\<open>permission.rs\<close>)\<close>

fun permission_is_empty :: "permission \<Rightarrow> bool" where
  "permission_is_empty (Granted ids) \<longleftrightarrow> ids = {}"

definition permission_key_of :: "account_id option \<Rightarrow> public_key option \<Rightarrow> permission_key res" where
  "permission_key_of predecessor pk =
     (case predecessor of
        Some a \<Rightarrow>
          bindE (ensure (pk = None) ''Can't supply both account_id and a public_key'') (\<lambda>_. Inr (AccountId a))
      | None \<Rightarrow> expect (map_option SignerPublicKey pk) ''Neither account_id or public_key is provided'')"

definition internal_set_permission ::
  "social_host \<Rightarrow> permission_key \<Rightarrow> permission \<Rightarrow> account \<Rightarrow> social \<Rightarrow> (account \<times> social) res" where
  "internal_set_permission e pkey permission a s =
     bindE (start e s (tracker a)) (\<lambda>t.
     let i = account_node_id a;
         entry = (if permission_is_empty permission then None else Some permission);
         s = s\<lparr>permissions := (permissions s)(i := (permissions s i)(pkey := entry))\<rparr> in
     bindE (stop e s t) (\<lambda>t. Inr (a\<lparr>tracker := t\<rparr>, s)))"

definition permitted_ids :: "social \<Rightarrow> node_id \<Rightarrow> permission_key \<Rightarrow> node_id set" where
  "permitted_ids s i pkey = (case permissions s i pkey of Some (Granted ids) \<Rightarrow> ids | None \<Rightarrow> {})"

definition internal_get_writeable_node_ids :: "social_host \<Rightarrow> social \<Rightarrow> account \<Rightarrow> node_id set" where
  "internal_get_writeable_node_ids e s a =
     permitted_ids s (account_node_id a) (AccountId (env_predecessor_account_id e))
     \<union> permitted_ids s (account_node_id a) (SignerPublicKey (env_signer_account_pk e))"

text \<open>One step down a granted path: the node left is saved, a missing one is created.\<close>

definition grant_step :: "social_host \<Rightarrow> string \<Rightarrow> node \<times> social \<Rightarrow> (node \<times> social) res" where
  "grant_step e key ns =
     (let (n, s) = ns in
      bindE (assert_key_valid key) (\<lambda>_.
      case map_of (children n) key of
        None \<Rightarrow>
          bindE (create_node_id s) (\<lambda>(i, s).
          let n = n\<lparr>children := AList.update key (Node i) (children n)\<rparr> in
          bindE (node_new e i None) (\<lambda>below. Inr (below, internal_set_node e n s)))
      | Some (Node i) \<Rightarrow>
          bindE (internal_unwrap_node s i) (\<lambda>below. Inr (below, internal_set_node e n s))
      | Some old \<Rightarrow>
          bindE (ensure (key \<noteq> EMPTY_KEY) ''The empty key's value should be a string'') (\<lambda>_.
          bindE (create_node_id s) (\<lambda>(i, s).
          let n = n\<lparr>children := AList.update key (Node i) (children n)\<rparr> in
          bindE (node_new e i (Some old)) (\<lambda>below. Inr (below, internal_set_node e n s))))))"

definition grant_key ::
  "social_host \<Rightarrow> account_id \<Rightarrow> string \<Rightarrow> account \<times> social \<times> node_id set
     \<Rightarrow> (account \<times> social \<times> node_id set) res" where
  "grant_key e account_id key asi =
     (let (a, s, ids) = asi in
      bindE (start e s (tracker a)) (\<lambda>t.
      let path = split SEPARATOR key in
      bindE (ensure (path \<noteq> []) ''The key is empty'') (\<lambda>_.
      bindE (ensure (hd path = account_id) ''The path should start with the expected account_id'') (\<lambda>_.
      bindE (internal_unwrap_node s (account_node_id a)) (\<lambda>n.
      bindE (foldE (grant_step e) (tl path) (n, s)) (\<lambda>(n, s).
      let s = internal_set_node e n s in
      bindE (stop e s t) (\<lambda>t. Inr (a\<lparr>tracker := t\<rparr>, s, insert (node_id n) ids))))))))"

definition grant_write_permission ::
  "social_host \<Rightarrow> account_id option \<Rightarrow> public_key option \<Rightarrow> string list \<Rightarrow> social
     \<Rightarrow> (social \<times> social_promise list) res" where
  "grant_write_permission e predecessor pk keys s =
     bindE (assert_live s) (\<lambda>_.
     let attached_deposit = env_attached_deposit e in
     bindE (ensure (0 < attached_deposit) ''Requires at least 1 atto'') (\<lambda>_.
     bindE (permission_key_of predecessor pk) (\<lambda>pkey.
     let account_id = env_predecessor_account_id e in
     bindE (internal_unwrap_account_or_create e account_id attached_deposit s) (\<lambda>(a, s, ps).
     let ids = permitted_ids s (account_node_id a) pkey in
     bindE (foldE (grant_key e account_id) keys (a, s, ids)) (\<lambda>(a, s, ids).
     bindE (internal_set_permission e pkey (Granted ids) a s) (\<lambda>(a, s).
     bindE (internal_set_account e a s) (\<lambda>(_, s). Inr (s, ps))))))))"

definition debug_get_permissions :: "social \<Rightarrow> account_id \<Rightarrow> (permission_key \<rightharpoonup> permission) res" where
  "debug_get_permissions s account_id =
     bindE (internal_unwrap_account s account_id) (\<lambda>a. Inr (permissions s (account_node_id a)))"

text \<open>The loop of \<open>is_write_permission_granted\<close>.\<close>

fun granted_below :: "social \<Rightarrow> node_id set \<Rightarrow> node \<Rightarrow> string list \<Rightarrow> bool res" where
  "granted_below s ids n [] = Inr False"
| "granted_below s ids n (key # path) =
     (case map_of (children n) key of
        Some (Node i) \<Rightarrow>
          if i \<in> ids then Inr True
          else bindE (internal_unwrap_node s i) (\<lambda>n. granted_below s ids n path)
      | _ \<Rightarrow> Inr False)"

definition is_write_permission_granted ::
  "social \<Rightarrow> account_id option \<Rightarrow> public_key option \<Rightarrow> string \<Rightarrow> bool res" where
  "is_write_permission_granted s predecessor pk key =
     bindE (permission_key_of predecessor pk) (\<lambda>pkey.
     let path = split SEPARATOR key in
     bindE (ensure (path \<noteq> []) ''The key is empty'') (\<lambda>_.
     bindE (internal_get_account_social s (hd path)) (\<lambda>found.
     case found of
       None \<Rightarrow> Inr False
     | Some a \<Rightarrow>
         (case permissions s (account_node_id a) pkey of
            None \<Rightarrow> Inr False
          | Some (Granted ids) \<Rightarrow>
              if account_node_id a \<in> ids then Inr True
              else bindE (internal_unwrap_node s (account_node_id a)) (\<lambda>n. granted_below s ids n (tl path))))))"

subsection \<open>Shared storage (\<open>shared_storage.rs\<close>)\<close>

record storage_view =
  view_used_bytes :: nat
  view_available_bytes :: nat

definition shared_storage_pool_deposit ::
  "social_host \<Rightarrow> account_id option \<Rightarrow> social \<Rightarrow> social res" where
  "shared_storage_pool_deposit e owner s =
     (let attached_deposit = env_attached_deposit e;
          owner = (case owner of Some a \<Rightarrow> a | None \<Rightarrow> env_predecessor_account_id e) in
      bindE (ensure (\<not> attached_deposit < MINIMUM_SHARED_STORAGE_BALANCE)
        ''Attached deposit is less than the minimum amount'') (\<lambda>_.
      let p = (case internal_get_shared_storage_pool s owner of Some p \<Rightarrow> p | None \<Rightarrow> pool_new);
          p = p\<lparr>pool_storage_balance := sat_add 128 (pool_storage_balance p) attached_deposit\<rparr> in
      bindE (start e s default_tracker) (\<lambda>t.
      let s = internal_set_shared_storage_pool owner p s in
      bindE (stop e s t) (\<lambda>t.
      bindE (if bytes_released t < bytes_added t then
               bindE (internal_unwrap_shared_storage_pool s owner) (\<lambda>p.
               bindE (checked_sub (bytes_added t) (bytes_released t)) (\<lambda>d.
               bindE (checked_add 64 (pool_used_bytes p) d) (\<lambda>n.
               Inr (internal_set_shared_storage_pool owner (p\<lparr>pool_used_bytes := n\<rparr>) s))))
             else Inr s) (\<lambda>s.
      bindE (clear t) (\<lambda>_. Inr s))))))"

text \<open>\<open>share_storage\<close> when the account already has storage of the same pool, of another one, of none.\<close>

definition share_more ::
  "nat \<Rightarrow> account_shared_storage \<Rightarrow> shared_storage_pool \<Rightarrow> social
     \<Rightarrow> (account_shared_storage \<times> social) res" where
  "share_more max_b current p s =
     bindE (ensure (\<not> max_b \<le> max_bytes current) ''Max bytes must be greater than the current max bytes'') (\<lambda>_.
     let new = \<lparr>max_bytes = max_b, shared_used_bytes = shared_used_bytes current, pool_id = pool_id current\<rparr> in
     bindE (checked_sub max_b (max_bytes current)) (\<lambda>d.
     bindE (checked_add 64 (shared_bytes p) d) (\<lambda>n.
     Inr (new, internal_set_shared_storage_pool (pool_id new) (p\<lparr>shared_bytes := n\<rparr>) s))))"

definition share_instead ::
  "social_host \<Rightarrow> nat \<Rightarrow> account_id \<Rightarrow> account_shared_storage \<Rightarrow> shared_storage_pool \<Rightarrow> social
     \<Rightarrow> (account_shared_storage \<times> social) res" where
  "share_instead e max_b pool current p s =
     bindE (internal_unwrap_shared_storage_pool s (pool_id current)) (\<lambda>current_pool.
     bindE (available_bytes e current current_pool) (\<lambda>current_available.
     let new = \<lparr>max_bytes = max_b, shared_used_bytes = 0, pool_id = pool\<rparr> in
     bindE (available_bytes e new p) (\<lambda>new_available.
     bindE (checked_add 64 (shared_used_bytes current) current_available) (\<lambda>needed.
     bindE (checked_add 64 needed MIN_STORAGE_BYTES) (\<lambda>needed.
     bindE (ensure (\<not> new_available < needed)
       ''The difference between the new available bytes and the current available bytes must be at least 2000'') (\<lambda>_.
     bindE (checked_sub (pool_used_bytes current_pool) (shared_used_bytes current)) (\<lambda>cu.
     bindE (checked_sub (shared_bytes current_pool) (max_bytes current)) (\<lambda>cs.
     let s = internal_set_shared_storage_pool (pool_id current)
               (current_pool\<lparr>pool_used_bytes := cu, shared_bytes := cs\<rparr>) s;
         new = new\<lparr>shared_used_bytes := shared_used_bytes current\<rparr> in
     bindE (checked_add 64 (pool_used_bytes p) (shared_used_bytes new)) (\<lambda>nu.
     bindE (checked_add 64 (shared_bytes p) (max_bytes new)) (\<lambda>nb.
     Inr (new, internal_set_shared_storage_pool (pool_id new)
                 (p\<lparr>pool_used_bytes := nu, shared_bytes := nb\<rparr>) s)))))))))))"

definition share_first ::
  "nat \<Rightarrow> account_id \<Rightarrow> shared_storage_pool \<Rightarrow> social \<Rightarrow> (account_shared_storage \<times> social) res" where
  "share_first max_b pool p s =
     bindE (checked_add 64 (shared_bytes p) max_b) (\<lambda>n.
     Inr (\<lparr>max_bytes = max_b, shared_used_bytes = 0, pool_id = pool\<rparr>,
          internal_set_shared_storage_pool pool (p\<lparr>shared_bytes := n\<rparr>) s))"

definition share_storage :: "social_host \<Rightarrow> account_id \<Rightarrow> nat \<Rightarrow> social \<Rightarrow> social res" where
  "share_storage e account_id max_b s =
     bindE (ensure (\<not> max_b < MIN_STORAGE_BYTES) ''Max bytes must be at least 2000'') (\<lambda>_.
     let pool = env_predecessor_account_id e in
     bindE (internal_get_account_social s account_id) (\<lambda>found.
     bindE (internal_unwrap_shared_storage_pool s pool) (\<lambda>p.
     bindE (pool_available_bytes e p) (\<lambda>available.
     bindE (ensure (\<not> available < max_b) ''Not enough storage available in the shared storage pool'') (\<lambda>_.
     case found of
       Some a \<Rightarrow>
         bindE (case shared_storage a of
                  Some current \<Rightarrow>
                    bindE (ensure (\<not> max_b < shared_used_bytes current)
                      ''Max bytes must be greater than or equal to used bytes'') (\<lambda>_.
                    if pool_id current = pool then share_more max_b current p s
                    else share_instead e max_b pool current p s)
                | None \<Rightarrow> share_first max_b pool p s) (\<lambda>(new, s).
         let a = a\<lparr>shared_storage := Some new\<rparr> in
         bindE (start e s default_tracker) (\<lambda>t.
         bindE (internal_set_account e a s) (\<lambda>(_, s).
         bindE (stop e s t) (\<lambda>t.
         bindE (internal_unwrap_account s account_id) (\<lambda>a.
         bindE (consume (tracker a) t) (\<lambda>(t, _).
         bindE (internal_set_account e (a\<lparr>tracker := t\<rparr>) s) (\<lambda>(_, s). Inr s)))))))
     | None \<Rightarrow>
         bindE (checked_add 64 (shared_bytes p) max_b) (\<lambda>n.
         let s = internal_set_shared_storage_pool pool (p\<lparr>shared_bytes := n\<rparr>) s in
         internal_create_account_from_shared_storage e account_id max_b pool s))))))"

definition get_account_storage :: "social_host \<Rightarrow> social \<Rightarrow> account_id \<Rightarrow> storage_view option res" where
  "get_account_storage e s account_id =
     bindE (internal_get_account_social s account_id) (\<lambda>found.
     case found of
       None \<Rightarrow> Inr None
     | Some a \<Rightarrow>
         bindE (case shared_storage a of
                  Some sh \<Rightarrow>
                    bindE (internal_unwrap_shared_storage_pool s (pool_id sh)) (\<lambda>p. available_bytes e sh p)
                | None \<Rightarrow> Inr 0) (\<lambda>available_shared.
         bindE (checked_sub (used_bytes a) (shared_used a)) (\<lambda>own.
         bindE (checked_sub (storage_balance a mod 2 ^ 64) own) (\<lambda>available.
         bindE (checked_add 64 available available_shared) (\<lambda>n.
         Inr (Some \<lparr>view_used_bytes = used_bytes a, view_available_bytes = n\<rparr>))))))"

subsection \<open>Migration (\<open>upgrade.rs\<close>)\<close>

definition assert_genesis :: "social \<Rightarrow> unit res" where
  "assert_genesis s = ensure (status s = Genesis) ''The status should be set to Genesis''"

text \<open>\<open>state_read\<close> is the old state, if there is one; it becomes the new state as it is.\<close>

definition migrate_state :: "social_host \<Rightarrow> social option \<Rightarrow> social res" where
  "migrate_state e old =
     bindE (assert_private e) (\<lambda>_. expect old ''Old state doesn't exist'')"

definition genesis_init_node_count :: "social_host \<Rightarrow> nat \<Rightarrow> social \<Rightarrow> social res" where
  "genesis_init_node_count e n s =
     bindE (assert_private e) (\<lambda>_.
     bindE (assert_genesis s) (\<lambda>_. Inr (s\<lparr>node_count := n\<rparr>)))"

definition populate_node :: "social_host \<Rightarrow> partial_node \<Rightarrow> node \<Rightarrow> node" where
  "populate_node e p n =
     n\<lparr>children := fold (\<lambda>(key, value) cs. AList.update key (into_current_height e value) cs)
                     (pn_children p) (children n)\<rparr>"

definition genesis_init_node :: "social_host \<Rightarrow> partial_node \<Rightarrow> social \<Rightarrow> social res" where
  "genesis_init_node e p s =
     (if pn_node_id p = 0 then Inr (s\<lparr>root_node := populate_node e p (root_node s)\<rparr>)
      else
        bindE (case internal_get_node s (pn_node_id p) of
                 Some n \<Rightarrow> Inr n | None \<Rightarrow> node_new e (pn_node_id p) None) (\<lambda>n.
        Inr (internal_set_node e (populate_node e p n) s)))"

definition genesis_init_nodes :: "social_host \<Rightarrow> partial_node list \<Rightarrow> social \<Rightarrow> social res" where
  "genesis_init_nodes e ps s =
     bindE (assert_private e) (\<lambda>_.
     bindE (assert_genesis s) (\<lambda>_. foldE (genesis_init_node e) ps s))"

definition genesis_init_account ::
  "social_host \<Rightarrow> account_id \<times> partial_account \<Rightarrow> social \<Rightarrow> social res" where
  "genesis_init_account e aa s =
     (let (account_id, pa) = aa in
      bindE (expect (map_of (children (root_node s)) account_id)
        ''Missing account node, make sure initializing nodes first'') (\<lambda>value.
      bindE (case value of
               Node i \<Rightarrow>
                 (case accounts s i of
                    Some v \<Rightarrow> bindE (of_v_account v) (\<lambda>a. Inr (a\<lparr>account_node_id := i\<rparr>))
                  | None \<Rightarrow> Inr (account_new i))
             | _ \<Rightarrow> Inl (Panic ''Unexpected account key. The value is not a node.'')) (\<lambda>a.
      bindE (ensure (account_node_id a = pa_node_id pa) ''Account Node ID mismatch'') (\<lambda>_.
      let i = account_node_id a;
          a = a\<lparr>storage_balance := pa_storage_balance pa, used_bytes := pa_used_bytes pa\<rparr> in
      Inr (s\<lparr>permissions := (permissions s)(i := permissions s i ++ map_of (rev (pa_permissions pa))),
             accounts := (accounts s)(pa_node_id pa \<mapsto> Current a)\<rparr>)))))"

definition genesis_init_accounts ::
  "social_host \<Rightarrow> (account_id \<times> partial_account) list \<Rightarrow> social \<Rightarrow> social res" where
  "genesis_init_accounts e aas s =
     bindE (assert_private e) (\<lambda>_.
     bindE (assert_genesis s) (\<lambda>_. foldE (genesis_init_account e) aas s))"

end
