(* ===== verification/SocialApi.thy ===== *)
theory SocialApi
  imports SocialMethods
begin

section \<open>The social contract: get, keys and set (\<open>api.rs\<close>)\<close>

text \<open>
  A \<open>serde_json\<close> map that the source passes as \<open>&mut\<close> is an argument and a result; the inner object
  that \<open>json_map_get_inner_object\<close> borrows is read out, changed and written back. \<open>get\<close> with the
  pattern \<open>**\<close> follows the node graph: on a cyclic one it would run until its gas is used up. So the
  recursion has a \<open>gas\<close> argument, the depth that the call can pay for, and panics with
  \<open>Out_of_gas\<close> when it is used up.
\<close>

subsection \<open>Options and constants\<close>

definition STAR :: string where "STAR = ''*''"
definition RECURSIVE_STAR :: string where "RECURSIVE_STAR = ''**''"
definition KEY_BLOCK_HEIGHT :: string where "KEY_BLOCK_HEIGHT = '':block''"
definition KEY_NODE_ID :: string where "KEY_NODE_ID = '':node''"

record get_options =
  with_block_height :: "bool option"
  with_node_id :: "bool option"
  return_deleted :: "bool option"

datatype keys_return_type = ReturnTrue | BlockHeight | NodeId

record keys_options =
  return_type :: "keys_return_type option"
  keys_return_deleted :: "bool option"
  values_only :: "bool option"

record set_options =
  refund_unused_deposit :: "bool option"

fun unwrap_or :: "'a option \<Rightarrow> 'a \<Rightarrow> 'a" where
  "unwrap_or (Some x) y = x"
| "unwrap_or None y = y"

subsection \<open>JSON maps\<close>

lemma size_map_of_json: "map_of res key = Some v \<Longrightarrow> size v < size_list (size_prod (\<lambda>_. 0) size) res"
  by (induction res) (auto split: if_splits)

definition json_map_get_inner_object :: "json_map \<Rightarrow> string \<Rightarrow> json_map" where
  "json_map_get_inner_object res key =
     (case map_of res key of
        None \<Rightarrow> []
      | Some (JObj o') \<Rightarrow> o'
      | Some prev_value \<Rightarrow> [(EMPTY_KEY, prev_value)])"

definition json_map_set_value :: "string \<Rightarrow> json \<Rightarrow> json_map \<Rightarrow> json_map" where
  "json_map_set_value key value res =
     (case map_of res key of
        None \<Rightarrow> AList.update key value res
      | Some (JObj o') \<Rightarrow> AList.update key (JObj (AList.update EMPTY_KEY value o')) res
      | Some _ \<Rightarrow> res)"

function json_map_set_key :: "get_options \<Rightarrow> node_value \<Rightarrow> string \<Rightarrow> json_map \<Rightarrow> json_map" where
  "json_map_set_key opts v key res =
     (case map_of res key of
        None \<Rightarrow>
          (case (case v of
                   Value vh \<Rightarrow> Some (JStr (vh_value vh))
                 | DeletedEntry _ \<Rightarrow> if return_deleted opts = Some True then Some JNull else None
                 | Node _ \<Rightarrow> None) of
             None \<Rightarrow> res
           | Some new_value \<Rightarrow>
               if with_block_height opts = Some True then
                 AList.update key (JObj [(KEY_BLOCK_HEIGHT, JNum (the (get_block_height v))),
                                         (EMPTY_KEY, new_value)]) res
               else AList.update key new_value res)
      | Some (JObj o') \<Rightarrow> AList.update key (JObj (json_map_set_key opts v EMPTY_KEY o')) res
      | Some _ \<Rightarrow> res)"
  by pat_completeness auto
termination
  by (relation "measure (\<lambda>(opts, v, key, res). size_list (size_prod (\<lambda>_. 0) size) res)")
    (auto dest: size_map_of_json)

declare json_map_set_key.simps [simp del]

text \<open>\<open>retain\<close> of \<open>json_map_recursive_cleanup\<close>: the entries kept, and how many of them are special.\<close>

fun retain :: "json_map \<Rightarrow> json_map \<times> nat" where
  "retain [] = ([], 0)"
| "retain ((key, value) # rest) =
     (let (kept, num_special_keys) = retain rest in
      if take 1 key = '':'' then ((key, value) # kept, num_special_keys + 1)
      else case value of
        JObj o' \<Rightarrow>
          (let (kept', special') = retain o' in
           if special' < length kept' then ((key, JObj kept') # kept, num_special_keys)
           else (kept, num_special_keys))
      | _ \<Rightarrow> ((key, value) # kept, num_special_keys))"

definition json_map_recursive_cleanup :: "json_map \<Rightarrow> json_map \<times> bool" where
  "json_map_recursive_cleanup res =
     (let (kept, num_special_keys) = retain res in (kept, num_special_keys < length kept))"

subsection \<open>Reading\<close>

text \<open>The path of a key: a trailing separator is dropped; \<open>None\<close> if the key is skipped.\<close>

definition key_path :: "string \<Rightarrow> string list option" where
  "key_path key =
     (let path = split SEPARATOR key in
      if path \<noteq> [] \<and> last path = EMPTY_KEY then
        let path = butlast path in
        if path \<noteq> [] \<and> last path = EMPTY_KEY then None
        else if path = [] then None else Some path
      else if path = [] then None else Some path)"

definition get_entry ::
  "(json_map \<Rightarrow> node \<Rightarrow> string list \<Rightarrow> json_map res) \<Rightarrow> social \<Rightarrow> get_options \<Rightarrow> string list
     \<Rightarrow> string \<times> node_value \<Rightarrow> json_map \<Rightarrow> json_map res" where
  "get_entry rec s opts keys kv res =
     (let (key, value) = kv; match_all = hd keys = RECURSIVE_STAR in
      case value of
        Node i \<Rightarrow>
          bindE (internal_unwrap_node s i) (\<lambda>inner_node.
          if 1 < length keys \<or> match_all then
            let inner_map = json_map_get_inner_object res key in
            bindE (if 1 < length keys then rec inner_map inner_node (tl keys) else Inr inner_map) (\<lambda>inner_map.
            bindE (if match_all then rec inner_map inner_node keys else Inr inner_map) (\<lambda>inner_map.
            Inr (AList.update key (JObj inner_map) res)))
          else
            case map_of (children inner_node) EMPTY_KEY of
              Some node_value \<Rightarrow>
                let res = (if with_node_id opts = Some True then
                             AList.update key (JObj (AList.update KEY_NODE_ID (JNum (node_id inner_node))
                               (json_map_get_inner_object res key))) res
                           else res) in
                Inr (json_map_set_key opts node_value key res)
            | None \<Rightarrow> Inr res)
      | _ \<Rightarrow> Inr (if length keys = 1 then json_map_set_key opts value key res else res))"

definition matched_entries :: "string \<Rightarrow> bool \<Rightarrow> node \<Rightarrow> (string \<times> node_value) list" where
  "matched_entries pattern everything n =
     (if everything then children n
      else case map_of (children n) pattern of Some value \<Rightarrow> [(pattern, value)] | None \<Rightarrow> [])"

fun recursive_get ::
  "nat \<Rightarrow> social \<Rightarrow> get_options \<Rightarrow> json_map \<Rightarrow> node \<Rightarrow> string list \<Rightarrow> json_map res" where
  "recursive_get 0 s opts res n keys = Inl Out_of_gas"
| "recursive_get (Suc gas) s opts res n keys =
     bindE (ensure (keys \<noteq> []) ''index out of bounds'') (\<lambda>_.
     let match_all = hd keys = RECURSIVE_STAR in
     bindE (ensure (match_all \<longrightarrow> length keys = 1) ''pattern can only be used as a suffix'') (\<lambda>_.
     let entries = matched_entries (hd keys) (hd keys = STAR \<or> match_all) n;
         res = (if with_block_height opts = Some True
                then AList.update KEY_BLOCK_HEIGHT (JNum (block_height n)) res else res);
         res = (if with_node_id opts = Some True
                then AList.update KEY_NODE_ID (JNum (node_id n)) res else res) in
     foldE (get_entry (recursive_get gas s opts) s opts keys) entries res))"

definition get_data :: "nat \<Rightarrow> social \<Rightarrow> string list \<Rightarrow> get_options option \<Rightarrow> json res" where
  "get_data gas s keys opts =
     (let opts = unwrap_or opts \<lparr>with_block_height = None, with_node_id = None, return_deleted = None\<rparr> in
      bindE (foldE (\<lambda>key res. case key_path key of
                 None \<Rightarrow> Inr res
               | Some path \<Rightarrow> recursive_get gas s opts res (root_node s) path) keys []) (\<lambda>res.
      Inr (JObj (fst (json_map_recursive_cleanup res)))))"

definition return_value :: "keys_options \<Rightarrow> nat option \<Rightarrow> json \<Rightarrow> json res" where
  "return_value opts height node_id_value =
     (case unwrap_or (return_type opts) ReturnTrue of
        ReturnTrue \<Rightarrow> Inr (JBool True)
      | BlockHeight \<Rightarrow> bindE (unwrap height) (\<lambda>h. Inr (JNum h))
      | NodeId \<Rightarrow> Inr node_id_value)"

definition keys_entry ::
  "(json_map \<Rightarrow> node \<Rightarrow> string list \<Rightarrow> json_map res) \<Rightarrow> social \<Rightarrow> keys_options \<Rightarrow> string list
     \<Rightarrow> string \<times> node_value \<Rightarrow> json_map \<Rightarrow> json_map res" where
  "keys_entry rec s opts keys kv res =
     (let (key, value) = kv in
      case value of
        Node i \<Rightarrow>
          if length keys = 1 then
            if unwrap_or (values_only opts) False then
              bindE (internal_unwrap_node s i) (\<lambda>inner_node.
              case map_of (children inner_node) EMPTY_KEY of
                Some node_value \<Rightarrow>
                  if unwrap_or (keys_return_deleted opts) False
                     \<or> \<not> (case node_value of DeletedEntry _ \<Rightarrow> True | _ \<Rightarrow> False)
                  then bindE (return_value opts (get_block_height node_value) (JNum i)) (\<lambda>v.
                       Inr (json_map_set_value key v res))
                  else Inr res
              | None \<Rightarrow> Inr res)
            else
              bindE (case unwrap_or (return_type opts) ReturnTrue of
                       BlockHeight \<Rightarrow>
                         bindE (internal_unwrap_node s i) (\<lambda>inner_node. Inr (JNum (block_height inner_node)))
                     | _ \<Rightarrow> return_value opts None (JNum i)) (\<lambda>v.
              Inr (json_map_set_value key v res))
          else
            bindE (internal_unwrap_node s i) (\<lambda>inner_node.
            bindE (rec (json_map_get_inner_object res key) inner_node (tl keys)) (\<lambda>inner_map.
            Inr (AList.update key (JObj inner_map) res)))
      | Value vh \<Rightarrow>
          if length keys = 1 then
            bindE (return_value opts (Some (vh_block_height vh)) JNull) (\<lambda>v.
            Inr (json_map_set_value key v res))
          else Inr res
      | DeletedEntry h \<Rightarrow>
          if length keys = 1 \<and> unwrap_or (keys_return_deleted opts) False then
            bindE (return_value opts (Some h) JNull) (\<lambda>v. Inr (json_map_set_value key v res))
          else Inr res)"

fun recursive_keys ::
  "nat \<Rightarrow> social \<Rightarrow> keys_options \<Rightarrow> json_map \<Rightarrow> node \<Rightarrow> string list \<Rightarrow> json_map res" where
  "recursive_keys 0 s opts res n keys = Inl Out_of_gas"
| "recursive_keys (Suc gas) s opts res n keys =
     bindE (ensure (keys \<noteq> []) ''index out of bounds'') (\<lambda>_.
     foldE (keys_entry (recursive_keys gas s opts) s opts keys)
       (matched_entries (hd keys) (hd keys = STAR) n) res)"

definition keys_data :: "nat \<Rightarrow> social \<Rightarrow> string list \<Rightarrow> keys_options option \<Rightarrow> json res" where
  "keys_data gas s ks opts =
     (let opts = unwrap_or opts \<lparr>return_type = None, keys_return_deleted = None, values_only = None\<rparr> in
      bindE (foldE (\<lambda>key res. case key_path key of
                 None \<Rightarrow> Inr res
               | Some path \<Rightarrow> recursive_keys gas s opts res (root_node s) path) ks []) (\<lambda>res.
      Inr (JObj (fst (json_map_recursive_cleanup res)))))"

subsection \<open>Writing\<close>

fun is_leaf :: "json \<Rightarrow> bool" where
  "is_leaf (JStr _) = True"
| "is_leaf JNull = True"
| "is_leaf _ = False"

text \<open>
  What \<open>recursive_set\<close> does with the node \<open>n\<close> for one entry of an object: a leaf is written to \<open>n\<close>;
  otherwise the child node is returned in which the value is to be set, created if necessary.
\<close>

definition set_child ::
  "social_host \<Rightarrow> bool \<Rightarrow> string \<Rightarrow> json \<Rightarrow> node \<Rightarrow> social \<Rightarrow> (node \<times> node option \<times> social) res" where
  "set_child e write_approved key value n s =
     bindE (assert_key_valid key) (\<lambda>_.
     case map_of (children n) key of
       None \<Rightarrow>
         bindE (ensure write_approved ERR_PERMISSION_DENIED) (\<lambda>_.
         if is_leaf value then bindE (node_set e key value n) (\<lambda>n. Inr (n, None, s))
         else
           bindE (create_node_id s) (\<lambda>(i, s).
           let n = n\<lparr>children := AList.update key (Node i) (children n)\<rparr> in
           bindE (node_new e i None) (\<lambda>below. Inr (n, Some below, s))))
     | Some (Node i) \<Rightarrow> bindE (internal_unwrap_node s i) (\<lambda>below. Inr (n, Some below, s))
     | Some old \<Rightarrow>
         bindE (ensure write_approved ERR_PERMISSION_DENIED) (\<lambda>_.
         if is_leaf value then bindE (node_set e key value n) (\<lambda>n. Inr (n, None, s))
         else
           bindE (ensure (key \<noteq> EMPTY_KEY) ''The empty key's value should be a string or null'') (\<lambda>_.
           bindE (create_node_id s) (\<lambda>(i, s).
           let n = n\<lparr>children := AList.update key (Node i) (children n)\<rparr> in
           bindE (node_new e i (Some old)) (\<lambda>below. Inr (n, Some below, s))))))"

function recursive_set ::
    "social_host \<Rightarrow> node_id set \<Rightarrow> bool \<Rightarrow> json \<Rightarrow> node \<Rightarrow> social \<Rightarrow> social res"
  and set_entries ::
    "social_host \<Rightarrow> node_id set \<Rightarrow> bool \<Rightarrow> json_map \<Rightarrow> node \<Rightarrow> social \<Rightarrow> (node \<times> social) res" where
  "recursive_set e writable write_approved value n s =
     (let write_approved = write_approved \<or> node_id n \<in> writable in
      bindE (if is_leaf value then
               bindE (ensure write_approved ERR_PERMISSION_DENIED) (\<lambda>_.
               bindE (node_set e EMPTY_KEY value n) (\<lambda>n. Inr (n, s)))
             else case value of
               JObj obj \<Rightarrow> set_entries e writable write_approved obj n s
             | _ \<Rightarrow> Inl (Panic ''The JSON value is not a string, a null or an object'')) (\<lambda>(n, s).
      Inr (internal_set_node e n s)))"
| "set_entries e writable write_approved [] n s = Inr (n, s)"
| "set_entries e writable write_approved ((key, value) # rest) n s =
     bindE (set_child e write_approved key value n s) (\<lambda>(n, child, s).
     bindE (case child of
              None \<Rightarrow> Inr s
            | Some below \<Rightarrow> recursive_set e writable write_approved value below s) (\<lambda>s.
     set_entries e writable write_approved rest n s))"
  by pat_completeness auto
termination
  by (relation "measure (case_sum (\<lambda>(e, w, a, value, n, s). size value)
        (\<lambda>(e, w, a, obj, n, s). size_list (size_prod (\<lambda>_. 0) size) obj))") auto

declare recursive_set.simps [simp del]

text \<open>One round of the loop of \<open>set\<close>; the first key receives all the deposit.\<close>

definition set_entry ::
  "social_host \<Rightarrow> set_options \<Rightarrow> string \<times> json \<Rightarrow> nat \<times> social \<times> social_promise list
     \<Rightarrow> (nat \<times> social \<times> social_promise list) res" where
  "set_entry e opts kv st =
     (let (key, value) = kv; (attached_balance, s, ps) = st in
      bindE (internal_unwrap_account_or_create e key attached_balance s) (\<lambda>(a, s, ps1).
      let write_approved = (key = env_predecessor_account_id e);
          writable = (if write_approved then {} else internal_get_writeable_node_ids e s a) in
      bindE (internal_unwrap_node s (account_node_id a)) (\<lambda>n.
      bindE (start e s (tracker a)) (\<lambda>t.
      bindE (recursive_set e writable write_approved value n s) (\<lambda>s.
      bindE (stop e s t) (\<lambda>t.
      bindE (internal_set_account e (a\<lparr>tracker := t\<rparr>) s) (\<lambda>(_, s).
      bindE (if unwrap_or (refund_unused_deposit opts) False \<and> 0 < attached_balance then
               bindE (expect (env_parse_account_id e key) ''key is valid account id'') (\<lambda>account_id.
               bindE (internal_storage_balance_of e s account_id) (\<lambda>found.
               case found of
                 None \<Rightarrow> Inr (s, [])
               | Some b \<Rightarrow>
                   let refund = min (sb_available b) attached_balance in
                   bindE (internal_storage_withdraw e account_id (Some refund) s) (\<lambda>(_, s, ps). Inr (s, ps))))
             else Inr (s, [])) (\<lambda>(s, ps2).
      Inr (0, s, ps @ ps1 @ ps2)))))))))"

definition set_data :: "social_host \<Rightarrow> json \<Rightarrow> set_options option \<Rightarrow> social \<Rightarrow> (social \<times> social_promise list) res" where
  "set_data e data opts s =
     bindE (assert_live s) (\<lambda>_.
     let opts = unwrap_or opts \<lparr>refund_unused_deposit = None\<rparr> in
     bindE (case data of JObj obj \<Rightarrow> Inr obj | _ \<Rightarrow> Inl (Panic ''Data is not a JSON object'')) (\<lambda>obj.
     bindE (foldE (set_entry e opts) obj (env_attached_deposit e, s, [])) (\<lambda>(attached_balance, s, ps).
     bindE (ensure (\<not> 0 < attached_balance) ''The attached deposit could not be added to any account'') (\<lambda>_.
     Inr (s, ps)))))"

end
