(* ===== verification/SocialTree.thy ===== *)
theory SocialTree
  imports SocialApi
begin

section \<open>The social contract: the nodes form a tree\<close>

text \<open>
  The nodes are a store indexed by node IDs, and node IDs occur as values in it. What makes them a
  forest: a child is always younger than its parent (it has a larger ID) and has no other parent.
  \<open>recursive_set\<close> keeps the node that it changes outside of the store until it has changed the nodes
  below; \<open>save n s\<close> is the store with this node written back, and the invariant is kept for the store
  with and without it. \<open>wrote\<close> says what a call changes: the tree stays one and only grows, no node older
  than the given one is touched, and a node whose entries change lies below the given one and, unless
  the call is approved, below a writable one.
\<close>

subsection \<open>Children, edges, paths\<close>

definition kids :: "social \<Rightarrow> node_id \<Rightarrow> (string \<times> node_value) list" where
  "kids s i = (if i = 0 then children (root_node s)
     else case nodes s i of Some n \<Rightarrow> children n | None \<Rightarrow> [])"

definition pedge :: "social \<Rightarrow> node_id \<Rightarrow> string \<Rightarrow> node_id \<Rightarrow> bool" where
  "pedge s p k c \<longleftrightarrow> map_of (kids s p) k = Some (Node c)"

definition edge :: "social \<Rightarrow> node_id \<Rightarrow> node_id \<Rightarrow> bool" where
  "edge s p c \<longleftrightarrow> (\<exists>k. pedge s p k c)"

definition below :: "social \<Rightarrow> node_id \<Rightarrow> node_id \<Rightarrow> bool" where
  "below s = (edge s)\<^sup>*\<^sup>*"

definition wf_tree :: "social \<Rightarrow> bool" where
  "wf_tree s \<longleftrightarrow> 0 < node_count s
     \<and> (\<forall>i \<in> dom (nodes s). 0 < i \<and> i < node_count s)
     \<and> (\<forall>i. distinct (map fst (kids s i)))
     \<and> (\<forall>i k. 0 < i \<longrightarrow> k \<in> dom (map_of (kids s i)) \<longrightarrow> is_key_valid k)
     \<and> (\<forall>p k c. pedge s p k c \<longrightarrow> p < c \<and> c \<in> dom (nodes s))
     \<and> (\<forall>p k p' k' c. pedge s p k c \<longrightarrow> pedge s p' k' c \<longrightarrow> p = p' \<and> k = k')"

lemma wf_treeD:
  assumes "wf_tree s"
  shows "0 < node_count s"
    and "nodes s i = Some n \<Longrightarrow> 0 < i" and "nodes s i = Some n \<Longrightarrow> i < node_count s"
    and "distinct (map fst (kids s i))"
    and "0 < i \<Longrightarrow> map_of (kids s i) k = Some v \<Longrightarrow> is_key_valid k"
    and "pedge s p k c \<Longrightarrow> p < c" and "pedge s p k c \<Longrightarrow> c \<in> dom (nodes s)"
    and "pedge s p k c \<Longrightarrow> c < node_count s"
    and "pedge s p k c \<Longrightarrow> pedge s p' k' c \<Longrightarrow> p = p' \<and> k = k'"
  using assms unfolding wf_tree_def by blast+

lemma below_refl [simp]: "below s i i"
  by (simp add: below_def)

lemma below_trans: "below s i j \<Longrightarrow> below s j k \<Longrightarrow> below s i k"
  unfolding below_def by (rule rtranclp_trans)

lemma below_edge: "pedge s p k c \<Longrightarrow> below s c j \<Longrightarrow> below s p j"
  unfolding below_def by (rule converse_rtranclp_into_rtranclp) (auto simp: edge_def)

lemma below_induct [consumes 1, case_names refl step]:
  assumes "below s i j" and "P i"
    and "\<And>j k c. below s i j \<Longrightarrow> pedge s j k c \<Longrightarrow> P j \<Longrightarrow> P c"
  shows "P j"
  using assms(1) unfolding below_def
proof (induction rule: rtranclp_induct)
  case base
  show ?case by (rule assms(2))
next
  case (step y z)
  then show ?case using assms(3) unfolding below_def edge_def by blast
qed

lemma below_le: "below s i j \<Longrightarrow> wf_tree s \<Longrightarrow> i \<le> j"
  by (induction rule: below_induct) (auto dest: wf_treeD(6))

lemma below_stored:
  assumes "below s i j" and "wf_tree s" and "i \<in> dom (nodes s)"
  shows "j \<in> dom (nodes s)"
  using assms(1)
proof (induction rule: below_induct)
  case refl
  show ?case by (rule assms(3))
next
  case (step j k c)
  show ?case by (rule wf_treeD(7) [OF assms(2) step(2)])
qed

text \<open>Two nodes above the same one are one above the other.\<close>

lemma below_linear:
  assumes "wf_tree s" and "below s a j" and "below s b j"
  shows "below s a b \<or> below s b a"
  using assms(2,3)
proof (induction rule: below_induct)
  case refl
  then show ?case by simp
next
  case (step j k c)
  show ?case
  proof (cases "b = c")
    case True
    have "below s j c" using step(2) by (rule below_edge) simp
    with True below_trans [OF step(1)] show ?thesis by simp
  next
    case False
    from step.prems obtain p k' where p: "below s b p" "pedge s p k' c"
      using False unfolding below_def edge_def by (auto elim: rtranclp.cases)
    with wf_treeD(9) [OF assms(1) step(2) p(2)] step.IH show ?thesis by simp
  qed
qed

text \<open>The subtrees of two children of a node do not meet.\<close>

lemma subtrees_disjoint:
  assumes "wf_tree s" and "pedge s p k c" and "pedge s p k' c'" and "k \<noteq> k'"
    and "below s c j" and "below s c' j"
  shows False
proof -
  have no: False if *: "below s a b" "pedge s p x a" "pedge s p y b" "x \<noteq> y" for a b x y
  proof (cases "a = b")
    case True
    with wf_treeD(9) [OF assms(1) *(2)] *(3,4) show False by auto
  next
    case False
    with *(1) obtain q z where q: "below s a q" "pedge s q z b"
      unfolding below_def edge_def by (auto elim: rtranclp.cases)
    with wf_treeD(9) [OF assms(1) q(2) *(3)] have "q = p" by simp
    with below_le [OF q(1) assms(1)] wf_treeD(6) [OF assms(1) *(2)] show False by simp
  qed
  from below_linear [OF assms(1,5,6)] show False
    using no [OF _ assms(2,3)] no [OF _ assms(3,2)] assms(4) by metis
qed

subsection \<open>Writing a node back\<close>

definition save :: "node \<Rightarrow> social \<Rightarrow> social" where
  "save n s = s\<lparr>nodes := (nodes s)(node_id n \<mapsto> n)\<rparr>"

lemma save_simps [simp]:
  "accounts (save n s) = accounts s" "root_node (save n s) = root_node s"
  "node_count (save n s) = node_count s" "status (save n s) = status s"
  "shared_storage_pools (save n s) = shared_storage_pools s"
  "permissions (save n s) = permissions s"
  "nodes (save n s) = (nodes s)(node_id n \<mapsto> n)"
  by (simp_all add: save_def)

lemma kids_save: "0 < node_id n \<Longrightarrow> kids (save n s) i = (if i = node_id n then children n else kids s i)"
  by (simp add: kids_def)

lemma internal_set_node_save: "internal_set_node e n s = save (n\<lparr>block_height := env_block_height e\<rparr>) s"
  by (simp add: internal_set_node_def save_def)

text \<open>States that have the same tree, whatever else they have.\<close>

definition same_tree :: "social \<Rightarrow> social \<Rightarrow> bool" where
  "same_tree s t \<longleftrightarrow> kids t = kids s \<and> dom (nodes t) = dom (nodes s) \<and> node_count t = node_count s"

lemma same_tree_simps:
  assumes "same_tree s t"
  shows "kids t = kids s" and "dom (nodes t) = dom (nodes s)" and "node_count t = node_count s"
    and "pedge t = pedge s" and "below t = below s" and "wf_tree t \<longleftrightarrow> wf_tree s"
proof -
  show k: "kids t = kids s" and d: "dom (nodes t) = dom (nodes s)" and c: "node_count t = node_count s"
    using assms by (simp_all add: same_tree_def)
  show p: "pedge t = pedge s" by (simp add: pedge_def k fun_eq_iff)
  have "edge t = edge s" by (simp add: edge_def p fun_eq_iff)
  then show "below t = below s" by (simp add: below_def)
  show "wf_tree t \<longleftrightarrow> wf_tree s" by (simp add: wf_tree_def k d c p)
qed

lemma same_tree_refl [simp]: "same_tree s s"
  by (simp add: same_tree_def)

lemma same_tree_trans: "same_tree s t \<Longrightarrow> same_tree t u \<Longrightarrow> same_tree s u"
  by (simp add: same_tree_def)

lemma same_treeI: "nodes t = nodes s \<Longrightarrow> root_node t = root_node s \<Longrightarrow> node_count t = node_count s \<Longrightarrow> same_tree s t"
  by (auto simp: same_tree_def kids_def intro!: ext)

lemma same_tree_block_height: "0 < node_id n \<Longrightarrow> same_tree (save n s) (save (n\<lparr>block_height := h\<rparr>) s)"
  by (simp add: same_tree_def kids_save fun_eq_iff)

text \<open>A node read from the store and written back, whatever is stored as its own ID.\<close>

lemma same_tree_reload:
  assumes "internal_unwrap_node s i = Inr n" and "0 < i"
  shows "same_tree s (save n s)" and "node_id n = i"
proof -
  from assms(1) obtain m where m: "nodes s i = Some m" "n = m\<lparr>node_id := i\<rparr>"
    by (auto simp: internal_unwrap_node_def internal_get_node_def)
  then show "node_id n = i" by simp
  with m assms(2) show "same_tree s (save n s)"
    by (auto simp: same_tree_def kids_save fun_eq_iff kids_def)
qed

lemma internal_unwrap_node_Inr:
  "internal_unwrap_node s i = Inr n \<longleftrightarrow> (\<exists>m. nodes s i = Some m \<and> n = m\<lparr>node_id := i\<rparr>)"
  by (auto simp: internal_unwrap_node_def internal_get_node_def)

subsection \<open>Growing\<close>

definition grows :: "social \<Rightarrow> social \<Rightarrow> bool" where
  "grows s t \<longleftrightarrow> node_count s \<le> node_count t \<and> dom (nodes s) \<subseteq> dom (nodes t)
     \<and> (\<forall>p k c. pedge s p k c \<longrightarrow> pedge t p k c)
     \<and> (\<forall>p k c. pedge t p k c \<longrightarrow> pedge s p k c \<or> node_count s \<le> c)"

lemma growsD:
  assumes "grows s t"
  shows "node_count s \<le> node_count t" and "i \<in> dom (nodes s) \<Longrightarrow> i \<in> dom (nodes t)"
    and "pedge s p k c \<Longrightarrow> pedge t p k c" and "pedge t p k c \<Longrightarrow> c < node_count s \<Longrightarrow> pedge s p k c"
  using assms unfolding grows_def by (blast, blast, blast, force)

lemma same_tree_grows: "same_tree s t \<Longrightarrow> grows s t"
  by (simp add: grows_def same_tree_simps)

lemma grows_refl [simp]: "grows s s"
  by (simp add: same_tree_grows)

lemma grows_trans: "grows s t \<Longrightarrow> grows t u \<Longrightarrow> grows s u"
  unfolding grows_def by (meson le_trans order_trans)

lemma grows_below: "below s i j \<Longrightarrow> grows s t \<Longrightarrow> below t i j"
proof (induction rule: below_induct)
  case (step j k c)
  have "below t j c" by (rule below_edge [OF growsD(3) [OF step.prems step(2)]]) simp
  with step show ?case by (blast intro: below_trans)
qed simp

text \<open>Between old nodes there are no new paths.\<close>

lemma grows_below_old:
  assumes "grows s t" and "wf_tree t" and "below t i j" and "j < node_count s"
  shows "below s i j"
  using assms(3,4)
proof (induction rule: below_induct)
  case (step j k c)
  have "pedge s j k c" using growsD(4) [OF assms(1) step(2)] step.prems by simp
  moreover have "j < node_count s" using wf_treeD(6) [OF assms(2) step(2)] step.prems by simp
  ultimately show ?case using step.IH below_edge [of s j k c c] below_trans by (metis below_refl)
qed simp

text \<open>
  While the node \<open>n\<close> is held outside, the store grows from \<open>s\<close> to \<open>t\<close>; then writing \<open>n\<close> back to \<open>t\<close>
  gives a tree if writing it back to \<open>s\<close> did.
\<close>

lemma save_grown:
  assumes "wf_tree (save n s)" and "wf_tree t" and "grows s t" and "0 < node_id n"
  shows "wf_tree (save n t)" and "grows (save n s) (save n t)"
proof -
  have id: "node_id n < node_count s" using wf_treeD(3) [OF assms(1), of "node_id n" n] by simp
  have p: "pedge (save n u) q k c \<longleftrightarrow> (if q = node_id n then map_of (children n) k = Some (Node c) else pedge u q k c)"
    for u q k c using assms(4) by (simp add: pedge_def kids_save)
  have old: "c < node_count s \<and> c \<in> dom (nodes (save n s))" if "map_of (children n) k = Some (Node c)" for k c
    using wf_treeD(7,8) [OF assms(1), of "node_id n" k c] that by (simp add: p)
  have one: "q = q' \<and> k = k'" if *: "pedge (save n t) q k c" "pedge (save n t) q' k' c" for q k q' k' c
  proof (cases "c < node_count s")
    case True
    have "pedge (save n s) q k c" "pedge (save n s) q' k' c"
      using * True growsD(4) [OF assms(3)] by (auto simp: p split: if_splits)
    then show ?thesis by (rule wf_treeD(9) [OF assms(1)])
  next
    case False
    with old have "q \<noteq> node_id n" "q' \<noteq> node_id n" using * by (auto simp: p)
    with * have "pedge t q k c" "pedge t q' k' c" by (auto simp: p)
    then show ?thesis by (rule wf_treeD(9) [OF assms(2)])
  qed
  have lt: "q < c \<and> c \<in> dom (nodes (save n t))" if *: "pedge (save n t) q k c" for q k c
  proof (cases "q = node_id n")
    case True
    with * have e: "map_of (children n) k = Some (Node c)" by (simp add: p)
    with old have "c \<in> dom (nodes (save n s))" by blast
    moreover have "q < c" using wf_treeD(6) [OF assms(1), of "node_id n" k c] e True by (simp add: p)
    ultimately show ?thesis using growsD(2) [OF assms(3)] by auto
  next
    case False
    with * have "pedge t q k c" by (simp add: p)
    then show ?thesis using wf_treeD(6,7) [OF assms(2)] by auto
  qed
  show "wf_tree (save n t)"
    unfolding wf_tree_def
  proof (intro conjI allI impI ballI)
    show "0 < node_count (save n t)" using wf_treeD(1) [OF assms(2)] by simp
    show "0 < i" "i < node_count (save n t)" if "i \<in> dom (nodes (save n t))" for i
      using that assms(4) id growsD(1) [OF assms(3)] wf_treeD(2,3) [OF assms(2), of i]
      by (auto split: if_splits)
    show "distinct (map fst (kids (save n t) i))" for i
      using wf_treeD(4) [OF assms(1), of "node_id n"] wf_treeD(4) [OF assms(2), of i] assms(4)
      by (simp add: kids_save)
    show "is_key_valid k" if "0 < i" "k \<in> dom (map_of (kids (save n t) i))" for i k
      using that wf_treeD(5) [OF assms(1), of "node_id n" k] wf_treeD(5) [OF assms(2), of i k] assms(4)
      by (auto simp: kids_save split: if_splits)
  qed (use lt one in blast)+
  show "grows (save n s) (save n t)"
    using assms(3) id unfolding grows_def by (auto simp: p)
qed

subsection \<open>What a write may change\<close>

definition rest_same :: "social \<Rightarrow> social \<Rightarrow> bool" where
  "rest_same s t \<longleftrightarrow> accounts t = accounts s \<and> root_node t = root_node s \<and> status t = status s
     \<and> shared_storage_pools t = shared_storage_pools s \<and> permissions t = permissions s"

definition changed :: "social \<Rightarrow> social \<Rightarrow> node_id \<Rightarrow> bool" where
  "changed s t i \<longleftrightarrow> i \<in> dom (nodes s) \<and> kids t i \<noteq> kids s i"

text \<open>
  From \<open>s\<close> to \<open>t\<close> a value was written to the node \<open>i\<close>: with general approval if \<open>approved\<close>, otherwise
  with approval for the subtrees of the nodes of \<open>W\<close>.
\<close>

definition wrote :: "node_id \<Rightarrow> node_id set \<Rightarrow> bool \<Rightarrow> social \<Rightarrow> social \<Rightarrow> bool" where
  "wrote i W approved s t \<longleftrightarrow> wf_tree t \<and> grows s t \<and> rest_same s t
     \<and> (\<forall>j<i. kids t j = kids s j)
     \<and> (\<forall>j. changed s t j \<longrightarrow> below s i j \<and> (approved \<or> (\<exists>w\<in>W. below s i w \<and> below s w j)))"

lemma wroteD:
  assumes "wrote i W approved s t"
  shows "wf_tree t" "grows s t" "rest_same s t" "j < i \<Longrightarrow> kids t j = kids s j"
    "changed s t j \<Longrightarrow> below s i j"
    "changed s t j \<Longrightarrow> approved \<or> (\<exists>w\<in>W. below s i w \<and> below s w j)"
  using assms unfolding wrote_def by blast+

lemma rest_same_simps [simp]:
  "rest_same s s" "rest_same s (save n t) \<longleftrightarrow> rest_same s t" "rest_same (save n s) t \<longleftrightarrow> rest_same s t"
  "rest_same s (t\<lparr>node_count := k\<rparr>) \<longleftrightarrow> rest_same s t"
  by (auto simp: rest_same_def)

lemma rest_same_trans: "rest_same s t \<Longrightarrow> rest_same t u \<Longrightarrow> rest_same s u"
  by (simp add: rest_same_def)

lemma same_tree_wrote: "same_tree s t \<Longrightarrow> rest_same s t \<Longrightarrow> wf_tree s \<Longrightarrow> wrote i W approved s t"
  by (simp add: wrote_def changed_def same_tree_grows same_tree_simps)

lemma wrote_trans:
  assumes wf: "wf_tree s" and st: "wrote i W approved s t" and tu: "wrote i W approved t u"
  shows "wrote i W approved s u"
proof -
  note g = wroteD(2) [OF st] and w = wroteD(1) [OF st]
  have old: "below s a b" if "below t a b" "b < node_count s" for a b
    by (rule grows_below_old [OF g w that])
  have "below s i j \<and> (approved \<or> (\<exists>w\<in>W. below s i w \<and> below s w j))" if j: "changed s u j" for j
  proof (cases "changed s t j")
    case True
    then show ?thesis using wroteD(5,6) [OF st] by blast
  next
    case False
    with j have k: "kids t j = kids s j" "j \<in> dom (nodes s)" by (auto simp: changed_def)
    then have cnt: "j < node_count s" using wf_treeD(3) [OF wf] by blast
    from j k have "changed t u j" using growsD(2) [OF g] by (auto simp: changed_def)
    then have b: "below t i j" and a: "approved \<or> (\<exists>w\<in>W. below t i w \<and> below t w j)"
      using wroteD(5,6) [OF tu] by blast+
    have "below s i w \<and> below s w j" if "below t i w" "below t w j" for w
      using old that cnt below_le [OF that(2) w] by (meson le_less_trans)
    with a old [OF b cnt] show ?thesis by blast
  qed
  with st tu show ?thesis unfolding wrote_def by (auto intro: grows_trans rest_same_trans)
qed

lemma wrote_approved:
  assumes "wrote i W (approved \<or> i \<in> W) s t"
  shows "wrote i W approved s t"
  using assms unfolding wrote_def by (meson below_refl)

text \<open>The result depends on the trees only.\<close>

lemma wrote_same_left: "same_tree s s' \<Longrightarrow> rest_same s s' \<Longrightarrow> wrote i W a s' t \<Longrightarrow> wrote i W a s t"
  by (simp add: wrote_def changed_def grows_def same_tree_simps rest_same_def)

lemma wrote_same_right: "same_tree t t' \<Longrightarrow> rest_same t t' \<Longrightarrow> wrote i W a s t \<Longrightarrow> wrote i W a s t'"
  by (simp add: wrote_def changed_def grows_def same_tree_simps rest_same_def)

lemma below_save:
  assumes "below s c j" and "wf_tree s" and "node_id n < c" and "0 < node_id n"
  shows "below (save n s) c j"
  using assms(1)
proof (induction rule: below_induct)
  case (step j k d)
  have "node_id n < j" using below_le [OF step(1) assms(2)] assms(3) by simp
  with step(2) assms(4) have "pedge (save n s) j k d" by (simp add: pedge_def kids_save)
  from below_trans [OF step.IH below_edge [OF this below_refl]] show ?case .
qed simp

text \<open>A write to a child is a write to the node that is held.\<close>

lemma wrote_child:
  assumes "wf_tree s" and S: "wf_tree (save n s)" and "0 < node_id n"
    and e: "map_of (children n) key = Some (Node c)" and w: "wrote c W approved s t"
  shows "wf_tree t" and "wf_tree (save n t)" and "wrote (node_id n) W approved (save n s) (save n t)"
proof -
  note g = wroteD(2) [OF w]
  show t: "wf_tree t" by (rule wroteD(1) [OF w])
  show T: "wf_tree (save n t)" by (rule save_grown(1) [OF S t g assms(3)])
  have edge: "pedge (save n s) (node_id n) key c" using e assms(3) by (simp add: pedge_def kids_save)
  have lt: "node_id n < c" by (rule wf_treeD(6) [OF S edge])
  have lift: "below (save n s) a b" if "below s c a" "below s a b" for a b
    using below_save [OF that(2) assms(1) _ assms(3)] below_le [OF that(1) assms(1)] lt by simp
  have "below (save n s) (node_id n) j \<and> (approved \<or> (\<exists>w\<in>W. below (save n s) (node_id n) w \<and> below (save n s) w j))"
    if "changed (save n s) (save n t) j" for j
  proof -
    from that assms(3) have "changed s t j" by (auto simp: changed_def kids_save split: if_splits)
    from wroteD(5,6) [OF w this]
    have b: "below s c j" and a: "approved \<or> (\<exists>w\<in>W. below s c w \<and> below s w j)" by blast+
    have up: "below (save n s) (node_id n) x" if "below s c x" for x
      using below_edge [OF edge lift [OF below_refl that]] .
    from up [OF b] a lift up show ?thesis by blast
  qed
  moreover have "kids (save n t) j = kids (save n s) j" if "j < node_id n" for j
    using wroteD(4) [OF w] that lt assms(3) by (simp add: kids_save)
  ultimately show "wrote (node_id n) W approved (save n s) (save n t)"
    using T save_grown(2) [OF S t g assms(3)] wroteD(3) [OF w] by (simp add: wrote_def)
qed

text \<open>Putting an entry into the node that is held: a leaf, or a link to a node without a parent.\<close>

definition put :: "string \<Rightarrow> node_value \<Rightarrow> node \<Rightarrow> node" where
  "put key x n = n\<lparr>children := AList.update key x (children n)\<rparr>"

lemma put_simps [simp]:
  "node_id (put key x n) = node_id n" "block_height (put key x n) = block_height n"
  "map_of (children (put key x n)) = (map_of (children n))(key \<mapsto> x)"
  "distinct (map fst (children n)) \<Longrightarrow> distinct (map fst (children (put key x n)))"
  by (simp_all add: put_def update_conv' distinct_update)

lemma wf_put:
  assumes wf: "wf_tree (save n t)" and n: "0 < node_id n" and key: "is_key_valid key"
    and old: "\<And>c. map_of (children n) key \<noteq> Some (Node c)"
    and new: "\<And>i. x = Node i \<Longrightarrow> i \<in> dom (nodes t) \<and> node_id n < i \<and> (\<forall>p k. \<not> pedge (save n t) p k i)"
  shows "pedge (save (put key x n) t) p k c \<longleftrightarrow>
      pedge (save n t) p k c \<or> p = node_id n \<and> k = key \<and> x = Node c"
    and "wf_tree (save (put key x n) t)"
proof -
  have p: "pedge (save (put key x n) t) p k c \<longleftrightarrow> pedge (save n t) p k c \<or> p = node_id n \<and> k = key \<and> x = Node c"
    for p k c using old n by (auto simp: pedge_def kids_save)
  then show "pedge (save (put key x n) t) p k c \<longleftrightarrow> pedge (save n t) p k c \<or> p = node_id n \<and> k = key \<and> x = Node c" .
  have d: "dom (nodes (save (put key x n) t)) = dom (nodes (save n t))" by simp
  show "wf_tree (save (put key x n) t)"
    unfolding wf_tree_def d p
  proof (intro conjI allI impI ballI)
    show "0 < node_count (save (put key x n) t)" using wf_treeD(1) [OF wf] by simp
    show "0 < i" "i < node_count (save (put key x n) t)" if "i \<in> dom (nodes (save n t))" for i
      using that wf_treeD(2,3) [OF wf] by (auto simp del: save_simps(7))
    show "distinct (map fst (kids (save (put key x n) t) i))" for i
      using wf_treeD(4) [OF wf, of i] n by (auto simp: kids_save split: if_splits)
    show "is_key_valid k" if "0 < i" "k \<in> dom (map_of (kids (save (put key x n) t) i))" for i k
      using that n key wf_treeD(5) [OF wf, of i k] by (auto simp: kids_save split: if_splits)
    fix p k c
    assume e: "pedge (save n t) p k c \<or> p = node_id n \<and> k = key \<and> x = Node c"
    then show "p < c" using wf_treeD(6) [OF wf] new by blast
    from e show "c \<in> dom (nodes (save n t))" using wf_treeD(7) [OF wf] new by auto
    fix p' k'
    assume e': "pedge (save n t) p' k' c \<or> p' = node_id n \<and> k' = key \<and> x = Node c"
    show "p = p'" and "k = k'" using e e' new wf_treeD(9) [OF wf] by blast+
  qed
qed

lemma wrote_leaf:
  assumes "wf_tree (save n s)" and "0 < node_id n" and "is_key_valid key"
    and "\<And>c. map_of (children n) key \<noteq> Some (Node c)" and "\<not> is_node x"
  shows "wrote (node_id n) W True (save n s) (save (put key x n) s)"
proof -
  have x: "x \<noteq> Node i" for i using assms(5) by auto
  have e: "pedge (save (put key x n) s) p k c \<longleftrightarrow> pedge (save n s) p k c" for p k c
    using wf_put(1) [OF assms(1-4), of x] x by blast
  have "wf_tree (save (put key x n) s)" using wf_put(2) [OF assms(1-4), of x] x by blast
  moreover have "grows (save n s) (save (put key x n) s)" by (auto simp: grows_def e)
  moreover have "changed (save n s) (save (put key x n) s) j \<Longrightarrow> j = node_id n" for j
    using assms(2) by (auto simp: changed_def kids_save split: if_splits)
  ultimately show ?thesis using assms(2) by (auto simp: wrote_def kids_save)
qed

text \<open>A new node with leaves only.\<close>

definition add_node :: "node \<Rightarrow> social \<Rightarrow> social" where
  "add_node b s = save b (s\<lparr>node_count := node_count s + 1\<rparr>)"

lemma same_kids_count [simp]: "kids (s\<lparr>node_count := k\<rparr>) = kids s"
  by (simp add: kids_def fun_eq_iff)

lemma wf_add_node:
  assumes wf: "wf_tree s" and b: "node_id b = node_count s" "distinct (map fst (children b))"
    and leaves: "\<And>k v. map_of (children b) k = Some v \<Longrightarrow> is_key_valid k \<and> \<not> is_node v"
  shows "wf_tree (s\<lparr>node_count := node_count s + 1\<rparr>)" and "wf_tree (add_node b s)"
    and "grows s (add_node b s)" and "pedge (add_node b s) p k c \<longleftrightarrow> pedge s p k c"
proof -
  note pos = wf_treeD(1) [OF wf]
  have none: "kids s (node_count s) = []"
    using pos wf_treeD(3) [OF wf, of "node_count s"] by (auto simp: kids_def split: option.splits)
  have k: "kids (add_node b s) i = (if i = node_count s then children b else kids s i)" for i
    using pos b(1) by (simp add: add_node_def kids_save)
  have e: "pedge (add_node b s) p k c \<longleftrightarrow> pedge s p k c" for p k c
  proof (cases "p = node_count s")
    case True
    have "map_of (children b) k \<noteq> Some (Node c)" using leaves [of k "Node c"] by auto
    with True none show ?thesis by (simp add: pedge_def k)
  qed (simp add: pedge_def k)
  then show "pedge (add_node b s) p k c \<longleftrightarrow> pedge s p k c" .
  show "wf_tree (s\<lparr>node_count := node_count s + 1\<rparr>)"
    using wf unfolding wf_tree_def by (auto simp: pedge_def less_SucI)
  have d: "dom (nodes (add_node b s)) = insert (node_count s) (dom (nodes s))"
    and n: "node_count (add_node b s) = node_count s + 1" by (simp_all add: add_node_def b(1))
  show "wf_tree (add_node b s)"
    unfolding wf_tree_def e d n
  proof (intro conjI allI impI ballI)
    show "0 < i" "i < node_count s + 1" if "i \<in> insert (node_count s) (dom (nodes s))" for i
      using that pos wf_treeD(2,3) [OF wf, of i] by auto
    show "distinct (map fst (kids (add_node b s) i))" for i
      using b(2) wf_treeD(4) [OF wf] by (simp add: k)
    show "is_key_valid k" if "0 < i" "k \<in> dom (map_of (kids (add_node b s) i))" for i k
      using that leaves wf_treeD(5) [OF wf, of i k] by (auto simp: k split: if_splits)
    show "p < c" "c \<in> insert (node_count s) (dom (nodes s))" if "pedge s p k c" for p k c
      using wf_treeD(6,7) [OF wf that] by auto
    show "p = p'" "k = k'" if "pedge s p k c" "pedge s p' k' c" for p k c p' k'
      using wf_treeD(9) [OF wf that] by auto
  qed simp
  show "grows s (add_node b s)" by (auto simp: grows_def e d n)
qed

lemma wrote_link:
  assumes wf: "wf_tree s" and S: "wf_tree (save n s)" and n: "0 < node_id n" and key: "is_key_valid key"
    and old: "\<And>c. map_of (children n) key \<noteq> Some (Node c)"
    and b: "node_id b = node_count s" "distinct (map fst (children b))"
    and leaves: "\<And>k v. map_of (children b) k = Some v \<Longrightarrow> is_key_valid k \<and> \<not> is_node v"
  defines "n' \<equiv> put key (Node (node_count s)) n"
  shows "wf_tree (save n' (add_node b s))"
    and "wrote (node_id n) W True (save n s) (save n' (add_node b s))"
proof -
  note A = wf_add_node [OF wf b leaves]
  have id: "node_id n < node_count s" using wf_treeD(3) [OF S, of "node_id n" n] by simp
  have cnt: "node_count (add_node b s) = node_count s + 1"
    and dom: "dom (nodes (add_node b s)) = insert (node_count s) (dom (nodes s))"
    by (simp_all add: add_node_def b(1))
  have no: "\<not> pedge (save n s) p k (node_count s)" for p k using wf_treeD(8) [OF S, of p k "node_count s"] by auto
  have same: "pedge (save n (add_node b s)) p k c \<longleftrightarrow> pedge (save n s) p k c" for p k c
    using n A(4) [of p k c] by (simp add: pedge_def kids_save)
  note G = save_grown [OF S A(2,3) n]
  have new: "i \<in> dom (nodes (add_node b s)) \<and> node_id n < i \<and> (\<forall>p k. \<not> pedge (save n (add_node b s)) p k i)"
    if "Node (node_count s) = Node i" for i
  proof (intro conjI allI)
    show "i \<in> dom (nodes (add_node b s))" "node_id n < i" using that id by (simp_all add: dom)
    show "\<not> pedge (save n (add_node b s)) p k i" for p k using no [of p k] that same by simp
  qed
  note P = wf_put [OF G(1) n key old new]
  show T: "wf_tree (save n' (add_node b s))" unfolding n'_def by (rule P(2))
  have "grows (save n s) (save n' (add_node b s))"
    using id cnt dom by (auto simp: grows_def n'_def P(1) same)
  moreover have "kids (save n' (add_node b s)) j = kids (save n s) j" if "j \<noteq> node_id n" "j \<noteq> node_count s" for j
    using that n id b(1) by (simp add: kids_save n'_def add_node_def)
  moreover have "changed (save n s) (save n' (add_node b s)) j \<Longrightarrow> j = node_id n" for j
    using calculation(2) [of j] wf_treeD(3) [OF S, of j] by (force simp: changed_def)
  ultimately show "wrote (node_id n) W True (save n s) (save n' (add_node b s))"
    using T id by (auto simp: wrote_def n'_def add_node_def)
qed

end
