(* ===== verification/SocialWrites.thy ===== *)
theory SocialWrites
  imports SocialTree
begin

section \<open>The social contract: what a write does to the tree\<close>

text \<open>
  The operations on nodes inverted, case by case, and the induction over \<open>recursive_set\<close>: whatever the
  data, the call keeps the tree and respects the permissions (\<open>recursive_set_wrote\<close>).
\<close>

subsection \<open>The node operations, inverted\<close>

text \<open>The JSON leaf that an entry stands for.\<close>

fun leaf_of :: "node_value \<Rightarrow> json option" where
  "leaf_of (Value vh) = Some (JStr (vh_value vh))"
| "leaf_of (DeletedEntry h) = Some JNull"
| "leaf_of (Node i) = None"

lemma leaf_of_not_node: "leaf_of x = Some v \<Longrightarrow> \<not> is_node x"
  by (cases x) auto

lemma not_node_leaf: "\<not> is_node x \<longleftrightarrow> (\<forall>i. x \<noteq> Node i)"
  by (cases x) auto

lemma node_setE:
  assumes "node_set e key value n = Inr n'" and "is_leaf value"
  obtains x where "leaf_of x = Some value" "n' = put key x n"
    "\<And>c. map_of (children n) key \<noteq> Some (Node c)"
proof -
  define x where "x = (case value of JStr s \<Rightarrow> Value \<lparr>vh_value = s, vh_block_height = env_block_height e\<rparr>
    | _ \<Rightarrow> DeletedEntry (env_block_height e))"
  show thesis
  proof
    show "leaf_of x = Some value" using assms(2) by (auto simp: x_def split: json.splits)
    show "n' = put key x n"
      using assms by (auto simp: x_def node_set_def put_def Let_def split: json.splits)
    show "map_of (children n) key \<noteq> Some (Node c)" for c
      using assms by (auto simp: node_set_def Let_def split: json.splits)
  qed
qed

lemma node_new_Inr:
  "node_new e i v = Inr n \<longleftrightarrow> (\<forall>x. v = Some x \<longrightarrow> \<not> is_node x) \<and>
     n = \<lparr>node_id = i, block_height = env_block_height e,
          children = (case v of Some x \<Rightarrow> [(EMPTY_KEY, x)] | None \<Rightarrow> [])\<rparr>"
  by (auto simp: node_new_def split: option.splits)

lemma create_node_id_Inr:
  "create_node_id s = Inr (i, t) \<longleftrightarrow>
     i = node_count s \<and> fits 32 (node_count s + 1) \<and> t = s\<lparr>node_count := node_count s + 1\<rparr>"
  by (auto simp: create_node_id_def)

lemma is_key_valid_empty [simp]: "is_key_valid EMPTY_KEY"
  by (simp add: is_key_valid_def EMPTY_KEY_def)

lemma assert_key_valid_Inr [simp]: "assert_key_valid key = Inr u \<longleftrightarrow> is_key_valid key"
  by (simp add: assert_key_valid_def)

text \<open>The node below that a missing node, or a leaf, is replaced by.\<close>

definition fresh_node :: "social_host \<Rightarrow> node_id \<Rightarrow> node_value option \<Rightarrow> node" where
  "fresh_node e i v = \<lparr>node_id = i, block_height = env_block_height e,
     children = (case v of Some x \<Rightarrow> [(EMPTY_KEY, x)] | None \<Rightarrow> [])\<rparr>"

lemma fresh_node_simps [simp]:
  "node_id (fresh_node e i v) = i" "distinct (map fst (children (fresh_node e i v)))"
  "map_of (children (fresh_node e i v)) k = (if k = EMPTY_KEY then v else None)"
  by (auto simp: fresh_node_def split: option.splits)

lemma set_childE:
  assumes "set_child e approved key value n s = Inr (n', child, t)"
  obtains
    (leaf) x where "is_key_valid key" "approved" "is_leaf value" "leaf_of x = Some value"
      "\<And>c. map_of (children n) key \<noteq> Some (Node c)" "n' = put key x n" "child = None" "t = s"
  | (old) c b where "is_key_valid key" "map_of (children n) key = Some (Node c)"
      "internal_unwrap_node s c = Inr b" "n' = n" "child = Some b" "t = s"
  | (fresh) "is_key_valid key" "approved" "\<not> is_leaf value"
      "\<And>c. map_of (children n) key \<noteq> Some (Node c)"
      "map_of (children n) key \<noteq> None \<longrightarrow> key \<noteq> EMPTY_KEY"
      "n' = put key (Node (node_count s)) n"
      "child = Some (fresh_node e (node_count s) (map_of (children n) key))"
      "t = s\<lparr>node_count := node_count s + 1\<rparr>"
proof (cases "map_of (children n) key")
  case None
  show thesis
  proof (cases "is_leaf value")
    case True
    with assms None obtain m where m: "node_set e key value n = Inr m" "n' = m" "child = None" "t = s"
      "is_key_valid key" "approved" by (auto simp: set_child_def)
    from node_setE [OF m(1) True] show thesis using leaf m(2-6) True by metis
  next
    case False
    with assms None show thesis
      by (intro fresh) (auto simp: set_child_def create_node_id_Inr node_new_Inr put_def fresh_node_def Let_def)
  qed
next
  case (Some x)
  show thesis
  proof (cases "is_node x")
    case True
    with assms Some show thesis by (cases x) (auto simp: set_child_def intro: old)
  next
    case False
    then have no: "x \<noteq> Node i" for i by auto
    show thesis
    proof (cases "is_leaf value")
      case True
      with assms Some no obtain m where m: "node_set e key value n = Inr m" "n' = m" "child = None" "t = s"
        "is_key_valid key" "approved" by (auto simp: set_child_def split: node_value.splits)
      from node_setE [OF m(1) True] show thesis using leaf m(2-6) True by metis
    next
      case False
      with assms Some no show thesis
        by (intro fresh)
          (auto simp: set_child_def create_node_id_Inr node_new_Inr put_def fresh_node_def Let_def
            split: node_value.splits)
    qed
  qed
qed

subsection \<open>recursive_set\<close>

lemma recursive_setE:
  assumes "recursive_set e W approved value n s = Inr t"
  obtains
    (leaf) x where "is_leaf value" "approved \<or> node_id n \<in> W" "leaf_of x = Some value"
      "\<And>c. map_of (children n) EMPTY_KEY \<noteq> Some (Node c)"
      "t = internal_set_node e (put EMPTY_KEY x n) s"
  | (object) obj n' u where "value = JObj obj"
      "set_entries e W (approved \<or> node_id n \<in> W) obj n s = Inr (n', u)"
      "t = internal_set_node e n' u"
proof (cases "is_leaf value")
  case True
  with assms obtain m where m: "node_set e EMPTY_KEY value n = Inr m" "approved \<or> node_id n \<in> W"
    "t = internal_set_node e m s" by (auto simp: recursive_set.simps Let_def)
  from node_setE [OF m(1) True] show thesis using leaf m True by metis
next
  case False
  with assms show thesis by (auto simp: recursive_set.simps Let_def split: json.splits intro: object)
qed

text \<open>The state after a child was dealt with, seen from the node that is held.\<close>

lemma set_child_wrote:
  assumes "set_child e approved key value n s = Inr (n', child, t)"
    and "wf_tree s" and S: "wf_tree (save n s)" and "0 < node_id n"
    and rec: "\<And>b u. child = Some b \<Longrightarrow> wf_tree t \<Longrightarrow> wf_tree (save b t) \<Longrightarrow> 0 < node_id b \<Longrightarrow> v b = Inr u
      \<Longrightarrow> wrote (node_id b) W approved (save b t) u"
    and u: "(case child of None \<Rightarrow> Inr t | Some b \<Rightarrow> v b) = Inr u"
  shows "node_id n' = node_id n \<and> wf_tree u \<and> wf_tree (save n' u)
    \<and> wrote (node_id n) W approved (save n s) (save n' u)"
  using assms(1)
proof (cases rule: set_childE)
  case (leaf x)
  have "wrote (node_id n) W True (save n s) (save n' s)"
    unfolding leaf(6) by (rule wrote_leaf [OF S assms(4) leaf(1,5) leaf_of_not_node [OF leaf(4)]])
  then show ?thesis using leaf u assms(2) wroteD(1) by auto
next
  case (old c b)
  have e: "pedge (save n s) (node_id n) key c" using old(2) assms(4) by (simp add: pedge_def kids_save)
  have c: "0 < c" using wf_treeD(6) [OF S e] by simp
  note b = same_tree_reload [OF old(3) c]
  have vb: "v b = Inr u" using u old by simp
  have wfb: "wf_tree (save b s)" using assms(2) same_tree_simps(6) [OF b(1)] by simp
  have "wrote c W approved (save b s) u"
    using rec [OF old(5) _ _ _ vb] old(6) assms(2) wfb b(2) c by simp
  then have w: "wrote c W approved s u" by (rule wrote_same_left [OF b(1), rotated]) simp
  from wrote_child [OF assms(2) S assms(4) old(2) w] show ?thesis using old by simp
next
  case fresh
  let ?b = "fresh_node e (node_count s) (map_of (children n) key)"
  have leaves: "is_key_valid k \<and> \<not> is_node x" if "map_of (children ?b) k = Some x" for k x
    using that fresh(4) by (auto simp: not_node_leaf split: if_splits)
  note A = wf_add_node [OF assms(2), of ?b, OF fresh_node_simps(1,2) leaves]
  note L = wrote_link [OF assms(2) S assms(4) fresh(1,4) fresh_node_simps(1,2) leaves]
  have save: "save ?b t = add_node ?b s" by (simp add: add_node_def fresh(8))
  have vb: "v ?b = Inr u" using u fresh(7) by simp
  have w: "wrote (node_count s) W approved (add_node ?b s) u"
    using rec [OF fresh(7) _ _ _ vb] A(1,2) wf_treeD(1) [OF assms(2)] fresh(8) save by simp
  have e: "map_of (children n') key = Some (Node (node_count s))" using fresh(6) by simp
  have n': "0 < node_id n'" "node_id n' = node_id n" using fresh(6) assms(4) by simp_all
  from wrote_child [OF A(2) _ n'(1) e w] L(1) fresh(6)
  have "wf_tree u" "wf_tree (save n' u)" and 2: "wrote (node_id n) W approved (save n' (add_node ?b s)) (save n' u)"
    using n' by simp_all
  moreover have "wrote (node_id n) W approved (save n s) (save n' (add_node ?b s))"
    using L(2) fresh(2,6) by simp
  from wrote_trans [OF S this 2] calculation n'(2) show ?thesis by simp
qed

lemma recursive_set_wrote:
  "recursive_set e W approved v n s = Inr t \<Longrightarrow> wf_tree s \<Longrightarrow> wf_tree (save n s) \<Longrightarrow> 0 < node_id n
    \<Longrightarrow> wrote (node_id n) W approved (save n s) t"
  "set_entries e W approved obj n s = Inr (n', t) \<Longrightarrow> wf_tree s \<Longrightarrow> wf_tree (save n s) \<Longrightarrow> 0 < node_id n
    \<Longrightarrow> node_id n' = node_id n \<and> wf_tree t \<and> wrote (node_id n) W approved (save n s) (save n' t)"
proof (induction e W approved v n s and e W approved obj n s arbitrary: t and n' t
    rule: recursive_set_set_entries.induct)
  case (1 e W approved v n s)
  from "1.prems"(1) show ?case
  proof (cases rule: recursive_setE)
    case (leaf x)
    have "wrote (node_id n) W True (save n s) (save (put EMPTY_KEY x n) s)"
      by (rule wrote_leaf [OF "1.prems"(3,4) is_key_valid_empty leaf(4) leaf_of_not_node [OF leaf(3)]])
    with leaf(2) have "wrote (node_id n) W approved (save n s) (save (put EMPTY_KEY x n) s)"
      using wrote_approved by simp
    then show ?thesis unfolding leaf(5) internal_set_node_save
      by (rule wrote_same_right [OF same_tree_block_height, rotated 2]) (use "1.prems"(4) in simp_all)
  next
    case (object obj m u)
    have nl: "\<not> is_leaf v" using object(1) by simp
    from "1.IH" [OF refl nl object(1,2)] "1.prems"(2-4)
    have m: "node_id m = node_id n" and w: "wrote (node_id n) W (approved \<or> node_id n \<in> W) (save n s) (save m u)"
      by auto
    from wrote_approved [OF w] show ?thesis unfolding object(3) internal_set_node_save
      by (rule wrote_same_right [OF same_tree_block_height, rotated 2]) (use "1.prems"(4) m in simp_all)
  qed
next
  case (2 e W approved n s)
  then show ?case by (simp add: same_tree_wrote)
next
  case (3 e W approved key v rest n s)
  from "3.prems"(1) obtain m child s1 u where c: "set_child e approved key v n s = Inr (m, child, s1)"
    and u: "(case child of None \<Rightarrow> Inr s1 | Some b \<Rightarrow> recursive_set e W approved v b s1) = Inr u"
    and r: "set_entries e W approved rest m u = Inr (n', t)"
    by (auto split: prod.splits)
  have "node_id m = node_id n \<and> wf_tree u \<and> wf_tree (save m u) \<and> wrote (node_id n) W approved (save n s) (save m u)"
  proof (rule set_child_wrote [OF c "3.prems"(2-4) _ u])
    show "wrote (node_id b) W approved (save b s1) w"
      if "child = Some b" "wf_tree s1" "wf_tree (save b s1)" "0 < node_id b"
        "recursive_set e W approved v b s1 = Inr w" for b w
      by (rule "3.IH"(1) [OF c refl refl that(1,5) that(2-4)])
  qed
  then have m: "node_id m = node_id n" "wf_tree u" "wf_tree (save m u)"
    and w: "wrote (node_id n) W approved (save n s) (save m u)" by simp_all
  from "3.IH"(2) [OF c refl refl u r m(2,3)] m(1) "3.prems"(4)
  have "node_id n' = node_id n" "wf_tree t" and w2: "wrote (node_id n) W approved (save m u) (save n' t)" by simp_all
  with wrote_trans [OF "3.prems"(3) w w2] show ?case by simp
qed

end
