(* ===== verification/SocialSteps.thy ===== *)
theory SocialSteps
  imports SocialWrites
begin

section \<open>The social contract: accounts in the tree\<close>

text \<open>
  The accounts are the children of the root (\<open>wf_social\<close>); saving an account leaves the nodes alone, and
  creating one adds a node without entries (\<open>created\<close>).
\<close>

subsection \<open>Calls that leave the nodes alone\<close>

definition same_nodes :: "social \<Rightarrow> social \<Rightarrow> bool" where
  "same_nodes s t \<longleftrightarrow> root_node t = root_node s \<and> nodes t = nodes s \<and> node_count t = node_count s
     \<and> status t = status s"

lemma same_nodes_refl [simp]: "same_nodes s s"
  by (simp add: same_nodes_def)

lemma same_nodes_trans: "same_nodes s t \<Longrightarrow> same_nodes t u \<Longrightarrow> same_nodes s u"
  by (simp add: same_nodes_def)

lemma same_nodes_tree: "same_nodes s t \<Longrightarrow> same_tree s t"
  by (rule same_treeI) (simp_all add: same_nodes_def)

lemma set_pool_simps [simp]:
  "accounts (internal_set_shared_storage_pool o' p s) = accounts s"
  "permissions (internal_set_shared_storage_pool o' p s) = permissions s"
  "same_nodes s (internal_set_shared_storage_pool o' p s)"
  "shared_storage_pools (internal_set_shared_storage_pool o' p s) = (shared_storage_pools s)(o' \<mapsto> p)"
  by (simp_all add: internal_set_shared_storage_pool_def same_nodes_def)

lemma same_nodes_pool [simp]:
  "same_nodes s (internal_set_shared_storage_pool o' p t) \<longleftrightarrow> same_nodes s t"
  by (simp add: internal_set_shared_storage_pool_def same_nodes_def)

lemma account_grows_nodes:
  "account_grows e extra a s = Inr (a', t) \<Longrightarrow> same_nodes s t \<and> accounts t = accounts s
    \<and> permissions t = permissions s \<and> account_node_id a' = account_node_id a \<and> tracker a' = tracker a"
  by (auto simp: account_grows_def Let_def split: option.splits if_splits)

lemma account_shrinks_nodes:
  "account_shrinks released a s = Inr (a', t) \<Longrightarrow> same_nodes s t \<and> accounts t = accounts s
    \<and> permissions t = permissions s \<and> account_node_id a' = account_node_id a \<and> tracker a' = tracker a"
  by (auto simp: account_shrinks_def Let_def split: option.splits if_splits)

lemma internal_set_account_nodes:
  assumes "internal_set_account e a s = Inr (existed, t)"
  shows "same_nodes s t" and "permissions t = permissions s"
    and "existed \<longleftrightarrow> account_node_id a \<in> dom (accounts s)"
    and "\<exists>a'. accounts t = (accounts s)(account_node_id a \<mapsto> Current a')"
proof -
  let ?t = "tracker a"
  obtain b u where bu: "(if bytes_released ?t < bytes_added ?t then
               bindE (checked_sub (bytes_added ?t) (bytes_released ?t)) (\<lambda>extra. account_grows e extra a s)
             else if bytes_added ?t < bytes_released ?t then
               bindE (checked_sub (bytes_released ?t) (bytes_added ?t)) (\<lambda>released. account_shrinks released a s)
             else Inr (a, s)) = Inr (b, u)"
    and t: "t = u\<lparr>accounts := (accounts u)(account_node_id b \<mapsto>
        Current (b\<lparr>tracker := (tracker b)\<lparr>bytes_released := 0, bytes_added := 0\<rparr>\<rparr>))\<rparr>"
      "existed \<longleftrightarrow> accounts u (account_node_id b) \<noteq> None"
    using assms by (auto simp: internal_set_account_def Let_def)
  have "same_nodes s u \<and> accounts u = accounts s \<and> permissions u = permissions s
      \<and> account_node_id b = account_node_id a"
    using bu account_grows_nodes account_shrinks_nodes by (fastforce split: if_splits)
  then show "same_nodes s t" "permissions t = permissions s" "existed \<longleftrightarrow> account_node_id a \<in> dom (accounts s)"
    "\<exists>a'. accounts t = (accounts s)(account_node_id a \<mapsto> Current a')"
    by (auto simp: t same_nodes_def)
qed

subsection \<open>Accounts in the tree\<close>

text \<open>
  The children of the root are accounts, and every account is one of them, in its current version
  (accounts of the version \<open>V0\<close> come from before an upgrade only).
\<close>

definition wf_accounts :: "social \<Rightarrow> bool" where
  "wf_accounts s \<longleftrightarrow> (\<forall>k x. map_of (kids s 0) k = Some x \<longrightarrow> is_node x)
     \<and> dom (accounts s) = {c. edge s 0 c} \<and> (\<forall>c v. accounts s c \<noteq> Some (V0 v))"

definition wf_social :: "social \<Rightarrow> bool" where
  "wf_social s \<longleftrightarrow> wf_tree s \<and> wf_accounts s"

lemma wf_socialD:
  assumes "wf_social s"
  shows "wf_tree s" and "c \<in> dom (accounts s) \<longleftrightarrow> edge s 0 c" and "accounts s c \<noteq> Some (V0 v)"
    and "map_of (kids s 0) k = Some x \<Longrightarrow> \<exists>c. x = Node c \<and> pedge s 0 k c"
  using assms by (auto simp: wf_social_def wf_accounts_def pedge_def) (cases x; force)

lemma wf_social_cong:
  assumes "same_tree s t" and "dom (accounts t) = dom (accounts s)"
    and "\<And>c v. accounts s c \<noteq> Some (V0 v) \<Longrightarrow> accounts t c \<noteq> Some (V0 v)" and "wf_social s"
  shows "wf_social t"
  using assms(2-4) by (auto simp: wf_social_def wf_accounts_def edge_def same_tree_simps [OF assms(1)])

lemma wf_social_same_nodes:
  assumes "wf_social s" and "same_nodes s t" and "accounts t = accounts s"
  shows "wf_social t"
  using wf_social_cong [OF same_nodes_tree [OF assms(2)]] assms(1,3) by simp

lemma internal_get_account_Some:
  assumes "internal_get_account_social s name = Inr (Some a)"
  shows "pedge s 0 name (account_node_id a)" and "load_account s (account_node_id a) = Inr a"
  using assms
  by (auto simp: internal_get_account_social_def load_account_def pedge_def kids_def split: option.splits node_value.splits)

lemma internal_get_account_None:
  "internal_get_account_social s name = Inr None \<longleftrightarrow> map_of (kids s 0) name = None"
  by (auto simp: internal_get_account_social_def kids_def split: option.splits node_value.splits)

lemma internal_unwrap_account_Inr:
  "internal_unwrap_account s name = Inr a \<longleftrightarrow> internal_get_account_social s name = Inr (Some a)"
  by (auto simp: internal_unwrap_account_def)

text \<open>Saving an account that there is.\<close>

lemma set_account_wf:
  assumes "internal_set_account e a s = Inr (existed, t)" and "wf_social s"
    and "edge s 0 (account_node_id a)"
  shows "wf_social t"
proof -
  note n = internal_set_account_nodes [OF assms(1)]
  obtain a' where a': "accounts t = (accounts s)(account_node_id a \<mapsto> Current a')" using n(4) by blast
  show ?thesis
    by (rule wf_social_cong [OF same_nodes_tree [OF n(1)] _ _ assms(2)])
      (use assms(3) wf_socialD(2) [OF assms(2)] in \<open>auto simp: a' split: if_splits\<close>)
qed

subsection \<open>Creating an account\<close>

definition created :: "string \<Rightarrow> social \<Rightarrow> social \<Rightarrow> bool" where
  "created name s t \<longleftrightarrow> wf_social t \<and> grows s t \<and> status t = status s \<and> permissions t = permissions s
     \<and> (\<forall>j \<in> dom (nodes s). kids t j = kids s j) \<and> pedge t 0 name (node_count s)
     \<and> kids t (node_count s) = [] \<and> node_count t = node_count s + 1
     \<and> map_of (kids t 0) = (map_of (kids s 0))(name \<mapsto> Node (node_count s))"

lemma wf_new_account:
  assumes wf: "wf_social s" and "map_of (kids s 0) name = None"
    and t: "nodes t = (nodes s)(node_count s \<mapsto> b)" "children b = []" "node_count t = node_count s + 1"
      "children (root_node t) = AList.update name (Node (node_count s)) (children (root_node s))"
      "accounts t = (accounts s)(node_count s \<mapsto> Current a)"
      "status t = status s" "permissions t = permissions s"
  shows "created name s t"
proof -
  note T = wf_socialD(1) [OF wf]
  have pos: "0 < node_count s" by (rule wf_treeD(1) [OF T])
  have none: "nodes s (node_count s) = None" using wf_treeD(3) [OF T, of "node_count s"] by fastforce
  have k: "kids t i = (if i = 0 then AList.update name (Node (node_count s)) (kids s 0) else kids s i)" for i
    using pos none t(2) by (simp add: kids_def t)
  have e: "pedge t p k c \<longleftrightarrow> pedge s p k c \<or> p = 0 \<and> k = name \<and> c = node_count s" for p k c
    using assms(2) by (auto simp: pedge_def k update_conv')
  have no: "\<not> pedge s p k (node_count s)" for p k using wf_treeD(8) [OF T, of p k] by blast
  have d: "dom (nodes t) = insert (node_count s) (dom (nodes s))" by (simp add: t(1))
  have wt: "wf_tree t"
    unfolding wf_tree_def e d t(3)
  proof (intro conjI allI impI ballI)
    show "0 < i" "i < node_count s + 1" if "i \<in> insert (node_count s) (dom (nodes s))" for i
      using that pos wf_treeD(2,3) [OF T, of i] by auto
    show "distinct (map fst (kids t i))" for i using wf_treeD(4) [OF T] by (simp add: k distinct_update)
    show "is_key_valid key" if "0 < i" "key \<in> dom (map_of (kids t i))" for i key
      using that wf_treeD(5) [OF T, of i key] by (auto simp: k)
    fix p key c
    assume *: "pedge s p key c \<or> p = 0 \<and> key = name \<and> c = node_count s"
    then show "p < c" "c \<in> insert (node_count s) (dom (nodes s))"
      using wf_treeD(6,7) [OF T, of p key c] pos by auto
    fix p' key'
    assume "pedge s p' key' c \<or> p' = 0 \<and> key' = name \<and> c = node_count s"
    with * show "p = p'" "key = key'" using no wf_treeD(9) [OF T, of p key c p' key'] by blast+
  qed simp
  have "wf_accounts t"
    using wf by (auto simp: wf_social_def wf_accounts_def edge_def e k update_conv' t(5) split: if_splits)
  with wt have "wf_social t" by (simp add: wf_social_def)
  moreover have "grows s t" by (auto simp: grows_def e d t(3))
  moreover have "kids t j = kids s j" if "j \<in> dom (nodes s)" for j using that wf_treeD(2) [OF T] by (auto simp: k)
  moreover have "kids t (node_count s) = []" using pos by (simp add: kids_def t(1,2))
  ultimately show ?thesis using t(3,6,7) by (simp add: created_def e k update_conv')
qed

lemma initial_set_account_created:
  assumes "internal_initial_set_account e name a (s\<lparr>node_count := node_count s + 1\<rparr>) = Inr t"
    and "account_node_id a = node_count s" and "wf_social s" and "map_of (kids s 0) name = None"
  shows "created name s t"
proof -
  let ?s = "s\<lparr>node_count := node_count s + 1\<rparr>"
  obtain n s2 s3 tr x1 x2 where n: "node_new e (node_count s) None = Inr n"
    and s2: "s2 = (internal_set_node e n ?s)\<lparr>root_node := (root_node s)\<lparr>block_height := env_block_height e,
        children := AList.update name (Node (node_count s)) (children (root_node s))\<rparr>\<rparr>"
    and s3: "internal_set_account e ((account_new (node_count s))\<lparr>shared_storage := shared_storage a\<rparr>) s2 = Inr (x1, s3)"
    and t: "internal_set_account e (a\<lparr>tracker := tr\<rparr>) s3 = Inr (x2, t)"
    using assms(1,2) by (auto simp: internal_initial_set_account_def internal_set_node_def Let_def)
  from internal_set_account_nodes [OF s3] obtain a1 where 1: "same_nodes s2 s3" "permissions s3 = permissions s2"
    "accounts s3 = (accounts s2)(node_count s \<mapsto> Current a1)" by (auto simp: account_new_def)
  from internal_set_account_nodes [OF t] obtain a2 where 2: "same_nodes s3 t" "permissions t = permissions s3"
    "accounts t = (accounts s3)(node_count s \<mapsto> Current a2)" by (auto simp: assms(2))
  have n': "n = \<lparr>node_id = node_count s, block_height = env_block_height e, children = []\<rparr>"
    using n by (simp add: node_new_Inr)
  show ?thesis
    by (rule wf_new_account [OF assms(3,4)])
      (use 1 2 in \<open>auto simp: same_nodes_def s2 n' internal_set_node_def\<close>)
qed

lemma internal_create_account_created:
  assumes "internal_create_account e name deposit registration_only s = Inr (t, ps)"
    and "wf_social s" and "map_of (kids s 0) name = None"
  shows "created name s t"
  using assms initial_set_account_created
  by (auto simp: internal_create_account_def create_node_id_Inr account_new_def Let_def)

lemma internal_create_account_from_shared_storage_created:
  assumes "internal_create_account_from_shared_storage e name max_b pool s = Inr t"
    and "wf_social s" and "map_of (kids s 0) name = None"
  shows "created name s t"
  using assms initial_set_account_created
  by (auto simp: internal_create_account_from_shared_storage_def create_node_id_Inr account_new_def Let_def)

lemma created_dom: "created name s t \<Longrightarrow> wf_social s \<Longrightarrow> changed s t j \<Longrightarrow> False"
  by (auto simp: created_def changed_def)

lemma unwrap_or_create_cases:
  assumes "internal_unwrap_account_or_create e name deposit s = Inr (a, t, ps)" and "wf_social s"
  obtains (found) "pedge s 0 name (account_node_id a)" "t = s" "ps = []"
      "\<exists>b. internal_get_account_social s name = Inr (Some b) \<and> a = b\<lparr>storage_balance := sat_add 128 (storage_balance b) deposit\<rparr>"
  | (new) "map_of (kids s 0) name = None" "created name s t" "account_node_id a = node_count s"
      "internal_get_account_social t name = Inr (Some a)" "internal_create_account e name deposit False s = Inr (t, ps)"
proof (cases "internal_get_account_social s name")
  case (Inr r)
  show thesis
  proof (cases r)
    case None
    with Inr assms(1) have c: "internal_create_account e name deposit False s = Inr (t, ps)"
      and a: "internal_get_account_social t name = Inr (Some a)"
      by (auto simp: internal_unwrap_account_or_create_def internal_unwrap_account_Inr)
    have m: "map_of (kids s 0) name = None" using Inr None internal_get_account_None by simp
    note cr = internal_create_account_created [OF c assms(2) m]
    have "account_node_id a = node_count s"
      using internal_get_account_Some(1) [OF a] cr by (simp add: created_def pedge_def)
    then show thesis using new m cr a c by blast
  next
    case (Some b)
    with Inr assms(1) show thesis
      by (intro found) (auto simp: internal_unwrap_account_or_create_def dest: internal_get_account_Some)
  qed
qed (use assms(1) in \<open>simp add: internal_unwrap_account_or_create_def\<close>)

end
