(* ===== verification/SocialCalls.thy ===== *)
theory SocialCalls
  imports SocialSteps
begin

section \<open>The social contract: set and grant\<close>

text \<open>
  The two methods that write to the tree, inverted and composed from what their steps do: \<open>set_ok\<close> for
  \<open>set\<close>, \<open>held_ok\<close> for the walk down a granted path. \<open>refund_unused\<close> names the last part of a round of
  \<open>set\<close>.
\<close>

subsection \<open>Permissions to write\<close>

text \<open>
  The call of \<open>e\<close> may write to the node \<open>j\<close>, through the entry \<open>key\<close> of its data: \<open>j\<close> is in the subtree
  of the account \<open>key\<close>, and this account is the caller's own one or has granted the caller, or the
  signer's public key, a node above \<open>j\<close>.
\<close>

definition granted_ids :: "social_host \<Rightarrow> social \<Rightarrow> node_id \<Rightarrow> node_id set" where
  "granted_ids e s a = permitted_ids s a (AccountId (env_predecessor_account_id e))
     \<union> permitted_ids s a (SignerPublicKey (env_signer_account_pk e))"

definition may_write :: "social_host \<Rightarrow> social \<Rightarrow> string \<Rightarrow> node_id \<Rightarrow> bool" where
  "may_write e s key j \<longleftrightarrow> (\<exists>a. pedge s 0 key a \<and> below s a j \<and>
     (key = env_predecessor_account_id e \<or> (\<exists>w \<in> granted_ids e s a. below s a w \<and> below s w j)))"

definition set_ok :: "social_host \<Rightarrow> string set \<Rightarrow> social \<Rightarrow> social \<Rightarrow> bool" where
  "set_ok e ks s t \<longleftrightarrow> wf_social t \<and> grows s t \<and> status t = status s \<and> permissions t = permissions s
     \<and> (\<forall>j. changed s t j \<longrightarrow> (\<exists>key \<in> ks. may_write e s key j))"

lemma granted_ids_eq: "internal_get_writeable_node_ids e s a = granted_ids e s (account_node_id a)"
  by (simp add: internal_get_writeable_node_ids_def granted_ids_def)

lemma set_ok_refl: "wf_social s \<Longrightarrow> set_ok e ks s s"
  by (simp add: set_ok_def changed_def)

lemma set_ok_mono: "set_ok e ks s t \<Longrightarrow> ks \<subseteq> ks' \<Longrightarrow> set_ok e ks' s t"
  by (fastforce simp: set_ok_def)

lemma set_ok_trans:
  assumes wf: "wf_social s" and st: "set_ok e ks s t" and tu: "set_ok e ks t u"
  shows "set_ok e ks s u"
proof -
  have g: "grows s t" and w: "wf_tree t" and perm: "permissions t = permissions s"
    using st by (auto simp: set_ok_def dest: wf_socialD(1))
  have old: "below s a b" if "below t a b" "b < node_count s" for a b
    by (rule grows_below_old [OF g w that])
  have "\<exists>key \<in> ks. may_write e s key j" if j: "changed s u j" for j
  proof (cases "changed s t j")
    case True
    then show ?thesis using st by (simp add: set_ok_def)
  next
    case False
    with j have k: "kids t j = kids s j" "j \<in> dom (nodes s)" by (auto simp: changed_def)
    then have cnt: "j < node_count s" using wf_treeD(3) [OF wf_socialD(1) [OF wf]] by blast
    from j k have "changed t u j" using growsD(2) [OF g] by (auto simp: changed_def)
    then obtain key a where key: "key \<in> ks" "pedge t 0 key a" "below t a j"
      and why: "key = env_predecessor_account_id e \<or> (\<exists>w \<in> granted_ids e t a. below t a w \<and> below t w j)"
      using tu unfolding set_ok_def may_write_def by blast
    have "a < node_count s" using below_le [OF key(3) w] cnt by simp
    then have "pedge s 0 key a" using growsD(4) [OF g key(2)] by simp
    moreover have "granted_ids e t a = granted_ids e s a" by (simp add: granted_ids_def permitted_ids_def perm)
    moreover have "below s a w \<and> below s w j" if "below t a w" "below t w j" for w
      using old that cnt below_le [OF that(2) w] by (meson le_less_trans)
    ultimately show ?thesis using key why old [OF key(3) cnt] unfolding may_write_def by metis
  qed
  with st tu show ?thesis by (auto simp: set_ok_def intro: grows_trans)
qed

lemma wf_social_rest:
  assumes "wf_social s" and "wf_tree t" and "rest_same s t"
  shows "wf_social t"
proof -
  have "kids t 0 = kids s 0" using assms(3) by (simp add: kids_def rest_same_def)
  with assms show ?thesis by (simp add: wf_social_def wf_accounts_def edge_def pedge_def rest_same_def)
qed

lemma set_ok_same_nodes:
  assumes "set_ok e ks s t" and "same_nodes t u" and "wf_social u" and "permissions u = permissions t"
  shows "set_ok e ks s u"
proof -
  note same = same_tree_simps [OF same_nodes_tree [OF assms(2)]]
  have "changed s u = changed s t" by (simp add: changed_def fun_eq_iff same)
  moreover have "grows s u \<longleftrightarrow> grows s t" by (simp add: grows_def same)
  ultimately show ?thesis using assms by (simp add: set_ok_def same_nodes_def)
qed

text \<open>Withdrawals change nothing but the account.\<close>

lemma withdrawE:
  assumes "internal_storage_withdraw e name amount s = Inr (b, t, ps)"
  obtains (none) "t = s" "ps = []"
  | (some) a bal n x where "internal_get_account_social s name = Inr (Some a)"
      "storage_balance_of_account e a = Inr bal" "n \<le> sb_available bal"
      "internal_set_account e (a\<lparr>storage_balance := storage_balance a - n\<rparr>) s = Inr (x, t)"
      "ps = [Promise (env_predecessor_account_id e) [Transfer n]]"
proof -
  from assms obtain bal where bal: "internal_storage_balance_of e s name = Inr (Some bal)"
    unfolding internal_storage_withdraw_def by (auto split: option.splits)
  define n where "n = (case amount of Some n \<Rightarrow> n | None \<Rightarrow> sb_available bal)"
  from assms bal have n: "n \<le> sb_available bal"
    and *: "n = 0 \<and> t = s \<and> ps = [] \<or> (\<exists>a x. internal_get_account_social s name = Inr (Some a)
      \<and> internal_set_account e (a\<lparr>storage_balance := storage_balance a - n\<rparr>) s = Inr (x, t)
      \<and> ps = [Promise (env_predecessor_account_id e) [Transfer n]])"
    unfolding internal_storage_withdraw_def Let_def
    by (auto simp: internal_unwrap_account_Inr sat_sub_eq n_def [symmetric] split: if_splits)
  from * show thesis
  proof (elim disjE exE conjE)
    fix a x
    assume a: "internal_get_account_social s name = Inr (Some a)"
      "internal_set_account e (a\<lparr>storage_balance := storage_balance a - n\<rparr>) s = Inr (x, t)"
      "ps = [Promise (env_predecessor_account_id e) [Transfer n]]"
    have "storage_balance_of_account e a = Inr bal"
      using bal(1) a(1) by (auto simp: internal_storage_balance_of_def)
    from some [OF a(1) this n a(2,3)] show thesis .
  qed (rule none)
qed

lemma withdraw_nodes:
  assumes "internal_storage_withdraw e name amount s = Inr (b, t, ps)" and "wf_social s"
  shows "same_nodes s t" and "wf_social t" and "permissions t = permissions s"
proof -
  from assms(1) have "t = s \<or> (\<exists>a a' x. internal_get_account_social s name = Inr (Some a)
      \<and> account_node_id a' = account_node_id a \<and> internal_set_account e a' s = Inr (x, t))"
    by (rule withdrawE) auto
  then have "same_nodes s t \<and> wf_social t \<and> permissions t = permissions s"
  proof (elim disjE exE conjE)
    fix a a' x
    assume a: "internal_get_account_social s name = Inr (Some a)" "account_node_id a' = account_node_id a"
      and t: "internal_set_account e a' s = Inr (x, t)"
    have "edge s 0 (account_node_id a')" using internal_get_account_Some(1) [OF a(1)] a(2) by (auto simp: edge_def)
    with set_account_wf [OF t assms(2)] internal_set_account_nodes(1,2) [OF t] show ?thesis by simp
  qed (use assms(2) in simp)
  then show "same_nodes s t" "wf_social t" "permissions t = permissions s" by simp_all
qed

subsection \<open>set\<close>

text \<open>The parts of one round of the loop of \<open>set\<close>.\<close>

definition refund_unused ::
  "social_host \<Rightarrow> set_options \<Rightarrow> string \<Rightarrow> nat \<Rightarrow> social \<Rightarrow> (social \<times> social_promise list) res" where
  "refund_unused e opts key attached_balance s =
     (if unwrap_or (refund_unused_deposit opts) False \<and> 0 < attached_balance then
        bindE (expect (env_parse_account_id e key) ''key is valid account id'') (\<lambda>account_id.
        bindE (internal_storage_balance_of e s account_id) (\<lambda>found.
        case found of
          None \<Rightarrow> Inr (s, [])
        | Some b \<Rightarrow>
            let refund = min (sb_available b) attached_balance in
            bindE (internal_storage_withdraw e account_id (Some refund) s) (\<lambda>(_, s, ps). Inr (s, ps))))
      else Inr (s, []))"

lemma refund_unusedE:
  assumes "refund_unused e opts key d s = Inr (t, ps)"
  obtains "t = s" "ps = []" | name b r where "internal_storage_withdraw e name (Some r) s = Inr (b, t, ps)"
  using assms by (auto simp: refund_unused_def Let_def split: if_splits option.splits)

lemma set_entryE:
  assumes "set_entry e opts (key, value) (d, s, ps) = Inr (d', t, qs)"
  obtains a s1 ps1 n s2 tr x s3 ps2 where
    "internal_unwrap_account_or_create e key d s = Inr (a, s1, ps1)"
    "internal_unwrap_node s1 (account_node_id a) = Inr n"
    "recursive_set e (if key = env_predecessor_account_id e then {} else granted_ids e s1 (account_node_id a))
       (key = env_predecessor_account_id e) value n s1 = Inr s2"
    "internal_set_account e (a\<lparr>tracker := tr\<rparr>) s2 = Inr (x, s3)"
    "refund_unused e opts key d s3 = Inr (t, ps2)"
    "d' = 0" "qs = ps @ ps1 @ ps2"
  using assms unfolding set_entry_def Let_def split_beta prod.sel granted_ids_eq
    refund_unused_def [unfolded Let_def split_beta, symmetric]
  by (simp only: bindE_eq_Inr) (elim exE conjE, simp, metis prod.collapse)

text \<open>One round: create the account if needed, write to its subtree, settle the account.\<close>

definition entry_ids :: "social_host \<Rightarrow> string \<Rightarrow> social \<Rightarrow> node_id \<Rightarrow> node_id set" where
  "entry_ids e key s a = (if key = env_predecessor_account_id e then {} else granted_ids e s a)"

lemma set_entry_steps:
  assumes "set_entry e opts (key, v) (d, s, ps) = Inr (d', t, qs)" and wf: "wf_social s"
  obtains a s1 n s2 where "wf_social s1" "pedge s1 0 key a" "0 < a"
    "s1 = s \<or> map_of (kids s 0) key = None \<and> created key s s1"
    "internal_unwrap_node s1 a = Inr n"
    "recursive_set e (entry_ids e key s1 a) (key = env_predecessor_account_id e) v n s1 = Inr s2"
    "wrote a (entry_ids e key s1 a) (key = env_predecessor_account_id e) s1 s2"
    "wf_social s2" "wf_social t" "same_nodes s2 t" "permissions t = permissions s2"
proof -
  from assms(1) obtain b s1 ps1 n s2 tr x s3 ps2 where
    c: "internal_unwrap_account_or_create e key d s = Inr (b, s1, ps1)"
    and n: "internal_unwrap_node s1 (account_node_id b) = Inr n"
    and r: "recursive_set e (entry_ids e key s1 (account_node_id b)) (key = env_predecessor_account_id e) v n s1 = Inr s2"
    and b: "internal_set_account e (b\<lparr>tracker := tr\<rparr>) s2 = Inr (x, s3)"
    and w: "refund_unused e opts key d s3 = Inr (t, ps2)"
    unfolding entry_ids_def by (rule set_entryE)
  let ?a = "account_node_id b"
  have 1: "wf_social s1" "pedge s1 0 key ?a" "s1 = s \<or> map_of (kids s 0) key = None \<and> created key s s1"
    using c wf by (cases rule: unwrap_or_create_cases; simp add: created_def)+
  note T = wf_socialD(1) [OF 1(1)]
  have i: "0 < ?a" using wf_treeD(6) [OF T 1(2)] by simp
  note L = same_tree_reload [OF n i]
  have "wf_tree (save n s1)" using T same_tree_simps(6) [OF L(1)] by simp
  with recursive_set_wrote(1) [OF r T] L(2) i
  have W: "wrote ?a (entry_ids e key s1 ?a) (key = env_predecessor_account_id e) s1 s2"
    by (intro wrote_same_left [OF L(1)]) simp_all
  have 2: "wf_social s2" by (rule wf_social_rest [OF 1(1) wroteD(1,3) [OF W]])
  have "kids s2 0 = kids s1 0" using wroteD(3) [OF W] by (simp add: rest_same_def kids_def)
  then have "edge s2 0 (account_node_id (b\<lparr>tracker := tr\<rparr>))" using 1(2) by (auto simp: edge_def pedge_def)
  from set_account_wf [OF b 2 this] have 3: "wf_social s3" .
  have "same_nodes s3 t \<and> wf_social t \<and> permissions t = permissions s3"
    using w by (cases rule: refund_unusedE) (use 3 withdraw_nodes [OF _ 3] in auto)
  then show thesis
    using that [OF 1(1,2) i 1(3) n r W 2] internal_set_account_nodes(1,2) [OF b]
    by (auto intro: same_nodes_trans)
qed

lemma set_entry_ok:
  assumes "set_entry e opts (key, v) (d, s, ps) = Inr (d', t, qs)" and wf: "wf_social s"
  shows "set_ok e {key} s t"
proof -
  from set_entry_steps [OF assms] obtain a s1 n s2 where 1: "wf_social s1" "pedge s1 0 key a"
    and c: "s1 = s \<or> map_of (kids s 0) key = None \<and> created key s s1"
    and W: "wrote a (entry_ids e key s1 a) (key = env_predecessor_account_id e) s1 s2"
    and 2: "wf_social s2" and t: "wf_social t" "same_nodes s2 t" "permissions t = permissions s2"
    by metis
  have "may_write e s1 key j" if "changed s1 s2 j" for j
    using wroteD(5,6) [OF W that] 1(2) unfolding may_write_def entry_ids_def by (auto split: if_splits)
  then have "set_ok e {key} s1 s2"
    using 2 wroteD(2,3) [OF W] by (simp add: set_ok_def rest_same_def)
  moreover have "set_ok e {key} s s1" using c wf by (auto simp: set_ok_refl) (auto simp: set_ok_def created_def changed_def)
  ultimately have "set_ok e {key} s s2" using set_ok_trans [OF wf] by blast
  then show ?thesis by (rule set_ok_same_nodes [OF _ t(2,1,3)])
qed

lemma set_entries_ok:
  assumes "foldE (set_entry e opts) obj (d, s, ps) = Inr (d', t, qs)" and "wf_social s"
  shows "set_ok e (set (map fst obj)) s t"
  using assms
proof (induction obj arbitrary: d s ps)
  case Nil
  then show ?case by (simp add: set_ok_refl)
next
  case (Cons kv obj)
  obtain key v where kv: "kv = (key, v)" by (cases kv)
  from Cons.prems(1) kv obtain d1 s1 ps1 where 1: "set_entry e opts (key, v) (d, s, ps) = Inr (d1, s1, ps1)"
    and 2: "foldE (set_entry e opts) obj (d1, s1, ps1) = Inr (d', t, qs)" by auto
  have a: "set_ok e {key} s s1" by (rule set_entry_ok [OF 1 Cons.prems(2)])
  then have "wf_social s1" by (simp add: set_ok_def)
  from Cons.IH [OF 2 this] a show ?case
    using set_ok_trans [OF Cons.prems(2)] set_ok_mono kv by (metis (no_types, lifting) fst_conv insertI1 list.set_intros(1) list.simps(9) set_subset_Cons singletonD subsetI)
qed

lemma set_dataE:
  assumes "set_data e data opts s = Inr (t, ps)"
  obtains obj where "status s = Live" "data = JObj obj"
    "foldE (set_entry e (unwrap_or opts \<lparr>refund_unused_deposit = None\<rparr>)) obj (env_attached_deposit e, s, []) = Inr (0, t, ps)"
  using assms by (auto simp: set_data_def assert_live_def Let_def split: json.splits prod.splits)

lemma set_data_ok:
  assumes "set_data e data opts s = Inr (t, ps)" and "wf_social s"
  obtains obj where "data = JObj obj" and "set_ok e (set (map fst obj)) s t"
  using assms set_dataE set_entries_ok by metis

subsection \<open>Grants\<close>

text \<open>A step down a granted path: the tree with the node that is held only grows.\<close>

definition held_ok :: "social \<Rightarrow> node \<times> social \<Rightarrow> bool" where
  "held_ok s ns \<longleftrightarrow> wf_tree (save (fst ns) (snd ns)) \<and> 0 < node_id (fst ns)
     \<and> grows s (save (fst ns) (snd ns)) \<and> rest_same s (snd ns)"

lemma grant_step_ok:
  assumes "grant_step e key (n, s) = Inr (n', t)" and "held_ok s0 (n, s)"
  shows "held_ok s0 (n', t)"
proof -
  let ?u = "save n s"
  from assms(2) have u: "wf_tree ?u" and n: "0 < node_id n" and g: "grows s0 ?u" and r: "rest_same s0 s"
    by (auto simp: held_ok_def)
  have key: "is_key_valid key" using assms(1) by (simp add: grant_step_def)
  show ?thesis
  proof (cases "\<exists>c. map_of (children n) key = Some (Node c)")
    case True
    then obtain c where c: "map_of (children n) key = Some (Node c)" by blast
    with assms(1) key have n': "internal_unwrap_node s c = Inr n'" and t: "t = internal_set_node e n s"
      by (auto simp: grant_step_def)
    have "pedge ?u (node_id n) key c" using c n by (simp add: pedge_def kids_save)
    then have lt: "node_id n < c" by (rule wf_treeD(6) [OF u])
    have same: "same_tree ?u t" unfolding t internal_set_node_save by (rule same_tree_block_height [OF n])
    have "internal_unwrap_node t c = Inr n'"
      using n' lt by (simp add: t internal_set_node_def internal_unwrap_node_Inr)
    note L = same_tree_reload [OF this]
    have "same_tree ?u (save n' t)" using same L(1) lt same_tree_trans by simp
    then have "wf_tree (save n' t)" "grows s0 (save n' t)"
      using u grows_trans [OF g] same_tree_grows same_tree_simps(6) by blast+
    then show ?thesis using r lt L(2) by (simp add: held_ok_def t internal_set_node_save)
  next
    case False
    let ?b = "fresh_node e (node_count s) (map_of (children n) key)"
    let ?n = "put key (Node (node_count s)) n"
    from False assms(1) key have n': "n' = ?b" and fits: "fits 32 (node_count s + 1)"
      and t: "t = internal_set_node e ?n (s\<lparr>node_count := node_count s + 1\<rparr>)"
      by (auto simp: grant_step_def create_node_id_Inr node_new_Inr fresh_node_def put_def Let_def
          split: option.splits node_value.splits)
    have leaves: "is_key_valid k \<and> \<not> is_node x" if "map_of (children ?b) k = Some x" for k x
      using that False by (auto simp: not_node_leaf split: if_splits)
    have uu: "wf_tree (save n ?u)" using u by (simp add: save_def)
    have id: "node_id n < node_count s" using wf_treeD(3) [OF u, of "node_id n" n] by simp
    have W: "wf_tree (save ?n (add_node ?b ?u))" "wrote (node_id n) {} True (save n ?u) (save ?n (add_node ?b ?u))"
      using wrote_link [OF u uu n key _ _ fresh_node_simps(2) leaves] False by auto
    have "save ?b (save ?n (s\<lparr>node_count := node_count s + 1\<rparr>)) = save ?n (add_node ?b ?u)"
      using id by (simp add: save_def add_node_def fun_upd_twist)
    moreover have "same_tree (save ?b (save ?n (s\<lparr>node_count := node_count s + 1\<rparr>))) (save ?b t)"
      using n id by (auto simp: t internal_set_node_save same_tree_def kids_def fun_eq_iff)
    ultimately have same: "same_tree (save ?n (add_node ?b ?u)) (save n' t)" by (simp add: n')
    have "grows s0 (save ?n (add_node ?b ?u))"
      using grows_trans [OF g] wroteD(2) [OF W(2)] by (simp add: save_def)
    then have "grows s0 (save n' t)" "wf_tree (save n' t)"
      using grows_trans same_tree_grows [OF same] same_tree_simps(6) [OF same] W(1) by blast+
    then show ?thesis using r id n by (simp add: held_ok_def n' t internal_set_node_save)
  qed
qed

lemma grant_keyE:
  assumes "grant_key e name key (a, s, ids) = Inr (a', t, ids')"
  obtains tr n n' u where "internal_unwrap_node s (account_node_id a) = Inr n"
    "foldE (grant_step e) (tl (split SEPARATOR key)) (n, s) = Inr (n', u)"
    "t = internal_set_node e n' u" "a' = a\<lparr>tracker := tr\<rparr>" "ids' = insert (node_id n') ids"
  using assms by (auto simp: grant_key_def Let_def split: prod.splits)

lemma grant_key_ok:
  assumes "grant_key e name key (a, s, ids) = Inr (a', t, ids')" and "wf_tree s" and "0 < account_node_id a"
  shows "wf_tree t \<and> grows s t \<and> rest_same s t \<and> (\<exists>tr. a' = a\<lparr>tracker := tr\<rparr>)"
proof -
  from assms(1) obtain tr n n' u where n: "internal_unwrap_node s (account_node_id a) = Inr n"
    and f: "foldE (grant_step e) (tl (split SEPARATOR key)) (n, s) = Inr (n', u)"
    and t: "t = internal_set_node e n' u" "a' = a\<lparr>tracker := tr\<rparr>"
    by (rule grant_keyE)
  note L = same_tree_reload [OF n assms(3)]
  have "held_ok s (n, s)" using assms(2,3) L(2) same_tree_simps(6) [OF L(1)] same_tree_grows [OF L(1)]
    by (simp add: held_ok_def)
  then have "held_ok s (n', u)"
    by (rule foldE_invariant [OF f]) (metis grant_step_ok surj_pair)
  then have h: "wf_tree (save n' u)" "0 < node_id n'" "grows s (save n' u)" "rest_same s u"
    by (simp_all add: held_ok_def)
  have same: "same_tree (save n' u) t" unfolding t internal_set_node_save by (rule same_tree_block_height [OF h(2)])
  show ?thesis using h same_tree_simps(6) [OF same] grows_trans [OF h(3) same_tree_grows [OF same]] t
    by (auto simp: internal_set_node_save)
qed

lemma grant_keys_tracker:
  assumes "foldE (grant_key e name) keys (a, s, i) = Inr (a', t, ids)"
  shows "\<exists>tr. a' = a\<lparr>tracker := tr\<rparr>"
  using assms
proof (induction keys arbitrary: a s i)
  case Nil
  then show ?case by (auto intro: exI [of _ "tracker a'"])
next
  case (Cons key keys)
  from Cons.prems obtain a1 s1 i1 where 1: "grant_key e name key (a, s, i) = Inr (a1, s1, i1)"
    and 2: "foldE (grant_key e name) keys (a1, s1, i1) = Inr (a', t, ids)" by auto
  from 1 obtain tr where "a1 = a\<lparr>tracker := tr\<rparr>" by (rule grant_keyE)
  with Cons.IH [OF 2] show ?case by auto
qed

lemma grant_keys_ok:
  assumes "foldE (grant_key e name) keys (a, s, ids) = Inr (a', t, ids')" and "wf_tree s" and "0 < account_node_id a"
  shows "wf_tree t \<and> grows s t \<and> rest_same s t"
  using assms
proof (induction keys arbitrary: a s ids)
  case (Cons key keys)
  from Cons.prems(1) obtain a1 s1 i1 where 1: "grant_key e name key (a, s, ids) = Inr (a1, s1, i1)"
    and 2: "foldE (grant_key e name) keys (a1, s1, i1) = Inr (a', t, ids')" by auto
  from grant_key_ok [OF 1 Cons.prems(2,3)] obtain tr where
    "wf_tree s1" "grows s s1" "rest_same s s1" "a1 = a\<lparr>tracker := tr\<rparr>" by blast
  with Cons.IH [OF 2] Cons.prems(3) show ?case by (auto intro: grows_trans rest_same_trans)
qed simp

lemma grant_write_permissionE:
  assumes "grant_write_permission e predecessor pk keys s = Inr (t, ps)"
  obtains pkey a s1 tr s2 ids tr' x where "status s = Live" "0 < env_attached_deposit e"
    "permission_key_of predecessor pk = Inr pkey"
    "internal_unwrap_account_or_create e (env_predecessor_account_id e) (env_attached_deposit e) s = Inr (a, s1, ps)"
    "foldE (grant_key e (env_predecessor_account_id e)) keys (a, s1, permitted_ids s1 (account_node_id a) pkey)
      = Inr (a\<lparr>tracker := tr\<rparr>, s2, ids)"
    "internal_set_account e (a\<lparr>tracker := tr'\<rparr>) (s2\<lparr>permissions := (permissions s2)(account_node_id a :=
       (permissions s2 (account_node_id a))(pkey := if ids = {} then None else Some (Granted ids)))\<rparr>) = Inr (x, t)"
proof -
  from assms obtain pkey a s1 where 1: "status s = Live" "0 < env_attached_deposit e"
    "permission_key_of predecessor pk = Inr pkey"
    "internal_unwrap_account_or_create e (env_predecessor_account_id e) (env_attached_deposit e) s = Inr (a, s1, ps)"
    and "returns (foldE (grant_key e (env_predecessor_account_id e)) keys (a, s1, permitted_ids s1 (account_node_id a) pkey))"
    by (auto simp: grant_write_permission_def assert_live_def returns_def Let_def)
  then obtain a2 s2 ids where f: "foldE (grant_key e (env_predecessor_account_id e)) keys
      (a, s1, permitted_ids s1 (account_node_id a) pkey) = Inr (a2, s2, ids)"
    by (auto simp: returns_def)
  from grant_keys_tracker [OF f] obtain tr where tr: "a2 = a\<lparr>tracker := tr\<rparr>" by blast
  from assms 1 f tr obtain tr' x where "internal_set_account e (a\<lparr>tracker := tr'\<rparr>)
      (s2\<lparr>permissions := (permissions s2)(account_node_id a := (permissions s2 (account_node_id a))
        (pkey := if ids = {} then None else Some (Granted ids)))\<rparr>) = Inr (x, t)"
    by (auto simp: grant_write_permission_def internal_set_permission_def assert_live_def Let_def)
  with that [OF 1] f tr show thesis by simp
qed

end
