(* ===== verification/SocialMessages.thy ===== *)
theory SocialMessages
  imports SocialCalls
begin

section \<open>The social contract: messages and reachable states\<close>

text \<open>
  All changing methods as messages, the step relation of a contract with a fixed price of a byte, and
  the invariant that its nodes form a tree whose first level are the accounts.
\<close>

subsection \<open>Every changing method as a message\<close>

datatype social_msg =
    Set json "set_options option"
  | StorageDeposit "account_id option" "bool option"
  | StorageWithdraw "nat option"
  | StorageUnregister "bool option"
  | GrantWritePermission "account_id option" "public_key option" "string list"
  | SharedStoragePoolDeposit "account_id option"
  | ShareStorage account_id nat
  | SetStatus contract_status
  | MigrateState
  | GenesisInitNodeCount nat
  | GenesisInitNodes "partial_node list"
  | GenesisInitAccounts "(account_id \<times> partial_account) list"

definition no_promises :: "social res \<Rightarrow> (social \<times> social_promise list) res" where
  "no_promises m = bindE m (\<lambda>s. Inr (s, []))"

fun social_exec :: "social_host \<Rightarrow> social_msg \<Rightarrow> social \<Rightarrow> (social \<times> social_promise list) res" where
  "social_exec e (Set data opts) s = set_data e data opts s"
| "social_exec e (StorageDeposit a r) s = bindE (storage_deposit e a r s) (\<lambda>(_, s, ps). Inr (s, ps))"
| "social_exec e (StorageWithdraw n) s = bindE (storage_withdraw e n s) (\<lambda>(_, s, ps). Inr (s, ps))"
| "social_exec e (StorageUnregister f) s = bindE (storage_unregister e f s) (\<lambda>_. Inr (s, []))"
| "social_exec e (GrantWritePermission p pk keys) s = grant_write_permission e p pk keys s"
| "social_exec e (SharedStoragePoolDeposit p) s = no_promises (shared_storage_pool_deposit e p s)"
| "social_exec e (ShareStorage a n) s = no_promises (share_storage e a n s)"
| "social_exec e (SetStatus st) s = no_promises (set_status e st s)"
| "social_exec e MigrateState s = no_promises (migrate_state e (Some s))"
| "social_exec e (GenesisInitNodeCount n) s = no_promises (genesis_init_node_count e n s)"
| "social_exec e (GenesisInitNodes ps) s = no_promises (genesis_init_nodes e ps s)"
| "social_exec e (GenesisInitAccounts as) s = no_promises (genesis_init_accounts e as s)"

lemma no_promises_Inr [simp]: "no_promises m = Inr (t, ps) \<longleftrightarrow> m = Inr t \<and> ps = []"
  by (auto simp: no_promises_def)

text \<open>
  A deployed contract was created by \<open>new\<close> and had its status set; the price of a byte, \<open>c\<close>, stays.
\<close>

definition social_init :: "social \<Rightarrow> bool" where
  "social_init s \<longleftrightarrow> (\<exists>e st. set_status e st (new_social e) = Inr s)"

inductive social_step :: "nat \<Rightarrow> social \<Rightarrow> social \<Rightarrow> bool" for c where
  "social_exec e m s = Inr (t, ps) \<Longrightarrow> env_storage_byte_cost e = c \<Longrightarrow> social_step c s t"

inductive_cases social_stepE: "social_step c s t"

subsection \<open>The methods, inverted\<close>

text \<open>What a method other than \<open>set\<close> and \<open>grant_write_permission\<close> does to the accounts.\<close>

lemma storage_depositE:
  assumes "storage_deposit e account_id r s = Inr (b, t, ps)"
  defines "name \<equiv> unwrap_or account_id (env_predecessor_account_id e)"
  obtains (refunded) a where "internal_get_account_social s name = Inr (Some a)" "t = s"
      "ps = [Promise (env_predecessor_account_id e) [Transfer (env_attached_deposit e)]]"
  | (more) a x where "internal_get_account_social s name = Inr (Some a)" "ps = []"
      "internal_set_account e
        (a\<lparr>storage_balance := sat_add 128 (storage_balance a) (env_attached_deposit e)\<rparr>) s = Inr (x, t)"
  | (new) "internal_get_account_social s name = Inr None"
      "internal_create_account e name (env_attached_deposit e) (unwrap_or r False) s = Inr (t, ps)"
proof -
  have name: "(case account_id of Some a \<Rightarrow> a | None \<Rightarrow> env_predecessor_account_id e) = name"
    by (simp add: name_def split: option.splits)
  have r: "(case r of Some b \<Rightarrow> b | None \<Rightarrow> False) = unwrap_or r False" by (simp split: option.splits)
  from assms(1) obtain found where f: "internal_get_account_social s name = Inr found"
    by (auto simp: storage_deposit_def Let_def name)
  show thesis
  proof (cases found)
    case None
    with assms(1) f show thesis
      by (intro new) (auto simp: storage_deposit_def Let_def name r)
  next
    case (Some a)
    with assms(1) f show thesis
      by (auto simp: storage_deposit_def Let_def name split: if_splits intro: refunded more)
  qed
qed

lemma shared_storage_pool_depositE:
  assumes "shared_storage_pool_deposit e owner s = Inr t"
  defines "name \<equiv> unwrap_or owner (env_predecessor_account_id e)"
  obtains p used where "MINIMUM_SHARED_STORAGE_BALANCE \<le> env_attached_deposit e"
    "p = unwrap_or (shared_storage_pools s name) pool_new" "pool_used_bytes p \<le> used"
    "t = internal_set_shared_storage_pool name (p\<lparr>pool_storage_balance :=
        sat_add 128 (pool_storage_balance p) (env_attached_deposit e), pool_used_bytes := used\<rparr>) s"
proof -
  define p where "p = unwrap_or (shared_storage_pools s name) pool_new"
  let ?p = "p\<lparr>pool_storage_balance := sat_add 128 (pool_storage_balance p) (env_attached_deposit e)\<rparr>"
  have name: "(case owner of Some a \<Rightarrow> a | None \<Rightarrow> env_predecessor_account_id e) = name"
    and p: "(case shared_storage_pools s name of Some p \<Rightarrow> p | None \<Rightarrow> pool_new) = p"
    by (simp_all add: name_def p_def split: option.splits)
  from assms(1) have d: "MINIMUM_SHARED_STORAGE_BALANCE \<le> env_attached_deposit e"
    and "t = internal_set_shared_storage_pool name ?p s \<or>
      (\<exists>u. t = internal_set_shared_storage_pool name (?p\<lparr>pool_used_bytes := u\<rparr>)
        (internal_set_shared_storage_pool name ?p s) \<and> pool_used_bytes p \<le> u)"
    unfolding shared_storage_pool_deposit_def Let_def name internal_get_shared_storage_pool_def p
    by (auto simp: internal_unwrap_shared_storage_pool_def internal_get_shared_storage_pool_def
        split: if_splits)
  then have "\<exists>u. t = internal_set_shared_storage_pool name (?p\<lparr>pool_used_bytes := u\<rparr>) s \<and> pool_used_bytes p \<le> u"
    by (auto simp: internal_set_shared_storage_pool_def intro: exI [of _ "pool_used_bytes p"])
  then show thesis using that [OF d p_def] by blast
qed

lemma share_storageE:
  assumes "share_storage e name max_b s = Inr t"
  defines "pool \<equiv> env_predecessor_account_id e"
  obtains (found) a p sh s1 s2 tr b x y where "internal_get_account_social s name = Inr (Some a)"
      "shared_storage_pools s pool = Some p"
      "(case shared_storage a of
          Some current \<Rightarrow> if pool_id current = pool then share_more max_b current p s
            else share_instead e max_b pool current p s
        | None \<Rightarrow> share_first max_b pool p s) = Inr (sh, s1)"
      "case shared_storage a of Some current \<Rightarrow> shared_used_bytes current \<le> max_b | None \<Rightarrow> True"
      "internal_set_account e (a\<lparr>shared_storage := Some sh\<rparr>) s1 = Inr (x, s2)"
      "internal_get_account_social s2 name = Inr (Some b)"
      "internal_set_account e (b\<lparr>tracker := tr\<rparr>) s2 = Inr (y, t)"
  | (new) p where "internal_get_account_social s name = Inr None" "shared_storage_pools s pool = Some p"
      "internal_create_account_from_shared_storage e name max_b pool
        (internal_set_shared_storage_pool pool (p\<lparr>shared_bytes := shared_bytes p + max_b\<rparr>) s) = Inr t"
proof -
  from assms(1) obtain found p where f: "internal_get_account_social s name = Inr found"
    and p: "shared_storage_pools s pool = Some p"
    by (auto simp: share_storage_def Let_def internal_unwrap_shared_storage_pool_def
        internal_get_shared_storage_pool_def pool_def)
  note A = assms(1) [unfolded share_storage_def Let_def, folded pool_def]
  note unf = internal_unwrap_shared_storage_pool_def internal_get_shared_storage_pool_def
  show thesis
  proof (cases found)
    case None
    with A f p show thesis by (intro new) (auto simp: unf)
  next
    case (Some a)
    show thesis
    proof (cases "shared_storage a")
      case None
      with A f p Some obtain sh s1 s2 tr b x y where
        "share_first max_b pool p s = Inr (sh, s1)"
        "internal_set_account e (a\<lparr>shared_storage := Some sh\<rparr>) s1 = Inr (x, s2)"
        "internal_get_account_social s2 name = Inr (Some b)"
        "internal_set_account e (b\<lparr>tracker := tr\<rparr>) s2 = Inr (y, t)"
        by (auto simp: unf internal_unwrap_account_Inr)
      with f p Some None show thesis by (intro found) auto
    next
      case (Some current)
      with A f p \<open>found = Some a\<close> obtain sh s1 s2 tr b x y where
        "(if pool_id current = pool then share_more max_b current p s
            else share_instead e max_b pool current p s) = Inr (sh, s1)"
        "shared_used_bytes current \<le> max_b"
        "internal_set_account e (a\<lparr>shared_storage := Some sh\<rparr>) s1 = Inr (x, s2)"
        "internal_get_account_social s2 name = Inr (Some b)"
        "internal_set_account e (b\<lparr>tracker := tr\<rparr>) s2 = Inr (y, t)"
        by (auto simp: unf internal_unwrap_account_Inr)
      with f p Some \<open>found = Some a\<close> show thesis by (intro found) auto
    qed
  qed
qed

subsection \<open>Every call keeps the tree\<close>

text \<open>What every call other than \<open>set\<close> guarantees of the tree: it stays one and grows.\<close>

definition tree_ok :: "social \<Rightarrow> social \<Rightarrow> bool" where
  "tree_ok s t \<longleftrightarrow> wf_social t \<and> grows s t \<and> (status s \<noteq> Genesis \<longrightarrow> status t \<noteq> Genesis)"

lemma tree_ok_trans: "tree_ok s t \<Longrightarrow> tree_ok t u \<Longrightarrow> tree_ok s u"
  by (auto simp: tree_ok_def intro: grows_trans)

lemma tree_ok_same_nodes: "same_nodes s t \<Longrightarrow> wf_social t \<Longrightarrow> tree_ok s t"
  by (simp add: tree_ok_def same_nodes_def same_tree_grows same_treeI)

lemma created_tree_ok: "created name s t \<Longrightarrow> tree_ok s t"
  by (simp add: created_def tree_ok_def)

lemma set_account_tree_ok:
  assumes "internal_set_account e a s = Inr (x, t)" and "wf_social s"
    and "internal_get_account_social s name = Inr (Some b)" and "account_node_id a = account_node_id b"
  shows "tree_ok s t"
proof -
  have "edge s 0 (account_node_id a)" using internal_get_account_Some(1) [OF assms(3)] assms(4) by (auto simp: edge_def)
  then show ?thesis
    using tree_ok_same_nodes [OF internal_set_account_nodes(1) [OF assms(1)]] set_account_wf [OF assms(1,2)] by simp
qed

lemma storage_deposit_tree_ok:
  assumes "storage_deposit e account_id r s = Inr (b, t, ps)" and wf: "wf_social s"
  shows "tree_ok s t"
  using assms(1)
proof (cases rule: storage_depositE)
  case (refunded a)
  then show ?thesis using wf by (simp add: tree_ok_def)
next
  case (more a x)
  from set_account_tree_ok [OF more(3) wf more(1)] show ?thesis by simp
next
  case new
  from internal_create_account_created [OF new(2) wf] new(1) internal_get_account_None
  show ?thesis by (auto intro: created_tree_ok)
qed

lemma same_tree_permissions [simp]: "same_tree s (s\<lparr>permissions := p\<rparr>)"
  by (rule same_treeI) simp_all

lemma unwrap_or_create_tree_ok:
  assumes "internal_unwrap_account_or_create e name d s = Inr (a, t, ps)" and "wf_social s"
  shows "tree_ok s t" and "pedge t 0 name (account_node_id a)"
  using assms(1)
  by (cases rule: unwrap_or_create_cases [OF assms];
    auto simp: tree_ok_def created_def assms(2))+

lemma grant_tree_ok:
  assumes "grant_write_permission e predecessor pk keys s = Inr (t, ps)" and wf: "wf_social s"
  shows "tree_ok s t"
proof -
  from assms(1) obtain pkey a s1 tr s2 ids tr' x where
    u: "internal_unwrap_account_or_create e (env_predecessor_account_id e) (env_attached_deposit e) s = Inr (a, s1, ps)"
    and f: "foldE (grant_key e (env_predecessor_account_id e)) keys (a, s1, permitted_ids s1 (account_node_id a) pkey)
      = Inr (a\<lparr>tracker := tr\<rparr>, s2, ids)"
    and t: "internal_set_account e (a\<lparr>tracker := tr'\<rparr>) (s2\<lparr>permissions := (permissions s2)(account_node_id a :=
       (permissions s2 (account_node_id a))(pkey := if ids = {} then None else Some (Granted ids)))\<rparr>) = Inr (x, t)"
      (is "internal_set_account e _ ?s3 = _")
    by (rule grant_write_permissionE)
  note 1 = unwrap_or_create_tree_ok [OF u wf]
  then have w1: "wf_social s1" by (simp add: tree_ok_def)
  have "0 < account_node_id a" using wf_treeD(6) [OF wf_socialD(1) [OF w1] 1(2)] by simp
  from grant_keys_ok [OF f wf_socialD(1) [OF w1] this]
  have 2: "wf_tree s2" "grows s1 s2" "rest_same s1 s2" by simp_all
  have w2: "wf_social s2" by (rule wf_social_rest [OF w1 2(1,3)])
  have w3: "wf_social ?s3" by (rule wf_social_cong [OF same_tree_permissions _ _ w2]) simp_all
  have k: "kids ?s3 0 = kids s1 0" using 2(3) by (simp add: kids_def rest_same_def)
  have e: "edge ?s3 0 (account_node_id (a\<lparr>tracker := tr'\<rparr>))" using 1(2) by (auto simp: edge_def pedge_def k)
  have "tree_ok s1 ?s3"
    using w3 2 grows_trans [OF 2(2) same_tree_grows [OF same_tree_permissions]] by (simp add: tree_ok_def rest_same_def)
  moreover have "tree_ok ?s3 t"
    by (rule tree_ok_same_nodes [OF internal_set_account_nodes(1) [OF t] set_account_wf [OF t w3 e]])
  ultimately show ?thesis using 1(1) tree_ok_trans by blast
qed

lemma share_nodes:
  "share_more max_b current p s = Inr (sh, t) \<Longrightarrow> same_nodes s t \<and> accounts t = accounts s"
  "share_instead e max_b pool current p s = Inr (sh, t) \<Longrightarrow> same_nodes s t \<and> accounts t = accounts s"
  "share_first max_b pool p s = Inr (sh, t) \<Longrightarrow> same_nodes s t \<and> accounts t = accounts s"
  by (auto simp: share_more_def share_instead_def share_first_def Let_def)

lemma share_storage_tree_ok:
  assumes "share_storage e name max_b s = Inr t" and wf: "wf_social s"
  shows "tree_ok s t"
  using assms(1)
proof (cases rule: share_storageE)
  case (found a p sh s1 s2 tr b x y)
  have 1: "same_nodes s s1 \<and> accounts s1 = accounts s"
    using found(3) share_nodes by (auto split: option.splits if_splits)
  then have w1: "wf_social s1" using wf_social_same_nodes [OF wf] by blast
  have same: "same_tree s s1" using 1 same_nodes_tree by blast
  have "edge s1 0 (account_node_id (a\<lparr>shared_storage := Some sh\<rparr>))"
    using internal_get_account_Some(1) [OF found(1)] by (auto simp: edge_def same_tree_simps [OF same])
  from set_account_wf [OF found(5) w1 this]
  have w2: "wf_social s2" .
  have "tree_ok s s2"
    using tree_ok_same_nodes [OF same_nodes_trans [OF _ internal_set_account_nodes(1) [OF found(5)]] w2] 1 by blast
  moreover have "tree_ok s2 t" using set_account_tree_ok [OF found(7) w2 found(6)] by simp
  ultimately show ?thesis by (rule tree_ok_trans)
next
  case (new p)
  let ?s = "internal_set_shared_storage_pool (env_predecessor_account_id e) (p\<lparr>shared_bytes := shared_bytes p + max_b\<rparr>) s"
  have w: "wf_social ?s" by (rule wf_social_same_nodes [OF wf]) simp_all
  have "map_of (kids ?s 0) name = None"
    using new(1) internal_get_account_None by (simp add: kids_def internal_set_shared_storage_pool_def)
  from created_tree_ok [OF internal_create_account_from_shared_storage_created [OF new(3) w this]]
  have "tree_ok ?s t" .
  moreover have "tree_ok s ?s" by (rule tree_ok_same_nodes [OF _ w]) simp
  ultimately show ?thesis using tree_ok_trans by blast
qed

lemma social_exec_tree_ok:
  assumes "social_exec e m s = Inr (t, ps)" and wf: "wf_social s" and st: "status s \<noteq> Genesis"
  shows "tree_ok s t"
proof (cases m)
  case (Set data opts)
  with assms(1) have "set_data e data opts s = Inr (t, ps)" by simp
  then obtain obj where "data = JObj obj" and "set_ok e (set (map fst obj)) s t" by (rule set_data_ok [OF _ wf])
  with st show ?thesis by (simp add: set_ok_def tree_ok_def)
next
  case (StorageWithdraw n)
  with assms(1) obtain b where "internal_storage_withdraw e (env_predecessor_account_id e) n s = Inr (b, t, ps)"
    by (auto simp: storage_withdraw_def)
  from withdraw_nodes [OF this wf] show ?thesis by (simp add: tree_ok_same_nodes)
next
  case (SharedStoragePoolDeposit p)
  with assms(1) have "shared_storage_pool_deposit e p s = Inr t" by simp
  then show ?thesis
    by (cases rule: shared_storage_pool_depositE) (simp add: tree_ok_same_nodes wf_social_same_nodes [OF wf])
next
  case (SetStatus st')
  with assms(1) have t: "t = s\<lparr>status := st'\<rparr>" "st' \<noteq> Genesis" by (auto simp: set_status_def)
  have same: "same_tree s t" by (rule same_treeI) (simp_all add: t)
  have "wf_social t" by (rule wf_social_cong [OF same _ _ wf]) (simp_all add: t)
  then show ?thesis using t same_tree_grows [OF same] by (simp add: tree_ok_def)
qed (use assms in \<open>auto simp: storage_unregister_def migrate_state_def genesis_init_node_count_def
    genesis_init_nodes_def genesis_init_accounts_def assert_genesis_def tree_ok_def
    dest: storage_deposit_tree_ok grant_tree_ok share_storage_tree_ok\<close>)

text \<open>A new contract.\<close>

lemma new_social_wf: "social_init s \<Longrightarrow> wf_social s \<and> status s \<noteq> Genesis"
proof -
  assume "social_init s"
  then obtain e st where s: "s = (new_social e)\<lparr>status := st\<rparr>" "st \<noteq> Genesis"
    by (auto simp: social_init_def set_status_def)
  have "kids s i = []" for i by (simp add: kids_def s new_social_def)
  then show ?thesis
    by (auto simp: wf_social_def wf_tree_def wf_accounts_def edge_def pedge_def s new_social_def)
qed

definition live_tree :: "social \<Rightarrow> bool" where
  "live_tree s \<longleftrightarrow> wf_social s \<and> status s \<noteq> Genesis"

interpretation social_tree: inductive_invariant "social_step c" live_tree social_init for c
proof unfold_locales
  show "live_tree t" if "live_tree s" "social_step c s t" for s t
    using that social_exec_tree_ok by (auto simp: live_tree_def tree_ok_def elim!: social_stepE)
qed (use new_social_wf in \<open>simp add: live_tree_def\<close>)

end
