(* ===== verification/SocialValues.thy ===== *)
theory SocialValues
  imports SocialMessages
begin

section \<open>The social contract: the data that the tree stands for\<close>

text \<open>
  Seen from outside, the contract is a map from paths to strings and nulls: \<open>value_at s 0 path\<close>. A
  leaf that has entries below it is kept under the empty key of the node that replaces it. The
  abstract specification of \<open>set\<close> is \<open>overlay\<close>: the values of the given JSON object take the place
  of the old ones, and all others stay. It holds as long as nothing but a leaf is put under an
  empty key (\<open>plain\<close>, \<open>plain_json\<close>).
\<close>

subsection \<open>Values\<close>

fun value_at :: "social \<Rightarrow> node_id \<Rightarrow> string list \<Rightarrow> json option" where
  "value_at s i [] = (case map_of (kids s i) EMPTY_KEY of Some x \<Rightarrow> leaf_of x | None \<Rightarrow> None)"
| "value_at s i (k # path) =
     (case map_of (kids s i) k of
        Some (Node c) \<Rightarrow> value_at s c path
      | Some x \<Rightarrow> if path = [] then leaf_of x else None
      | None \<Rightarrow> None)"

definition leaf :: "json \<Rightarrow> json option" where
  "leaf v = (if is_leaf v then Some v else None)"

fun jlookup :: "json \<Rightarrow> string list \<Rightarrow> json option" where
  "jlookup (JObj obj) [] = (case map_of obj EMPTY_KEY of Some v \<Rightarrow> leaf v | None \<Rightarrow> None)"
| "jlookup (JObj obj) (k # path) = (case map_of obj k of Some v \<Rightarrow> jlookup v path | None \<Rightarrow> None)"
| "jlookup v [] = leaf v"
| "jlookup v (k # path) = None"

definition overlay :: "json \<Rightarrow> string list \<Rightarrow> json option \<Rightarrow> json option" where
  "overlay v path old = (case jlookup v path of Some x \<Rightarrow> Some x | None \<Rightarrow> old)"

lemma overlay_simps [simp]:
  "overlay (JObj []) path old = old"
  "is_leaf v \<Longrightarrow> overlay v [] old = Some v"
  "is_leaf v \<Longrightarrow> overlay v (k # path) old = old"
  by (cases path; simp add: overlay_def) (cases v; simp add: overlay_def leaf_def)+

fun plain_json :: "json \<Rightarrow> bool" where
  "plain_json (JObj obj) \<longleftrightarrow> distinct (map fst obj)
     \<and> (\<forall>(k, v) \<in> set obj. (k = EMPTY_KEY \<longrightarrow> is_leaf v) \<and> plain_json v)"
| "plain_json v \<longleftrightarrow> True"

definition plain :: "social \<Rightarrow> bool" where
  "plain s \<longleftrightarrow> (\<forall>i c. 0 < i \<longrightarrow> \<not> pedge s i EMPTY_KEY c)"

lemma plain_same: "same_tree s t \<Longrightarrow> plain t \<longleftrightarrow> plain s"
  by (simp add: plain_def same_tree_simps)

lemma value_at_same: "same_tree s t \<Longrightarrow> value_at t = value_at s"
proof -
  assume "same_tree s t"
  then have "value_at t i path = value_at s i path" for i path
    by (induction s i path rule: value_at.induct) (simp_all add: same_tree_simps split: option.splits node_value.splits)
  then show ?thesis by (simp add: fun_eq_iff)
qed

text \<open>A value depends on the nodes of its subtree only.\<close>

lemma value_at_cong:
  assumes "\<And>j. below s i j \<Longrightarrow> kids t j = kids s j"
  shows "value_at t i path = value_at s i path"
  using assms
proof (induction path arbitrary: i)
  case (Cons k path)
  have i: "kids t i = kids s i" using Cons.prems by simp
  have "value_at t c path = value_at s c path" if "map_of (kids s i) k = Some (Node c)" for c
    using that by (intro Cons.IH Cons.prems) (auto simp: pedge_def intro: below_edge)
  with i show ?case by (auto split: option.splits node_value.splits)
qed simp

lemma value_at_node: "pedge s p k c \<Longrightarrow> value_at s p (k # path) = value_at s c path"
  by (simp add: pedge_def)

subsection \<open>Writing one entry of the node that is held\<close>

text \<open>The subtrees of the other children of a node are not changed by a write to one of them.\<close>

lemma other_child_same:
  assumes wf: "wf_tree s" and w: "wrote c W approved s t" and "pedge s p k c" and "pedge s p k' c'" and "k \<noteq> k'"
    and "below s c' j"
  shows "kids t j = kids s j"
proof (rule ccontr)
  assume "kids t j \<noteq> kids s j"
  moreover have "j \<in> dom (nodes s)"
    by (rule below_stored [OF assms(6) wf wf_treeD(7) [OF wf assms(4)]])
  ultimately have "below s c j" using wroteD(5) [OF w] by (simp add: changed_def)
  from subtrees_disjoint [OF wf assms(3,4,5) this assms(6)] show False .
qed

text \<open>
  \<open>s\<close> and \<open>t\<close> agree about the node \<open>i\<close> but for its entry \<open>key\<close>, which has the value of \<open>v\<close> laid
  over the old one.
\<close>

definition entry_written :: "node_id \<Rightarrow> string \<Rightarrow> json \<Rightarrow> social \<Rightarrow> social \<Rightarrow> bool" where
  "entry_written i key v s t \<longleftrightarrow> (\<forall>path. EMPTY_KEY \<notin> set path \<longrightarrow>
     value_at t i path = overlay (JObj [(key, v)]) path (value_at s i path))"

lemma overlay_entry:
  "overlay (JObj [(key, v)]) (k # path) old = (if k = key then overlay v path old else old)"
  "overlay (JObj [(key, v)]) [] old = (if key = EMPTY_KEY \<and> is_leaf v then Some v else old)"
  by (simp_all add: overlay_def leaf_def)

lemma leaf_entry_written:
  assumes wf: "wf_tree (save (put key x n) s)" and n: "0 < node_id n" "wf_tree (save n s)"
    and x: "leaf_of x = Some v" and v: "is_leaf v"
    and old: "\<And>c. map_of (children n) key \<noteq> Some (Node c)"
  shows "entry_written (node_id n) key v (save n s) (save (put key x n) s)"
  unfolding entry_written_def
proof (intro allI impI)
  fix path assume p: "EMPTY_KEY \<notin> set path"
  let ?i = "node_id n" and ?s = "save n s" and ?t = "save (put key x n) s"
  have nx: "x \<noteq> Node c" for c using x by auto
  have other: "value_at ?t c q = value_at ?s c q" if "pedge ?s ?i k c" for k c q
  proof (rule value_at_cong)
    fix j assume "below ?s c j"
    then have "?i < j" using below_le [OF _ n(2)] wf_treeD(6) [OF n(2) that] by fastforce
    then show "kids ?t j = kids ?s j" using n(1) by (simp add: kids_save)
  qed
  show "value_at ?t ?i path = overlay (JObj [(key, v)]) path (value_at ?s ?i path)"
  proof (cases path)
    case Nil
    then show ?thesis using n(1) x v by (simp add: kids_save overlay_entry)
  next
    case (Cons k q)
    show ?thesis
    proof (cases "k = key")
      case True
      have "value_at ?s ?i (key # q) = None" if "q \<noteq> []"
        using that old n(1) by (auto simp: kids_save split: option.splits node_value.splits)
      then show ?thesis using True Cons n(1) x v nx
        by (cases q) (auto simp: kids_save overlay_entry split: node_value.splits)
    next
      case False
      then show ?thesis using Cons n(1) other
        by (auto simp: kids_save overlay_entry pedge_def split: option.splits node_value.splits)
    qed
  qed
qed

text \<open>The child \<open>c\<close> was written to, from \<open>s\<close> to \<open>u\<close>, while \<open>n\<close> was held.\<close>

lemma child_entry_written:
  assumes wf: "wf_tree s" and S: "wf_tree (save n s)" and n: "0 < node_id n"
    and e: "map_of (children n) key = Some (Node c)" and key: "key \<noteq> EMPTY_KEY"
    and w: "wrote c W approved s u"
    and v: "\<And>path. EMPTY_KEY \<notin> set path \<Longrightarrow> value_at u c path = overlay v path (value_at s c path)"
  shows "entry_written (node_id n) key v (save n s) (save n u)"
  unfolding entry_written_def
proof (intro allI impI)
  fix path assume p: "EMPTY_KEY \<notin> set path"
  let ?i = "node_id n"
  have edge: "pedge (save n s) ?i key c" using e n by (simp add: pedge_def kids_save)
  note lt = wf_treeD(6) [OF S edge]
  have above: "value_at (save n x) d q = value_at x d q" if "wf_tree x" "?i < d" for x d q
  proof (rule value_at_cong)
    fix j assume "below x d j"
    then have "?i < j" using below_le [OF _ that(1)] that(2) by fastforce
    then show "kids (save n x) j = kids x j" using n by (simp add: kids_save)
  qed
  note W = wrote_child [OF wf S n e w]
  show "value_at (save n u) ?i path = overlay (JObj [(key, v)]) path (value_at (save n s) ?i path)"
  proof (cases path)
    case Nil
    then show ?thesis using n key by (simp add: kids_save overlay_entry)
  next
    case (Cons k q)
    show ?thesis
    proof (cases "k = key")
      case True
      have "value_at (save n u) ?i (key # q) = value_at u c q"
        "value_at (save n s) ?i (key # q) = value_at s c q"
        using e n above [OF W(1) lt] above [OF wf lt] by (simp_all add: kids_save)
      then show ?thesis using v [of q] p Cons True by (simp add: overlay_entry)
    next
      case False
      have same: "value_at (save n u) d q = value_at (save n s) d q" if k: "pedge (save n s) ?i k d" for d
      proof (rule value_at_cong)
        fix j assume j: "below (save n s) d j"
        have "?i < j" using below_le [OF j S] wf_treeD(6) [OF S k] by simp
        then have ji: "j \<noteq> ?i" by simp
        have "j \<in> dom (nodes (save n s))" by (rule below_stored [OF j S wf_treeD(7) [OF S k]])
        moreover have "\<not> below (save n s) c j"
          using subtrees_disjoint [OF S edge k _ _ j] False by blast
        moreover have "below (save n s) c j" if "changed s u j"
        proof -
          from wroteD(5) [OF w that] have "below s c j" .
          then show ?thesis by (rule below_save [OF _ wf lt n])
        qed
        ultimately show "kids (save n u) j = kids (save n s) j"
          using ji n by (auto simp: changed_def kids_save)
      qed
      then show ?thesis using False Cons n
        by (auto simp: kids_save overlay_entry pedge_def split: option.splits node_value.splits)
    qed
  qed
qed

text \<open>A leaf, or a missing entry, is replaced by a node with the leaf: the values stay.\<close>

lemma link_values:
  fixes e :: social_host
  assumes wf: "wf_tree s" and S: "wf_tree (save n s)" and n: "0 < node_id n"
    and key: "key \<noteq> EMPTY_KEY \<or> map_of (children n) key = None"
    and old: "\<And>c. map_of (children n) key \<noteq> Some (Node c)" and p: "EMPTY_KEY \<notin> set path"
  defines "b \<equiv> fresh_node e (node_count s) (map_of (children n) key)"
  shows "value_at (save (put key (Node (node_count s)) n) (add_node b s)) (node_id n) path
    = value_at (save n s) (node_id n) path"
proof -
  let ?i = "node_id n" and ?c = "node_count s"
  let ?t = "save (put key (Node ?c) n) (add_node b s)"
  have i: "?i < ?c" using wf_treeD(3) [OF S, of ?i n] by simp
  have k: "kids ?t j = (if j = ?i then children (put key (Node ?c) n) else if j = ?c then children b else kids s j)" for j
    using n i by (auto simp: kids_save add_node_def b_def)
  have kc: "map_of (kids ?t ?c) x = (if x = EMPTY_KEY then map_of (children n) key else None)" for x
  proof -
    have "kids ?t ?c = children b" using k i by simp
    then show ?thesis by (simp only: b_def fresh_node_simps)
  qed
  show ?thesis
  proof (cases path)
    case Nil
    then show ?thesis using n key by (auto simp: k kids_save)
  next
    case (Cons x q)
    show ?thesis
    proof (cases "x = key")
      case True
      have "value_at ?t ?c q = (if q = [] then case map_of (children n) key of Some y \<Rightarrow> leaf_of y | None \<Rightarrow> None else None)"
        using p Cons by (cases q) (auto simp: kc)
      then show ?thesis using True Cons n old
        by (auto simp: k kids_save split: option.splits node_value.splits)
    next
      case False
      have "value_at ?t d q = value_at (save n s) d q" if d: "pedge (save n s) ?i x d" for d
      proof (rule value_at_cong)
        fix j assume j: "below (save n s) d j"
        have "?i < j" using below_le [OF j S] wf_treeD(6) [OF S d] by simp
        moreover have "j \<in> dom (nodes (save n s))" by (rule below_stored [OF j S wf_treeD(7) [OF S d]])
        then have "j < ?c" using wf_treeD(3) [OF S] by fastforce
        ultimately show "kids ?t j = kids (save n s) j" using n by (simp add: k kids_save)
      qed
      then show ?thesis using False Cons n
        by (auto simp: k kids_save pedge_def split: option.splits node_value.splits)
    qed
  qed
qed

subsection \<open>recursive_set\<close>

lemma plain_save_iff:
  assumes "0 < node_id n" and "plain s"
  shows "plain (save n s) \<longleftrightarrow> (\<forall>c. map_of (children n) EMPTY_KEY \<noteq> Some (Node c))"
  using assms by (auto simp: plain_def pedge_def kids_save)

lemma set_child_values:
  assumes "set_child e approved key v n s = Inr (n', child, t)"
    and wf: "wf_tree s" and S: "wf_tree (save n s)" and n: "0 < node_id n"
    and pl: "plain s" "plain (save n s)" and v: "key = EMPTY_KEY \<Longrightarrow> is_leaf v"
    and rec: "\<And>b u. child = Some b \<Longrightarrow> wf_tree t \<Longrightarrow> wf_tree (save b t) \<Longrightarrow> 0 < node_id b \<Longrightarrow> plain t
      \<Longrightarrow> plain (save b t) \<Longrightarrow> w b = Inr u \<Longrightarrow> wrote (node_id b) W approved (save b t) u \<and> plain u \<and>
      (\<forall>path. EMPTY_KEY \<notin> set path \<longrightarrow> value_at u (node_id b) path = overlay v path (value_at (save b t) (node_id b) path))"
    and u: "(case child of None \<Rightarrow> Inr t | Some b \<Rightarrow> w b) = Inr u"
  shows "plain u \<and> plain (save n' u) \<and> entry_written (node_id n) key v (save n s) (save n' u)"
proof -
  note pn = pl(2) [unfolded plain_save_iff [OF n pl(1)]]
  show ?thesis
    using assms(1)
  proof (cases rule: set_childE)
    case (leaf x)
    have nx: "x \<noteq> Node c" for c using leaf(4) by auto
    have "wf_tree (save (put key x n) s)"
      using wroteD(1) [OF wrote_leaf [OF S n leaf(1,5) leaf_of_not_node [OF leaf(4)]]] .
    from leaf_entry_written [OF this n S leaf(4,3,5)]
    show ?thesis using leaf u pl pn nx n by (simp add: plain_save_iff)
  next
    case (old c b)
    have key: "key \<noteq> EMPTY_KEY" using pn old(2) by auto
    have "pedge (save n s) (node_id n) key c" using old(2) n by (simp add: pedge_def kids_save)
    then have c: "0 < c" using wf_treeD(6) [OF S] by fastforce
    note b = same_tree_reload [OF old(3) c]
    have "w b = Inr u" using u old by simp
    with rec [OF old(5)] have R: "wrote c W approved (save b s) u" "plain u"
      "\<And>path. EMPTY_KEY \<notin> set path \<Longrightarrow> value_at u c path = overlay v path (value_at (save b s) c path)"
      using old(6) wf pl(1) b(2) c same_tree_simps(6) [OF b(1)] plain_same [OF b(1)] by auto
    have "wrote c W approved s u" by (rule wrote_same_left [OF b(1) _ R(1)]) simp
    from child_entry_written [OF wf S n old(2) key this] R(3) value_at_same [OF b(1)]
    show ?thesis using R(2) pn n old(4) by (simp add: plain_save_iff)
  next
    case fresh
    have key: "key \<noteq> EMPTY_KEY" using v fresh(3) by blast
    let ?b = "fresh_node e (node_count s) (map_of (children n) key)"
    have leaves: "is_key_valid k \<and> \<not> is_node x" if "map_of (children ?b) k = Some x" for k x
      using that fresh(4) by (auto simp: not_node_leaf split: if_splits)
    note A = wf_add_node [OF wf, of ?b, OF fresh_node_simps(1,2) leaves]
    note L = wrote_link [OF wf S n fresh(1,4) fresh_node_simps(1,2) leaves]
    have save: "save ?b t = add_node ?b s" by (simp add: add_node_def fresh(8))
    have e: "map_of (children n') key = Some (Node (node_count s))" using fresh(6) by simp
    have n': "0 < node_id n'" "node_id n' = node_id n" using fresh(6) n by simp_all
    have pt: "plain t" using pl(1) by (simp add: fresh(8) plain_def pedge_def)
    have pa: "plain (add_node ?b s)" using pl(1) A(4) by (simp add: plain_def)
    have "w ?b = Inr u" using u fresh(7) by simp
    with rec [OF fresh(7)] have R: "wrote (node_count s) W approved (add_node ?b s) u" "plain u"
      "\<And>path. EMPTY_KEY \<notin> set path \<Longrightarrow>
        value_at u (node_count s) path = overlay v path (value_at (add_node ?b s) (node_count s) path)"
      using A(1,2) wf_treeD(1) [OF wf] pt pa save fresh(8) by auto
    have "wf_tree (save n' (add_node ?b s))" using L(1) fresh(6) by simp
    from child_entry_written [OF A(2) this n'(1) e key R(1,3)]
    have "entry_written (node_id n) key v (save n' (add_node ?b s)) (save n' u)" by (simp add: n')
    moreover have "value_at (save n' (add_node ?b s)) (node_id n) path = value_at (save n s) (node_id n) path"
      if "EMPTY_KEY \<notin> set path" for path
      using link_values [OF wf S n disjI1 [OF key] fresh(4) that] fresh(6) by simp
    ultimately show ?thesis using R(2) pn n' fresh(6) key by (simp add: entry_written_def plain_save_iff)
  qed
qed

lemma overlay_cons:
  assumes "key \<notin> set (map fst rest)"
  shows "overlay (JObj ((key, v) # rest)) path old
    = overlay (JObj rest) path (overlay (JObj [(key, v)]) path old)"
proof -
  have none: "map_of rest key = None" using assms by (simp add: map_of_eq_None_iff)
  show ?thesis
  proof (cases path)
    case Nil
    then show ?thesis using none by (auto simp: overlay_def leaf_def split: option.splits)
  next
    case (Cons k q)
    then show ?thesis using none by (auto simp: overlay_def split: option.splits)
  qed
qed

lemma recursive_set_values:
  "recursive_set e W approved v n s = Inr t \<Longrightarrow> wf_tree s \<Longrightarrow> wf_tree (save n s) \<Longrightarrow> 0 < node_id n
    \<Longrightarrow> plain s \<Longrightarrow> plain (save n s) \<Longrightarrow> plain_json v \<Longrightarrow> plain t \<and> (\<forall>path. EMPTY_KEY \<notin> set path \<longrightarrow>
      value_at t (node_id n) path = overlay v path (value_at (save n s) (node_id n) path))"
  "set_entries e W approved obj n s = Inr (n', t) \<Longrightarrow> wf_tree s \<Longrightarrow> wf_tree (save n s) \<Longrightarrow> 0 < node_id n
    \<Longrightarrow> plain s \<Longrightarrow> plain (save n s) \<Longrightarrow> plain_json (JObj obj) \<Longrightarrow> plain t \<and> plain (save n' t) \<and>
      (\<forall>path. EMPTY_KEY \<notin> set path \<longrightarrow>
      value_at (save n' t) (node_id n) path = overlay (JObj obj) path (value_at (save n s) (node_id n) path))"
proof (induction e W approved v n s and e W approved obj n s arbitrary: t and n' t
    rule: recursive_set_set_entries.induct)
  case (1 e W approved v n s)
  note n = "1.prems"(4)
  from "1.prems"(1) show ?case
  proof (cases rule: recursive_setE)
    case (leaf x)
    have x: "x \<noteq> Node c" for c using leaf(3) by auto
    have same: "same_tree (save (put EMPTY_KEY x n) s) t"
      unfolding leaf(5) internal_set_node_save by (rule same_tree_block_height) (simp add: n)
    have "wf_tree (save (put EMPTY_KEY x n) s)"
      using wroteD(1) [OF wrote_leaf [OF "1.prems"(3) n is_key_valid_empty leaf(4) leaf_of_not_node [OF leaf(3)]]] .
    from leaf_entry_written [OF this n "1.prems"(3) leaf(3,1,4)]
    have ew: "entry_written (node_id n) EMPTY_KEY v (save n s) t" by (simp add: entry_written_def value_at_same [OF same])
    have "plain t" using "1.prems"(5) x n by (simp add: plain_same [OF same] plain_save_iff)
    moreover have "overlay (JObj [(EMPTY_KEY, v)]) path old = overlay v path old" if "EMPTY_KEY \<notin> set path" for path old
      using leaf(1) that by (cases path) (auto simp: overlay_entry)
    ultimately show ?thesis using ew by (simp add: entry_written_def)
  next
    case (object obj m u)
    have nl: "\<not> is_leaf v" using object(1) by simp
    have pj: "plain_json (JObj obj)" using "1.prems"(7) object(1) by simp
    note IH = "1.IH" [OF refl nl object(1,2) "1.prems"(2-6) pj]
    have m: "node_id m = node_id n"
      using recursive_set_wrote(2) [OF object(2) "1.prems"(2-4)] by simp
    have same: "same_tree (save m u) t"
      unfolding object(3) internal_set_node_save by (rule same_tree_block_height) (simp add: n m)
    from IH show ?thesis by (simp add: plain_same [OF same] value_at_same [OF same] object(1))
  qed
next
  case (2 e W approved n s)
  then show ?case by simp
next
  case (3 e W approved key v rest n s)
  from "3.prems"(1) obtain m child s1 u where c: "set_child e approved key v n s = Inr (m, child, s1)"
    and u: "(case child of None \<Rightarrow> Inr s1 | Some b \<Rightarrow> recursive_set e W approved v b s1) = Inr u"
    and r: "set_entries e W approved rest m u = Inr (n', t)"
    by (auto split: prod.splits)
  note n = "3.prems"(4)
  have pj: "key = EMPTY_KEY \<Longrightarrow> is_leaf v" "plain_json v" "plain_json (JObj rest)" "key \<notin> set (map fst rest)"
    using "3.prems"(7) by auto
  have m: "node_id m = node_id n \<and> wf_tree u \<and> wf_tree (save m u) \<and> wrote (node_id n) W approved (save n s) (save m u)"
    by (rule set_child_wrote [OF c "3.prems"(2-4) _ u]) (rule recursive_set_wrote(1))
  have e: "plain u \<and> plain (save m u) \<and> entry_written (node_id n) key v (save n s) (save m u)"
  proof (rule set_child_values [OF c "3.prems"(2-6) pj(1) _ u])
    show "wrote (node_id b) W approved (save b s1) w \<and> plain w \<and> (\<forall>path. EMPTY_KEY \<notin> set path \<longrightarrow>
        value_at w (node_id b) path = overlay v path (value_at (save b s1) (node_id b) path))"
      if *: "child = Some b" "wf_tree s1" "wf_tree (save b s1)" "0 < node_id b" "plain s1" "plain (save b s1)"
        "recursive_set e W approved v b s1 = Inr w" for b w
      using recursive_set_wrote(1) [OF *(7,2-4)] "3.IH"(1) [OF c refl refl *(1,7,2-6) pj(2)] by simp
  qed
  have "0 < node_id m" using m n by simp
  from "3.IH"(2) [OF c refl refl u r _ _ this _ _ pj(3)] m e
  have "plain t \<and> plain (save n' t) \<and> (\<forall>path. EMPTY_KEY \<notin> set path \<longrightarrow>
      value_at (save n' t) (node_id n) path = overlay (JObj rest) path (value_at (save m u) (node_id n) path))"
    by simp
  then show ?case using e overlay_cons [OF pj(4)] by (simp add: entry_written_def)
qed

subsection \<open>set\<close>

lemma created_values:
  assumes c: "created key s t" and "map_of (kids s 0) key = None" and wf: "wf_social s"
  shows "value_at t 0 (k # q) = value_at s 0 (k # q)" and "plain s \<Longrightarrow> plain t"
proof -
  note T = wf_socialD(1) [OF wf]
  from c have wt: "wf_tree t" and g: "grows s t" and m: "map_of (kids t 0) = (map_of (kids s 0))(key \<mapsto> Node (node_count s))"
    and new: "kids t (node_count s) = []" "node_count t = node_count s + 1" "pedge t 0 key (node_count s)"
    and old: "\<And>j. j \<in> dom (nodes s) \<Longrightarrow> kids t j = kids s j"
    by (auto simp: created_def dest: wf_socialD(1))
  have "value_at t d q = value_at s d q" if d: "pedge s 0 k d" for d
    by (rule value_at_cong) (use old below_stored [OF _ T wf_treeD(7) [OF T d]] in blast)
  moreover have "value_at t (node_count s) q = None" by (cases q) (simp_all add: new)
  ultimately show "value_at t 0 (k # q) = value_at s 0 (k # q)"
    using assms(2) by (auto simp: m pedge_def split: option.splits node_value.splits)
  show "plain t" if pl: "plain s"
    unfolding plain_def
  proof (intro allI impI notI)
    fix i d assume i: "0 < i" and e: "pedge t i EMPTY_KEY d"
    have "d < node_count t" by (rule wf_treeD(8) [OF wt e])
    then have "d < node_count s \<or> d = node_count s" using new(2) by auto
    then show False
      using growsD(4) [OF g e] pl i wf_treeD(9) [OF wt e] new(3) by (auto simp: plain_def)
  qed
qed

lemma root_entry_written:
  assumes wf: "wf_tree s" and e: "pedge s 0 key a" and w: "wrote a W approved s t"
    and v: "\<And>path. EMPTY_KEY \<notin> set path \<Longrightarrow> value_at t a path = overlay v path (value_at s a path)"
    and p: "EMPTY_KEY \<notin> set (k # q)"
  shows "value_at t 0 (k # q) = overlay (JObj [(key, v)]) (k # q) (value_at s 0 (k # q))"
proof -
  have root: "kids t 0 = kids s 0" using wroteD(3) [OF w] by (simp add: kids_def rest_same_def)
  show ?thesis
  proof (cases "k = key")
    case True
    then show ?thesis using e v [of q] p by (simp add: pedge_def root overlay_entry)
  next
    case False
    have "value_at t d q = value_at s d q" if "pedge s 0 k d" for d
      by (rule value_at_cong) (use other_child_same [OF wf w e that] False in blast)
    then show ?thesis using False
      by (auto simp: root overlay_entry pedge_def split: option.splits node_value.splits)
  qed
qed

lemma set_entry_values:
  assumes "set_entry e opts (key, v) (d, s, ps) = Inr (d', t, qs)" and wf: "wf_social s"
    and pl: "plain s" and v: "plain_json v"
  shows "plain t" and "EMPTY_KEY \<notin> set (k # q)
    \<Longrightarrow> value_at t 0 (k # q) = overlay (JObj [(key, v)]) (k # q) (value_at s 0 (k # q))"
proof -
  from set_entry_steps [OF assms(1,2)] obtain a s1 n s2 where 1: "wf_social s1" "pedge s1 0 key a" "0 < a"
    and c: "s1 = s \<or> map_of (kids s 0) key = None \<and> created key s s1"
    and n: "internal_unwrap_node s1 a = Inr n"
    and r: "recursive_set e (entry_ids e key s1 a) (key = env_predecessor_account_id e) v n s1 = Inr s2"
    and W: "wrote a (entry_ids e key s1 a) (key = env_predecessor_account_id e) s1 s2"
    and t: "same_nodes s2 t" by metis
  note T = wf_socialD(1) [OF 1(1)]
  note L = same_tree_reload [OF n 1(3)]
  have p1: "plain s1" using c pl created_values(2) [OF _ _ wf] by blast
  have R: "plain s2 \<and> (\<forall>path. EMPTY_KEY \<notin> set path \<longrightarrow> value_at s2 a path = overlay v path (value_at s1 a path))"
    using recursive_set_values(1) [OF r T _ _ p1 _ v] L T 1(3) p1
    by (simp add: plain_same [OF L(1)] value_at_same [OF L(1)] same_tree_simps(6) [OF L(1)])
  then show "plain t" by (simp add: plain_same [OF same_nodes_tree [OF t]])
  assume p: "EMPTY_KEY \<notin> set (k # q)"
  have "value_at s1 0 (k # q) = value_at s 0 (k # q)" using c created_values(1) [OF _ _ wf] by blast
  moreover have "value_at s2 0 (k # q) = overlay (JObj [(key, v)]) (k # q) (value_at s1 0 (k # q))"
    by (rule root_entry_written [OF T 1(2) W _ p]) (use R in blast)
  ultimately show "value_at t 0 (k # q) = overlay (JObj [(key, v)]) (k # q) (value_at s 0 (k # q))"
    by (simp only: value_at_same [OF same_nodes_tree [OF t]])
qed

lemma set_entries_values:
  assumes "foldE (set_entry e opts) obj (d, s, ps) = Inr (d', t, qs)" and "wf_social s" and "plain s"
    and "plain_json (JObj obj)"
  shows "plain t \<and> (\<forall>k q. EMPTY_KEY \<notin> set (k # q)
    \<longrightarrow> value_at t 0 (k # q) = overlay (JObj obj) (k # q) (value_at s 0 (k # q)))"
  using assms
proof (induction obj arbitrary: d s ps)
  case (Cons kv obj)
  obtain key v where kv: "kv = (key, v)" by (cases kv)
  from Cons.prems(1) kv obtain d1 s1 ps1 where 1: "set_entry e opts (key, v) (d, s, ps) = Inr (d1, s1, ps1)"
    and 2: "foldE (set_entry e opts) obj (d1, s1, ps1) = Inr (d', t, qs)" by auto
  have v: "plain_json v" "plain_json (JObj obj)" "key \<notin> set (map fst obj)" using Cons.prems(4) kv by auto
  have "wf_social s1" using set_entry_ok [OF 1 Cons.prems(2)] by (simp add: set_ok_def)
  from Cons.IH [OF 2 this set_entry_values(1) [OF 1 Cons.prems(2,3) v(1)] v(2)]
    set_entry_values(2) [OF 1 Cons.prems(2,3) v(1)]
  show ?case unfolding kv using overlay_cons [OF v(3)] by simp
qed simp

subsection \<open>Nothing else changes the data\<close>

definition same_data :: "social \<Rightarrow> social \<Rightarrow> bool" where
  "same_data s t \<longleftrightarrow> (\<forall>k q. EMPTY_KEY \<notin> set (k # q) \<longrightarrow> value_at t 0 (k # q) = value_at s 0 (k # q))"

lemma same_data_refl [simp]: "same_data s s"
  by (simp add: same_data_def)

lemma same_data_trans: "same_data s t \<Longrightarrow> same_data t u \<Longrightarrow> same_data s u"
  by (simp add: same_data_def)

lemma same_tree_data: "same_tree s t \<Longrightarrow> same_data s t"
  by (simp add: same_data_def value_at_same)

lemma same_nodes_data: "same_nodes s t \<Longrightarrow> same_data s t"
  by (rule same_tree_data [OF same_nodes_tree])

lemma created_data: "created key s t \<Longrightarrow> map_of (kids s 0) key = None \<Longrightarrow> wf_social s \<Longrightarrow> same_data s t"
  using created_values(1) by (auto simp: same_data_def)

text \<open>A change of one node that keeps the values at it keeps all values.\<close>

lemma value_at_lift:
  assumes wf: "wf_tree s" and "\<And>j. j \<noteq> i \<Longrightarrow> j = 0 \<or> j \<in> dom (nodes s) \<Longrightarrow> kids t j = kids s j"
    and "\<And>path. EMPTY_KEY \<notin> set path \<Longrightarrow> value_at t i path = value_at s i path"
    and "p = 0 \<or> p \<in> dom (nodes s)" and "EMPTY_KEY \<notin> set path"
  shows "value_at t p path = value_at s p path"
  using assms(4,5)
proof (induction path arbitrary: p)
  case Nil
  then show ?case using assms(2) [of p] assms(3) [of "[]"] by (cases "p = i") auto
next
  case (Cons k path)
  show ?case
  proof (cases "p = i")
    case True
    with assms(3) Cons.prems show ?thesis by blast
  next
    case False
    have "value_at t c path = value_at s c path" if "map_of (kids s p) k = Some (Node c)" for c
      using Cons.IH [of c] Cons.prems wf_treeD(7) [OF wf, of p k c] that by (simp add: pedge_def)
    then show ?thesis using assms(2) [OF False Cons.prems(1)]
      by (auto split: option.splits node_value.splits)
  qed
qed

lemma grant_step_data:
  assumes "grant_step e key (n, s) = Inr (n', t)" and u: "wf_tree (save n s)" and n: "0 < node_id n"
  shows "same_data (save n s) (save n' t)"
proof -
  let ?u = "save n s"
  have key: "is_key_valid key" using assms(1) by (simp add: grant_step_def)
  show ?thesis
  proof (cases "\<exists>c. map_of (children n) key = Some (Node c)")
    case True
    then obtain c where c: "map_of (children n) key = Some (Node c)" by blast
    with assms(1) key have n': "internal_unwrap_node s c = Inr n'" and t: "t = internal_set_node e n s"
      by (auto simp: grant_step_def)
    have "pedge ?u (node_id n) key c" using c n by (simp add: pedge_def kids_save)
    then have lt: "node_id n < c" by (rule wf_treeD(6) [OF u])
    have same: "same_tree ?u t" unfolding t internal_set_node_save by (rule same_tree_block_height [OF n])
    have "internal_unwrap_node t c = Inr n'"
      using n' lt by (simp add: t internal_set_node_def internal_unwrap_node_Inr)
    from same_tree_reload(1) [OF this] same lt show ?thesis
      using same_tree_trans by (intro same_tree_data) simp
  next
    case False
    let ?b = "fresh_node e (node_count s) (map_of (children n) key)"
    let ?n = "put key (Node (node_count s)) n"
    from False assms(1) key have n': "n' = ?b"
      and t: "t = internal_set_node e ?n (s\<lparr>node_count := node_count s + 1\<rparr>)"
      and k: "key \<noteq> EMPTY_KEY \<or> map_of (children n) key = None"
      by (auto simp: grant_step_def create_node_id_Inr node_new_Inr fresh_node_def put_def Let_def
          split: option.splits node_value.splits)
    have uu: "wf_tree (save n ?u)" using u by (simp add: save_def)
    have id: "node_id n < node_count s" using wf_treeD(3) [OF u, of "node_id n" n] by simp
    have eq: "save ?b (save ?n (s\<lparr>node_count := node_count s + 1\<rparr>)) = save ?n (add_node ?b ?u)"
      using id by (simp add: save_def add_node_def fun_upd_twist)
    have "same_tree (save ?b (save ?n (s\<lparr>node_count := node_count s + 1\<rparr>))) (save ?b t)"
      using n id by (auto simp: t internal_set_node_save same_tree_def kids_def fun_eq_iff)
    then have same: "same_tree (save ?n (add_node ?b ?u)) (save n' t)" unfolding eq n' .
    have at: "value_at (save ?n (add_node ?b ?u)) (node_id n) path = value_at ?u (node_id n) path"
      if "EMPTY_KEY \<notin> set path" for path
      using link_values [OF u uu n k _ that, of e] False by (simp add: save_def)
    have other: "kids (save ?n (add_node ?b ?u)) j = kids ?u j"
      if j: "j \<noteq> node_id n" "j = 0 \<or> j \<in> dom (nodes ?u)" for j
    proof -
      have "j \<noteq> node_count s" using j wf_treeD(3) [OF u, of j] id by fastforce
      then show ?thesis using j n id by (simp add: kids_save add_node_def)
    qed
    have "same_data ?u (save ?n (add_node ?b ?u))"
      unfolding same_data_def
    proof (intro allI impI)
      fix k q assume p: "EMPTY_KEY \<notin> set (k # q)"
      show "value_at (save ?n (add_node ?b ?u)) 0 (k # q) = value_at ?u 0 (k # q)"
        by (rule value_at_lift [where i = "node_id n", OF u other at _ p]) simp_all
    qed
    then show ?thesis using same_data_trans same_tree_data [OF same] by blast
  qed
qed

lemma grant_key_data:
  assumes "grant_key e name key (a, s, ids) = Inr (a', t, ids')" and wf: "wf_tree s" and a: "0 < account_node_id a"
  shows "same_data s t"
proof -
  from assms(1) obtain tr n n' u where n: "internal_unwrap_node s (account_node_id a) = Inr n"
    and f: "foldE (grant_step e) (tl (split SEPARATOR key)) (n, s) = Inr (n', u)"
    and t: "t = internal_set_node e n' u"
    by (rule grant_keyE)
  note L = same_tree_reload [OF n a]
  let ?I = "\<lambda>ns. held_ok s ns \<and> same_data s (save (fst ns) (snd ns))"
  have "?I (n, s)" using wf a L(2) same_tree_simps(6) [OF L(1)] same_tree_grows [OF L(1)] same_tree_data [OF L(1)]
    by (simp add: held_ok_def)
  then have "?I (n', u)"
  proof (rule foldE_invariant [OF f])
    fix key ns ms assume ns: "?I ns" and g: "grant_step e key ns = Inr ms"
    obtain m v m' v' where mv: "ns = (m, v)" "ms = (m', v')" by (cases ns, cases ms)
    have "held_ok s ms" using grant_step_ok ns g mv by simp
    moreover have "same_data (save m v) (save m' v')"
      by (rule grant_step_data) (use ns g mv in \<open>simp_all add: held_ok_def\<close>)
    ultimately show "?I ms" using ns mv same_data_trans by auto
  qed
  then have "0 < node_id n'" "same_data s (save n' u)" by (simp_all add: held_ok_def)
  moreover have "same_data (save n' u) t"
    unfolding t internal_set_node_save by (rule same_tree_data [OF same_tree_block_height]) (rule calculation)
  ultimately show ?thesis using same_data_trans by blast
qed

lemma grant_keys_data:
  assumes "foldE (grant_key e name) keys (a, s, ids) = Inr (a', t, ids')" and "wf_tree s" and "0 < account_node_id a"
  shows "same_data s t"
  using assms
proof (induction keys arbitrary: a s ids)
  case (Cons key keys)
  from Cons.prems(1) obtain a1 s1 i1 where 1: "grant_key e name key (a, s, ids) = Inr (a1, s1, i1)"
    and 2: "foldE (grant_key e name) keys (a1, s1, i1) = Inr (a', t, ids')" by auto
  from grant_key_ok [OF 1 Cons.prems(2,3)] obtain tr where
    "wf_tree s1" "a1 = a\<lparr>tracker := tr\<rparr>" by blast
  with Cons.IH [OF 2] Cons.prems(3) grant_key_data [OF 1 Cons.prems(2,3)] same_data_trans show ?case by auto
qed simp

lemma unwrap_or_create_data:
  assumes "internal_unwrap_account_or_create e name d s = Inr (a, t, ps)" and "wf_social s"
  shows "same_data s t"
  using assms by (cases rule: unwrap_or_create_cases) (auto intro: created_data assms(2))

lemma grant_data:
  assumes "grant_write_permission e predecessor pk keys s = Inr (t, ps)" and wf: "wf_social s"
  shows "same_data s t"
proof -
  from assms(1) obtain pkey a s1 tr s2 ids tr' x where
    u: "internal_unwrap_account_or_create e (env_predecessor_account_id e) (env_attached_deposit e) s = Inr (a, s1, ps)"
    and f: "foldE (grant_key e (env_predecessor_account_id e)) keys (a, s1, permitted_ids s1 (account_node_id a) pkey)
      = Inr (a\<lparr>tracker := tr\<rparr>, s2, ids)"
    and t: "internal_set_account e (a\<lparr>tracker := tr'\<rparr>) (s2\<lparr>permissions := (permissions s2)(account_node_id a :=
       (permissions s2 (account_node_id a))(pkey := if ids = {} then None else Some (Granted ids)))\<rparr>) = Inr (x, t)"
    by (rule grant_write_permissionE)
  note 1 = unwrap_or_create_tree_ok [OF u wf]
  then have w1: "wf_tree s1" by (simp add: tree_ok_def wf_social_def)
  have "0 < account_node_id a" using wf_treeD(6) [OF w1 1(2)] by simp
  from grant_keys_data [OF f w1 this] unwrap_or_create_data [OF u wf] have "same_data s s2"
    using same_data_trans by blast
  then show ?thesis
    using same_nodes_data [OF internal_set_account_nodes(1) [OF t]]
      same_tree_data [OF same_tree_permissions] same_data_trans by blast
qed

lemma storage_deposit_data:
  assumes "storage_deposit e account_id r s = Inr (b, t, ps)" and wf: "wf_social s"
  shows "same_data s t"
  using assms(1)
proof (cases rule: storage_depositE)
  case (more a x)
  from internal_set_account_nodes(1) [OF more(3)] show ?thesis by (rule same_nodes_data)
next
  case new
  have "map_of (kids s 0) (unwrap_or account_id (env_predecessor_account_id e)) = None"
    using new(1) internal_get_account_None by simp
  from created_data [OF internal_create_account_created [OF new(2) wf this] this wf] show ?thesis .
qed simp

lemma share_storage_data:
  assumes "share_storage e name max_b s = Inr t" and wf: "wf_social s"
  shows "same_data s t"
  using assms(1)
proof (cases rule: share_storageE)
  case (found a p sh s1 s2 tr b x y)
  have "same_nodes s s1" using found(3) share_nodes by (auto split: option.splits if_splits)
  then show ?thesis
    using internal_set_account_nodes(1) [OF found(5)] internal_set_account_nodes(1) [OF found(7)]
      same_nodes_trans same_nodes_data by blast
next
  case (new p)
  let ?s = "internal_set_shared_storage_pool (env_predecessor_account_id e) (p\<lparr>shared_bytes := shared_bytes p + max_b\<rparr>) s"
  have w: "wf_social ?s" by (rule wf_social_same_nodes [OF wf]) simp_all
  have m: "map_of (kids ?s 0) name = None"
    using new(1) internal_get_account_None by (simp add: kids_def internal_set_shared_storage_pool_def)
  have "same_data ?s t"
    by (rule created_data [OF internal_create_account_from_shared_storage_created [OF new(3) w m] m w])
  then show ?thesis using same_nodes_data [of s ?s] same_data_trans by simp
qed

lemma other_calls_data:
  assumes "social_exec e m s = Inr (t, ps)" and wf: "wf_social s" and "status s \<noteq> Genesis"
    and "\<And>data opts. m \<noteq> Set data opts"
  shows "same_data s t"
proof (cases m)
  case (StorageWithdraw n)
  with assms(1) obtain b where "internal_storage_withdraw e (env_predecessor_account_id e) n s = Inr (b, t, ps)"
    by (auto simp: storage_withdraw_def)
  from withdraw_nodes(1) [OF this wf] show ?thesis by (rule same_nodes_data)
next
  case (SharedStoragePoolDeposit p)
  with assms(1) have "shared_storage_pool_deposit e p s = Inr t" by simp
  then show ?thesis by (cases rule: shared_storage_pool_depositE) (simp add: same_nodes_data)
next
  case (SetStatus st')
  with assms(1) show ?thesis by (auto simp: set_status_def intro!: same_tree_data same_treeI)
qed (use assms in \<open>auto simp: storage_unregister_def migrate_state_def genesis_init_node_count_def
    genesis_init_nodes_def genesis_init_accounts_def assert_genesis_def
    dest: storage_deposit_data grant_data share_storage_data\<close>)

end
