(* ===== verification/SocialReads.thy ===== *)
theory SocialReads
  imports SocialValues
begin

section \<open>The social contract: reading\<close>

text \<open>
  \<open>get\<close> and \<open>keys\<close> follow the children of a node, which are younger than it: a gas of \<open>node_count\<close> is
  always enough, whatever the patterns. A \<open>get\<close> of a plain path answers with the value at it.
\<close>

subsection \<open>Termination\<close>

lemma foldE_Inl:
  "foldE f xs s = Inl p \<Longrightarrow> \<exists>x \<in> set xs. \<exists>u. f x u = Inl p"
  by (induction xs arbitrary: s) (auto simp: bindE_eq_Inl)

lemma internal_unwrap_node_stored:
  "i \<in> dom (nodes s) \<Longrightarrow> 0 < i \<Longrightarrow> \<exists>n. internal_unwrap_node s i = Inr n \<and> children n = kids s i"
  by (auto simp: internal_unwrap_node_Inr kids_def)

lemma matched_child:
  assumes "(k, Node c) \<in> set (matched_entries pattern everything n)" and "children n = kids s i" and "wf_tree s"
  shows "pedge s i k c"
  using assms wf_treeD(4) [OF assms(3), of i]
  by (auto simp: matched_entries_def pedge_def split: if_splits option.splits)

lemma get_entry_fails:
  assumes "get_entry rec s opts keys (k, x) res = Inl p" and "keys \<noteq> []"
    and child: "\<And>c. x = Node c \<Longrightarrow> c \<in> dom (nodes s) \<and> 0 < c"
    and rec: "\<And>c n r ks. x = Node c \<Longrightarrow> children n = kids s c \<Longrightarrow> ks \<noteq> [] \<Longrightarrow> rec r n ks = Inl p \<Longrightarrow> P"
  shows P
proof (cases x)
  case (Node c)
  from internal_unwrap_node_stored [of c s] child [OF Node] obtain n where
    n: "internal_unwrap_node s c = Inr n" "children n = kids s c" by blast
  have tl: "tl keys \<noteq> []" if "Suc 0 < length keys" using that by (cases keys) auto
  from assms(1) Node n have "\<exists>r ks. ks \<noteq> [] \<and> rec r n ks = Inl p"
    using assms(2) tl by (auto simp: get_entry_def bindE_eq_Inl Let_def split: if_splits option.splits)
  with rec [OF Node n(2)] show P by blast
qed (use assms(1) in \<open>simp_all add: get_entry_def\<close>)

lemma recursive_get_fails:
  assumes "recursive_get gas s opts res n keys = Inl p" and "wf_tree s" and "children n = kids s i"
    and "i < node_count s" and "node_count s - i \<le> gas" and "keys \<noteq> []"
  shows "p = Panic ''pattern can only be used as a suffix''"
  using assms
proof (induction gas arbitrary: res n keys i)
  case (Suc gas)
  let ?es = "matched_entries (hd keys) (hd keys = STAR \<or> hd keys = RECURSIVE_STAR) n"
  have "p = Panic ''pattern can only be used as a suffix''
      \<or> (\<exists>r. foldE (get_entry (recursive_get gas s opts) s opts keys) ?es r = Inl p)"
    using Suc.prems(1,6) by (auto simp: bindE_eq_Inl ensure_eq_Inl Let_def)
  then show ?case
  proof (elim disjE exE)
    fix r
    assume "foldE (get_entry (recursive_get gas s opts) s opts keys) ?es r = Inl p"
    from foldE_Inl [OF this] obtain k x u where kx: "(k, x) \<in> set ?es"
      and f: "get_entry (recursive_get gas s opts) s opts keys (k, x) u = Inl p" by auto
    have e: "pedge s i k c" if "x = Node c" for c
      using matched_child [OF _ Suc.prems(3,2)] kx that by blast
    note c = wf_treeD(6,7,8) [OF Suc.prems(2) e]
    show ?case
    proof (rule get_entry_fails [OF f Suc.prems(6)])
      show "c \<in> dom (nodes s) \<and> 0 < c" if "x = Node c" for c using c [OF that] by auto
      show "p = Panic ''pattern can only be used as a suffix''"
        if "x = Node c" "children m = kids s c" "ks \<noteq> []" "recursive_get gas s opts r m ks = Inl p" for c m r ks
        by (rule Suc.IH [OF that(4) Suc.prems(2) that(2) _ _ that(3)]) (use c [OF that(1)] Suc.prems(5) in auto)
    qed
  qed
qed simp

lemma key_path_nonempty: "key_path key = Some path \<Longrightarrow> path \<noteq> []"
  by (auto simp: key_path_def Let_def split: if_splits)

lemma get_data_fails:
  assumes "get_data gas s keys opts = Inl p" and wf: "wf_tree s" and "node_count s \<le> gas"
  shows "p = Panic ''pattern can only be used as a suffix''"
proof -
  from assms(1) obtain key path u o' where "key_path key = Some path"
    and r: "recursive_get gas s o' u (root_node s) path = Inl p"
    by (auto simp: get_data_def bindE_eq_Inl Let_def dest!: foldE_Inl split: option.splits)
  from recursive_get_fails [OF r wf, of 0] key_path_nonempty [OF this(1)] wf_treeD(1) [OF wf] assms(3)
  show ?thesis by (simp add: kids_def)
qed

lemma recursive_keys_fails:
  assumes "recursive_keys gas s opts res n keys = Inl p" and "wf_tree s" and "children n = kids s i"
    and "i < node_count s" and "node_count s - i \<le> gas" and "keys \<noteq> []"
  shows "p = Unwrap_none \<and> \<not> plain s \<and> return_type opts = Some BlockHeight"
  using assms
proof (induction gas arbitrary: res n keys i)
  case (Suc gas)
  let ?es = "matched_entries (hd keys) (hd keys = STAR) n"
  have "\<exists>r. foldE (keys_entry (recursive_keys gas s opts) s opts keys) ?es r = Inl p"
    using Suc.prems(1,6) by (auto simp: bindE_eq_Inl ensure_eq_Inl)
  then obtain k x u where kx: "(k, x) \<in> set ?es"
    and f: "keys_entry (recursive_keys gas s opts) s opts keys (k, x) u = Inl p"
    using foldE_Inl by fastforce
  show ?case
  proof (cases x)
    case (Node c)
    have e: "pedge s i k c" using matched_child [OF _ Suc.prems(3,2)] kx Node by blast
    note c = wf_treeD(6,7,8) [OF Suc.prems(2) e]
    from internal_unwrap_node_stored [of c s] c obtain m where
      m: "internal_unwrap_node s c = Inr m" "children m = kids s c" by auto
    show ?thesis
    proof (cases "length keys = 1")
      case True
      have "\<exists>y. pedge s c EMPTY_KEY y" if "map_of (kids s c) EMPTY_KEY = Some v" "get_block_height v = None" for v
        using that by (cases v) (auto simp: pedge_def)
      then have "\<not> plain s" if "map_of (kids s c) EMPTY_KEY = Some v" "get_block_height v = None" for v
        using that c(1) by (fastforce simp: plain_def)
      with f Node True m show ?thesis
        by (cases "unwrap_or (values_only opts) False"; cases "return_type opts";
            auto simp: keys_entry_def return_value_def bindE_eq_Inl Let_def unwrap_def
            split: option.splits if_splits keys_return_type.splits)
    next
      case False
      with f Node m Suc.prems(6) obtain r where "recursive_keys gas s opts r m (tl keys) = Inl p" "tl keys \<noteq> []"
        by (cases keys) (auto simp: keys_entry_def bindE_eq_Inl Let_def)
      from Suc.IH [OF this(1) Suc.prems(2) m(2) _ _ this(2)] c Suc.prems(5) show ?thesis by auto
    qed
  qed (use f in \<open>auto simp: keys_entry_def return_value_def bindE_eq_Inl Let_def
      split: option.splits if_splits keys_return_type.splits\<close>)
qed simp

lemma keys_data_fails:
  assumes "keys_data gas s ks opts = Inl p" and wf: "wf_tree s" and "node_count s \<le> gas"
  shows "p = Unwrap_none \<and> \<not> plain s
    \<and> (case opts of Some o' \<Rightarrow> return_type o' = Some BlockHeight | None \<Rightarrow> False)"
proof -
  from assms(1) obtain key path u where "key_path key = Some path"
    and r: "recursive_keys gas s (unwrap_or opts \<lparr>return_type = None, keys_return_deleted = None, values_only = None\<rparr>)
      u (root_node s) path = Inl p"
    by (auto simp: keys_data_def bindE_eq_Inl Let_def dest!: foldE_Inl split: option.splits)
  from recursive_keys_fails [OF r wf, of 0] key_path_nonempty [OF this(1)] wf_treeD(1) [OF wf] assms(3)
  show ?thesis by (cases opts) (auto simp: kids_def)
qed

subsection \<open>Paths\<close>

fun join_path :: "string list \<Rightarrow> string" where
  "join_path [] = []"
| "join_path [k] = k"
| "join_path (k # path) = k @ SEPARATOR # join_path path"

definition simple_path :: "string list \<Rightarrow> bool" where
  "simple_path path \<longleftrightarrow> path \<noteq> [] \<and> list_all (\<lambda>k. is_key_valid k \<and> k \<noteq> EMPTY_KEY) path"

lemma key_char_simps [simp]:
  "\<not> key_char SEPARATOR" "\<not> key_char CHR ''*''" "\<not> key_char CHR '':''"
  by (simp_all add: key_char_def SEPARATOR_def)

lemma split_none: "SEPARATOR \<notin> set k \<Longrightarrow> split SEPARATOR k = [k]"
  by (induction k) auto

lemma split_append: "SEPARATOR \<notin> set k \<Longrightarrow> split SEPARATOR (k @ SEPARATOR # rest) = k # split SEPARATOR rest"
  by (induction k) auto

lemma valid_no_separator: "is_key_valid k \<Longrightarrow> SEPARATOR \<notin> set k"
  by (auto simp: is_key_valid_def list_all_iff)

lemma split_join_path: "path \<noteq> [] \<Longrightarrow> list_all is_key_valid path \<Longrightarrow> split SEPARATOR (join_path path) = path"
  by (induction path rule: join_path.induct) (simp_all add: split_none split_append valid_no_separator)

lemma simple_path_simps:
  assumes "simple_path (k # path)"
  shows "is_key_valid k" "k \<noteq> EMPTY_KEY" "k \<noteq> STAR" "k \<noteq> RECURSIVE_STAR" "take 1 k \<noteq> '':''"
    "path \<noteq> [] \<Longrightarrow> simple_path path"
  using assms
  by (cases k; auto simp: simple_path_def EMPTY_KEY_def STAR_def RECURSIVE_STAR_def is_key_valid_def)+

lemma simple_path_plain: "simple_path path \<Longrightarrow> EMPTY_KEY \<notin> set path"
  by (auto simp: simple_path_def list_all_iff)

lemma key_path_join: "simple_path path \<Longrightarrow> key_path (join_path path) = Some path"
proof -
  assume p: "simple_path path"
  then have "path \<noteq> []" "list_all is_key_valid path" "last path \<noteq> EMPTY_KEY"
    by (auto simp: simple_path_def list_all_iff)
  then show ?thesis by (simp add: key_path_def split_join_path)
qed

subsection \<open>Getting one path\<close>

text \<open>The object that has the value \<open>v\<close> at a path and nothing else.\<close>

fun nested :: "string list \<Rightarrow> json \<Rightarrow> json_map" where
  "nested [] v = []"
| "nested [k] v = [(k, v)]"
| "nested (k # path) v = [(k, JObj (nested path v))]"

lemma retain_nested: "simple_path path \<Longrightarrow> retain (nested path (JStr x)) = (nested path (JStr x), 0)"
proof (induction path)
  case (Cons k path)
  note k = simple_path_simps [OF Cons.prems]
  show ?case
  proof (cases path)
    case (Cons k' q)
    have "nested (k # path) (JStr x) = [(k, JObj (nested path (JStr x)))]" by (simp add: Cons)
    moreover have "retain (nested path (JStr x)) = (nested path (JStr x), 0)"
      using Cons.IH k(6) Cons by simp
    moreover have "nested path (JStr x) \<noteq> []" using Cons by (cases q) simp_all
    ultimately show ?thesis using k(5) by simp
  qed (use k in simp)
qed simp

text \<open>What \<open>get\<close> answers for a path is either the value or entries that the clean-up removes.\<close>

definition answers :: "string list \<Rightarrow> json option \<Rightarrow> json_map \<Rightarrow> bool" where
  "answers path v r \<longleftrightarrow> (case v of Some (JStr x) \<Rightarrow> r = nested path (JStr x) | _ \<Rightarrow> retain r = ([], 0))"

lemma answers_deeper:
  assumes "answers path v r" and "simple_path (k # path)" and "path \<noteq> []"
  shows "answers (k # path) v [(k, JObj r)]"
proof -
  have k: "take 1 k \<noteq> '':''" by (rule simple_path_simps [OF assms(2)])
  have "nested (k # path) y = [(k, JObj (nested path y))]" for y using assms(3) by (cases path) simp_all
  then show ?thesis using assms(1) k by (auto simp: answers_def split: option.splits json.splits)
qed

definition no_options :: get_options where
  "no_options = \<lparr>with_block_height = None, with_node_id = None, return_deleted = None\<rparr>"

lemma set_key_answers:
  assumes "take 1 k \<noteq> '':''"
  shows "answers [k] (leaf_of x) (json_map_set_key no_options x k [])"
  by (cases x) (simp_all add: answers_def json_map_set_key.simps no_options_def)

lemma recursive_get_path:
  assumes "simple_path path" and "wf_tree s" and "children n = kids s i" and "length path \<le> gas"
  shows "\<exists>r. recursive_get gas s no_options [] n path = Inr r \<and> answers path (value_at s i path) r"
  using assms
proof (induction path arbitrary: gas n i)
  case (Cons k path)
  note k = simple_path_simps [OF Cons.prems(1)]
  obtain g where g: "gas = Suc g" "length path \<le> g" using Cons.prems(4) by (cases gas) auto
  let ?e = "get_entry (recursive_get g s no_options) s no_options (k # path)"
  have opts: "with_block_height no_options = None" "with_node_id no_options = None" by (simp_all add: no_options_def)
  have start: "recursive_get gas s no_options [] n (k # path)
      = foldE ?e (case map_of (kids s i) k of Some x \<Rightarrow> [(k, x)] | None \<Rightarrow> []) []"
    using k(3,4) by (simp add: g(1) opts matched_entries_def Cons.prems(3) split: option.splits)
  show ?case
  proof (cases "map_of (kids s i) k")
    case None
    then show ?thesis by (simp add: start answers_def)
  next
    case (Some x)
    show ?thesis
    proof (cases x)
      case (Node c)
      have e: "pedge s i k c" using Some Node by (simp add: pedge_def)
      note c = wf_treeD(6,7) [OF Cons.prems(2) e]
      from internal_unwrap_node_stored [of c s] c obtain m where
        m: "internal_unwrap_node s c = Inr m" "children m = kids s c" by auto
      show ?thesis
      proof (cases "path = []")
        case True
        have "answers [k] (value_at s c []) (case map_of (kids s c) EMPTY_KEY of
            Some y \<Rightarrow> json_map_set_key no_options y k [] | None \<Rightarrow> [])"
          by (cases "map_of (kids s c) EMPTY_KEY") (simp_all add: set_key_answers [OF k(5)], simp add: answers_def)
        moreover have "?e (k, x) [] = Inr (case map_of (kids s c) EMPTY_KEY of
            Some y \<Rightarrow> json_map_set_key no_options y k [] | None \<Rightarrow> [])"
          using k(4) True Node m by (simp add: get_entry_def opts split: option.split)
        ultimately show ?thesis using True Some Node start by simp
      next
        case False
        from Cons.IH [OF k(6) [OF False] Cons.prems(2) m(2) g(2)] obtain r where
          r: "recursive_get g s no_options [] m path = Inr r" "answers path (value_at s c path) r" by blast
        have "?e (k, x) [] = Inr [(k, JObj r)]"
          using k(4) False Node m r(1) by (simp add: get_entry_def json_map_get_inner_object_def)
        moreover have "answers (k # path) (value_at s c path) [(k, JObj r)]"
          by (rule answers_deeper [OF r(2) Cons.prems(1) False])
        ultimately show ?thesis using Some Node by (simp add: start)
      qed
    next
      case (Value vh)
      then show ?thesis using Some set_key_answers [OF k(5), of x]
        by (auto simp: start get_entry_def answers_def)
    next
      case (DeletedEntry h)
      then show ?thesis using Some set_key_answers [OF k(5), of x]
        by (auto simp: start get_entry_def answers_def)
    qed
  qed
qed (simp add: simple_path_def)

definition json_at :: "string list \<Rightarrow> json option \<Rightarrow> json" where
  "json_at path v = JObj (case v of Some (JStr x) \<Rightarrow> nested path (JStr x) | _ \<Rightarrow> [])"

lemma get_path_value:
  assumes "simple_path path" and wf: "wf_tree s" and "length path \<le> gas"
  shows "get_data gas s [join_path path] None = Inr (json_at path (value_at s 0 path))"
proof -
  have root: "children (root_node s) = kids s 0" by (simp add: kids_def)
  from recursive_get_path [OF assms(1) wf root assms(3)] obtain r where
    r: "recursive_get gas s no_options [] (root_node s) path = Inr r" "answers path (value_at s 0 path) r" by blast
  have "fst (retain r) = (case value_at s 0 path of Some (JStr x) \<Rightarrow> nested path (JStr x) | _ \<Rightarrow> [])"
    using r(2) retain_nested [OF assms(1)] by (auto simp: answers_def split: option.splits json.splits)
  with r(1) show ?thesis
    by (simp add: get_data_def key_path_join [OF assms(1)] json_at_def json_map_recursive_cleanup_def
        no_options_def [symmetric] split_beta)
qed

lemma nested_plain: "simple_path path \<Longrightarrow> plain_json (JObj (nested path (JStr x)))"
proof (induction path)
  case (Cons k path)
  note k = simple_path_simps [OF Cons.prems]
  show ?case
  proof (cases path)
    case (Cons k' q)
    then show ?thesis using Cons.IH k by simp
  qed simp
qed (simp add: simple_path_def)

lemma jlookup_nested: "simple_path path \<Longrightarrow> jlookup (JObj (nested path (JStr x))) path = Some (JStr x)"
proof (induction path)
  case (Cons k path)
  note k = simple_path_simps [OF Cons.prems]
  show ?case
  proof (cases path)
    case (Cons k' q)
    then show ?thesis using Cons.IH k by simp
  qed (simp add: leaf_def)
qed (simp add: simple_path_def)

end
