(* ===== verification/SocialBooks.thy ===== *)
theory SocialBooks
  imports SocialMessages
begin

section \<open>The social contract: balances, storage cover and shared pools\<close>

text \<open>
  \<open>books\<close> relates the states before and after a call by the tokens that come in and go out; it composes,
  so that each method is one chain of steps, and it keeps the invariant \<open>balanced\<close>.
\<close>

subsection \<open>What the books say\<close>

fun v_balance :: "v_account \<Rightarrow> nat" where
  "v_balance (V0 v) = v0_storage_balance v"
| "v_balance (Current a) = storage_balance a"

definition shared_in :: "(account_shared_storage \<Rightarrow> nat) \<Rightarrow> account_id \<Rightarrow> account \<Rightarrow> nat" where
  "shared_in f q a = (case shared_storage a of Some sh \<Rightarrow> if pool_id sh = q then f sh else 0 | None \<Rightarrow> 0)"

fun v_shared :: "(account_shared_storage \<Rightarrow> nat) \<Rightarrow> account_id \<Rightarrow> v_account \<Rightarrow> nat" where
  "v_shared f q (V0 v) = 0"
| "v_shared f q (Current a) = shared_in f q a"

definition pool_field :: "(shared_storage_pool \<Rightarrow> nat) \<Rightarrow> social \<Rightarrow> account_id \<Rightarrow> nat" where
  "pool_field f s q = opt_measure f (shared_storage_pools s q)"

text \<open>All the tokens that the contract owes to accounts and to pools.\<close>

definition held :: "social \<Rightarrow> nat" where
  "held s = msum v_balance (accounts s) + msum pool_storage_balance (shared_storage_pools s)"

definition covered :: "nat \<Rightarrow> account \<Rightarrow> bool" where
  "covered c a \<longleftrightarrow> shared_used a \<le> used_bytes a \<and> sat_mul 128 (used_bytes a - shared_used a) c \<le> storage_balance a"

definition all_covered :: "nat \<Rightarrow> social \<Rightarrow> bool" where
  "all_covered c s \<longleftrightarrow> (\<forall>i a. accounts s i = Some (Current a) \<longrightarrow> covered c a)"

definition pools_match :: "social \<Rightarrow> bool" where
  "pools_match s \<longleftrightarrow> (\<forall>q. msum (v_shared max_bytes q) (accounts s) = pool_field shared_bytes s q
     \<and> msum (v_shared shared_used_bytes q) (accounts s) \<le> pool_field pool_used_bytes s q)"

definition finite_books :: "social \<Rightarrow> bool" where
  "finite_books s \<longleftrightarrow> finite (dom (accounts s)) \<and> finite (dom (shared_storage_pools s))"

text \<open>From \<open>s\<close> to \<open>t\<close> the books are kept, with \<open>inn\<close> tokens coming in and \<open>out\<close> tokens going out.\<close>

definition books :: "nat \<Rightarrow> social \<Rightarrow> social \<Rightarrow> nat \<Rightarrow> nat \<Rightarrow> bool" where
  "books c s t inn out \<longleftrightarrow> (all_covered c s \<longrightarrow> all_covered c t)
     \<and> (finite_books s \<longrightarrow> finite_books t \<and> (pools_match s \<longrightarrow> pools_match t) \<and> held t + out \<le> held s + inn)"

lemma books_refl: "out \<le> inn \<Longrightarrow> books c s s inn out"
  by (simp add: books_def)

lemma books_trans: "books c s t i1 o1 \<Longrightarrow> books c t u i2 o2 \<Longrightarrow> books c s u (i1 + i2) (o1 + o2)"
  by (auto simp: books_def)

lemma books_weaken: "books c s t i1 o1 \<Longrightarrow> i1 + o2 \<le> i2 + o1 \<Longrightarrow> books c s t i2 o2"
  by (auto simp: books_def)

lemma books_same:
  assumes "accounts t = accounts s" and "shared_storage_pools t = shared_storage_pools s" and "out \<le> inn"
  shows "books c s t inn out"
  using assms by (simp add: books_def all_covered_def finite_books_def pools_match_def held_def pool_field_def)

lemma books_same_left:
  assumes "books c s' t inn out" and "accounts s' = accounts s" and "shared_storage_pools s' = shared_storage_pools s"
  shows "books c s t inn out"
  using assms by (simp add: books_def all_covered_def finite_books_def pools_match_def held_def pool_field_def)

lemma books_same_right:
  assumes "books c s t inn out" and "accounts t' = accounts t" and "shared_storage_pools t' = shared_storage_pools t"
  shows "books c s t' inn out"
  using assms by (simp add: books_def all_covered_def finite_books_def pools_match_def held_def pool_field_def)

subsection \<open>Saving an account\<close>

lemma internal_unwrap_pool_Inr:
  "internal_unwrap_shared_storage_pool s q = Inr p \<longleftrightarrow> shared_storage_pools s q = Some p"
  by (simp add: internal_unwrap_shared_storage_pool_def internal_get_shared_storage_pool_def)

text \<open>
  The stored account differs from the given one in its bytes; bytes taken from or returned to the
  pool are booked on both sides; no pool changes otherwise.
\<close>

definition account_booked :: "account \<Rightarrow> account \<Rightarrow> social \<Rightarrow> social \<Rightarrow> bool" where
  "account_booked a a' s t \<longleftrightarrow> storage_balance a' = storage_balance a
     \<and> (\<forall>q. shared_in max_bytes q a' = shared_in max_bytes q a)
     \<and> (\<forall>q. pool_field pool_used_bytes t q + shared_in shared_used_bytes q a
           = pool_field pool_used_bytes s q + shared_in shared_used_bytes q a')
     \<and> dom (shared_storage_pools t) = dom (shared_storage_pools s)
     \<and> (\<forall>q. pool_field shared_bytes t q = pool_field shared_bytes s q)
     \<and> (\<forall>q. pool_field pool_storage_balance t q = pool_field pool_storage_balance s q)"

lemma account_booked_refl [simp]: "account_booked a a s s"
  by (simp add: account_booked_def)

text \<open>\<open>n\<close> bytes more, or less, of the account's pool.\<close>

lemma account_growsE:
  assumes "account_grows e extra a s = Inr (a', t)"
  obtains (own) "a' = a\<lparr>used_bytes := used_bytes a + extra\<rparr>" "t = s" "assert_storage_covered e a' = Inr ()"
  | (pool) sh p n where "shared_storage a = Some sh" "shared_storage_pools s (pool_id sh) = Some p" "n \<le> extra"
      "a' = a\<lparr>used_bytes := used_bytes a + extra,
        shared_storage := Some (sh\<lparr>shared_used_bytes := shared_used_bytes sh + n\<rparr>)\<rparr>"
      "t = internal_set_shared_storage_pool (pool_id sh) (p\<lparr>pool_used_bytes := pool_used_bytes p + n\<rparr>) s"
      "assert_storage_covered e a' = Inr ()"
proof (cases "shared_storage a")
  case None
  with assms show thesis by (intro own) (auto simp: account_grows_def Let_def)
next
  case (Some sh)
  with assms obtain p av where p: "shared_storage_pools s (pool_id sh) = Some p" "available_bytes e sh p = Inr av"
    by (auto simp: account_grows_def internal_unwrap_pool_Inr Let_def)
  show thesis
  proof (cases "0 < min av extra")
    case True
    with assms Some p show thesis
      by (intro pool [OF Some p(1), of "min av extra"])
        (auto simp: account_grows_def internal_unwrap_shared_storage_pool_def
          internal_get_shared_storage_pool_def Let_def)
  next
    case False
    with assms Some p show thesis
      by (intro own) (auto simp: account_grows_def internal_unwrap_shared_storage_pool_def
          internal_get_shared_storage_pool_def Let_def split: if_splits)
  qed
qed

lemma account_shrinksE:
  assumes "account_shrinks released a s = Inr (a', t)"
  obtains (own) "released \<le> used_bytes a" "shared_used a = 0 \<or> released = 0" "t = s"
      "a' = a\<lparr>used_bytes := used_bytes a - released\<rparr>"
  | (pool) sh p n where "released \<le> used_bytes a" "shared_storage a = Some sh"
      "shared_storage_pools s (pool_id sh) = Some p" "n = min (shared_used_bytes sh) released"
      "n \<le> pool_used_bytes p"
      "a' = a\<lparr>used_bytes := used_bytes a - released,
        shared_storage := Some (sh\<lparr>shared_used_bytes := shared_used_bytes sh - n\<rparr>)\<rparr>"
      "t = internal_set_shared_storage_pool (pool_id sh) (p\<lparr>pool_used_bytes := pool_used_bytes p - n\<rparr>) s"
proof (cases "shared_storage a")
  case None
  with assms show thesis by (intro own) (auto simp: account_shrinks_def shared_used_def Let_def)
next
  case (Some sh)
  show thesis
  proof (cases "0 < min (shared_used_bytes sh) released")
    case True
    with assms Some show thesis
      by (auto simp: account_shrinks_def internal_unwrap_pool_Inr Let_def intro!: pool)
  next
    case False
    with assms Some show thesis
      by (intro own) (auto simp: account_shrinks_def shared_used_def Let_def intro!: account.equality)
  qed
qed

lemma account_grows_booked:
  assumes "account_grows e extra a s = Inr (a', t)"
  shows "account_booked a a' s t" and "shared_used a \<le> used_bytes a \<Longrightarrow> covered (env_storage_byte_cost e) a'"
  using assms
  by (cases rule: account_growsE;
    auto simp: account_booked_def shared_in_def pool_field_def covered_def shared_used_def
      assert_storage_covered_def)+

lemma sat_mul_mono: "a \<le> b \<Longrightarrow> sat_mul w a c \<le> sat_mul w b c"
  by (simp add: sat_mul_def min_le_iff_disj mult_le_mono1 min.coboundedI1)

lemma account_shrinks_booked:
  assumes "account_shrinks released a s = Inr (a', t)"
  shows "account_booked a a' s t" and "covered c a \<Longrightarrow> covered c a'"
proof -
  show "account_booked a a' s t"
    using assms
    by (cases rule: account_shrinksE) (auto simp: account_booked_def shared_in_def pool_field_def)
  have "storage_balance a' = storage_balance a" "shared_used a \<le> used_bytes a \<Longrightarrow> shared_used a' \<le> used_bytes a'
      \<and> used_bytes a' - shared_used a' \<le> used_bytes a - shared_used a"
    using assms by (cases rule: account_shrinksE; auto simp: shared_used_def min_def)+
  then show "covered c a \<Longrightarrow> covered c a'"
    unfolding covered_def using sat_mul_mono by (metis le_trans)
qed

lemma internal_set_account_booked:
  assumes "internal_set_account e a s = Inr (x, t)"
  obtains a' where "accounts t = (accounts s)(account_node_id a \<mapsto> Current a')"
    "account_booked a a' s t" "covered (env_storage_byte_cost e) a \<Longrightarrow> covered (env_storage_byte_cost e) a'"
    "shared_used a \<le> used_bytes a \<Longrightarrow> bytes_released (tracker a) < bytes_added (tracker a)
      \<Longrightarrow> covered (env_storage_byte_cost e) a'"
proof -
  let ?t = "tracker a"
  obtain b u where bu: "(if bytes_released ?t < bytes_added ?t then
               bindE (checked_sub (bytes_added ?t) (bytes_released ?t)) (\<lambda>extra. account_grows e extra a s)
             else if bytes_added ?t < bytes_released ?t then
               bindE (checked_sub (bytes_released ?t) (bytes_added ?t)) (\<lambda>released. account_shrinks released a s)
             else Inr (a, s)) = Inr (b, u)"
    and t: "t = u\<lparr>accounts := (accounts u)(account_node_id b \<mapsto>
        Current (b\<lparr>tracker := (tracker b)\<lparr>bytes_released := 0, bytes_added := 0\<rparr>\<rparr>))\<rparr>"
    using assms by (auto simp: internal_set_account_def Let_def)
  let ?c = "env_storage_byte_cost e"
  let ?a' = "b\<lparr>tracker := (tracker b)\<lparr>bytes_released := 0, bytes_added := 0\<rparr>\<rparr>"
  have "accounts u = accounts s \<and> account_node_id b = account_node_id a"
    using bu account_grows_nodes account_shrinks_nodes by (fastforce split: if_splits)
  moreover have "account_booked a b s u \<and> (covered ?c a \<longrightarrow> covered ?c b)"
    using bu account_grows_booked account_shrinks_booked covered_def by (fastforce split: if_splits)
  then have "account_booked a ?a' s t" "covered ?c a \<longrightarrow> covered ?c ?a'"
    by (auto simp: t account_booked_def covered_def shared_in_def shared_used_def pool_field_def)
  moreover have "covered ?c ?a'" if "shared_used a \<le> used_bytes a" "bytes_released ?t < bytes_added ?t"
    using bu that account_grows_booked(2) by (fastforce simp: covered_def shared_used_def)
  ultimately show thesis by (intro that [of ?a']) (simp_all add: t)
qed

lemma msum_eq:
  assumes "dom m = dom m'" and "\<And>k. opt_measure f (m k) = opt_measure f (m' k)"
  shows "msum f m = msum f m'"
  unfolding msum_def assms(1)
proof (rule sum.cong)
  fix k assume "k \<in> dom m'"
  moreover from this have "k \<in> dom m" using assms(1) by simp
  ultimately show "f (the (m k)) = f (the (m' k))" using assms(2) [of k] by auto
qed simp

text \<open>
  Saving the account \<open>a\<close> in a state \<open>s1\<close> that has the accounts of \<open>s\<close>, and in whose pools the shared
  storage of \<open>a\<close> is already booked instead of that of the account that is stored in \<open>s\<close>.
\<close>

lemma set_account_books:
  fixes s s1 a
  defines "old f \<equiv> opt_measure f (accounts s (account_node_id a))"
  assumes set: "internal_set_account e a s1 = Inr (x, t)" and acc: "accounts s1 = accounts s"
    and pools: "finite (dom (shared_storage_pools s)) \<Longrightarrow> finite (dom (shared_storage_pools s1))
        \<and> msum pool_storage_balance (shared_storage_pools s1) = msum pool_storage_balance (shared_storage_pools s)"
    and mx: "\<And>q. pool_field shared_bytes s1 q + old (v_shared max_bytes q)
        = pool_field shared_bytes s q + shared_in max_bytes q a"
    and us: "\<And>q. pool_field pool_used_bytes s q + shared_in shared_used_bytes q a
        \<le> pool_field pool_used_bytes s1 q + old (v_shared shared_used_bytes q)"
    and bal: "storage_balance a + out \<le> old v_balance + inn"
    and cov: "all_covered (env_storage_byte_cost e) s \<Longrightarrow> covered (env_storage_byte_cost e) a
        \<or> shared_used a \<le> used_bytes a \<and> bytes_released (tracker a) < bytes_added (tracker a)"
  shows "books (env_storage_byte_cost e) s t inn out"
proof -
  from internal_set_account_booked [OF set] obtain a' where
    t: "accounts t = (accounts s)(account_node_id a \<mapsto> Current a')"
    and b: "account_booked a a' s1 t"
    and c: "all_covered (env_storage_byte_cost e) s \<Longrightarrow> covered (env_storage_byte_cost e) a'"
    using acc cov by metis
  have cover: "all_covered (env_storage_byte_cost e) s \<Longrightarrow> all_covered (env_storage_byte_cost e) t"
    using c by (auto simp: all_covered_def t)
  have "finite_books t \<and> (pools_match s \<longrightarrow> pools_match t) \<and> held t + out \<le> held s + inn" if fin: "finite_books s"
  proof (intro conjI impI)
    from fin have fa: "finite (dom (accounts s))" and fp: "finite (dom (shared_storage_pools s))"
      by (simp_all add: finite_books_def)
    have upd: "msum f (accounts t) + old f = msum f (accounts s) + f (Current a')" for f
      unfolding t old_def by (rule msum_upd [OF fa])
    have "msum pool_storage_balance (shared_storage_pools t) = msum pool_storage_balance (shared_storage_pools s)"
      using b pools [OF fp] msum_eq [of "shared_storage_pools t" "shared_storage_pools s1" pool_storage_balance]
      by (simp add: account_booked_def pool_field_def)
    moreover have "msum v_balance (accounts t) + old v_balance = msum v_balance (accounts s) + storage_balance a"
      using upd [of v_balance] b by (simp add: account_booked_def)
    ultimately show "held t + out \<le> held s + inn" using bal by (simp add: held_def)
    show "finite_books t" using fa pools [OF fp] b by (simp add: finite_books_def t account_booked_def)
    assume m: "pools_match s"
    have "msum (v_shared max_bytes q) (accounts t) = pool_field shared_bytes t q" for q
    proof -
      have "pool_field shared_bytes t q = pool_field shared_bytes s1 q"
        "shared_in max_bytes q a' = shared_in max_bytes q a" using b by (simp_all add: account_booked_def)
      moreover have "msum (v_shared max_bytes q) (accounts s) = pool_field shared_bytes s q"
        using m by (simp add: pools_match_def)
      ultimately show ?thesis using upd [of "v_shared max_bytes q"] mx [of q] by simp
    qed
    moreover have "msum (v_shared shared_used_bytes q) (accounts t) \<le> pool_field pool_used_bytes t q" for q
    proof -
      have "pool_field pool_used_bytes t q + shared_in shared_used_bytes q a
          = pool_field pool_used_bytes s1 q + shared_in shared_used_bytes q a'"
        using b by (simp add: account_booked_def)
      moreover have "msum (v_shared shared_used_bytes q) (accounts s) \<le> pool_field pool_used_bytes s q"
        using m by (simp add: pools_match_def)
      ultimately show ?thesis using upd [of "v_shared shared_used_bytes q"] us [of q] by simp
    qed
    ultimately show "pools_match t" by (simp add: pools_match_def)
  qed
  with cover show ?thesis by (simp add: books_def)
qed

subsection \<open>Accounts as they are read\<close>

lemma get_account_stored:
  assumes "internal_get_account_social s name = Inr (Some a)" and "wf_social s"
  obtains b where "accounts s (account_node_id a) = Some (Current b)"
    "storage_balance b = storage_balance a" "used_bytes b = used_bytes a"
    "shared_storage b = shared_storage a" "tracker a = default_tracker"
proof -
  from internal_get_account_Some(2) [OF assms(1)] obtain v where
    v: "accounts s (account_node_id a) = Some v" "bindE (of_v_account v) (\<lambda>b. Inr (b\<lparr>account_node_id := account_node_id a\<rparr>)) = Inr a"
    by (auto simp: load_account_def)
  show thesis
  proof (cases v)
    case (V0 w)
    with v(1) wf_socialD(3) [OF assms(2)] show thesis by blast
  next
    case (Current b)
    with v have a: "b\<lparr>tracker := default_tracker, account_node_id := account_node_id a\<rparr> = a" by simp
    show thesis
    proof (rule that [of b])
      show "accounts s (account_node_id a) = Some (Current b)" using v Current by simp
    qed (subst a [symmetric], simp)+
  qed
qed

text \<open>An account that was read, with another balance or other bytes tracked.\<close>

lemma loaded_account_books:
  assumes "internal_get_account_social s name = Inr (Some b)" and "wf_social s"
    and set: "internal_set_account e a s1 = Inr (x, t)"
    and a: "account_node_id a = account_node_id b" "shared_storage a = shared_storage b"
      "used_bytes a = used_bytes b" "storage_balance a + out \<le> storage_balance b + inn"
    and s1: "accounts s1 = accounts s" "shared_storage_pools s1 = shared_storage_pools s"
    and cov: "covered (env_storage_byte_cost e) b \<Longrightarrow> covered (env_storage_byte_cost e) a"
  shows "books (env_storage_byte_cost e) s t inn out"
proof -
  from get_account_stored [OF assms(1,2)] obtain d where d: "accounts s (account_node_id b) = Some (Current d)"
    and eq: "storage_balance d = storage_balance b" "used_bytes d = used_bytes b" "shared_storage d = shared_storage b"
    by metis
  show ?thesis
  proof (rule set_account_books [OF set s1(1)])
    show "covered (env_storage_byte_cost e) a
        \<or> shared_used a \<le> used_bytes a \<and> bytes_released (tracker a) < bytes_added (tracker a)"
      if "all_covered (env_storage_byte_cost e) s"
    proof -
      have "covered (env_storage_byte_cost e) d" using that d by (auto simp: all_covered_def)
      then have "covered (env_storage_byte_cost e) b"
        using eq a by (simp add: covered_def shared_used_def)
      with cov show ?thesis by simp
    qed
  qed (use a d eq s1 in \<open>simp_all add: shared_in_def pool_field_def\<close>)
qed

subsection \<open>Every call keeps the books\<close>

definition paid :: "social_promise list \<Rightarrow> nat" where
  "paid ps = sum_list (map promise_tokens ps)"

lemma paid_simps [simp]:
  "paid [] = 0" "paid (ps @ qs) = paid ps + paid qs" "paid [Promise r [Transfer n]] = n"
  by (simp_all add: paid_def)

lemma sat_add_covered: "covered c a \<Longrightarrow> covered c (a\<lparr>storage_balance := sat_add 128 (storage_balance a) d\<rparr>)"
  by (auto simp: covered_def shared_used_def sat_add_def sat_mul_def)

lemma tracker_covered [simp]: "covered c (a\<lparr>tracker := tr\<rparr>) \<longleftrightarrow> covered c a"
  by (simp add: covered_def shared_used_def)

lemma withdraw_books:
  assumes "internal_storage_withdraw e name amount s = Inr (b, t, ps)" and wf: "wf_social s"
  shows "books (env_storage_byte_cost e) s t 0 (paid ps)"
  using assms(1)
proof (cases rule: withdrawE)
  case none
  then show ?thesis by (simp add: books_refl)
next
  case (some a bal n x)
  have "n \<le> storage_balance a - sat_mul 128 (used_bytes a - shared_used a) (env_storage_byte_cost e)"
    using some(2,3) by (auto simp: storage_balance_of_account_def sat_sub_eq)
  then have n: "covered (env_storage_byte_cost e) a \<Longrightarrow>
      covered (env_storage_byte_cost e) (a\<lparr>storage_balance := storage_balance a - n\<rparr>)" "n \<le> storage_balance a"
    by (auto simp: covered_def shared_used_def)
  show ?thesis
    by (rule loaded_account_books [OF some(1) wf some(4)]) (use n some(5) in simp_all)
qed

lemma initial_set_account_books:
  assumes set: "internal_initial_set_account e name a s1 = Inr t"
    and a: "accounts s (account_node_id a) = None" "used_bytes a = 0" "shared_used a = 0"
      "storage_balance a + out \<le> inn"
    and s1: "accounts s1 = accounts s" "dom (shared_storage_pools s1) = dom (shared_storage_pools s)"
    and mx: "\<And>q. pool_field shared_bytes s1 q = pool_field shared_bytes s q + shared_in max_bytes q a"
    and us: "\<And>q. pool_field pool_used_bytes s1 q = pool_field pool_used_bytes s q"
    and pb: "\<And>q. pool_field pool_storage_balance s1 q = pool_field pool_storage_balance s q"
  shows "books (env_storage_byte_cost e) s t inn out"
proof -
  let ?c = "env_storage_byte_cost e"
  let ?a0 = "(account_new (account_node_id a))\<lparr>shared_storage := shared_storage a\<rparr>"
  obtain n s2 s3 tr x1 x2 where s2': "s2 = s1\<lparr>nodes := (nodes s1)(node_id n \<mapsto> n\<lparr>block_height := env_block_height e\<rparr>),
        root_node := (root_node s1)\<lparr>block_height := env_block_height e, children :=
          AList.update name (Node (account_node_id a)) (children (root_node s1))\<rparr>\<rparr>"
    and s3: "internal_set_account e ?a0 s2 = Inr (x1, s3)"
    and t: "internal_set_account e (a\<lparr>tracker := tr\<rparr>) s3 = Inr (x2, t)"
    using set by (auto simp: internal_initial_set_account_def internal_set_node_def Let_def)
  have s2: "accounts s2 = accounts s1" "shared_storage_pools s2 = shared_storage_pools s1" by (simp_all add: s2')
  have su0: "shared_in shared_used_bytes q a = 0" for q
    using a(3) by (simp add: shared_in_def shared_used_def split: option.splits)
  have a0: "covered ?c ?a0" using a(3) by (simp add: covered_def account_new_def shared_used_def sat_mul_def split: option.splits)
  have sh0: "shared_in f q ?a0 = shared_in f q a" for f q by (simp add: shared_in_def)
  note sh0' = sh0 [unfolded account_new_def, simplified]
  have pf: "pool_field f s2 q = pool_field f s1 q" for f q by (simp add: pool_field_def s2)
  have 1: "books ?c s s3 0 0"
  proof (rule set_account_books [OF s3])
    show "finite (dom (shared_storage_pools s)) \<Longrightarrow> finite (dom (shared_storage_pools s2))
        \<and> msum pool_storage_balance (shared_storage_pools s2) = msum pool_storage_balance (shared_storage_pools s)"
      using s1(2) pb msum_eq [of "shared_storage_pools s1" "shared_storage_pools s" pool_storage_balance]
      by (simp add: s2 pool_field_def)
  qed (use a a0 mx us su0 s1 in \<open>simp_all add: s2 sh0' pf account_new_def\<close>)
  from internal_set_account_booked [OF s3] obtain a1 where
    a1: "accounts s3 = (accounts s2)(account_node_id a \<mapsto> Current a1)" "account_booked ?a0 a1 s2 s3"
    by (auto simp: account_new_def)
  have m1: "shared_in max_bytes q a1 = shared_in max_bytes q a" for q
    using a1(2) by (simp add: account_booked_def sh0)
  have tr: "shared_in f q (a\<lparr>tracker := tr\<rparr>) = shared_in f q a" for f q by (simp add: shared_in_def)
  have "books ?c s3 t inn out"
  proof (rule set_account_books [OF t])
    show "covered ?c (a\<lparr>tracker := tr\<rparr>) \<or> shared_used (a\<lparr>tracker := tr\<rparr>) \<le> used_bytes (a\<lparr>tracker := tr\<rparr>) \<and>
        bytes_released (tracker (a\<lparr>tracker := tr\<rparr>)) < bytes_added (tracker (a\<lparr>tracker := tr\<rparr>))"
      using a(2,3) by (simp add: covered_def sat_mul_def shared_used_def)
  qed (use a m1 su0 in \<open>simp_all add: a1(1) tr\<close>)
  from books_trans [OF 1 this] show ?thesis by (rule books_weaken) simp
qed

lemma create_account_books:
  assumes "internal_create_account e name d r s = Inr (t, ps)" and wf: "wf_social s"
  shows "books (env_storage_byte_cost e) s t d (paid ps)"
proof -
  let ?a = "(account_new (node_count s))\<lparr>storage_balance := (if r then 0 else d)\<rparr>"
  from assms(1) have i: "internal_initial_set_account e name ?a (s\<lparr>node_count := node_count s + 1\<rparr>) = Inr t"
    and ps: "ps = (if r \<and> 0 < d then [Promise (env_predecessor_account_id e) [Transfer d]] else [])"
    by (auto simp: internal_create_account_def create_node_id_Inr sat_sub_def Let_def)
  have "\<not> edge s 0 (node_count s)" using wf_treeD(8) [OF wf_socialD(1) [OF wf]] by (auto simp: edge_def)
  then have "accounts s (node_count s) = None" using wf_socialD(2) [OF wf] by blast
  then show ?thesis
    by (intro initial_set_account_books [OF i])
      (simp_all add: account_new_def shared_used_def shared_in_def pool_field_def ps)
qed

lemma unwrap_or_create_books:
  assumes "internal_unwrap_account_or_create e name d s = Inr (a, s1, ps1)" and wf: "wf_social s"
    and set: "internal_set_account e (a\<lparr>tracker := tr\<rparr>) s2 = Inr (x, t)"
    and s2: "accounts s2 = accounts s1" "shared_storage_pools s2 = shared_storage_pools s1"
  shows "books (env_storage_byte_cost e) s t d (paid ps1)"
  using assms(1,2)
proof (cases rule: unwrap_or_create_cases)
  case found
  then obtain b where b: "internal_get_account_social s name = Inr (Some b)"
    "a = b\<lparr>storage_balance := sat_add 128 (storage_balance b) d\<rparr>" by blast
  show ?thesis
    by (rule loaded_account_books [OF b(1) wf set])
      (use b s2 found sat_add_le sat_add_covered in simp_all)
next
  case new
  have w: "wf_social s1" using new(2) by (simp add: created_def)
  have "books (env_storage_byte_cost e) s1 t 0 0"
    by (rule loaded_account_books [OF new(4) w set]) (use s2 in simp_all)
  from books_trans [OF create_account_books [OF new(5) wf] this] show ?thesis by simp
qed

lemma refund_books:
  assumes "refund_unused e opts key d s = Inr (t, ps)" and "wf_social s"
  shows "books (env_storage_byte_cost e) s t 0 (paid ps)"
  using assms(1) by (cases rule: refund_unusedE) (auto simp: books_refl dest: withdraw_books [OF _ assms(2)])

lemma set_entry_books:
  assumes "set_entry e opts (key, v) (d, s, ps) = Inr (d', t, qs)" and wf: "wf_social s"
  shows "\<exists>out. paid qs = paid ps + out \<and> books (env_storage_byte_cost e) s t d out \<and> d' = 0"
proof -
  from assms(1) obtain a s1 ps1 n s2 tr x s3 ps2 where
    c: "internal_unwrap_account_or_create e key d s = Inr (a, s1, ps1)"
    and n: "internal_unwrap_node s1 (account_node_id a) = Inr n"
    and r: "recursive_set e (if key = env_predecessor_account_id e then {} else granted_ids e s1 (account_node_id a))
       (key = env_predecessor_account_id e) v n s1 = Inr s2"
    and a: "internal_set_account e (a\<lparr>tracker := tr\<rparr>) s2 = Inr (x, s3)"
    and w: "refund_unused e opts key d s3 = Inr (t, ps2)" and out: "d' = 0" "qs = ps @ ps1 @ ps2"
    by (rule set_entryE)
  note u = unwrap_or_create_tree_ok [OF c wf]
  then have w1: "wf_social s1" by (simp add: tree_ok_def)
  have i: "0 < account_node_id a" using wf_treeD(6) [OF wf_socialD(1) [OF w1] u(2)] by simp
  note L = same_tree_reload [OF n i]
  have "wf_tree (save n s1)" using wf_socialD(1) [OF w1] same_tree_simps(6) [OF L(1)] by simp
  from recursive_set_wrote(1) [OF r wf_socialD(1) [OF w1] this] L(2) i
  have W: "wf_tree s2" "rest_same s1 s2" using wroteD(1,3) by (simp, fastforce)
  have w2: "wf_social s2" by (rule wf_social_rest [OF w1 W])
  have "kids s2 0 = kids s1 0" using W(2) by (simp add: kids_def rest_same_def)
  then have "edge s2 0 (account_node_id (a\<lparr>tracker := tr\<rparr>))" using u(2) by (auto simp: edge_def pedge_def)
  from set_account_wf [OF a w2 this] have w3: "wf_social s3" .
  have "books (env_storage_byte_cost e) s s3 d (paid ps1)"
    by (rule unwrap_or_create_books [OF c wf a]) (use W(2) in \<open>simp_all add: rest_same_def\<close>)
  from books_trans [OF this refund_books [OF w w3]] show ?thesis by (auto simp: out)
qed

lemma set_entries_books:
  assumes "foldE (set_entry e opts) obj (d, s, ps) = Inr (d', t, qs)" and "wf_social s"
  shows "\<exists>out. paid qs = paid ps + out \<and> books (env_storage_byte_cost e) s t d out"
  using assms
proof (induction obj arbitrary: d s ps)
  case Nil
  then show ?case by (auto simp: books_refl)
next
  case (Cons kv obj)
  obtain key v where kv: "kv = (key, v)" by (cases kv)
  from Cons.prems(1) kv obtain d1 s1 ps1 where 1: "set_entry e opts (key, v) (d, s, ps) = Inr (d1, s1, ps1)"
    and 2: "foldE (set_entry e opts) obj (d1, s1, ps1) = Inr (d', t, qs)" by auto
  have "wf_social s1" using set_entry_ok [OF 1 Cons.prems(2)] by (simp add: set_ok_def)
  from Cons.IH [OF 2 this] set_entry_books [OF 1 Cons.prems(2)] obtain o1 o2 where
    "paid qs = paid ps + o1 + o2" "books (env_storage_byte_cost e) s s1 d o1" "d1 = 0"
    "books (env_storage_byte_cost e) s1 t d1 o2" by auto
  then show ?case using books_trans by fastforce
qed

lemma storage_deposit_books:
  assumes "storage_deposit e account_id r s = Inr (b, t, ps)" and wf: "wf_social s"
  shows "books (env_storage_byte_cost e) s t (env_attached_deposit e) (paid ps)"
  using assms(1)
proof (cases rule: storage_depositE)
  case (refunded a)
  then show ?thesis by (simp add: books_refl)
next
  case (more a x)
  show ?thesis
    by (rule loaded_account_books [OF more(1) wf more(3)]) (use more(2) sat_add_le sat_add_covered in simp_all)
next
  case new
  from create_account_books [OF new(2) wf] show ?thesis .
qed

lemma grant_books:
  assumes "grant_write_permission e predecessor pk keys s = Inr (t, ps)" and wf: "wf_social s"
  shows "books (env_storage_byte_cost e) s t (env_attached_deposit e) (paid ps)"
proof -
  from assms(1) obtain pkey a s1 tr s2 ids tr' x where
    u: "internal_unwrap_account_or_create e (env_predecessor_account_id e) (env_attached_deposit e) s = Inr (a, s1, ps)"
    and f: "foldE (grant_key e (env_predecessor_account_id e)) keys (a, s1, permitted_ids s1 (account_node_id a) pkey)
      = Inr (a\<lparr>tracker := tr\<rparr>, s2, ids)"
    and t: "internal_set_account e (a\<lparr>tracker := tr'\<rparr>) (s2\<lparr>permissions := (permissions s2)(account_node_id a :=
       (permissions s2 (account_node_id a))(pkey := if ids = {} then None else Some (Granted ids)))\<rparr>) = Inr (x, t)"
    by (rule grant_write_permissionE)
  note 1 = unwrap_or_create_tree_ok [OF u wf]
  then have w1: "wf_tree s1" by (simp add: tree_ok_def wf_social_def)
  have "0 < account_node_id a" using wf_treeD(6) [OF w1 1(2)] by simp
  from grant_keys_ok [OF f w1 this] have "rest_same s1 s2" by simp
  then show ?thesis by (intro unwrap_or_create_books [OF u wf t]) (simp_all add: rest_same_def)
qed

lemma pool_deposit_books:
  assumes "shared_storage_pool_deposit e owner s = Inr t"
  shows "books (env_storage_byte_cost e) s t (env_attached_deposit e) 0"
  using assms
proof (cases rule: shared_storage_pool_depositE)
  case (1 p used)
  let ?q = "unwrap_or owner (env_predecessor_account_id e)"
  have old: "opt_measure f (shared_storage_pools s ?q) = f p" if "f pool_new = 0" for f
    using that by (cases "shared_storage_pools s ?q") (simp_all add: 1(2))
  let ?p = "p\<lparr>pool_storage_balance := sat_add 128 (pool_storage_balance p) (env_attached_deposit e),
      pool_used_bytes := used\<rparr>"
  have "held t \<le> held s + env_attached_deposit e" if "finite_books s"
  proof -
    have "msum pool_storage_balance ((shared_storage_pools s)(?q \<mapsto> ?p)) + pool_storage_balance p
        = msum pool_storage_balance (shared_storage_pools s) + pool_storage_balance ?p"
      using msum_upd [of "shared_storage_pools s" pool_storage_balance ?q ?p] that old [of pool_storage_balance]
      by (simp add: finite_books_def pool_new_def)
    moreover have "pool_storage_balance ?p \<le> pool_storage_balance p + env_attached_deposit e"
      by (simp add: sat_add_le)
    ultimately show ?thesis by (simp add: held_def 1(4) internal_set_shared_storage_pool_def)
  qed
  moreover have "pool_field shared_bytes t q = pool_field shared_bytes s q"
    "pool_field pool_used_bytes s q \<le> pool_field pool_used_bytes t q" for q
    using old [of shared_bytes] old [of pool_used_bytes] 1(3) by (auto simp: 1(4) pool_field_def pool_new_def)
  ultimately show ?thesis
    by (auto simp: books_def all_covered_def finite_books_def pools_match_def 1(4) internal_set_shared_storage_pool_def
        intro: le_trans)
qed

subsection \<open>Sharing\<close>

text \<open>
  \<open>share_storage\<close> books the new share in its pool, and, when it replaces the share of another pool,
  takes that one out of its pool.
\<close>

definition share_booked :: "account_shared_storage option \<Rightarrow> account_shared_storage \<Rightarrow> social \<Rightarrow> social \<Rightarrow> bool" where
  "share_booked old new s t \<longleftrightarrow> dom (shared_storage_pools t) = dom (shared_storage_pools s)
     \<and> (\<forall>q. pool_field pool_storage_balance t q = pool_field pool_storage_balance s q)
     \<and> (\<forall>q. pool_field shared_bytes t q + opt_measure (\<lambda>sh. if pool_id sh = q then max_bytes sh else 0) old
         = pool_field shared_bytes s q + (if pool_id new = q then max_bytes new else 0))
     \<and> (\<forall>q. pool_field pool_used_bytes t q + opt_measure (\<lambda>sh. if pool_id sh = q then shared_used_bytes sh else 0) old
         = pool_field pool_used_bytes s q + (if pool_id new = q then shared_used_bytes new else 0))
     \<and> shared_used_bytes new = opt_measure shared_used_bytes old"

lemma share_first_booked:
  assumes "share_first max_b pool p s = Inr (new, t)" and "shared_storage_pools s pool = Some p"
  shows "share_booked None new s t"
  using assms by (auto simp: share_first_def share_booked_def pool_field_def Let_def split: if_splits)

lemma share_more_booked:
  assumes "share_more max_b current p s = Inr (new, t)" and "shared_storage_pools s (pool_id current) = Some p"
  shows "share_booked (Some current) new s t"
  using assms by (auto simp: share_more_def share_booked_def pool_field_def Let_def split: if_splits)

lemma share_instead_booked:
  assumes "share_instead e max_b pool current p s = Inr (new, t)" and "shared_storage_pools s pool = Some p"
    and "pool_id current \<noteq> pool"
  shows "share_booked (Some current) new s t"
  using assms
  by (auto simp: share_instead_def share_booked_def pool_field_def internal_unwrap_pool_Inr Let_def split: if_splits)

lemma share_storage_books:
  assumes "share_storage e name max_b s = Inr t" and wf: "wf_social s"
  shows "books (env_storage_byte_cost e) s t 0 0"
  using assms(1)
proof (cases rule: share_storageE)
  case (found a p new s1 s2 tr b x y)
  let ?c = "env_storage_byte_cost e"
  have bk: "share_booked (shared_storage a) new s s1"
    using found(2,3) share_first_booked share_more_booked share_instead_booked
    by (auto split: option.splits if_splits)
  have n1: "same_nodes s s1 \<and> accounts s1 = accounts s"
    using found(3) share_nodes by (auto split: option.splits if_splits)
  from get_account_stored [OF found(1) wf] obtain d where d: "accounts s (account_node_id a) = Some (Current d)"
    and eq: "storage_balance d = storage_balance a" "used_bytes d = used_bytes a" "shared_storage d = shared_storage a"
    by metis
  have old: "shared_in f q d = opt_measure (\<lambda>sh. if pool_id sh = q then f sh else 0) (shared_storage a)" for f q
    by (simp add: shared_in_def eq opt_measure_def split: option.splits)
  have pools: "finite (dom (shared_storage_pools s)) \<Longrightarrow> finite (dom (shared_storage_pools s1))
      \<and> msum pool_storage_balance (shared_storage_pools s1) = msum pool_storage_balance (shared_storage_pools s)"
    using bk msum_eq [of "shared_storage_pools s1" "shared_storage_pools s" pool_storage_balance]
    by (simp add: share_booked_def pool_field_def)
  have used: "shared_used (a\<lparr>shared_storage := Some new\<rparr>) = shared_used a"
    using bk by (simp add: share_booked_def shared_used_def opt_measure_def)
  have 1: "books ?c s s2 0 0"
  proof (rule set_account_books [OF found(5) _ pools])
    show "covered ?c (a\<lparr>shared_storage := Some new\<rparr>) \<or> shared_used (a\<lparr>shared_storage := Some new\<rparr>)
          \<le> used_bytes (a\<lparr>shared_storage := Some new\<rparr>)
        \<and> bytes_released (tracker (a\<lparr>shared_storage := Some new\<rparr>))
          < bytes_added (tracker (a\<lparr>shared_storage := Some new\<rparr>))" if "all_covered ?c s"
    proof -
      have "covered ?c d" using that d by (auto simp: all_covered_def)
      moreover have "shared_used d = shared_used a" by (simp add: shared_used_def eq)
      ultimately have "covered ?c (a\<lparr>shared_storage := Some new\<rparr>)" by (simp add: covered_def eq used)
      then show ?thesis ..
    qed
  qed (use n1 bk d eq old in \<open>simp_all add: share_booked_def, simp_all add: shared_in_def\<close>)
  have w1: "wf_social s1" using wf_social_same_nodes [OF wf] n1 by blast
  have "edge s1 0 (account_node_id (a\<lparr>shared_storage := Some new\<rparr>))"
    using internal_get_account_Some(1) [OF found(1)] n1 same_tree_simps(4) [OF same_nodes_tree, of s s1]
    by (auto simp: edge_def)
  from set_account_wf [OF found(5) w1 this] have w2: "wf_social s2" .
  have "books ?c s2 t 0 0"
    by (rule loaded_account_books [OF found(6) w2 found(7)]) simp_all
  from books_trans [OF 1 this] show ?thesis by simp
next
  case (new p)
  let ?q = "env_predecessor_account_id e"
  let ?s = "internal_set_shared_storage_pool ?q (p\<lparr>shared_bytes := shared_bytes p + max_b\<rparr>) s"
  let ?a = "(account_new (node_count s))\<lparr>shared_storage :=
      Some \<lparr>max_bytes = max_b, shared_used_bytes = 0, pool_id = ?q\<rparr>\<rparr>"
  from new(3) have i: "internal_initial_set_account e name ?a (?s\<lparr>node_count := node_count s + 1\<rparr>) = Inr t"
    by (auto simp: internal_create_account_from_shared_storage_def create_node_id_Inr
        internal_set_shared_storage_pool_def Let_def)
  have "\<not> edge s 0 (node_count s)" using wf_treeD(8) [OF wf_socialD(1) [OF wf]] by (auto simp: edge_def)
  then have none: "accounts s (node_count s) = None" using wf_socialD(2) [OF wf] by blast
  show ?thesis
    by (rule initial_set_account_books [OF i])
      (use none new(2) in \<open>auto simp: account_new_def shared_used_def shared_in_def pool_field_def
        internal_set_shared_storage_pool_def\<close>)
qed

lemma social_exec_books:
  assumes "social_exec e m s = Inr (t, ps)" and wf: "wf_social s" and st: "status s \<noteq> Genesis"
  shows "books (env_storage_byte_cost e) s t (env_attached_deposit e) (paid ps)"
proof (cases m)
  case (Set data opts)
  with assms(1) obtain obj where
    "foldE (set_entry e (unwrap_or opts \<lparr>refund_unused_deposit = None\<rparr>)) obj (env_attached_deposit e, s, []) = Inr (0, t, ps)"
    by (auto elim: set_dataE)
  from set_entries_books [OF this wf] show ?thesis by auto
next
  case (StorageWithdraw n)
  with assms(1) obtain b where "internal_storage_withdraw e (env_predecessor_account_id e) n s = Inr (b, t, ps)"
    by (auto simp: storage_withdraw_def)
  from withdraw_books [OF this wf] show ?thesis by (rule books_weaken) simp
next
  case (ShareStorage a n)
  with assms(1) have "share_storage e a n s = Inr t" "ps = []" by simp_all
  from books_weaken [OF share_storage_books [OF this(1) wf]] this(2) show ?thesis by simp
next
  case (SetStatus st')
  with assms(1) show ?thesis by (auto simp: set_status_def intro: books_same)
qed (use assms in \<open>auto simp: storage_unregister_def migrate_state_def genesis_init_node_count_def
    genesis_init_nodes_def genesis_init_accounts_def assert_genesis_def books_refl
    dest: storage_deposit_books grant_books pool_deposit_books\<close>)

text \<open>The books of a new contract are balanced, and every call keeps them.\<close>

definition balanced :: "nat \<Rightarrow> social \<Rightarrow> bool" where
  "balanced c s \<longleftrightarrow> live_tree s \<and> all_covered c s \<and> finite_books s \<and> pools_match s"

interpretation social_books: inductive_invariant "social_step c" "balanced c" social_init for c
proof unfold_locales
  show "balanced c t" if "balanced c s" "social_step c s t" for s t
  proof -
    from that(2) obtain e m ps where 1: "social_exec e m s = Inr (t, ps)" "env_storage_byte_cost e = c"
      by (rule social_stepE)
    have "books c s t (env_attached_deposit e) (paid ps)"
      using social_exec_books [OF 1(1)] that(1) 1(2) by (simp add: balanced_def live_tree_def)
    moreover have "live_tree t" using social_tree.inv_step that by (auto simp: balanced_def)
    ultimately show ?thesis using that(1) by (simp add: balanced_def books_def)
  qed
  show "balanced c s" if "social_init s" for s
  proof -
    from that obtain e st where s: "s = (new_social e)\<lparr>status := st\<rparr>"
      by (auto simp: social_init_def set_status_def)
    then show ?thesis using social_tree.inv_init [OF that]
      by (simp add: balanced_def all_covered_def finite_books_def pools_match_def pool_field_def new_social_def)
  qed
qed

end
