(* ===== verification/SocialSamples.thy ===== *)
theory SocialSamples
  imports SocialReads SocialBooks
begin

section \<open>The social contract: sample states for the examples\<close>

text \<open>
  A byte costs one token; what is measured is the node of the first account. \<open>social0\<close> is a new
  contract, in \<open>social1\<close> the account \<open>alice\<close> has set her name, in \<open>social2\<close> she has replaced it.
\<close>

definition social_env :: social_host where
  "social_env = \<lparr>
     env_current_account_id = ''contract'',
     env_predecessor_account_id = ''alice'',
     env_signer_account_pk = ''pk'',
     env_attached_deposit = 1000,
     env_account_balance = 0,
     env_account_locked_balance = 0,
     env_epoch_height = 0,
     env_block_timestamp = 0,
     env_prepaid_gas = 0,
     env_state_exists = False,
     env_is_valid_account_id = (\<lambda>_. True),
     env_parse_account_id = Some,
     env_promise_results = [],
     env_assert_self = Inl (Panic ''Method is private''),
     env_is_promise_success = Inl (Panic ''Contract expected a result on the callback''),
     env_validator_stake = (\<lambda>_. 0),
     env_validator_total_stake = 0,
     env_sha256 = (\<lambda>b. b),
     env_allowance_limited = (\<lambda>n. None),
     env_block_height = 7,
     env_storage_byte_cost = 1,
     env_storage_usage = (\<lambda>s. case nodes s 1 of None \<Rightarrow> 0 | Some n \<Rightarrow> 10 + 5 * length (children n)) \<rparr>"

lemma social_env_simps [simp]:
  "env_current_account_id social_env = ''contract''"
  "env_predecessor_account_id social_env = ''alice''"
  "env_signer_account_pk social_env = ''pk''"
  "env_attached_deposit social_env = 1000"
  "env_is_valid_account_id social_env a"
  "env_parse_account_id social_env a = Some a"
  "env_block_height social_env = 7"
  "env_storage_byte_cost social_env = 1"
  "env_storage_usage social_env s = (case nodes s 1 of None \<Rightarrow> 0 | Some n \<Rightarrow> 10 + 5 * length (children n))"
  by (simp_all add: social_env_def)

definition social0 :: social where
  "social0 = \<lparr>accounts = Map.empty, root_node = \<lparr>node_id = 0, block_height = 7, children = []\<rparr>,
     nodes = Map.empty, node_count = 1, status = Live, shared_storage_pools = Map.empty,
     permissions = (\<lambda>_. Map.empty)\<rparr>"

definition name_json :: "string \<Rightarrow> json" where
  "name_json x = JObj [(''alice'', JObj [(''name'', JStr x)])]"

definition named :: "string \<Rightarrow> nat \<Rightarrow> nat \<Rightarrow> social" where
  "named x balance used = \<lparr>accounts = [1 \<mapsto> Current \<lparr>storage_balance = balance, used_bytes = used,
       account_node_id = 1, tracker = default_tracker, shared_storage = None\<rparr>],
     root_node = \<lparr>node_id = 0, block_height = 7, children = [(''alice'', Node 1)]\<rparr>,
     nodes = [1 \<mapsto> \<lparr>node_id = 1, block_height = 7,
       children = [(''name'', Value \<lparr>vh_value = x, vh_block_height = 7\<rparr>)]\<rparr>],
     node_count = 2, status = Live, shared_storage_pools = Map.empty,
     permissions = (\<lambda>_. Map.empty)\<rparr>"

lemmas social_eval = set_data_def set_entry_def internal_unwrap_account_or_create_def
  internal_get_account_social_def internal_create_account_def internal_initial_set_account_def
  create_node_id_def node_new_def internal_set_node_def internal_set_account_def
  account_grows_def account_shrinks_def account_new_def assert_storage_covered_def shared_used_def
  start_def stop_def default_tracker_def internal_unwrap_account_def load_account_def
  internal_unwrap_node_def internal_get_node_def recursive_set.simps set_child_def assert_key_valid_def
  is_key_valid_def key_char_def MAX_KEY_LENGTH_def node_set_def assert_live_def
  checked_add_def checked_sub_def fits_def sat_mul_def sat_add_def max_of_def sat_sub_def Let_def

lemma social0_init: "social_init social0"
  unfolding social_init_def
  by (rule exI [of _ "social_env\<lparr>env_predecessor_account_id := ''contract''\<rparr>"], rule exI [of _ Live])
    (simp add: set_status_def assert_private_def new_social_def social0_def social_env_def)

lemma set_name_new: "set_data social_env (name_json ''Al'') None social0 = Inr (named ''Al'' 1000 15, [])"
  by (simp add: social_eval name_json_def social0_def named_def cong: eval_cong)

lemma set_name_again:
  "set_data social_env (name_json ''Alice'') None (named ''Al'' 1000 15) = Inr (named ''Alice'' 2000 15, [])"
  by (simp add: social_eval name_json_def named_def cong: eval_cong)

end
