(* ===== verification/SocialTheorems.thy ===== *)
theory SocialTheorems
  imports SocialSamples
begin

section \<open>The social contract: its properties\<close>

text \<open>Writing, reading, balances and storage, and three behaviours that are hardly intended.\<close>

subsection \<open>Reachable states of the examples\<close>

lemma social0_reachable: "reach social_init (social_step c) social0"
  by (rule reach_init) (rule social0_init)

lemma named_reachable: "reach social_init (social_step 1) (named ''Al'' 1000 15)"
  by (rule reach_step [OF social0_reachable social_step.intros [of social_env "Set (name_json ''Al'') None"]])
    (simp_all add: set_name_new)

lemma named_wf: "wf_social (named ''Al'' 1000 15)"
  using social_tree.reachable_inv [OF named_reachable] by (simp add: live_tree_def)

lemma social0_wf: "wf_social social0"
  using social_tree.reachable_inv [OF social0_reachable] by (simp add: live_tree_def)

subsection \<open>Who may write what\<close>

text \<open>
  C4. \<open>set\<close> respects the permissions. If an accepted call changes the entries of a node that there
  was before, then the node belongs to an account that is a key of the data, and this account is the
  caller itself, or it has granted the caller, or the public key of the signer, write access to this
  node or to one above it.
\<close>

theorem set_needs_permission:
  assumes "reach social_init (social_step c) s" and "set_data e data opts s = Inr (t, ps)"
    and "i \<in> dom (nodes s)" and "kids t i \<noteq> kids s i"
  shows "\<exists>obj. data = JObj obj \<and> (\<exists>key \<in> set (map fst obj). may_write e s key i)"
proof -
  have "wf_social s" using social_tree.reachable_inv [OF assms(1)] by (simp add: live_tree_def)
  from set_data_ok [OF assms(2) this] obtain obj where "data = JObj obj" "set_ok e (set (map fst obj)) s t" .
  then show ?thesis using assms(3,4) by (auto simp: set_ok_def changed_def)
qed

theorem set_needs_permission_witness:
  "\<exists>obj. name_json ''Alice'' = JObj obj \<and> (\<exists>key \<in> set (map fst obj). may_write social_env (named ''Al'' 1000 15) key 1)"
  by (rule set_needs_permission [OF named_reachable set_name_again]) (simp_all add: named_def kids_def)

text \<open>
  C6. Reachable states are trees: a child is younger than its parent and is stored, no node is the
  child of two nodes or under two keys, the keys of a node are distinct and below the accounts valid,
  and the accounts are exactly the children of the root. The contract never returns to the genesis
  status in which its owner may write to the tree directly.
\<close>

theorem nodes_form_a_tree:
  assumes "reach social_init (social_step c) s"
  shows "(pedge s p k i \<longrightarrow> p < i \<and> i \<in> dom (nodes s) \<and> i < node_count s)
    \<and> (pedge s p k i \<and> pedge s q l i \<longrightarrow> p = q \<and> k = l)
    \<and> distinct (map fst (kids s i))
    \<and> (0 < i \<and> map_of (kids s i) k = Some x \<longrightarrow> is_key_valid k)
    \<and> dom (accounts s) = {i. \<exists>k. pedge s 0 k i}
    \<and> status s \<noteq> Genesis"
proof -
  have "live_tree s" by (rule social_tree.reachable_inv [OF assms])
  then have w: "wf_tree s" "wf_accounts s" and st: "status s \<noteq> Genesis" by (simp_all add: live_tree_def wf_social_def)
  have "dom (accounts s) = {i. \<exists>k. pedge s 0 k i}" using w(2) by (simp add: wf_accounts_def edge_def)
  moreover have "pedge s p k i \<longrightarrow> p < i \<and> i \<in> dom (nodes s) \<and> i < node_count s"
    using wf_treeD(6,7,8) [OF w(1), of p k i] by blast
  moreover have "pedge s p k i \<and> pedge s q l i \<longrightarrow> p = q \<and> k = l" using wf_treeD(9) [OF w(1), of p k i q l] by blast
  moreover have "0 < i \<and> map_of (kids s i) k = Some x \<longrightarrow> is_key_valid k" using wf_treeD(5) [OF w(1), of i k x] by blast
  ultimately show ?thesis using wf_treeD(4) [OF w(1), of i] st by (intro conjI)
qed

theorem nodes_form_a_tree_witness:
  "1 \<in> dom (nodes (named ''Al'' 1000 15)) \<and> is_key_valid ''name''"
proof -
  have "pedge (named ''Al'' 1000 15) 0 ''alice'' 1" by (simp add: pedge_def kids_def named_def)
  then have "1 \<in> dom (nodes (named ''Al'' 1000 15))"
    using nodes_form_a_tree [OF named_reachable, of 0 "''alice''" 1] by blast
  moreover have "map_of (kids (named ''Al'' 1000 15) 1) ''name'' = Some (Value \<lparr>vh_value = ''Al'', vh_block_height = 7\<rparr>)"
    by (simp add: kids_def named_def)
  then have "is_key_valid ''name''"
    using nodes_form_a_tree [OF named_reachable, of 0 "''name''" 1] zero_less_one by blast
  ultimately show ?thesis ..
qed

subsection \<open>What is written and read\<close>

text \<open>
  C5. \<open>set\<close> implements the abstract specification: seen as a map from paths to values, the new state
  is the old one overlaid with the data. At every path the data has a string or a null for, it is
  the new value; at every other path, in the same account or elsewhere, the old value stays.
\<close>

theorem set_overlays_the_data:
  assumes "reach social_init (social_step c) s" and "set_data e data opts s = Inr (t, ps)"
    and "plain s" and "plain_json data" and "path \<noteq> []" and "EMPTY_KEY \<notin> set path"
  shows "value_at t 0 path = overlay data path (value_at s 0 path)"
proof -
  have wf: "wf_social s" using social_tree.reachable_inv [OF assms(1)] by (simp add: live_tree_def)
  from assms(2) obtain obj where data: "data = JObj obj"
    and f: "foldE (set_entry e (unwrap_or opts \<lparr>refund_unused_deposit = None\<rparr>)) obj
      (env_attached_deposit e, s, []) = Inr (0, t, ps)"
    by (rule set_dataE)
  obtain k q where "path = k # q" using assms(5) by (cases path) auto
  with set_entries_values [OF f wf assms(3) assms(4) [unfolded data]] assms(6) show ?thesis
    unfolding data by simp
qed

lemma named_plain: "plain (named x b u)"
  by (auto simp: plain_def pedge_def kids_def named_def EMPTY_KEY_def)

lemma name_plain: "plain_json (name_json x)"
  by (simp add: name_json_def EMPTY_KEY_def)

theorem set_overlays_the_data_witness:
  "value_at (named ''Alice'' 2000 15) 0 [''alice'', ''name''] = Some (JStr ''Alice'')
   \<and> value_at (named ''Al'' 1000 15) 0 [''alice'', ''name''] = Some (JStr ''Al'')"
  using set_overlays_the_data [OF named_reachable set_name_again named_plain name_plain, of "[''alice'', ''name'']"]
  by (simp add: EMPTY_KEY_def overlay_def name_json_def leaf_def named_def kids_def)

text \<open>
  C19. No other call changes the data: storage deposits and withdrawals, grants (which create the nodes
  that they grant), pools, sharing, the status and a migration leave the value at every path as it is.
\<close>

theorem only_set_changes_data:
  assumes "reach social_init (social_step c) s" and "social_exec e m s = Inr (t, ps)"
    and "\<And>data opts. m \<noteq> Set data opts" and "path \<noteq> []" and "EMPTY_KEY \<notin> set path"
  shows "value_at t 0 path = value_at s 0 path"
proof -
  have "wf_social s" "status s \<noteq> Genesis" using social_tree.reachable_inv [OF assms(1)] by (simp_all add: live_tree_def)
  then have "same_data s t" using other_calls_data [OF assms(2) _ _ assms(3)] by blast
  then show ?thesis using assms(4,5) by (cases path) (auto simp: same_data_def)
qed

lemma named_deposit:
  "social_exec social_env (StorageDeposit None None) (named ''Al'' 1000 15) = Inr (named ''Al'' 2000 15, [])"
  by (simp add: storage_deposit_def internal_storage_balance_of_def storage_balance_of_account_def named_def
      social_eval cong: eval_cong)

theorem only_set_changes_data_witness:
  "value_at (named ''Al'' 2000 15) 0 [''alice'', ''name''] = value_at (named ''Al'' 1000 15) 0 [''alice'', ''name'']"
  by (rule only_set_changes_data [OF named_reachable named_deposit]) (simp_all add: EMPTY_KEY_def)

text \<open>
  C17. A \<open>get\<close> of one plain path answers with the value at the path, nested in objects along it, and with
  an empty object if there is none or it was deleted.
\<close>

theorem get_returns_the_value:
  assumes "reach social_init (social_step c) s" and "simple_path path" and "length path \<le> gas"
  shows "get_data gas s [join_path path] None = Inr (json_at path (value_at s 0 path))"
proof -
  have "wf_tree s" using social_tree.reachable_inv [OF assms(1)] by (simp add: live_tree_def wf_social_def)
  from get_path_value [OF assms(2) this assms(3)] show ?thesis .
qed

lemma sample_path: "simple_path [''alice'', ''name'']"
  by (simp add: simple_path_def is_key_valid_def key_char_def MAX_KEY_LENGTH_def EMPTY_KEY_def)

theorem get_returns_the_value_witness:
  "get_data 2 (named ''Al'' 1000 15) [''alice/name''] None = Inr (name_json ''Al'')"
proof -
  have "join_path [''alice'', ''name''] = ''alice/name''" by (simp add: SEPARATOR_def)
  with get_returns_the_value [OF named_reachable sample_path, of 2] show ?thesis
    by (simp add: json_at_def name_json_def named_def kids_def)
qed

text \<open>
  C16. Round trip: a string that was set at a path is what \<open>get\<close> returns for this path.
\<close>

theorem get_after_set:
  assumes "reach social_init (social_step c) s" and "plain s" and "simple_path path" and "length path \<le> gas"
    and "set_data e (JObj (nested path (JStr x))) opts s = Inr (t, ps)"
  shows "get_data gas t [join_path path] None = Inr (JObj (nested path (JStr x)))"
proof -
  have wf: "wf_social s" using social_tree.reachable_inv [OF assms(1)] by (simp add: live_tree_def)
  from set_data_ok [OF assms(5) wf] have wt: "wf_tree t" by (auto simp: set_ok_def wf_social_def)
  from assms(5) obtain obj where "JObj (nested path (JStr x)) = JObj obj"
    and f: "foldE (set_entry e (unwrap_or opts \<lparr>refund_unused_deposit = None\<rparr>)) obj
      (env_attached_deposit e, s, []) = Inr (0, t, ps)"
    by (rule set_dataE)
  then have obj: "obj = nested path (JStr x)" by simp
  obtain k q where path: "path = k # q" using assms(3) by (cases path) (auto simp: simple_path_def)
  have "value_at t 0 path = overlay (JObj obj) path (value_at s 0 path)"
    using set_entries_values [OF f wf assms(2)] nested_plain [OF assms(3)] simple_path_plain [OF assms(3)]
    unfolding obj path by simp
  then have "value_at t 0 path = Some (JStr x)" by (simp add: overlay_def obj jlookup_nested [OF assms(3)])
  with get_path_value [OF assms(3) wt assms(4)] show ?thesis by (simp add: json_at_def)
qed

theorem get_after_set_witness:
  "get_data 2 (named ''Alice'' 2000 15) [''alice/name''] None = Inr (JObj [(''alice'', JObj [(''name'', JStr ''Alice'')])])"
proof -
  have "set_data social_env (JObj (nested [''alice'', ''name''] (JStr ''Alice''))) None (named ''Al'' 1000 15)
      = Inr (named ''Alice'' 2000 15, [])"
    using set_name_again by (simp add: name_json_def)
  moreover have "join_path [''alice'', ''name''] = ''alice/name''" by (simp add: SEPARATOR_def)
  ultimately show ?thesis
    using get_after_set [OF named_reachable named_plain sample_path, of 2 social_env "''Alice''"] by simp
qed

text \<open>
  C18. Reading always ends and does not fail for a reason of the state: with a gas of the number of nodes,
  \<open>get\<close> fails only if \<open>**\<close> is not the last part of a pattern, and \<open>keys\<close> only if block heights are asked for
  and there is a node under an empty key. Neither runs out of gas.
\<close>

theorem reading_terminates:
  assumes "reach social_init (social_step c) s" and "node_count s \<le> gas"
  shows "(returns (get_data gas s keys opts)
      \<or> get_data gas s keys opts = Inl (Panic ''pattern can only be used as a suffix''))
    \<and> (returns (keys_data gas s keys kopts)
      \<or> (keys_data gas s keys kopts = Inl Unwrap_none \<and> \<not> plain s
          \<and> (\<exists>o'. kopts = Some o' \<and> return_type o' = Some BlockHeight)))"
proof -
  have wf: "wf_tree s" using social_tree.reachable_inv [OF assms(1)] by (simp add: live_tree_def wf_social_def)
  have "returns (get_data gas s keys opts)
      \<or> get_data gas s keys opts = Inl (Panic ''pattern can only be used as a suffix'')"
    using get_data_fails [OF _ wf assms(2)] by (cases "get_data gas s keys opts") auto
  moreover have "returns (keys_data gas s keys kopts) \<or> (keys_data gas s keys kopts = Inl Unwrap_none \<and> \<not> plain s
      \<and> (\<exists>o'. kopts = Some o' \<and> return_type o' = Some BlockHeight))"
  proof (cases "keys_data gas s keys kopts")
    case (Inl p)
    with keys_data_fails [OF Inl wf assms(2)] show ?thesis by (cases kopts) auto
  qed simp
  ultimately show ?thesis by blast
qed

theorem reading_terminates_witness:
  "returns (get_data 2 (named ''Al'' 1000 15) [''alice/**''] None)
   \<and> returns (keys_data 2 (named ''Al'' 1000 15) [''alice/**''] None)"
proof -
  have "get_data 2 (named ''Al'' 1000 15) [''alice/**''] None \<noteq> Inl (Panic ''pattern can only be used as a suffix'')"
    by (simp add: get_data_def key_path_def SEPARATOR_def EMPTY_KEY_def STAR_def RECURSIVE_STAR_def named_def
        numeral_2_eq_2 matched_entries_def get_entry_def internal_unwrap_node_def internal_get_node_def
        json_map_get_inner_object_def Let_def cong: eval_cong)
  moreover have "node_count (named ''Al'' 1000 15) \<le> 2" by (simp add: named_def)
  ultimately show ?thesis
    using reading_terminates [OF named_reachable, of 2 "[''alice/**'']" None None] by simp
qed

subsection \<open>Balances, storage and pools\<close>

text \<open>
  C7. The contract never owes more than it holds: what all accounts and all pools have as their balances,
  with what the call pays out, is at most what it was before with the deposit that is attached.
\<close>

theorem balances_backed_by_deposits:
  assumes "reach social_init (social_step (env_storage_byte_cost e)) s" and "social_exec e m s = Inr (t, ps)"
  shows "held t + paid ps \<le> held s + env_attached_deposit e"
proof -
  have "balanced (env_storage_byte_cost e) s" by (rule social_books.reachable_inv [OF assms(1)])
  with social_exec_books [OF assms(2)] show ?thesis
    by (simp add: balanced_def live_tree_def books_def)
qed

theorem balances_backed_by_deposits_witness:
  "held (named ''Alice'' 2000 15) \<le> held (named ''Al'' 1000 15) + 1000"
proof -
  have "social_exec social_env (Set (name_json ''Alice'') None) (named ''Al'' 1000 15)
      = Inr (named ''Alice'' 2000 15, [])"
    using set_name_again by simp
  from balances_backed_by_deposits [OF _ this] named_reachable show ?thesis by simp
qed

text \<open>
  C15. Every account pays for its storage: at all times the bytes that it uses, less those of its pool, at
  the price of a byte are covered by its balance (all of it, when the product exceeds 128 bits), and it
  uses no more bytes of the pool than bytes. So \<open>storage_balance_of\<close> always returns.
\<close>

theorem storage_is_paid_for:
  assumes "reach social_init (social_step (env_storage_byte_cost e)) s" and "get_account_social s name = Inr (Some a)"
  shows "shared_used a \<le> used_bytes a
    \<and> sat_mul 128 (used_bytes a - shared_used a) (env_storage_byte_cost e) \<le> storage_balance a
    \<and> storage_balance_of e s name = Inr (Some \<lparr>sb_total = storage_balance a,
      sb_available = storage_balance a - sat_mul 128 (used_bytes a - shared_used a) (env_storage_byte_cost e)\<rparr>)"
proof -
  have b: "balanced (env_storage_byte_cost e) s" by (rule social_books.reachable_inv [OF assms(1)])
  have a: "internal_get_account_social s name = Inr (Some a)" using assms(2) by (simp add: get_account_social_def)
  from b have "wf_social s" by (simp add: balanced_def live_tree_def)
  from get_account_stored [OF a this] obtain d where "accounts s (account_node_id a) = Some (Current d)"
    "storage_balance d = storage_balance a" "used_bytes d = used_bytes a" "shared_storage d = shared_storage a" by metis
  moreover from this b have "covered (env_storage_byte_cost e) d" by (auto simp: balanced_def all_covered_def)
  ultimately have c: "covered (env_storage_byte_cost e) a" by (simp add: covered_def shared_used_def)
  then show ?thesis
    by (simp add: covered_def storage_balance_of_def internal_storage_balance_of_def a storage_balance_of_account_def
        checked_sub_def sat_sub_def)
qed

lemma named_account:
  "get_account_social (named x b u) ''alice'' = Inr (Some \<lparr>storage_balance = b, used_bytes = u,
     account_node_id = 1, tracker = default_tracker, shared_storage = None\<rparr>)"
  by (simp add: get_account_social_def internal_get_account_social_def load_account_def named_def)

theorem storage_is_paid_for_witness:
  "storage_balance_of social_env (named ''Al'' 1000 15) ''alice'' = Inr (Some \<lparr>sb_total = 1000, sb_available = 985\<rparr>)"
  using storage_is_paid_for [of social_env, OF _ named_account] named_reachable
  by (simp add: shared_used_def sat_mul_def max_of_def)

text \<open>
  C22. The books of the shared storage pools: at all times a pool has promised exactly the bytes that the
  accounts on it may use, and has booked at least those that they do use; and the two assertions of an
  accounting bug in \<open>internal_set_account\<close> do not fail for an account as it is stored, unless more bytes
  are released than it uses.
\<close>

theorem pools_match_their_accounts:
  assumes "reach social_init (social_step c) s"
  shows "msum (v_shared max_bytes q) (accounts s) = pool_field shared_bytes s q
    \<and> msum (v_shared shared_used_bytes q) (accounts s) \<le> pool_field pool_used_bytes s q
    \<and> (get_account_social s name = Inr (Some a) \<and> released \<le> used_bytes a
      \<longrightarrow> returns (account_shrinks released a s))"
proof -
  have b: "balanced c s" by (rule social_books.reachable_inv [OF assms])
  then have 1: "msum (v_shared max_bytes q) (accounts s) = pool_field shared_bytes s q"
    and 2: "msum (v_shared shared_used_bytes q) (accounts s) \<le> pool_field pool_used_bytes s q" for q
    by (simp_all add: balanced_def pools_match_def)
  have "returns (account_shrinks released a s)"
    if a: "get_account_social s name = Inr (Some a)" and r: "released \<le> used_bytes a"
  proof -
    from b have wf: "wf_social s" and fin: "finite (dom (accounts s))"
      by (simp_all add: balanced_def live_tree_def finite_books_def)
    from get_account_stored [OF a [unfolded get_account_social_def] wf] obtain d where
      d: "accounts s (account_node_id a) = Some (Current d)" "shared_storage d = shared_storage a" by metis
    show ?thesis
    proof (cases "shared_storage a")
      case None
      then show ?thesis using r by (simp add: account_shrinks_def checked_sub_def)
    next
      case (Some sh)
      have "shared_in shared_used_bytes (pool_id sh) d \<le> msum (v_shared shared_used_bytes (pool_id sh)) (accounts s)"
        using msum_point [OF fin, of "v_shared shared_used_bytes (pool_id sh)" "account_node_id a"] d(1) by simp
      with 2 [of "pool_id sh"] have le: "shared_used_bytes sh \<le> pool_field pool_used_bytes s (pool_id sh)"
        using d(2) Some by (simp add: shared_in_def)
      show ?thesis
      proof (cases "min (shared_used_bytes sh) released = 0")
        case False
        then have "0 < shared_used_bytes sh" by simp
        with le obtain p where "shared_storage_pools s (pool_id sh) = Some p" "shared_used_bytes sh \<le> pool_used_bytes p"
          by (cases "shared_storage_pools s (pool_id sh)") (simp_all add: pool_field_def)
        moreover from this have "min (shared_used_bytes sh) released \<le> pool_used_bytes p" by simp
        ultimately show ?thesis using Some r False
          by (simp add: account_shrinks_def internal_unwrap_shared_storage_pool_def
              internal_get_shared_storage_pool_def checked_sub_def Let_def)
      qed (use Some r in \<open>simp add: account_shrinks_def checked_sub_def\<close>)
    qed
  qed
  with 1 2 show ?thesis by blast
qed

text \<open>\<open>alice\<close> has a pool and shares 5000 bytes with \<open>bob\<close>, whose account uses 10 of them.\<close>

definition pool_env :: social_host where
  "pool_env = social_env\<lparr>env_attached_deposit := MINIMUM_SHARED_STORAGE_BALANCE\<rparr>"

definition alice_pool :: "nat \<Rightarrow> nat \<Rightarrow> shared_storage_pool" where
  "alice_pool used shared = \<lparr>pool_storage_balance = MINIMUM_SHARED_STORAGE_BALANCE,
     pool_used_bytes = used, shared_bytes = shared\<rparr>"

definition shared_with_bob :: social where
  "shared_with_bob = \<lparr>accounts = [1 \<mapsto> Current \<lparr>storage_balance = 0, used_bytes = 10, account_node_id = 1,
       tracker = default_tracker,
       shared_storage = Some \<lparr>max_bytes = 5000, shared_used_bytes = 10, pool_id = ''alice''\<rparr>\<rparr>],
     root_node = \<lparr>node_id = 0, block_height = 7, children = [(''bob'', Node 1)]\<rparr>,
     nodes = [1 \<mapsto> \<lparr>node_id = 1, block_height = 7, children = []\<rparr>],
     node_count = 2, status = Live, shared_storage_pools = [''alice'' \<mapsto> alice_pool 10 5000],
     permissions = (\<lambda>_. Map.empty)\<rparr>"

lemma pool_env_simps [simp]:
  "env_predecessor_account_id pool_env = ''alice''"
  "env_attached_deposit pool_env = MINIMUM_SHARED_STORAGE_BALANCE"
  "env_block_height pool_env = 7" "env_storage_byte_cost pool_env = 1"
  "env_storage_usage pool_env = env_storage_usage social_env"
  by (simp_all add: pool_env_def)

lemmas pool_eval = internal_get_shared_storage_pool_def internal_set_shared_storage_pool_def
  internal_unwrap_shared_storage_pool_def pool_available_bytes_def available_bytes_def pool_new_def
  alice_pool_def MINIMUM_SHARED_STORAGE_BALANCE_def MIN_STORAGE_BYTES_def clear_def

lemma pool_deposited:
  "social_exec pool_env (SharedStoragePoolDeposit None) social0
    = Inr (social0\<lparr>shared_storage_pools := [''alice'' \<mapsto> alice_pool 0 0]\<rparr>, [])"
  by (simp add: shared_storage_pool_deposit_def pool_eval social_eval social0_def cong: eval_cong)

lemma bytes_shared:
  "social_exec pool_env (ShareStorage ''bob'' 5000) (social0\<lparr>shared_storage_pools := [''alice'' \<mapsto> alice_pool 0 0]\<rparr>)
    = Inr (shared_with_bob, [])"
  by (simp add: share_storage_def internal_create_account_from_shared_storage_def pool_eval social_eval social0_def
      shared_with_bob_def cong: eval_cong)

lemma shared_reachable: "reach social_init (social_step 1) shared_with_bob"
proof -
  have "social_step 1 social0 (social0\<lparr>shared_storage_pools := [''alice'' \<mapsto> alice_pool 0 0]\<rparr>)"
    by (rule social_step.intros [OF pool_deposited]) simp
  moreover have "social_step 1 (social0\<lparr>shared_storage_pools := [''alice'' \<mapsto> alice_pool 0 0]\<rparr>) shared_with_bob"
    by (rule social_step.intros [OF bytes_shared]) simp
  ultimately show ?thesis using social0_reachable reach_step by metis
qed

theorem pools_match_their_accounts_witness:
  "msum (v_shared max_bytes ''alice'') (accounts shared_with_bob) = 5000
   \<and> returns (account_shrinks 4 \<lparr>storage_balance = 0, used_bytes = 10, account_node_id = 1,
       tracker = default_tracker,
       shared_storage = Some \<lparr>max_bytes = 5000, shared_used_bytes = 10, pool_id = ''alice''\<rparr>\<rparr> shared_with_bob)"
proof -
  have "get_account_social shared_with_bob ''bob'' = Inr (Some \<lparr>storage_balance = 0, used_bytes = 10, account_node_id = 1,
       tracker = default_tracker,
       shared_storage = Some \<lparr>max_bytes = 5000, shared_used_bytes = 10, pool_id = ''alice''\<rparr>\<rparr>)"
    by (simp add: get_account_social_def internal_get_account_social_def load_account_def shared_with_bob_def)
  moreover have "pool_field shared_bytes shared_with_bob ''alice'' = 5000"
    by (simp add: pool_field_def shared_with_bob_def alice_pool_def)
  ultimately show ?thesis
    using pools_match_their_accounts [OF shared_reachable, of "''alice''" "''bob''" _ 4] by simp
qed

subsection \<open>Three behaviours that are hardly intended\<close>

lemma length_update_ge: "length xs \<le> length (AList.update k v xs)"
  by (induction xs) auto

definition usage_grows :: "social_host \<Rightarrow> bool" where
  "usage_grows e \<longleftrightarrow> (\<forall>u v. finite (dom (accounts v)) \<longrightarrow> nodes u \<subseteq>\<^sub>m nodes v \<longrightarrow> accounts u \<subseteq>\<^sub>m accounts v
     \<longrightarrow> accounts u \<noteq> accounts v \<longrightarrow> shared_storage_pools u = shared_storage_pools v
     \<longrightarrow> permissions u = permissions v \<longrightarrow> length (children (root_node u)) \<le> length (children (root_node v))
     \<longrightarrow> env_storage_usage e u < env_storage_usage e v)"

text \<open>
  C36. \<open>storage_deposit\<close> with \<open>registration_only\<close> never registers an account: the minimum balance that it
  leaves to the new account is zero, the whole deposit is refunded, and then the account can not pay
  for the bytes of its own registration. (The hypothesis is what the runtime documents of
  \<open>storage_usage\<close>: it grows when entries are added and none is removed.)
\<close>

theorem registration_only_never_registers:
  assumes "reach social_init (social_step c) s" and "0 < env_storage_byte_cost e" and "usage_grows e"
    and "get_account_social s name = Inr None"
  shows "\<not> returns (storage_deposit e (Some name) (Some True) s)"
proof
  assume "returns (storage_deposit e (Some name) (Some True) s)"
  then obtain b t ps where "storage_deposit e (Some name) (Some True) s = Inr (b, t, ps)" by (auto simp: returns_def)
  then have "internal_create_account e name (env_attached_deposit e) True s = Inr (t, ps)"
    by (cases rule: storage_depositE) (use assms(4) in \<open>simp_all add: get_account_social_def\<close>)
  then obtain t' where i: "internal_initial_set_account e name (account_new (node_count s))
      (s\<lparr>node_count := node_count s + 1\<rparr>) = Inr t'"
    by (auto simp: internal_create_account_def create_node_id_Inr account_new_def Let_def)
  let ?i = "node_count s"
  let ?r = "(root_node s)\<lparr>block_height := env_block_height e,
      children := AList.update name (Node ?i) (children (root_node s))\<rparr>"
  let ?u = "s\<lparr>node_count := ?i + 1\<rparr>"
  let ?v = "?u\<lparr>nodes := (nodes s)(?i \<mapsto> fresh_node e ?i None), root_node := ?r,
      accounts := (accounts s)(?i \<mapsto> Current (account_new ?i))\<rparr>"
  have b: "balanced c s" by (rule social_books.reachable_inv [OF assms(1)])
  then have wf: "wf_social s" and fin: "finite (dom (accounts s))"
    by (simp_all add: balanced_def live_tree_def finite_books_def)
  have n: "nodes s ?i = None" using wf_treeD(3) [OF wf_socialD(1) [OF wf], of ?i] by fastforce
  have "\<not> edge s 0 ?i" using wf_treeD(8) [OF wf_socialD(1) [OF wf]] by (auto simp: edge_def)
  then have a: "accounts s ?i = None" using wf_socialD(2) [OF wf] by blast
  have new: "internal_set_account e (account_new ?i) (?v\<lparr>accounts := accounts s\<rparr>) = Inr (False, ?v)"
    by (simp add: internal_set_account_def account_new_def default_tracker_def a)
  have grown: "env_storage_usage e ?u < env_storage_usage e ?v"
  proof -
    have "length (children (root_node ?u)) \<le> length (children (root_node ?v))"
      by (simp add: length_update_ge)
    moreover have "nodes ?u \<subseteq>\<^sub>m nodes ?v" "accounts ?u \<subseteq>\<^sub>m accounts ?v"
      using n a by (simp_all add: map_le_def) (metis domIff)+
    moreover have "accounts ?u \<noteq> accounts ?v" using a by (auto simp: fun_eq_iff intro: exI [of _ ?i])
    ultimately show ?thesis using assms(3) fin unfolding usage_grows_def by simp
  qed
  obtain tr x where st: "start e ?u default_tracker = Inr tr"
    "\<exists>tr'. stop e ?v tr = Inr tr' \<and> internal_set_account e ((account_new ?i)\<lparr>tracker := tr'\<rparr>) ?v = Inr (x, t')"
    using i new by (auto simp: internal_initial_set_account_def node_new_Inr internal_set_node_def
        account_new_def fresh_node_def Let_def)
  have "sat_mul 128 (env_storage_usage e ?v - env_storage_usage e ?u) (env_storage_byte_cost e) = 0"
    using st grown
    by (auto simp: start_def stop_def default_tracker_def internal_set_account_def account_grows_def account_new_def
        assert_storage_covered_def shared_used_def Let_def)
  moreover have "0 < (env_storage_usage e ?v - env_storage_usage e ?u) * env_storage_byte_cost e"
    using grown assms(2) by simp
  ultimately show False by (simp add: sat_mul_def max_of_def min_def split: if_splits)
qed

definition counting_env :: social_host where
  "counting_env = social_env\<lparr>env_storage_usage := (\<lambda>s. card (dom (accounts s)))\<rparr>"

lemma counting_env_grows: "usage_grows counting_env"
  unfolding usage_grows_def
proof (intro allI impI)
  fix u v :: social
  assume v: "finite (dom (accounts v))" and uv: "accounts u \<subseteq>\<^sub>m accounts v" "accounts u \<noteq> accounts v"
  have "accounts u = accounts v" if "dom (accounts u) = dom (accounts v)"
    using uv(1) that by (simp add: map_le_antisym map_le_def)
  then have "dom (accounts u) \<subset> dom (accounts v)" using uv map_le_implies_dom_le by blast
  then show "env_storage_usage counting_env u < env_storage_usage counting_env v"
    using v by (simp add: counting_env_def psubset_card_mono)
qed

theorem registration_only_never_registers_witness:
  "\<not> returns (storage_deposit counting_env (Some ''alice'') (Some True) social0)"
proof (rule registration_only_never_registers [OF social0_reachable _ counting_env_grows])
  show "0 < env_storage_byte_cost counting_env" by (simp add: counting_env_def)
  show "get_account_social social0 ''alice'' = Inr None"
    by (simp add: get_account_social_def internal_get_account_social_def social0_def)
qed

text \<open>
  A contract that was set to read-only still changes: every call either leaves it as it is or panics,
  except for \<open>shared_storage_pool_deposit\<close> and \<open>share_storage\<close>, which do not ask for the status, and the
  owner's \<open>set_status\<close>.
\<close>

theorem read_only_calls_change_nothing:
  assumes "status s = ReadOnly" and "social_exec e m s = Inr (t, ps)"
  shows "t = s \<and> ps = [] \<or> (\<exists>p. m = SharedStoragePoolDeposit p) \<or> (\<exists>a n. m = ShareStorage a n)
    \<or> (\<exists>st. m = SetStatus st \<and> env_predecessor_account_id e = env_current_account_id e)"
  using assms
  by (cases m) (auto simp: set_data_def storage_deposit_def storage_withdraw_def storage_unregister_def
      grant_write_permission_def assert_live_def set_status_def assert_private_def migrate_state_def
      genesis_init_node_count_def genesis_init_nodes_def genesis_init_accounts_def assert_genesis_def Let_def)

theorem read_only_calls_change_nothing_witness:
  "\<exists>t. social_exec pool_env (SharedStoragePoolDeposit None) (social0\<lparr>status := ReadOnly\<rparr>) = Inr (t, [])
     \<and> t \<noteq> social0\<lparr>status := ReadOnly\<rparr>
     \<and> (t = social0\<lparr>status := ReadOnly\<rparr> \<and> ([] :: social_promise list) = []
       \<or> (\<exists>p. SharedStoragePoolDeposit None = SharedStoragePoolDeposit p)
       \<or> (\<exists>a n. SharedStoragePoolDeposit None = ShareStorage a n)
       \<or> (\<exists>st. SharedStoragePoolDeposit None = SetStatus st
           \<and> env_predecessor_account_id pool_env = env_current_account_id pool_env))"
proof -
  let ?s = "social0\<lparr>status := ReadOnly\<rparr>" and ?m = "SharedStoragePoolDeposit None"
  let ?t = "?s\<lparr>shared_storage_pools := [''alice'' \<mapsto> alice_pool 0 0]\<rparr>"
  have e: "social_exec pool_env ?m ?s = Inr (?t, [])"
    by (simp add: shared_storage_pool_deposit_def pool_eval social_eval social0_def cong: eval_cong)
  moreover have "shared_storage_pools ?t \<noteq> shared_storage_pools ?s" by (simp add: social0_def fun_eq_iff)
  then have "?t \<noteq> ?s" by metis
  moreover have "status ?s = ReadOnly" by simp
  ultimately show ?thesis using read_only_calls_change_nothing [OF _ e] by blast
qed

text \<open>
  A node under the empty key of an account blocks the account: once there is one, every call that sets
  the account to a string panics. (The code keeps objects away from an empty key that has a value, but
  not from one that has none.)
\<close>

theorem empty_key_node_blocks_the_account:
  assumes "reach social_init (social_step c) s" and "pedge s 0 name a" and "pedge s a EMPTY_KEY i"
  shows "\<not> returns (set_data e (JObj [(name, JStr x)]) opts s)"
proof
  assume "returns (set_data e (JObj [(name, JStr x)]) opts s)"
  then obtain t ps where "set_data e (JObj [(name, JStr x)]) opts s = Inr (t, ps)" by (auto simp: returns_def)
  then obtain obj where "JObj [(name, JStr x)] = JObj obj"
    and "foldE (set_entry e (unwrap_or opts \<lparr>refund_unused_deposit = None\<rparr>)) obj
      (env_attached_deposit e, s, []) = Inr (0, t, ps)" by (rule set_dataE)
  then have f: "set_entry e (unwrap_or opts \<lparr>refund_unused_deposit = None\<rparr>) (name, JStr x)
      (env_attached_deposit e, s, []) = Inr (0, t, ps)" by auto
  have wf: "wf_social s" using social_tree.reachable_inv [OF assms(1)] by (simp add: live_tree_def)
  from set_entry_steps [OF f wf] obtain b s1 n s2 where 1: "wf_social s1" "pedge s1 0 name b" "0 < b"
    and c: "s1 = s \<or> map_of (kids s 0) name = None \<and> created name s s1"
    and n: "internal_unwrap_node s1 b = Inr n"
    and r: "recursive_set e (entry_ids e name s1 b) (name = env_predecessor_account_id e) (JStr x) n s1 = Inr s2"
    by metis
  have s1: "s1 = s" using c assms(2) by (simp add: pedge_def)
  have "b = a" using 1(2) assms(2) s1 by (simp add: pedge_def)
  moreover have "children n = kids s b" using n 1(3) s1 by (auto simp: internal_unwrap_node_Inr kids_def)
  ultimately have "map_of (children n) EMPTY_KEY = Some (Node i)" using assms(3) by (simp add: pedge_def)
  with r show False by (auto elim: recursive_setE)
qed

text \<open>The blocked account of the example: \<open>alice\<close> has set \<open>{"": {"x": "1"}}\<close>.\<close>

definition blocked :: social where
  "blocked = \<lparr>accounts = [1 \<mapsto> Current \<lparr>storage_balance = 1000, used_bytes = 15,
       account_node_id = 1, tracker = default_tracker, shared_storage = None\<rparr>],
     root_node = \<lparr>node_id = 0, block_height = 7, children = [(''alice'', Node 1)]\<rparr>,
     nodes = [1 \<mapsto> \<lparr>node_id = 1, block_height = 7, children = [(EMPTY_KEY, Node 2)]\<rparr>,
       2 \<mapsto> \<lparr>node_id = 2, block_height = 7, children = [(''x'', Value \<lparr>vh_value = ''1'', vh_block_height = 7\<rparr>)]\<rparr>],
     node_count = 3, status = Live, shared_storage_pools = Map.empty,
     permissions = (\<lambda>_. Map.empty)\<rparr>"

lemma set_blocked:
  "social_exec social_env (Set (JObj [(''alice'', JObj [(EMPTY_KEY, JObj [(''x'', JStr ''1'')])])]) None) social0
    = Inr (blocked, [])"
  by (simp add: social_eval social0_def blocked_def EMPTY_KEY_def cong: eval_cong)
    (simp add: numeral_2_eq_2 fun_upd_twist)

theorem empty_key_node_blocks_the_account_witness:
  "\<not> returns (set_data social_env (JObj [(''alice'', JStr ''hello'')]) None blocked)"
proof (rule empty_key_node_blocks_the_account)
  show "reach social_init (social_step 1) blocked"
    by (rule reach_step [OF social0_reachable social_step.intros [OF set_blocked]]) simp
  show "pedge blocked 0 ''alice'' 1" by (simp add: pedge_def kids_def blocked_def)
  show "pedge blocked 1 EMPTY_KEY 2" by (simp add: pedge_def kids_def blocked_def)
qed

end
