(* ===== verification/TokenStandard.thy ===== *)
theory TokenStandard
  imports Host
begin

section \<open>The fungible token of \<open>unc_contract_standards\<close>, as the token contracts use it\<close>

text \<open>
  The contracts \<open>w-unc\<close> and \<open>fungible-token/ft\<close> keep a \<open>FungibleToken\<close> of the crate
  \<open>unc_contract_standards\<close>, which is not part of the repository. Its type is the type parameter \<open>'t\<close> and
  its functions are the fields of the record \<open>ft_std\<close>, an argument of the contracts' methods. Nothing is
  assumed about them except in the theorems that have the hypothesis \<open>std_laws\<close>: the documented
  behaviour of the standard, as laws on the balances of the registered accounts
  (\<open>std_accounts\<close>, the public field \<open>accounts\<close>) and the total supply.
\<close>

subsection \<open>The functions of the standard\<close>

text \<open>A storage balance is the pair of its fields \<open>total\<close> and \<open>available\<close>; bounds are \<open>min\<close> and \<open>max\<close>.\<close>

type_synonym storage_balance = "nat \<times> nat"

record ('t, 'c) ft_std =
  std_new :: "bytes \<Rightarrow> 't"
  std_accounts :: "'t \<Rightarrow> account_id \<rightharpoonup> nat"
  std_total_supply :: "'t \<Rightarrow> nat"
  std_balance_of :: "'t \<Rightarrow> account_id \<Rightarrow> nat"
  std_register_account :: "account_id \<Rightarrow> 't \<Rightarrow> 't res"
  std_deposit :: "account_id \<Rightarrow> nat \<Rightarrow> 't \<Rightarrow> 't res"
  std_withdraw :: "account_id \<Rightarrow> nat \<Rightarrow> 't \<Rightarrow> 't res"
  std_ft_transfer :: "host \<Rightarrow> account_id \<Rightarrow> nat \<Rightarrow> string option \<Rightarrow> 't \<Rightarrow> 't res"
  std_ft_transfer_call ::
    "host \<Rightarrow> account_id \<Rightarrow> nat \<Rightarrow> string option \<Rightarrow> string \<Rightarrow> 't \<Rightarrow> ('t \<times> ('c, nat) answer) res"
  std_resolve_transfer :: "host \<Rightarrow> account_id \<Rightarrow> account_id \<Rightarrow> nat \<Rightarrow> 't \<Rightarrow> ('t \<times> nat \<times> nat) res"
  std_storage_deposit ::
    "host \<Rightarrow> account_id option \<Rightarrow> bool option \<Rightarrow> 't \<Rightarrow> ('t \<times> 'c promise list \<times> storage_balance) res"
  std_storage_withdraw :: "host \<Rightarrow> nat option \<Rightarrow> 't \<Rightarrow> ('t \<times> 'c promise list \<times> storage_balance) res"
  std_storage_unregister ::
    "host \<Rightarrow> bool option \<Rightarrow> 't \<Rightarrow> ('t \<times> 'c promise list \<times> (account_id \<times> nat) option) res"
  std_storage_bounds :: "'t \<Rightarrow> nat \<times> nat option"
  std_storage_balance_of :: "'t \<Rightarrow> account_id \<Rightarrow> storage_balance option"

text \<open>The tokens that the promises of a call take out of the contract.\<close>

definition tokens_of :: "'c promise list \<Rightarrow> nat" where
  "tokens_of ps = sum_list (map promise_tokens ps)"

fun answer_tokens :: "('c, 'v) answer \<Rightarrow> nat" where
  "answer_tokens (Promised p) = promise_tokens p"
| "answer_tokens (Answered v) = 0"

lemma tokens_of_simps [simp]:
  "tokens_of [] = 0"
  "tokens_of (p # ps) = promise_tokens p + tokens_of ps"
  by (simp_all add: tokens_of_def)

text \<open>The smallest storage balance with which an account can be registered.\<close>

abbreviation std_min :: "('t, 'c) ft_std \<Rightarrow> 't \<Rightarrow> nat" where
  "std_min T t \<equiv> fst (std_storage_bounds T t)"

text \<open>The metadata of a token, with the fields that the contracts fill in.\<close>

record ft_metadata =
  md_spec :: string
  md_name :: string
  md_symbol :: string
  md_icon :: "string option"
  md_reference :: "string option"
  md_reference_hash :: "bytes option"
  md_decimals :: nat

text \<open>The icons are texts with single quotes.\<close>

definition sq :: string where "sq = [CHR 0x27]"

subsection \<open>What a delegated call does\<close>

text \<open>
  Both contracts delegate the same calls to the standard. \<open>std_call T e t u paid\<close>: one of
  these calls, made with the host \<open>e\<close>, leads from \<open>t\<close> to \<open>u\<close> and sends \<open>paid\<close> tokens away.
\<close>

inductive std_call :: "('t, 'c) ft_std \<Rightarrow> host \<Rightarrow> 't \<Rightarrow> 't \<Rightarrow> nat \<Rightarrow> bool" for T e where
  std_transfer: "std_ft_transfer T e receiver amount memo t = Inr u \<Longrightarrow> std_call T e t u 0"
| std_transfer_call: "std_ft_transfer_call T e receiver amount memo msg t = Inr (u, ans)
    \<Longrightarrow> std_call T e t u (answer_tokens ans)"
| std_resolve: "std_resolve_transfer T e sender receiver amount t = Inr (u, used, burned)
    \<Longrightarrow> std_call T e t u 0"
| std_storage_dep: "std_storage_deposit T e who only t = Inr (u, ps, b) \<Longrightarrow> std_call T e t u (tokens_of ps)"
| std_storage_wd: "std_storage_withdraw T e amount_opt t = Inr (u, ps, b) \<Longrightarrow> std_call T e t u (tokens_of ps)"
| std_storage_unreg: "std_storage_unregister T e force t = Inr (u, ps, r) \<Longrightarrow> std_call T e t u (tokens_of ps)"

text \<open>
  The four ways in which such a call may change balances and supply: tokens move between
  registered accounts; the tokens that a receiver returns to a sender whose account has been closed are burned;
  an account is registered; the caller's account is closed and its tokens are burned.
\<close>

definition tokens_moved :: "(account_id \<rightharpoonup> nat) \<Rightarrow> (account_id \<rightharpoonup> nat) \<Rightarrow> bool" where
  "tokens_moved m m' \<longleftrightarrow> m' = m \<or> (\<exists>a b x y n. a \<noteq> b \<and> m a = Some x \<and> m b = Some y \<and> n \<le> x
     \<and> m' = m(a \<mapsto> x - n, b \<mapsto> y + n))"

lemma tokens_movedI:
  "a \<noteq> b \<Longrightarrow> m a = Some x \<Longrightarrow> m b = Some y \<Longrightarrow> n \<le> x \<Longrightarrow> tokens_moved m (m(a \<mapsto> x - n, b \<mapsto> y + n))"
  unfolding tokens_moved_def by blast

inductive ledger_change ::
  "nat \<Rightarrow> nat \<Rightarrow> (account_id \<rightharpoonup> nat) \<times> nat \<Rightarrow> (account_id \<rightharpoonup> nat) \<times> nat \<Rightarrow> nat \<Rightarrow> bool"
  for attached least where
  moved: "tokens_moved m m' \<Longrightarrow> paid \<le> attached \<Longrightarrow> ledger_change attached least (m, s) (m', s) paid"
| burned: "m a = Some x \<Longrightarrow> n \<le> x \<Longrightarrow> paid \<le> attached
    \<Longrightarrow> ledger_change attached least (m, s) (m(a \<mapsto> x - n), s - n) paid"
| registered: "m a = None \<Longrightarrow> paid + least \<le> attached
    \<Longrightarrow> ledger_change attached least (m, s) (m(a \<mapsto> 0), s) paid"
| closed: "m a = Some x \<Longrightarrow> paid \<le> attached + least
    \<Longrightarrow> ledger_change attached least (m, s) (m(a := None), s - x) paid"

subsection \<open>The documented laws\<close>

definition std_ledger :: "('t, 'c) ft_std \<Rightarrow> 't \<Rightarrow> (account_id \<rightharpoonup> nat) \<times> nat" where
  "std_ledger T t = (std_accounts T t, std_total_supply T t)"

text \<open>
  \<open>internal_register_account\<close>, \<open>internal_deposit\<close> and \<open>internal_withdraw\<close>: when they return, and what
  they then do to the ledger. The minimum storage balance is fixed when the token is created.
\<close>

definition std_core_laws :: "('t, 'c) ft_std \<Rightarrow> bool" where
  "std_core_laws T \<longleftrightarrow>
     (\<forall>prefix. std_ledger T (std_new T prefix) = (Map.empty, 0))
   \<and> (\<forall>t a. std_balance_of T t a = (case std_accounts T t a of None \<Rightarrow> 0 | Some n \<Rightarrow> n))
   \<and> (\<forall>a t. returns (std_register_account T a t) \<longleftrightarrow> std_accounts T t a = None)
   \<and> (\<forall>a t u. std_register_account T a t = Inr u \<longrightarrow>
        std_ledger T u = ((std_accounts T t)(a \<mapsto> 0), std_total_supply T t) \<and> std_min T u = std_min T t)
   \<and> (\<forall>a n t. returns (std_deposit T a n t) \<longleftrightarrow>
        (\<exists>x. std_accounts T t a = Some x \<and> fits 128 (x + n) \<and> fits 128 (std_total_supply T t + n)))
   \<and> (\<forall>a n t u. std_deposit T a n t = Inr u \<longrightarrow>
        std_ledger T u = ((std_accounts T t)(a \<mapsto> the (std_accounts T t a) + n), std_total_supply T t + n)
        \<and> std_min T u = std_min T t)
   \<and> (\<forall>a n t. returns (std_withdraw T a n t) \<longleftrightarrow>
        (\<exists>x. std_accounts T t a = Some x \<and> n \<le> x \<and> n \<le> std_total_supply T t))
   \<and> (\<forall>a n t u. std_withdraw T a n t = Inr u \<longrightarrow>
        std_ledger T u = ((std_accounts T t)(a \<mapsto> the (std_accounts T t a) - n), std_total_supply T t - n)
        \<and> std_min T u = std_min T t)"

definition std_laws :: "('t, 'c) ft_std \<Rightarrow> bool" where
  "std_laws T \<longleftrightarrow> std_core_laws T
   \<and> (\<forall>e t u paid. std_call T e t u paid \<longrightarrow>
        ledger_change (env_attached_deposit e) (std_min T t) (std_ledger T t) (std_ledger T u) paid
        \<and> std_min T u = std_min T t)"

text \<open>The laws as rules.\<close>

lemma std_new_ledger:
  assumes "std_core_laws T"
  shows "std_accounts T (std_new T p) = Map.empty" and "std_total_supply T (std_new T p) = 0"
  using assms by (simp_all add: std_core_laws_def std_ledger_def)

lemma std_register_returns:
  "std_core_laws T \<Longrightarrow> returns (std_register_account T a t) \<longleftrightarrow> std_accounts T t a = None"
  unfolding std_core_laws_def by simp

lemma std_deposit_returns:
  "std_core_laws T \<Longrightarrow> returns (std_deposit T a n t) \<longleftrightarrow>
     (\<exists>x. std_accounts T t a = Some x \<and> fits 128 (x + n) \<and> fits 128 (std_total_supply T t + n))"
  unfolding std_core_laws_def by blast

lemma std_withdraw_returns:
  "std_core_laws T \<Longrightarrow> returns (std_withdraw T a n t) \<longleftrightarrow>
     (\<exists>x. std_accounts T t a = Some x \<and> n \<le> x \<and> n \<le> std_total_supply T t)"
  unfolding std_core_laws_def by blast

lemma std_registerE:
  assumes "std_core_laws T" and "std_register_account T a t = Inr u"
  obtains "std_accounts T t a = None" and "std_accounts T u = (std_accounts T t)(a \<mapsto> 0)"
    and "std_total_supply T u = std_total_supply T t" and "std_min T u = std_min T t"
proof -
  have "std_accounts T t a = None"
    using std_register_returns [OF assms(1), of a t] assms(2) by simp
  moreover have "std_ledger T u = ((std_accounts T t)(a \<mapsto> 0), std_total_supply T t) \<and> std_min T u = std_min T t"
    using assms by (simp add: std_core_laws_def)
  ultimately show thesis using that by (simp add: std_ledger_def)
qed

lemma std_depositE:
  assumes "std_core_laws T" and "std_deposit T a n t = Inr u"
  obtains x where "std_accounts T t a = Some x" and "fits 128 (x + n)"
    and "fits 128 (std_total_supply T t + n)" and "std_accounts T u = (std_accounts T t)(a \<mapsto> x + n)"
    and "std_total_supply T u = std_total_supply T t + n" and "std_min T u = std_min T t"
proof -
  obtain x where "std_accounts T t a = Some x" "fits 128 (x + n)"
      "fits 128 (std_total_supply T t + n)" 
    using std_deposit_returns [OF assms(1), of a n t] assms(2) by auto
  moreover have "std_ledger T u
      = ((std_accounts T t)(a \<mapsto> the (std_accounts T t a) + n), std_total_supply T t + n)
      \<and> std_min T u = std_min T t"
    using assms unfolding std_core_laws_def by blast
  ultimately show thesis using that by (simp add: std_ledger_def)
qed

lemma std_withdrawE:
  assumes "std_core_laws T" and "std_withdraw T a n t = Inr u"
  obtains x where "std_accounts T t a = Some x" and "n \<le> x" and "n \<le> std_total_supply T t"
    and "std_accounts T u = (std_accounts T t)(a \<mapsto> x - n)"
    and "std_total_supply T u = std_total_supply T t - n" and "std_min T u = std_min T t"
proof -
  obtain x where "std_accounts T t a = Some x" "n \<le> x" "n \<le> std_total_supply T t" 
    using std_withdraw_returns [OF assms(1), of a n t] assms(2) by auto
  moreover have "std_ledger T u
      = ((std_accounts T t)(a \<mapsto> the (std_accounts T t a) - n), std_total_supply T t - n)
      \<and> std_min T u = std_min T t"
    using assms unfolding std_core_laws_def by blast
  ultimately show thesis using that by (simp add: std_ledger_def)
qed

subsection \<open>Ledgers that add up\<close>

text \<open>
  \<open>sound_ledger\<close>: finitely many accounts, whose balances add up to the supply. \<open>reserve\<close> is
  what a contract must hold if a token is worth one atto and each registered account has paid \<open>least\<close>.
\<close>

fun sound_ledger :: "(account_id \<rightharpoonup> nat) \<times> nat \<Rightarrow> bool" where
  "sound_ledger (m, s) \<longleftrightarrow> finite (dom m) \<and> msum id m = s"

fun reserve :: "nat \<Rightarrow> (account_id \<rightharpoonup> nat) \<times> nat \<Rightarrow> nat" where
  "reserve least (m, s) = s + least * card (dom m)"

lemma dom_upd_card: "finite (dom m) \<Longrightarrow> m a = None \<Longrightarrow> card (dom (m(a \<mapsto> v))) = Suc (card (dom m))"
  by (simp add: domIff)

lemma dom_del_card: "finite (dom m) \<Longrightarrow> m a = Some x \<Longrightarrow> Suc (card (dom (m(a := None)))) = card (dom m)"
  using card_Suc_Diff1 [of "dom m" a] by (simp add: domI)

lemma tokens_moved_sum:
  assumes "tokens_moved m m'" and "finite (dom m)"
  shows "msum id m' = msum id m \<and> dom m' = dom m"
  using assms(1) unfolding tokens_moved_def
proof (elim disjE exE conjE)
  fix a b x y n
  assume *: "a \<noteq> b" "m a = Some x" "m b = Some y" "n \<le> x" and m': "m' = m(a \<mapsto> x - n, b \<mapsto> y + n)"
  have fin: "finite (dom (m(a \<mapsto> x - n)))" using assms(2) by simp
  have "msum id m' + y = msum id (m(a \<mapsto> x - n)) + (y + n)"
    using msum_upd [OF fin, of id b "y + n"] * by (simp add: m')
  moreover have "msum id (m(a \<mapsto> x - n)) + x = msum id m + (x - n)"
    using msum_upd [OF assms(2), of id a "x - n"] * by simp
  moreover have "dom m' = dom m" using * by (auto simp: m')
  ultimately show ?thesis using *(4) by simp
qed simp

text \<open>Every change of a ledger keeps it sound, creates no tokens and is covered by the attached deposit.\<close>

lemma ledger_change_sound:
  assumes "ledger_change attached least l l' paid" and "sound_ledger l"
  shows "sound_ledger l'" and "snd l' \<le> snd l" and "reserve least l' + paid \<le> reserve least l + attached"
proof -
  have "sound_ledger l' \<and> snd l' \<le> snd l \<and> reserve least l' + paid \<le> reserve least l + attached"
    using assms
  proof (cases rule: ledger_change.cases)
    case (moved m m' s)
    then show ?thesis using tokens_moved_sum [of m m'] assms(2) finite_subset by (auto simp: msum_def)
  next
    case (burned m a x n s)
    then have "msum id (m(a \<mapsto> x - n)) + x = msum id m + (x - n)"
      using msum_upd [of m id a "x - n"] assms(2) by simp
    moreover have "x \<le> msum id m" using msum_point [of m id a] burned assms(2) by simp
    moreover have "dom (m(a \<mapsto> x - n)) = dom m" using burned by auto
    ultimately show ?thesis using burned assms(2) by auto
  next
    case (registered m a s)
    then have "msum id (m(a \<mapsto> 0)) = msum id m"
      using msum_upd [of m id a 0] assms(2) by simp
    then show ?thesis using registered assms(2) dom_upd_card [of m a 0] by simp
  next
    case (closed m a x s)
    then have "msum id (m(a := None)) + x = msum id m"
      using msum_del [of m id a] assms(2) by simp
    moreover have "least * card (dom m) = least + least * card (dom (m(a := None)))"
      using dom_del_card [of m a x] closed assms(2) by (metis mult_Suc_right sound_ledger.simps)
    ultimately show ?thesis using closed assms(2) by auto
  qed
  then show "sound_ledger l'" and "snd l' \<le> snd l" and "reserve least l' + paid \<le> reserve least l + attached"
    by simp_all
qed

end
