(* ===== verification/TokenSamples.thy ===== *)
theory TokenSamples
  imports TokenStandard
begin

section \<open>A fungible token for the examples\<close>

text \<open>
  A concrete instance of the parameter \<open>ft_std\<close>, used by witnesses only, to show that the laws of
  \<open>TokenStandard\<close> can hold together: a ledger of balances with a minimum storage balance of 5.
\<close>

record ledger =
  entries :: "account_id \<rightharpoonup> nat"
  issued :: nat

definition ledger_register :: "account_id \<Rightarrow> ledger \<Rightarrow> ledger res" where
  "ledger_register a t = bindE (ensure (entries t a = None) ''The account is already registered'') (\<lambda>_.
     Inr (t\<lparr>entries := (entries t)(a \<mapsto> 0)\<rparr>))"

definition ledger_deposit :: "account_id \<Rightarrow> nat \<Rightarrow> ledger \<Rightarrow> ledger res" where
  "ledger_deposit a n t = bindE (expect (entries t a) ''The account is not registered'') (\<lambda>x.
     bindE (checked_add 128 x n) (\<lambda>y. bindE (checked_add 128 (issued t) n) (\<lambda>i.
     Inr (t\<lparr>entries := (entries t)(a \<mapsto> y), issued := i\<rparr>))))"

definition ledger_withdraw :: "account_id \<Rightarrow> nat \<Rightarrow> ledger \<Rightarrow> ledger res" where
  "ledger_withdraw a n t = bindE (expect (entries t a) ''The account is not registered'') (\<lambda>x.
     bindE (checked_sub x n) (\<lambda>y. bindE (checked_sub (issued t) n) (\<lambda>i.
     Inr (t\<lparr>entries := (entries t)(a \<mapsto> y), issued := i\<rparr>))))"

definition ledger_transfer :: "host \<Rightarrow> account_id \<Rightarrow> nat \<Rightarrow> ledger \<Rightarrow> ledger res" where
  "ledger_transfer e b n t = (let a = env_predecessor_account_id e in
     bindE (attached_one_atto e) (\<lambda>_. bindE (ensure (a \<noteq> b) ''Sender and receiver should be different'') (\<lambda>_.
     bindE (expect (entries t a) ''The account is not registered'') (\<lambda>x.
     bindE (expect (entries t b) ''The account is not registered'') (\<lambda>y. bindE (checked_sub x n) (\<lambda>z.
     Inr (t\<lparr>entries := (entries t)(a \<mapsto> z, b \<mapsto> y + n)\<rparr>)))))))"

definition ledger_storage_deposit ::
  "host \<Rightarrow> ledger \<Rightarrow> (ledger \<times> 'c promise list \<times> storage_balance) res" where
  "ledger_storage_deposit e t = (let a = env_predecessor_account_id e in
     if entries t a = None then
       bindE (ensure (5 \<le> env_attached_deposit e) ''The attached deposit is too small'') (\<lambda>_.
       Inr (t\<lparr>entries := (entries t)(a \<mapsto> 0)\<rparr>, [Promise a [Transfer (env_attached_deposit e - 5)]], (5, 0)))
     else Inr (t, [Promise a [Transfer (env_attached_deposit e)]], (5, 0)))"

definition ledger_unregister ::
  "host \<Rightarrow> ledger \<Rightarrow> (ledger \<times> 'c promise list \<times> (account_id \<times> nat) option) res" where
  "ledger_unregister e t = (let a = env_predecessor_account_id e in
     case entries t a of None \<Rightarrow> Inr (t, [], None)
     | Some x \<Rightarrow> Inr (t\<lparr>entries := (entries t)(a := None), issued := issued t - x\<rparr>,
         [Promise a [Transfer 5]], Some (a, x)))"

definition sample_std :: "(ledger, 'c) ft_std" where
  "sample_std = \<lparr>
     std_new = (\<lambda>_. \<lparr>entries = Map.empty, issued = 0\<rparr>),
     std_accounts = entries,
     std_total_supply = issued,
     std_balance_of = (\<lambda>t a. case entries t a of None \<Rightarrow> 0 | Some n \<Rightarrow> n),
     std_register_account = ledger_register,
     std_deposit = ledger_deposit,
     std_withdraw = ledger_withdraw,
     std_ft_transfer = (\<lambda>e b n memo t. ledger_transfer e b n t),
     std_ft_transfer_call = (\<lambda>e b n memo msg t. bindE (ledger_transfer e b n t) (\<lambda>t. Inr (t, Promised (Promise b [])))),
     std_resolve_transfer = (\<lambda>e a b n t. Inr (t, n, 0)),
     std_storage_deposit = (\<lambda>e who only t. ledger_storage_deposit e t),
     std_storage_withdraw = (\<lambda>e n t. bindE (attached_one_atto e) (\<lambda>_. Inr (t, [], (5, 0)))),
     std_storage_unregister = (\<lambda>e force t. ledger_unregister e t),
     std_storage_bounds = (\<lambda>_. (5, Some 5)),
     std_storage_balance_of = (\<lambda>t a. case entries t a of None \<Rightarrow> None | Some _ \<Rightarrow> Some (5, 0)) \<rparr>"

lemma sample_std_fields [simp]:
  "std_new sample_std p = \<lparr>entries = Map.empty, issued = 0\<rparr>"
  "std_accounts sample_std = entries"
  "std_total_supply sample_std = issued"
  "std_balance_of sample_std t a = (case entries t a of None \<Rightarrow> 0 | Some n \<Rightarrow> n)"
  "std_register_account sample_std = ledger_register"
  "std_deposit sample_std = ledger_deposit"
  "std_withdraw sample_std = ledger_withdraw"
  "std_storage_bounds sample_std t = (5, Some 5)"
  "std_ft_transfer sample_std e b n memo t = ledger_transfer e b n t"
  by (simp_all add: sample_std_def)

lemma sample_core_laws: "std_core_laws (sample_std :: (ledger, 'c) ft_std)"
  by (auto simp: std_core_laws_def std_ledger_def returns_def ledger_register_def ledger_deposit_def
      ledger_withdraw_def)

lemma ledger_transfer_change:
  assumes "ledger_transfer e b n t = Inr u"
  shows "tokens_moved (entries t) (entries u) \<and> issued u = issued t"
proof -
  let ?a = "env_predecessor_account_id e"
  from assms obtain x y where "?a \<noteq> b" "entries t ?a = Some x" "entries t b = Some y" "n \<le> x"
      "u = t\<lparr>entries := (entries t)(?a \<mapsto> x - n, b \<mapsto> y + n)\<rparr>"
    by (auto simp: ledger_transfer_def Let_def)
  then show ?thesis using tokens_movedI [of ?a b "entries t" x y n] by simp
qed

lemma sample_call_change:
  assumes "std_call (sample_std :: (ledger, 'c) ft_std) e t u paid"
  shows "ledger_change (env_attached_deposit e) 5 (entries t, issued t) (entries u, issued u) paid"
  using assms
proof (cases rule: std_call.cases)
  case (std_transfer b n memo)
  then show ?thesis using ledger_transfer_change [of e b n t u] by (auto intro: moved)
next
  case (std_transfer_call b n memo msg ans)
  then have "ledger_transfer e b n t = Inr u" "paid = 0" by (auto simp: sample_std_def)
  then show ?thesis using ledger_transfer_change [of e b n t u] by (auto intro: moved)
next
  case (std_resolve a b n used burned)
  then show ?thesis by (auto simp: sample_std_def tokens_moved_def intro: moved)
next
  case (std_storage_dep who only ps bal)
  let ?a = "env_predecessor_account_id e"
  show ?thesis
  proof (cases "entries t ?a = None")
    case True
    with std_storage_dep have "5 \<le> env_attached_deposit e" "u = t\<lparr>entries := (entries t)(?a \<mapsto> 0)\<rparr>"
        "paid = env_attached_deposit e - 5"
      by (auto simp: sample_std_def ledger_storage_deposit_def Let_def)
    then show ?thesis using registered [of "entries t" ?a paid 5 "env_attached_deposit e" "issued t"] True
      by simp
  next
    case False
    with std_storage_dep show ?thesis
      by (auto simp: sample_std_def ledger_storage_deposit_def tokens_moved_def Let_def intro: moved)
  qed
next
  case (std_storage_wd n ps bal)
  then show ?thesis by (auto simp: sample_std_def tokens_moved_def intro: moved)
next
  case (std_storage_unreg force ps r)
  let ?a = "env_predecessor_account_id e"
  show ?thesis
  proof (cases "entries t ?a")
    case (Some x)
    with std_storage_unreg have "u = t\<lparr>entries := (entries t)(?a := None), issued := issued t - x\<rparr>" "paid = 5"
      by (auto simp: sample_std_def ledger_unregister_def Let_def)
    then show ?thesis using closed [of "entries t" ?a x paid "env_attached_deposit e" 5 "issued t"] Some
      by simp
  next
    case None
    with std_storage_unreg show ?thesis
      by (auto simp: sample_std_def ledger_unregister_def tokens_moved_def Let_def intro: moved)
  qed
qed

lemma sample_std_laws: "std_laws (sample_std :: (ledger, 'c) ft_std)"
  using sample_core_laws sample_call_change
  by (auto simp: std_laws_def std_ledger_def)

end
