(* ===== verification/WrappedUnc.thy ===== *)
theory WrappedUnc
  imports TokenSamples
begin

section \<open>Wrapped UNC (\<open>w-unc/src/{lib,w_unc,legacy_storage}.rs\<close>)\<close>

text \<open>
  The contract sells and buys back tokens for the native UNC at a rate of one to one. Its state is a
  \<open>FungibleToken\<close> of the standard (\<open>TokenStandard\<close>); \<open>unc_deposit\<close> and \<open>unc_withdraw\<close> are its own, the
  other methods delegate. The suffix \<open>_wunc\<close> marks methods that the token contract has as well.
  A method that creates promises or answers with a value returns it with the new state. The \<open>FtMint\<close>
  event is a log line.
\<close>

subsection \<open>State, constructor, metadata (\<open>lib.rs\<close>)\<close>

record 't wunc =
  wunc_token :: 't

definition DATA_IMAGE_SVG_WUNC_ICON :: string where
  "DATA_IMAGE_SVG_WUNC_ICON =
     ''data:image/svg+xml,%3Csvg xmlns='' @ sq @ ''http://www.w3.org/2000/svg'' @ sq @
     '' viewBox='' @ sq @ ''0 0 288 288'' @ sq @ ''%3E%3Cg id='' @ sq @ ''l'' @ sq @
     '' data-name='' @ sq @ ''l'' @ sq @ ''%3E%3Cpath d='' @ sq @
     ''M187.58,79.81l-30.1,44.69a3.2,3.2,0,0,0,4.75,4.2L191.86,103a1.2,1.2,0,0,1,2,.91v80.4'' @
     ''6a1.2,1.2,0,0,1-2.12.77L102.18,77.93A15.35,15.35,0,0,0,90.47,72.5H87.34A15.34,15.34,'' @
     ''0,0,0,72,87.84V201.16A15.34,15.34,0,0,0,87.34,216.5h0a15.35,15.35,0,0,0,13.08-7.31l3'' @
     ''0.1-44.69a3.2,3.2,0,0,0-4.75-4.2L96.14,186a1.2,1.2,0,0,1-2-.91V104.61a1.2,1.2,0,0,1,'' @
     ''2.12-.77l89.55,107.23a15.35,15.35,0,0,0,11.71,5.43h3.13A15.34,15.34,0,0,0,216,201.16'' @
     ''V87.84A15.34,15.34,0,0,0,200.66,72.5h0A15.35,15.35,0,0,0,187.58,79.81Z'' @ sq @
     ''/%3E%3C/g%3E%3C/svg%3E''"

definition new_wunc :: "('t, 'c) ft_std \<Rightarrow> host \<Rightarrow> 't wunc res" where
  "new_wunc T e = bindE (init_call e) (\<lambda>_. Inr \<lparr>wunc_token = std_new T [97]\<rparr>)"

definition ft_metadata_wunc :: "string \<Rightarrow> ft_metadata" where
  "ft_metadata_wunc FT_METADATA_SPEC = \<lparr>
     md_spec = FT_METADATA_SPEC,
     md_name = ''Wrapped UNC fungible token'',
     md_symbol = ''wUNC'',
     md_icon = Some DATA_IMAGE_SVG_WUNC_ICON,
     md_reference = None,
     md_reference_hash = None,
     md_decimals = 24\<rparr>"

subsection \<open>Delegated calls (\<open>lib.rs\<close>, \<open>legacy_storage.rs\<close>)\<close>

definition ft_transfer_wunc ::
  "('t, 'c) ft_std \<Rightarrow> host \<Rightarrow> account_id \<Rightarrow> nat \<Rightarrow> string option \<Rightarrow> 't wunc \<Rightarrow> 't wunc res" where
  "ft_transfer_wunc T e receiver_id amount memo w =
     bindE (std_ft_transfer T e receiver_id amount memo (wunc_token w)) (\<lambda>t.
     Inr (w\<lparr>wunc_token := t\<rparr>))"

definition ft_transfer_call_wunc ::
  "('t, 'c) ft_std \<Rightarrow> host \<Rightarrow> account_id \<Rightarrow> nat \<Rightarrow> string option \<Rightarrow> string \<Rightarrow> 't wunc
    \<Rightarrow> ('t wunc \<times> ('c, nat) answer) res" where
  "ft_transfer_call_wunc T e receiver_id amount memo msg w =
     bindE (std_ft_transfer_call T e receiver_id amount memo msg (wunc_token w)) (\<lambda>(t, ans).
     Inr (w\<lparr>wunc_token := t\<rparr>, ans))"

definition ft_total_supply_wunc :: "('t, 'c) ft_std \<Rightarrow> 't wunc \<Rightarrow> nat" where
  "ft_total_supply_wunc T w = std_total_supply T (wunc_token w)"

definition ft_balance_of_wunc :: "('t, 'c) ft_std \<Rightarrow> account_id \<Rightarrow> 't wunc \<Rightarrow> nat" where
  "ft_balance_of_wunc T account_id w = std_balance_of T (wunc_token w) account_id"

definition ft_resolve_transfer_wunc ::
  "('t, 'c) ft_std \<Rightarrow> host \<Rightarrow> account_id \<Rightarrow> account_id \<Rightarrow> nat \<Rightarrow> 't wunc \<Rightarrow> ('t wunc \<times> nat) res" where
  "ft_resolve_transfer_wunc T e sender_id receiver_id amount w =
     bindE (private_call e) (\<lambda>_.
     bindE (std_resolve_transfer T e sender_id receiver_id amount (wunc_token w)) (\<lambda>(t, used_amount, burned_amount).
     Inr (w\<lparr>wunc_token := t\<rparr>, used_amount)))"

definition storage_deposit_wunc ::
  "('t, 'c) ft_std \<Rightarrow> host \<Rightarrow> account_id option \<Rightarrow> bool option \<Rightarrow> 't wunc
    \<Rightarrow> ('t wunc \<times> 'c promise list \<times> storage_balance) res" where
  "storage_deposit_wunc T e account_id registration_only w =
     bindE (std_storage_deposit T e account_id registration_only (wunc_token w)) (\<lambda>(t, ps, b).
     Inr (w\<lparr>wunc_token := t\<rparr>, ps, b))"

definition storage_withdraw_wunc ::
  "('t, 'c) ft_std \<Rightarrow> host \<Rightarrow> nat option \<Rightarrow> 't wunc \<Rightarrow> ('t wunc \<times> 'c promise list \<times> storage_balance) res" where
  "storage_withdraw_wunc T e amount w =
     bindE (std_storage_withdraw T e amount (wunc_token w)) (\<lambda>(t, ps, b).
     Inr (w\<lparr>wunc_token := t\<rparr>, ps, b))"

definition storage_unregister_wunc ::
  "('t, 'c) ft_std \<Rightarrow> host \<Rightarrow> bool option \<Rightarrow> 't wunc \<Rightarrow> ('t wunc \<times> 'c promise list \<times> bool) res" where
  "storage_unregister_wunc T e force w =
     bindE (std_storage_unregister T e force (wunc_token w)) (\<lambda>(t, ps, r).
     Inr (w\<lparr>wunc_token := t\<rparr>, ps, case r of Some (account_id, bal) \<Rightarrow> True | None \<Rightarrow> False))"

definition storage_balance_bounds_wunc :: "('t, 'c) ft_std \<Rightarrow> 't wunc \<Rightarrow> nat \<times> nat option" where
  "storage_balance_bounds_wunc T w = std_storage_bounds T (wunc_token w)"

definition storage_balance_of_wunc :: "('t, 'c) ft_std \<Rightarrow> account_id \<Rightarrow> 't wunc \<Rightarrow> storage_balance option" where
  "storage_balance_of_wunc T account_id w = std_storage_balance_of T (wunc_token w) account_id"

subsection \<open>Wrapping and unwrapping (\<open>w_unc.rs\<close>)\<close>

definition unc_deposit :: "('t, 'c) ft_std \<Rightarrow> host \<Rightarrow> 't wunc \<Rightarrow> 't wunc res" where
  "unc_deposit T e w =
     (let supply = env_attached_deposit e in
      bindE (ensure (0 < supply) ''Requires positive attached deposit'') (\<lambda>_.
      let owner_id = env_predecessor_account_id e in
      bindE (if std_accounts T (wunc_token w) owner_id = None then
               bindE (ensure (fst (std_storage_bounds T (wunc_token w)) \<le> supply) ''ERR_DEPOSIT_TOO_SMALL'') (\<lambda>_.
               bindE (std_register_account T owner_id (wunc_token w)) (\<lambda>t.
               Inr (t, case checked_sub supply (fst (std_storage_bounds T t)) of Inr n \<Rightarrow> n | Inl _ \<Rightarrow> 0)))
             else Inr (wunc_token w, supply)) (\<lambda>(t, supply).
      bindE (std_deposit T owner_id supply t) (\<lambda>t.
      Inr (w\<lparr>wunc_token := t\<rparr>)))))"

definition unc_withdraw ::
  "('t, 'c) ft_std \<Rightarrow> host \<Rightarrow> nat \<Rightarrow> 't wunc \<Rightarrow> ('t wunc \<times> 'c promise list) res" where
  "unc_withdraw T e amount w =
     bindE (attached_one_atto e) (\<lambda>_.
     let account_id = env_predecessor_account_id e in
     bindE (std_withdraw T account_id amount (wunc_token w)) (\<lambda>t.
     bindE (checked_add 128 amount 1) (\<lambda>n.
     Inr (w\<lparr>wunc_token := t\<rparr>, [Promise account_id [Transfer n]]))))"

subsection \<open>What wrapping and unwrapping do\<close>

text \<open>The tokens that a deposit mints: the deposit, less the storage of an account that is registered with it.\<close>

definition minted :: "('t, 'c) ft_std \<Rightarrow> host \<Rightarrow> 't wunc \<Rightarrow> nat" where
  "minted T e w = (if std_accounts T (wunc_token w) (env_predecessor_account_id e) = None
     then env_attached_deposit e - std_min T (wunc_token w) else env_attached_deposit e)"

definition wunc_ledger :: "('t, 'c) ft_std \<Rightarrow> 't wunc \<Rightarrow> (account_id \<rightharpoonup> nat) \<times> nat" where
  "wunc_ledger T w = std_ledger T (wunc_token w)"

lemma unc_depositE:
  assumes laws: "std_core_laws T" and run: "unc_deposit T e w = Inr w'"
  obtains "0 < env_attached_deposit e"
    and "std_accounts T (wunc_token w) (env_predecessor_account_id e) = None
      \<longrightarrow> std_min T (wunc_token w) \<le> env_attached_deposit e"
    and "wunc_ledger T w' = ((std_accounts T (wunc_token w))(env_predecessor_account_id e \<mapsto>
        opt_measure id (std_accounts T (wunc_token w) (env_predecessor_account_id e)) + minted T e w),
      std_total_supply T (wunc_token w) + minted T e w)"
    and "std_min T (wunc_token w') = std_min T (wunc_token w)"
proof -
  let ?a = "env_predecessor_account_id e" and ?d = "env_attached_deposit e" and ?t = "wunc_token w"
  have d: "0 < ?d" using run by (simp add: unc_deposit_def Let_def)
  show thesis
  proof (cases "std_accounts T ?t ?a")
    case None
    with run obtain t u where min: "std_min T ?t \<le> ?d"
      and reg: "std_register_account T ?a ?t = Inr t"
      and dep: "std_deposit T ?a (case checked_sub ?d (std_min T t) of Inr n \<Rightarrow> n | Inl _ \<Rightarrow> 0) t = Inr u"
      and w': "w' = w\<lparr>wunc_token := u\<rparr>"
      by (auto simp: unc_deposit_def Let_def)
    from std_registerE [OF laws reg] have t: "std_accounts T t = (std_accounts T ?t)(?a \<mapsto> 0)"
      "std_total_supply T t = std_total_supply T ?t" "std_min T t = std_min T ?t" by blast+
    have "(case checked_sub ?d (std_min T t) of Inr n \<Rightarrow> n | Inl _ \<Rightarrow> 0) = minted T e w"
      using min None by (simp add: checked_sub_def minted_def t)
    with dep have "std_deposit T ?a (minted T e w) t = Inr u" by simp
    from std_depositE [OF laws this] show thesis
      using that d min t None by (auto simp: wunc_ledger_def std_ledger_def w')
  next
    case (Some x)
    with run obtain u where dep: "std_deposit T ?a ?d ?t = Inr u" and w': "w' = w\<lparr>wunc_token := u\<rparr>"
      by (auto simp: unc_deposit_def Let_def)
    from std_depositE [OF laws dep] show thesis
      using that d Some by (auto simp: wunc_ledger_def std_ledger_def w' minted_def)
  qed
qed

lemma unc_withdrawE:
  assumes laws: "std_core_laws T" and run: "unc_withdraw T e n w = Inr (w', ps)"
  obtains x where "env_attached_deposit e = 1" and "fits 128 (n + 1)"
    and "std_accounts T (wunc_token w) (env_predecessor_account_id e) = Some x" and "n \<le> x"
    and "n \<le> std_total_supply T (wunc_token w)"
    and "wunc_ledger T w' = ((std_accounts T (wunc_token w))(env_predecessor_account_id e \<mapsto> x - n),
      std_total_supply T (wunc_token w) - n)"
    and "std_min T (wunc_token w') = std_min T (wunc_token w)"
    and "ps = [Promise (env_predecessor_account_id e) [Transfer (n + 1)]]"
proof -
  let ?a = "env_predecessor_account_id e"
  from run obtain u where one: "env_attached_deposit e = 1" and fit: "fits 128 (n + 1)"
    and wd: "std_withdraw T ?a n (wunc_token w) = Inr u" and w': "w' = w\<lparr>wunc_token := u\<rparr>"
    and ps: "ps = [Promise ?a [Transfer (n + 1)]]"
    by (auto simp: unc_withdraw_def Let_def)
  from std_withdrawE [OF laws wd] show thesis
    using that one fit ps by (auto simp: wunc_ledger_def std_ledger_def w')
qed

text \<open>A withdrawal succeeds exactly under four conditions.\<close>

lemma unc_withdraw_returns:
  assumes "std_core_laws T"
  shows "returns (unc_withdraw T e n w) \<longleftrightarrow> env_attached_deposit e = 1 \<and> fits 128 (n + 1)
    \<and> (\<exists>x. std_accounts T (wunc_token w) (env_predecessor_account_id e) = Some x \<and> n \<le> x)
    \<and> n \<le> std_total_supply T (wunc_token w)"
  using std_withdraw_returns [OF assms, of "env_predecessor_account_id e" n "wunc_token w"]
  by (auto simp: unc_withdraw_def Let_def returns_def)

subsection \<open>Histories\<close>

text \<open>One accepted call of the contract: the host, the states before and after, and the tokens it sends away.\<close>

inductive wunc_step :: "('t, 'c) ft_std \<Rightarrow> host \<Rightarrow> 't wunc \<Rightarrow> 't wunc \<Rightarrow> nat \<Rightarrow> bool" for T e where
  wunc_transfer: "ft_transfer_wunc T e receiver_id amount memo w = Inr w' \<Longrightarrow> wunc_step T e w w' 0"
| wunc_transfer_call: "ft_transfer_call_wunc T e receiver_id amount memo msg w = Inr (w', ans)
    \<Longrightarrow> wunc_step T e w w' (answer_tokens ans)"
| wunc_resolve: "ft_resolve_transfer_wunc T e sender_id receiver_id amount w = Inr (w', used)
    \<Longrightarrow> wunc_step T e w w' 0"
| wunc_storage_dep: "storage_deposit_wunc T e account_id only w = Inr (w', ps, b)
    \<Longrightarrow> wunc_step T e w w' (tokens_of ps)"
| wunc_storage_wd: "storage_withdraw_wunc T e amount_opt w = Inr (w', ps, b)
    \<Longrightarrow> wunc_step T e w w' (tokens_of ps)"
| wunc_storage_unreg: "storage_unregister_wunc T e force w = Inr (w', ps, r)
    \<Longrightarrow> wunc_step T e w w' (tokens_of ps)"
| wunc_wrap: "unc_deposit T e w = Inr w' \<Longrightarrow> wunc_step T e w w' 0"
| wunc_unwrap: "unc_withdraw T e amount w = Inr (w', ps) \<Longrightarrow> wunc_step T e w w' (tokens_of ps)"

text \<open>Every call is a delegated one, a deposit or a withdrawal.\<close>

lemma wunc_step_cases:
  assumes "wunc_step T e w w' paid"
  obtains (delegated) "std_call T e (wunc_token w) (wunc_token w') paid"
  | (wrapped) "unc_deposit T e w = Inr w'" "paid = 0"
  | (unwrapped) n ps where "unc_withdraw T e n w = Inr (w', ps)" "paid = tokens_of ps"
  using assms
proof (cases rule: wunc_step.cases)
  case (wunc_wrap)
  then show thesis by (intro wrapped)
next
  case (wunc_unwrap n ps)
  then show thesis by (intro unwrapped)
qed (auto intro!: delegated simp: ft_transfer_wunc_def ft_transfer_call_wunc_def ft_resolve_transfer_wunc_def
      storage_deposit_wunc_def storage_withdraw_wunc_def storage_unregister_wunc_def
      split: prod.splits intro: std_call.intros)

text \<open>A call keeps the ledger sound and is paid for by the caller.\<close>

lemma wunc_step_reserve:
  assumes laws: "std_laws T" and step: "wunc_step T e w w' paid" and ok: "sound_ledger (wunc_ledger T w)"
  shows "sound_ledger (wunc_ledger T w') \<and> std_min T (wunc_token w') = std_min T (wunc_token w)
    \<and> reserve (std_min T (wunc_token w)) (wunc_ledger T w') + paid
       \<le> reserve (std_min T (wunc_token w)) (wunc_ledger T w) + env_attached_deposit e"
proof -
  let ?a = "env_predecessor_account_id e" and ?m = "std_min T (wunc_token w)"
  let ?acc = "std_accounts T (wunc_token w)" and ?s = "std_total_supply T (wunc_token w)"
  have core: "std_core_laws T" using laws by (simp add: std_laws_def)
  have l: "wunc_ledger T w = (?acc, ?s)" by (simp add: wunc_ledger_def std_ledger_def)
  have fin: "finite (dom ?acc)" and sum: "msum id ?acc = ?s" using ok by (simp_all add: l)
  show ?thesis
    using step
  proof (cases rule: wunc_step_cases)
    case delegated
    with laws have "ledger_change (env_attached_deposit e) ?m (wunc_ledger T w) (wunc_ledger T w') paid"
      and "std_min T (wunc_token w') = ?m"
      unfolding std_laws_def wunc_ledger_def by blast+
    then show ?thesis using ledger_change_sound [OF _ ok] by blast
  next
    case wrapped
    let ?x = "opt_measure id (?acc ?a)" and ?n = "minted T e w"
    from unc_depositE [OF core wrapped(1)]
    have enough: "?acc ?a = None \<longrightarrow> ?m \<le> env_attached_deposit e"
      and l': "wunc_ledger T w' = (?acc(?a \<mapsto> ?x + ?n), ?s + ?n)" and m: "std_min T (wunc_token w') = ?m"
      by blast+
    have "msum id (?acc(?a \<mapsto> ?x + ?n)) = ?s + ?n"
      using msum_upd [OF fin, of id ?a "?x + ?n"] sum by simp
    moreover have "?n + ?m * card (dom (?acc(?a \<mapsto> ?x + ?n))) = env_attached_deposit e + ?m * card (dom ?acc)"
    proof (cases "?acc ?a")
      case None
      then show ?thesis using enough dom_upd_card [OF fin None, of "?x + ?n"] by (simp add: minted_def)
    next
      case (Some y)
      then have "dom (?acc(?a \<mapsto> ?x + ?n)) = dom ?acc" by auto
      with Some show ?thesis by (simp add: minted_def)
    qed
    ultimately show ?thesis using fin m by (simp add: l l' wrapped(2))
  next
    case (unwrapped n ps)
    from unc_withdrawE [OF core unwrapped(1)] obtain x where x: "?acc ?a = Some x" "n \<le> x" "n \<le> ?s"
      and l': "wunc_ledger T w' = (?acc(?a \<mapsto> x - n), ?s - n)" and m: "std_min T (wunc_token w') = ?m"
      and one: "env_attached_deposit e = 1" and ps: "ps = [Promise ?a [Transfer (n + 1)]]"
      by blast
    have "msum id (?acc(?a \<mapsto> x - n)) = ?s - n"
      using msum_upd [OF fin, of id ?a "x - n"] sum x by simp
    moreover have "dom (?acc(?a \<mapsto> x - n)) = dom ?acc" using x by auto
    ultimately show ?thesis using fin m x one by (simp add: l l' unwrapped(2) ps)
  qed
qed

text \<open>
  The contract together with its vault, the tokens it holds because of the calls so far: a call
  adds its deposit and takes what it sends away, which must be there.
\<close>

inductive vault_step :: "('t, 'c) ft_std \<Rightarrow> 't wunc \<times> nat \<Rightarrow> 't wunc \<times> nat \<Rightarrow> bool" for T where
  "wunc_step T e w w' paid \<Longrightarrow> paid \<le> v + env_attached_deposit e
    \<Longrightarrow> vault_step T (w, v) (w', v + env_attached_deposit e - paid)"

inductive_cases vault_stepE: "vault_step T x y"

definition vault_init :: "('t, 'c) ft_std \<Rightarrow> 't wunc \<times> nat \<Rightarrow> bool" where
  "vault_init T x \<longleftrightarrow> (\<exists>e. new_wunc T e = Inr (fst x)) \<and> snd x = 0"

definition vault_inv :: "('t, 'c) ft_std \<Rightarrow> 't wunc \<times> nat \<Rightarrow> bool" where
  "vault_inv T x \<longleftrightarrow> sound_ledger (wunc_ledger T (fst x))
     \<and> reserve (std_min T (wunc_token (fst x))) (wunc_ledger T (fst x)) \<le> snd x"

lemma vault_inv_step: "std_laws T \<Longrightarrow> vault_inv T x \<Longrightarrow> vault_step T x y \<Longrightarrow> vault_inv T y"
  by (erule vault_stepE) (auto simp: vault_inv_def dest: wunc_step_reserve)

lemma vault_inv_init:
  assumes "std_laws T" and "vault_init T x"
  shows "vault_inv T x"
proof -
  have "fst x = \<lparr>wunc_token = std_new T [97]\<rparr>"
    using assms(2) by (auto simp: vault_init_def new_wunc_def)
  moreover have "std_core_laws T" using assms(1) by (simp add: std_laws_def)
  ultimately show ?thesis
    by (simp add: vault_inv_def wunc_ledger_def std_ledger_def std_new_ledger)
qed

interpretation wunc_vault: inductive_invariant "vault_step T" "\<lambda>x. std_laws T \<longrightarrow> vault_inv T x" "vault_init T"
  for T :: "('t, 'c) ft_std"
  by unfold_locales (auto intro: vault_inv_step vault_inv_init)

subsection \<open>Properties\<close>

text \<open>
  C20. Wrapped UNC is backed: whatever is called, the balances of all accounts add up to the total
  supply, and the vault holds at least one atto for each token and the minimum storage
  balance for each registered account. So each holder can always withdraw any part of
  its balance: \<open>unc_withdraw\<close> with one atto attached returns, sends the amount and the atto to the
  caller, and the vault can pay it. (The hypothesis: the token standard keeps its documented laws.)
\<close>

theorem wunc_is_backed:
  assumes laws: "std_laws T" and "reach (vault_init T) (vault_step T) (w, v)"
  shows "msum id (std_accounts T (wunc_token w)) = ft_total_supply_wunc T w
    \<and> ft_total_supply_wunc T w + fst (storage_balance_bounds_wunc T w)
        * card (dom (std_accounts T (wunc_token w))) \<le> v
    \<and> (env_attached_deposit e = 1 \<and> fits 128 (n + 1)
        \<and> std_accounts T (wunc_token w) (env_predecessor_account_id e) = Some x \<and> n \<le> x
       \<longrightarrow> (\<exists>w'. unc_withdraw T e n w = Inr (w', [Promise (env_predecessor_account_id e) [Transfer (n + 1)]])
             \<and> vault_step T (w, v) (w', v - n)))"
proof -
  let ?acc = "std_accounts T (wunc_token w)" and ?a = "env_predecessor_account_id e"
  have core: "std_core_laws T" using laws by (simp add: std_laws_def)
  have "vault_inv T (w, v)" using wunc_vault.reachable_inv [OF assms(2)] laws by blast
  then have fin: "finite (dom ?acc)" and sum: "msum id ?acc = std_total_supply T (wunc_token w)"
    and backed: "std_total_supply T (wunc_token w) + std_min T (wunc_token w) * card (dom ?acc) \<le> v"
    by (simp_all add: vault_inv_def wunc_ledger_def std_ledger_def)
  have "\<exists>w'. unc_withdraw T e n w = Inr (w', [Promise ?a [Transfer (n + 1)]]) \<and> vault_step T (w, v) (w', v - n)"
    if one: "env_attached_deposit e = 1" and fit: "fits 128 (n + 1)" and x: "?acc ?a = Some x" "n \<le> x"
  proof -
    have le: "n \<le> std_total_supply T (wunc_token w)" using msum_point [OF fin, of id ?a] x sum by simp
    then have "returns (unc_withdraw T e n w)"
      using one fit x by (subst unc_withdraw_returns [OF core]) blast
    then obtain w' ps where run: "unc_withdraw T e n w = Inr (w', ps)" unfolding returns_def by auto
    have ps: "ps = [Promise ?a [Transfer (n + 1)]]" by (rule unc_withdrawE [OF core run])
    have "vault_step T (w, v) (w', v + env_attached_deposit e - tokens_of ps)"
      using le backed one by (intro vault_step.intros wunc_unwrap [OF run]) (simp add: ps)
    with run show ?thesis by (auto simp: ps one)
  qed
  then show ?thesis using sum backed by (auto simp: ft_total_supply_wunc_def storage_balance_bounds_wunc_def)
qed

text \<open>
  C21. Wrapping and unwrapping are inverse: after an accepted \<open>unc_deposit\<close> the caller has exactly
  \<open>minted\<close> more tokens, the attached deposit less the storage of an account that was not yet
  registered, and nobody else's balance changes; the caller can withdraw exactly this amount
  again, whatever it had before, which pays it out and restores the balances
  and the supply. (At most \<open>2^128-2\<close> tokens can be withdrawn at once.)
\<close>

theorem unwrap_undoes_wrap:
  assumes "std_core_laws T" and "unc_deposit T e w = Inr w'"
    and "env_predecessor_account_id e' = env_predecessor_account_id e" and "env_attached_deposit e' = 1"
    and "fits 128 (minted T e w + 1)"
  shows "ft_balance_of_wunc T a w' = ft_balance_of_wunc T a w
      + (if a = env_predecessor_account_id e then minted T e w else 0)
    \<and> ft_total_supply_wunc T w' = ft_total_supply_wunc T w + minted T e w
    \<and> (\<exists>w''. unc_withdraw T e' (minted T e w) w'
            = Inr (w'', [Promise (env_predecessor_account_id e) [Transfer (minted T e w + 1)]])
          \<and> ft_balance_of_wunc T a w'' = ft_balance_of_wunc T a w
          \<and> ft_total_supply_wunc T w'' = ft_total_supply_wunc T w)"
proof -
  let ?a = "env_predecessor_account_id e" and ?n = "minted T e w"
  let ?acc = "std_accounts T (wunc_token w)"
  have bal: "std_balance_of T t b = opt_measure id (std_accounts T t b)" for t b
    using assms(1) by (simp add: std_core_laws_def opt_measure_def split: option.splits)
  have "wunc_ledger T w' = (?acc(?a \<mapsto> opt_measure id (?acc ?a) + ?n), std_total_supply T (wunc_token w) + ?n)"
    by (rule unc_depositE [OF assms(1,2)])
  then have w': "std_accounts T (wunc_token w') = ?acc(?a \<mapsto> opt_measure id (?acc ?a) + ?n)"
    "std_total_supply T (wunc_token w') = std_total_supply T (wunc_token w) + ?n"
    by (simp_all add: wunc_ledger_def std_ledger_def)
  have "returns (unc_withdraw T e' ?n w')"
    using assms(4,5) by (simp add: unc_withdraw_returns [OF assms(1)] w' assms(3))
  then obtain w'' ps where run: "unc_withdraw T e' ?n w' = Inr (w'', ps)" unfolding returns_def by auto
  from unc_withdrawE [OF assms(1) run] obtain x where x: "std_accounts T (wunc_token w') ?a = Some x"
    and l'': "wunc_ledger T w'' = ((std_accounts T (wunc_token w'))(?a \<mapsto> x - ?n), std_total_supply T (wunc_token w') - ?n)"
    and ps: "ps = [Promise ?a [Transfer (?n + 1)]]"
    by (auto simp: assms(3))
  then have w'': "std_accounts T (wunc_token w'') = ?acc(?a \<mapsto> opt_measure id (?acc ?a))"
    "std_total_supply T (wunc_token w'') = std_total_supply T (wunc_token w)"
    by (auto simp: w' wunc_ledger_def std_ledger_def)
  with run ps show ?thesis
    by (auto simp: ft_balance_of_wunc_def ft_total_supply_wunc_def bal w' w'')
qed

subsection \<open>An example\<close>

text \<open>Alice wraps 12 atto: 5 pay for her storage, 7 are minted. Then she unwraps them.\<close>

abbreviation sample_T :: "(ledger, unit) ft_std" where "sample_T \<equiv> sample_std"

definition wrap_host :: "nat \<Rightarrow> host" where
  "wrap_host d = sample_host\<lparr>env_attached_deposit := d\<rparr>"

definition sample_wunc :: "ledger wunc" where
  "sample_wunc = \<lparr>wunc_token = \<lparr>entries = [''alice'' \<mapsto> 7], issued = 7\<rparr>\<rparr>"

lemma sample_wrap:
  "unc_deposit sample_T (wrap_host 12) \<lparr>wunc_token = std_new sample_T [97]\<rparr> = Inr sample_wunc"
  by (simp add: unc_deposit_def wrap_host_def sample_wunc_def ledger_register_def ledger_deposit_def
      checked_sub_def fits_def Let_def)

lemma sample_wunc_reached: "reach (vault_init sample_T) (vault_step sample_T) (sample_wunc, 12)"
proof (rule reach_step)
  let ?w = "\<lparr>wunc_token = std_new sample_T [97]\<rparr>"
  have "new_wunc sample_T sample_host = Inr ?w" by (simp add: new_wunc_def init_call_def)
  then show "reach (vault_init sample_T) (vault_step sample_T) (?w, 0)"
    by (intro reach_init) (auto simp: vault_init_def)
  have "vault_step sample_T (?w, 0) (sample_wunc, 0 + env_attached_deposit (wrap_host 12) - 0)"
    by (rule vault_step.intros [OF wunc_wrap [OF sample_wrap]]) simp
  then show "vault_step sample_T (?w, 0) (sample_wunc, 12)" by (simp add: wrap_host_def)
qed

theorem wunc_is_backed_witness:
  "\<exists>w'. unc_withdraw sample_T (wrap_host 1) 7 sample_wunc = Inr (w', [Promise ''alice'' [Transfer 8]])
     \<and> vault_step sample_T (sample_wunc, 12) (w', 5)"
  using wunc_is_backed [OF sample_std_laws sample_wunc_reached, of "wrap_host 1" 7 7]
  by (simp add: wrap_host_def sample_wunc_def fits_def)

theorem unwrap_undoes_wrap_witness:
  "\<exists>w. unc_withdraw sample_T (wrap_host 1) 7 sample_wunc = Inr (w, [Promise ''alice'' [Transfer 8]])
     \<and> ft_total_supply_wunc sample_T w = 0"
proof -
  have "minted sample_T (wrap_host 12) \<lparr>wunc_token = std_new sample_T [97]\<rparr> = 7"
    by (simp add: minted_def wrap_host_def)
  then show ?thesis
    using unwrap_undoes_wrap [OF sample_core_laws sample_wrap, of "wrap_host 1" "''alice''"]
    by (simp add: wrap_host_def fits_def ft_total_supply_wunc_def) blast
qed

end
