(* ===== verification/FungibleTokenContract.thy ===== *)
theory FungibleTokenContract
  imports TokenSamples
begin

section \<open>The fungible token contract (\<open>fungible-token/ft/src/lib.rs\<close>)\<close>

text \<open>
  A token with a fixed supply that is minted to one owner by \<open>new\<close>, and with metadata. Everything else is
  delegated to the \<open>FungibleToken\<close> of the standard (\<open>TokenStandard\<close>). The suffix \<open>_ft\<close> marks
  methods that other contracts have as well. \<open>FT_METADATA_SPEC\<close>, \<open>assert_valid\<close> of the metadata and the
  serialisation of the storage keys come from crates and are arguments; a \<open>LazyOption\<close> is
  an option.
\<close>

subsection \<open>State and constructors\<close>

datatype ft_storage_key = FungibleTokenKey | MetadataKey

record 't ft_contract =
  ft_token :: 't
  ft_metadata_cell :: "ft_metadata option"

definition DATA_IMAGE_SVG_UNC_ICON :: string where
  "DATA_IMAGE_SVG_UNC_ICON =
     ''data:image/svg+xml,%3Csvg xmlns='' @ sq @ ''http://www.w3.org/2000/svg'' @ sq @
     '' viewBox='' @ sq @ ''0 0 288 288'' @ sq @ ''%3E%3Cg id='' @ sq @ ''l'' @ sq @
     '' data-name='' @ sq @ ''l'' @ sq @ ''%3E%3Cpath d='' @ sq @
     ''M144,0a144,144,0,1,0,144,144A144,144,0,0,0,144,0ZM72,144a72,72,0,1,1,72,72A72,72,0,0'' @
     '',1,72,144Z'' @ sq @ ''/%3E%3C/g%3E%3C/svg%3E''"

definition new_ft ::
  "('t, 'c) ft_std \<Rightarrow> (ft_storage_key \<Rightarrow> bytes) \<Rightarrow> (ft_metadata \<Rightarrow> unit res) \<Rightarrow> host
    \<Rightarrow> account_id \<Rightarrow> nat \<Rightarrow> ft_metadata \<Rightarrow> 't ft_contract res" where
  "new_ft T ser assert_valid e owner_id total_supply metadata =
     bindE (ensure (\<not> env_state_exists e) ''Already initialized'') (\<lambda>_.
     bindE (assert_valid metadata) (\<lambda>_.
     let this = \<lparr>ft_token = std_new T (ser FungibleTokenKey), ft_metadata_cell = Some metadata\<rparr> in
     bindE (std_register_account T owner_id (ft_token this)) (\<lambda>t.
     bindE (std_deposit T owner_id total_supply t) (\<lambda>t.
     Inr (this\<lparr>ft_token := t\<rparr>)))))"

definition new_default_meta_ft ::
  "string \<Rightarrow> ('t, 'c) ft_std \<Rightarrow> (ft_storage_key \<Rightarrow> bytes) \<Rightarrow> (ft_metadata \<Rightarrow> unit res) \<Rightarrow> host
    \<Rightarrow> account_id \<Rightarrow> nat \<Rightarrow> 't ft_contract res" where
  "new_default_meta_ft FT_METADATA_SPEC T ser assert_valid e owner_id total_supply =
     new_ft T ser assert_valid e owner_id total_supply \<lparr>
       md_spec = FT_METADATA_SPEC,
       md_name = ''Example Utility fungible token'',
       md_symbol = ''EXAMPLE'',
       md_icon = Some DATA_IMAGE_SVG_UNC_ICON,
       md_reference = None,
       md_reference_hash = None,
       md_decimals = 24\<rparr>"

subsection \<open>Delegated calls\<close>

definition ft_transfer_ft ::
  "('t, 'c) ft_std \<Rightarrow> host \<Rightarrow> account_id \<Rightarrow> nat \<Rightarrow> string option \<Rightarrow> 't ft_contract \<Rightarrow> 't ft_contract res" where
  "ft_transfer_ft T e receiver_id amount memo c =
     bindE (std_ft_transfer T e receiver_id amount memo (ft_token c)) (\<lambda>t.
     Inr (c\<lparr>ft_token := t\<rparr>))"

definition ft_transfer_call_ft ::
  "('t, 'c) ft_std \<Rightarrow> host \<Rightarrow> account_id \<Rightarrow> nat \<Rightarrow> string option \<Rightarrow> string \<Rightarrow> 't ft_contract
    \<Rightarrow> ('t ft_contract \<times> ('c, nat) answer) res" where
  "ft_transfer_call_ft T e receiver_id amount memo msg c =
     bindE (std_ft_transfer_call T e receiver_id amount memo msg (ft_token c)) (\<lambda>(t, ans).
     Inr (c\<lparr>ft_token := t\<rparr>, ans))"

definition ft_total_supply_ft :: "('t, 'c) ft_std \<Rightarrow> 't ft_contract \<Rightarrow> nat" where
  "ft_total_supply_ft T c = std_total_supply T (ft_token c)"

definition ft_balance_of_ft :: "('t, 'c) ft_std \<Rightarrow> account_id \<Rightarrow> 't ft_contract \<Rightarrow> nat" where
  "ft_balance_of_ft T account_id c = std_balance_of T (ft_token c) account_id"

definition ft_resolve_transfer_ft ::
  "('t, 'c) ft_std \<Rightarrow> host \<Rightarrow> account_id \<Rightarrow> account_id \<Rightarrow> nat \<Rightarrow> 't ft_contract
    \<Rightarrow> ('t ft_contract \<times> nat) res" where
  "ft_resolve_transfer_ft T e sender_id receiver_id amount c =
     bindE (private_call e) (\<lambda>_.
     bindE (std_resolve_transfer T e sender_id receiver_id amount (ft_token c)) (\<lambda>(t, used_amount, burned_amount).
     Inr (c\<lparr>ft_token := t\<rparr>, used_amount)))"

definition storage_deposit_ft ::
  "('t, 'c) ft_std \<Rightarrow> host \<Rightarrow> account_id option \<Rightarrow> bool option \<Rightarrow> 't ft_contract
    \<Rightarrow> ('t ft_contract \<times> 'c promise list \<times> storage_balance) res" where
  "storage_deposit_ft T e account_id registration_only c =
     bindE (std_storage_deposit T e account_id registration_only (ft_token c)) (\<lambda>(t, ps, b).
     Inr (c\<lparr>ft_token := t\<rparr>, ps, b))"

definition storage_withdraw_ft ::
  "('t, 'c) ft_std \<Rightarrow> host \<Rightarrow> nat option \<Rightarrow> 't ft_contract
    \<Rightarrow> ('t ft_contract \<times> 'c promise list \<times> storage_balance) res" where
  "storage_withdraw_ft T e amount c =
     bindE (std_storage_withdraw T e amount (ft_token c)) (\<lambda>(t, ps, b).
     Inr (c\<lparr>ft_token := t\<rparr>, ps, b))"

definition storage_unregister_ft ::
  "('t, 'c) ft_std \<Rightarrow> host \<Rightarrow> bool option \<Rightarrow> 't ft_contract
    \<Rightarrow> ('t ft_contract \<times> 'c promise list \<times> bool) res" where
  "storage_unregister_ft T e force c =
     bindE (std_storage_unregister T e force (ft_token c)) (\<lambda>(t, ps, r).
     Inr (c\<lparr>ft_token := t\<rparr>, ps, case r of Some (account_id, bal) \<Rightarrow> True | None \<Rightarrow> False))"

definition storage_balance_bounds_ft :: "('t, 'c) ft_std \<Rightarrow> 't ft_contract \<Rightarrow> nat \<times> nat option" where
  "storage_balance_bounds_ft T c = std_storage_bounds T (ft_token c)"

definition storage_balance_of_ft ::
  "('t, 'c) ft_std \<Rightarrow> account_id \<Rightarrow> 't ft_contract \<Rightarrow> storage_balance option" where
  "storage_balance_of_ft T account_id c = std_storage_balance_of T (ft_token c) account_id"

definition ft_metadata_ft :: "'t ft_contract \<Rightarrow> ft_metadata res" where
  "ft_metadata_ft c = unwrap (ft_metadata_cell c)"

subsection \<open>Histories\<close>

inductive ft_step :: "('t, 'c) ft_std \<Rightarrow> host \<Rightarrow> 't ft_contract \<Rightarrow> 't ft_contract \<Rightarrow> bool" for T e where
  ft_transfer_step: "ft_transfer_ft T e receiver_id amount memo c = Inr c' \<Longrightarrow> ft_step T e c c'"
| ft_transfer_call_step: "ft_transfer_call_ft T e receiver_id amount memo msg c = Inr (c', ans)
    \<Longrightarrow> ft_step T e c c'"
| ft_resolve_step: "ft_resolve_transfer_ft T e sender_id receiver_id amount c = Inr (c', used)
    \<Longrightarrow> ft_step T e c c'"
| ft_storage_dep_step: "storage_deposit_ft T e account_id only c = Inr (c', ps, b) \<Longrightarrow> ft_step T e c c'"
| ft_storage_wd_step: "storage_withdraw_ft T e amount_opt c = Inr (c', ps, b) \<Longrightarrow> ft_step T e c c'"
| ft_storage_unreg_step: "storage_unregister_ft T e force c = Inr (c', ps, r) \<Longrightarrow> ft_step T e c c'"

lemma ft_step_delegates:
  assumes "ft_step T e c c'"
  obtains paid where "std_call T e (ft_token c) (ft_token c') paid"
    and "ft_metadata_cell c' = ft_metadata_cell c"
proof -
  have "(\<exists>paid. std_call T e (ft_token c) (ft_token c') paid) \<and> ft_metadata_cell c' = ft_metadata_cell c"
    using assms
    by (cases; clarsimp simp: ft_transfer_ft_def ft_transfer_call_ft_def ft_resolve_transfer_ft_def
        storage_deposit_ft_def storage_withdraw_ft_def storage_unregister_ft_def; blast intro: std_call.intros)
  with that show thesis by blast
qed

text \<open>What every call keeps: a sound ledger with at most \<open>n\<close> tokens, and the metadata.\<close>

definition ft_inv :: "('t, 'c) ft_std \<Rightarrow> nat \<Rightarrow> ft_metadata option \<Rightarrow> 't ft_contract \<Rightarrow> bool" where
  "ft_inv T n md c \<longleftrightarrow> sound_ledger (std_ledger T (ft_token c)) \<and> ft_total_supply_ft T c \<le> n
     \<and> ft_metadata_cell c = md"

lemma ft_inv_step:
  assumes "std_laws T" and "ft_inv T n md c" and step: "ft_step T e c c'"
  shows "ft_inv T n md c'"
proof -
  from step obtain paid where run: "std_call T e (ft_token c) (ft_token c') paid"
    and md: "ft_metadata_cell c' = ft_metadata_cell c" by (rule ft_step_delegates)
  have "ledger_change (env_attached_deposit e) (std_min T (ft_token c))
      (std_ledger T (ft_token c)) (std_ledger T (ft_token c')) paid"
    using assms(1) run unfolding std_laws_def by blast
  moreover have "sound_ledger (std_ledger T (ft_token c))" using assms(2) by (simp add: ft_inv_def)
  ultimately have "sound_ledger (std_ledger T (ft_token c'))"
    and "snd (std_ledger T (ft_token c')) \<le> snd (std_ledger T (ft_token c))"
    by (rule ledger_change_sound)+
  then show ?thesis
    using assms(2) md by (simp add: ft_inv_def ft_total_supply_ft_def std_ledger_def)
qed

interpretation ft_books: stable_property "\<lambda>c c'. \<exists>e. ft_step T e c c'" "\<lambda>c. std_laws T \<longrightarrow> ft_inv T n md c"
  for T :: "('t, 'c) ft_std" and n md
  by unfold_locales (auto intro: ft_inv_step)

lemma new_ft_ledger:
  assumes core: "std_core_laws T" and run: "new_ft T ser assert_valid e owner_id total_supply metadata = Inr c"
  shows "std_ledger T (ft_token c) = ([owner_id \<mapsto> total_supply], total_supply)"
    and "ft_metadata_cell c = Some metadata" and "\<not> env_state_exists e"
proof -
  from run obtain t u where reg: "std_register_account T owner_id (std_new T (ser FungibleTokenKey)) = Inr t"
    and dep: "std_deposit T owner_id total_supply t = Inr u" and e: "\<not> env_state_exists e"
    and c: "c = \<lparr>ft_token = u, ft_metadata_cell = Some metadata\<rparr>"
    by (auto simp: new_ft_def Let_def)
  have t: "std_accounts T t = [owner_id \<mapsto> 0]" "std_total_supply T t = 0"
    by (rule std_registerE [OF core reg]; simp add: std_new_ledger [OF core])+
  from std_depositE [OF core dep] obtain x where "std_accounts T t owner_id = Some x"
    and "std_accounts T u = (std_accounts T t)(owner_id \<mapsto> x + total_supply)"
    and "std_total_supply T u = std_total_supply T t + total_supply" by blast
  then show "std_ledger T (ft_token c) = ([owner_id \<mapsto> total_supply], total_supply)"
    by (auto simp: c t std_ledger_def)
  show "ft_metadata_cell c = Some metadata" and "\<not> env_state_exists e" using e by (simp_all add: c)
qed

subsection \<open>Properties\<close>

text \<open>
  C29. The supply of the fungible token is fixed at its creation: \<open>new\<close> gives all of it to the owner and
  registers nobody else, and after any calls the balances of all accounts add up to the total
  supply, which is at most the initial one (tokens are burned when an account is closed,
  never minted); the metadata never changes, so that \<open>ft_metadata\<close> never panics. (The
  hypothesis: the token standard keeps its documented laws.)
\<close>

theorem ft_supply_never_grows:
  assumes laws: "std_laws T"
    and new: "new_ft T ser assert_valid e owner_id total_supply metadata = Inr c"
    and run: "(\<lambda>c d. \<exists>e. ft_step T e c d)\<^sup>*\<^sup>* c c'"
  shows "std_accounts T (ft_token c) = [owner_id \<mapsto> total_supply]
    \<and> ft_total_supply_ft T c = total_supply
    \<and> msum id (std_accounts T (ft_token c')) = ft_total_supply_ft T c'
    \<and> ft_total_supply_ft T c' \<le> total_supply
    \<and> ft_metadata_ft c' = Inr metadata"
proof -
  have core: "std_core_laws T" using laws by (simp add: std_laws_def)
  note c = new_ft_ledger [OF core new]
  have "msum id [owner_id \<mapsto> total_supply] = total_supply"
    using msum_upd [of Map.empty id owner_id total_supply] by simp
  then have "ft_inv T total_supply (Some metadata) c"
    using c by (simp add: ft_inv_def ft_total_supply_ft_def std_ledger_def)
  with ft_books.steps_inv [OF run] laws have "ft_inv T total_supply (Some metadata) c'" by blast
  then show ?thesis
    using c by (simp add: ft_inv_def ft_total_supply_ft_def std_ledger_def ft_metadata_ft_def)
qed

text \<open>A token of 100 whose owner registers Bob and sends him 30.\<close>

definition ft_host :: "account_id \<Rightarrow> nat \<Rightarrow> host" where
  "ft_host who d = sample_host\<lparr>env_predecessor_account_id := who, env_attached_deposit := d\<rparr>"

theorem ft_supply_never_grows_witness:
  "\<exists>c c'. new_default_meta_ft ''ft-1.0.0'' (sample_std :: (ledger, unit) ft_std) (\<lambda>_. []) (\<lambda>_. Inr ()) sample_host
        ''alice'' 100 = Inr c
     \<and> ft_step (sample_std :: (ledger, unit) ft_std) (ft_host ''bob'' 5) c c'
     \<and> ft_total_supply_ft (sample_std :: (ledger, unit) ft_std) c' \<le> 100
     \<and> entries (ft_token c') = [''alice'' \<mapsto> 100, ''bob'' \<mapsto> 0]"
proof -
  let ?T = "sample_std :: (ledger, unit) ft_std"
  obtain md c where md: "new_ft ?T (\<lambda>_. []) (\<lambda>_. Inr ()) sample_host ''alice'' 100 md = Inr c"
      "new_default_meta_ft ''ft-1.0.0'' ?T (\<lambda>_. []) (\<lambda>_. Inr ()) sample_host ''alice'' 100 = Inr c"
    and c: "ft_token c = \<lparr>entries = [''alice'' \<mapsto> 100], issued = 100\<rparr>"
    unfolding new_default_meta_ft_def
    by (simp add: new_ft_def ledger_register_def ledger_deposit_def fits_def Let_def)
  let ?c' = "c\<lparr>ft_token := \<lparr>entries = [''alice'' \<mapsto> 100, ''bob'' \<mapsto> 0], issued = 100\<rparr>\<rparr>"
  have "storage_deposit_ft ?T (ft_host ''bob'' 5) None None c = Inr (?c', [Promise ''bob'' [Transfer 0]], (5, 0))"
    by (simp add: storage_deposit_ft_def sample_std_def ledger_storage_deposit_def ft_host_def c Let_def)
  then have step: "ft_step ?T (ft_host ''bob'' 5) c ?c'" by (rule ft_storage_dep_step)
  then have "(\<lambda>c d. \<exists>e. ft_step ?T e c d)\<^sup>*\<^sup>* c ?c'" by blast
  from ft_supply_never_grows [OF sample_std_laws md(1) this] step md(2) show ?thesis by auto
qed

end
