(* ===== verification/NonFungibleTokenContract.thy ===== *)
theory NonFungibleTokenContract
  imports Interfaces
begin

section \<open>The non-fungible token contract (\<open>non-fungible-token/nft/src/lib.rs\<close>)\<close>

text \<open>
  A contract that adds to the \<open>NonFungibleToken\<close> of the crate \<open>unc_contract_standards\<close> a constructor, metadata and \<open>nft_mint\<close>,
  which only the owner of the contract may call. As in \<open>TokenStandard\<close>, the functions of the
  standard are the fields of a record, \<open>nft_std\<close>: \<open>'n\<close> is the type \<open>NonFungibleToken\<close>, \<open>'tok\<close> the type
  \<open>Token\<close> and \<open>'m\<close> the type \<open>TokenMetadata\<close>; \<open>nft_laws\<close> states the documented behaviour that the theorems
  use. The suffix \<open>_nft\<close> marks methods that other contracts have as well.
\<close>

subsection \<open>The functions of the standard\<close>

type_synonym token_id = string

record ('n, 'c, 'tok, 'm) nft_std =
  nstd_new :: "bytes \<Rightarrow> account_id \<Rightarrow> bytes option \<Rightarrow> bytes option \<Rightarrow> bytes option \<Rightarrow> 'n"
  nstd_owner_id :: "'n \<Rightarrow> account_id"
  nstd_internal_mint ::
    "host \<Rightarrow> token_id \<Rightarrow> account_id \<Rightarrow> 'm option \<Rightarrow> 'n \<Rightarrow> ('n \<times> 'c promise list \<times> 'tok) res"
  nstd_transfer ::
    "host \<Rightarrow> account_id \<Rightarrow> token_id \<Rightarrow> nat option \<Rightarrow> string option \<Rightarrow> 'n \<Rightarrow> ('n \<times> 'c promise list) res"
  nstd_transfer_call ::
    "host \<Rightarrow> account_id \<Rightarrow> token_id \<Rightarrow> nat option \<Rightarrow> string option \<Rightarrow> string \<Rightarrow> 'n
      \<Rightarrow> ('n \<times> ('c, bool) answer) res"
  nstd_token :: "token_id \<Rightarrow> 'n \<Rightarrow> 'tok option"
  nstd_resolve_transfer ::
    "host \<Rightarrow> account_id \<Rightarrow> account_id \<Rightarrow> token_id \<Rightarrow> (account_id \<rightharpoonup> nat) option \<Rightarrow> 'n
      \<Rightarrow> ('n \<times> 'c promise list \<times> bool) res"
  nstd_approve ::
    "host \<Rightarrow> token_id \<Rightarrow> account_id \<Rightarrow> string option \<Rightarrow> 'n \<Rightarrow> ('n \<times> 'c promise list \<times> 'c promise option) res"
  nstd_revoke :: "host \<Rightarrow> token_id \<Rightarrow> account_id \<Rightarrow> 'n \<Rightarrow> ('n \<times> 'c promise list) res"
  nstd_revoke_all :: "host \<Rightarrow> token_id \<Rightarrow> 'n \<Rightarrow> ('n \<times> 'c promise list) res"
  nstd_is_approved :: "token_id \<Rightarrow> account_id \<Rightarrow> nat option \<Rightarrow> 'n \<Rightarrow> bool res"
  nstd_total_supply :: "'n \<Rightarrow> nat"
  nstd_tokens :: "nat option \<Rightarrow> nat option \<Rightarrow> 'n \<Rightarrow> 'tok list res"
  nstd_supply_for_owner :: "account_id \<Rightarrow> 'n \<Rightarrow> nat res"
  nstd_tokens_for_owner :: "account_id \<Rightarrow> nat option \<Rightarrow> nat option \<Rightarrow> 'n \<Rightarrow> 'tok list res"

subsection \<open>State and constructors\<close>

datatype nft_storage_key =
    NonFungibleTokenKey
  | NftMetadataKey
  | TokenMetadataKey
  | EnumerationKey
  | ApprovalKey

record nft_metadata =
  nmd_spec :: string
  nmd_name :: string
  nmd_symbol :: string
  nmd_icon :: "string option"
  nmd_base_uri :: "string option"
  nmd_reference :: "string option"
  nmd_reference_hash :: "bytes option"

record 'n nft_contract =
  nft_tokens_of :: 'n
  nft_metadata_cell :: "nft_metadata option"

definition new_nft ::
  "('n, 'c, 'tok, 'm) nft_std \<Rightarrow> (nft_storage_key \<Rightarrow> bytes) \<Rightarrow> (nft_metadata \<Rightarrow> unit res) \<Rightarrow> host
    \<Rightarrow> account_id \<Rightarrow> nft_metadata \<Rightarrow> 'n nft_contract res" where
  "new_nft T ser assert_valid e owner_id metadata =
     bindE (ensure (\<not> env_state_exists e) ''Already initialized'') (\<lambda>_.
     bindE (assert_valid metadata) (\<lambda>_.
     Inr \<lparr>nft_tokens_of = nstd_new T (ser NonFungibleTokenKey) owner_id (Some (ser TokenMetadataKey))
            (Some (ser EnumerationKey)) (Some (ser ApprovalKey)),
          nft_metadata_cell = Some metadata\<rparr>))"

text \<open>The icon is the text of \<open>DATA_IMAGE_SVG_UNC_ICON\<close>, which the fungible token has too: an argument here.\<close>

definition new_default_meta_nft ::
  "string \<Rightarrow> string \<Rightarrow> ('n, 'c, 'tok, 'm) nft_std \<Rightarrow> (nft_storage_key \<Rightarrow> bytes) \<Rightarrow> (nft_metadata \<Rightarrow> unit res)
    \<Rightarrow> host \<Rightarrow> account_id \<Rightarrow> 'n nft_contract res" where
  "new_default_meta_nft NFT_METADATA_SPEC icon T ser assert_valid e owner_id =
     new_nft T ser assert_valid e owner_id \<lparr>
       nmd_spec = NFT_METADATA_SPEC,
       nmd_name = ''Example UNC non-fungible token'',
       nmd_symbol = ''EXAMPLE'',
       nmd_icon = Some icon,
       nmd_base_uri = None,
       nmd_reference = None,
       nmd_reference_hash = None\<rparr>"

definition nft_mint ::
  "('n, 'c, 'tok, 'm) nft_std \<Rightarrow> host \<Rightarrow> token_id \<Rightarrow> account_id \<Rightarrow> 'm \<Rightarrow> 'n nft_contract
    \<Rightarrow> ('n nft_contract \<times> 'c promise list \<times> 'tok) res" where
  "nft_mint T e token_id token_owner_id token_metadata c =
     bindE (ensure (env_predecessor_account_id e = nstd_owner_id T (nft_tokens_of c)) ''Unauthorized'') (\<lambda>_.
     bindE (nstd_internal_mint T e token_id token_owner_id (Some token_metadata) (nft_tokens_of c)) (\<lambda>(n, ps, tok).
     Inr (c\<lparr>nft_tokens_of := n\<rparr>, ps, tok)))"

subsection \<open>Delegated calls\<close>

definition nft_transfer_nft ::
  "('n, 'c, 'tok, 'm) nft_std \<Rightarrow> host \<Rightarrow> account_id \<Rightarrow> token_id \<Rightarrow> nat option \<Rightarrow> string option
    \<Rightarrow> 'n nft_contract \<Rightarrow> ('n nft_contract \<times> 'c promise list) res" where
  "nft_transfer_nft T e receiver_id token_id approval_id memo c =
     bindE (nstd_transfer T e receiver_id token_id approval_id memo (nft_tokens_of c)) (\<lambda>(n, ps).
     Inr (c\<lparr>nft_tokens_of := n\<rparr>, ps))"

definition nft_transfer_call_nft ::
  "('n, 'c, 'tok, 'm) nft_std \<Rightarrow> host \<Rightarrow> account_id \<Rightarrow> token_id \<Rightarrow> nat option \<Rightarrow> string option \<Rightarrow> string
    \<Rightarrow> 'n nft_contract \<Rightarrow> ('n nft_contract \<times> ('c, bool) answer) res" where
  "nft_transfer_call_nft T e receiver_id token_id approval_id memo msg c =
     bindE (nstd_transfer_call T e receiver_id token_id approval_id memo msg (nft_tokens_of c)) (\<lambda>(n, ans).
     Inr (c\<lparr>nft_tokens_of := n\<rparr>, ans))"

definition nft_token_nft :: "('n, 'c, 'tok, 'm) nft_std \<Rightarrow> token_id \<Rightarrow> 'n nft_contract \<Rightarrow> 'tok option" where
  "nft_token_nft T token_id c = nstd_token T token_id (nft_tokens_of c)"

definition nft_resolve_transfer_nft ::
  "('n, 'c, 'tok, 'm) nft_std \<Rightarrow> host \<Rightarrow> account_id \<Rightarrow> account_id \<Rightarrow> token_id \<Rightarrow> (account_id \<rightharpoonup> nat) option
    \<Rightarrow> 'n nft_contract \<Rightarrow> ('n nft_contract \<times> 'c promise list \<times> bool) res" where
  "nft_resolve_transfer_nft T e previous_owner_id receiver_id token_id approved_account_ids c =
     bindE (private_call e) (\<lambda>_.
     bindE (nstd_resolve_transfer T e previous_owner_id receiver_id token_id approved_account_ids
              (nft_tokens_of c)) (\<lambda>(n, ps, b).
     Inr (c\<lparr>nft_tokens_of := n\<rparr>, ps, b)))"

definition nft_approve_nft ::
  "('n, 'c, 'tok, 'm) nft_std \<Rightarrow> host \<Rightarrow> token_id \<Rightarrow> account_id \<Rightarrow> string option
    \<Rightarrow> 'n nft_contract \<Rightarrow> ('n nft_contract \<times> 'c promise list \<times> 'c promise option) res" where
  "nft_approve_nft T e token_id account_id msg c =
     bindE (nstd_approve T e token_id account_id msg (nft_tokens_of c)) (\<lambda>(n, ps, p).
     Inr (c\<lparr>nft_tokens_of := n\<rparr>, ps, p))"

definition nft_revoke_nft ::
  "('n, 'c, 'tok, 'm) nft_std \<Rightarrow> host \<Rightarrow> token_id \<Rightarrow> account_id \<Rightarrow> 'n nft_contract
    \<Rightarrow> ('n nft_contract \<times> 'c promise list) res" where
  "nft_revoke_nft T e token_id account_id c =
     bindE (nstd_revoke T e token_id account_id (nft_tokens_of c)) (\<lambda>(n, ps).
     Inr (c\<lparr>nft_tokens_of := n\<rparr>, ps))"

definition nft_revoke_all_nft ::
  "('n, 'c, 'tok, 'm) nft_std \<Rightarrow> host \<Rightarrow> token_id \<Rightarrow> 'n nft_contract \<Rightarrow> ('n nft_contract \<times> 'c promise list) res" where
  "nft_revoke_all_nft T e token_id c =
     bindE (nstd_revoke_all T e token_id (nft_tokens_of c)) (\<lambda>(n, ps).
     Inr (c\<lparr>nft_tokens_of := n\<rparr>, ps))"

definition nft_is_approved_nft ::
  "('n, 'c, 'tok, 'm) nft_std \<Rightarrow> token_id \<Rightarrow> account_id \<Rightarrow> nat option \<Rightarrow> 'n nft_contract \<Rightarrow> bool res" where
  "nft_is_approved_nft T token_id approved_account_id approval_id c =
     nstd_is_approved T token_id approved_account_id approval_id (nft_tokens_of c)"

definition nft_total_supply_nft :: "('n, 'c, 'tok, 'm) nft_std \<Rightarrow> 'n nft_contract \<Rightarrow> nat" where
  "nft_total_supply_nft T c = nstd_total_supply T (nft_tokens_of c)"

definition nft_tokens_nft ::
  "('n, 'c, 'tok, 'm) nft_std \<Rightarrow> nat option \<Rightarrow> nat option \<Rightarrow> 'n nft_contract \<Rightarrow> 'tok list res" where
  "nft_tokens_nft T from_index limit c = nstd_tokens T from_index limit (nft_tokens_of c)"

definition nft_supply_for_owner_nft ::
  "('n, 'c, 'tok, 'm) nft_std \<Rightarrow> account_id \<Rightarrow> 'n nft_contract \<Rightarrow> nat res" where
  "nft_supply_for_owner_nft T account_id c = nstd_supply_for_owner T account_id (nft_tokens_of c)"

definition nft_tokens_for_owner_nft ::
  "('n, 'c, 'tok, 'm) nft_std \<Rightarrow> account_id \<Rightarrow> nat option \<Rightarrow> nat option \<Rightarrow> 'n nft_contract \<Rightarrow> 'tok list res" where
  "nft_tokens_for_owner_nft T account_id from_index limit c =
     nstd_tokens_for_owner T account_id from_index limit (nft_tokens_of c)"

definition nft_metadata_nft :: "'n nft_contract \<Rightarrow> nft_metadata res" where
  "nft_metadata_nft c = unwrap (nft_metadata_cell c)"

subsection \<open>Calls as messages\<close>

datatype 'm nft_msg =
    Nft_mint token_id account_id 'm
  | Nft_transfer account_id token_id "nat option" "string option"
  | Nft_transfer_call account_id token_id "nat option" "string option" string
  | Nft_resolve_transfer account_id account_id token_id "(account_id \<rightharpoonup> nat) option"
  | Nft_approve token_id account_id "string option"
  | Nft_revoke token_id account_id
  | Nft_revoke_all token_id

fun nft_exec :: "('n, 'c, 'tok, 'm) nft_std \<Rightarrow> host \<times> 'm nft_msg \<Rightarrow> 'n nft_contract \<Rightarrow> 'n nft_contract res" where
  "nft_exec T (e, Nft_mint i a m) c = bindE (nft_mint T e i a m c) (\<lambda>r. Inr (fst r))"
| "nft_exec T (e, Nft_transfer a i ap memo) c = bindE (nft_transfer_nft T e a i ap memo c) (\<lambda>r. Inr (fst r))"
| "nft_exec T (e, Nft_transfer_call a i ap memo msg) c =
     bindE (nft_transfer_call_nft T e a i ap memo msg c) (\<lambda>r. Inr (fst r))"
| "nft_exec T (e, Nft_resolve_transfer p r i aps) c =
     bindE (nft_resolve_transfer_nft T e p r i aps c) (\<lambda>r. Inr (fst r))"
| "nft_exec T (e, Nft_approve i a msg) c = bindE (nft_approve_nft T e i a msg c) (\<lambda>r. Inr (fst r))"
| "nft_exec T (e, Nft_revoke i a) c = bindE (nft_revoke_nft T e i a c) (\<lambda>r. Inr (fst r))"
| "nft_exec T (e, Nft_revoke_all i) c = bindE (nft_revoke_all_nft T e i c) (\<lambda>r. Inr (fst r))"

subsection \<open>The documented laws\<close>

definition nstd_ids :: "('n, 'c, 'tok, 'm) nft_std \<Rightarrow> 'n \<Rightarrow> token_id set" where
  "nstd_ids T n = {i. nstd_token T i n \<noteq> None}"

definition nstd_same :: "('n, 'c, 'tok, 'm) nft_std \<Rightarrow> 'n \<Rightarrow> 'n \<Rightarrow> bool" where
  "nstd_same T n n' \<longleftrightarrow> nstd_ids T n' = nstd_ids T n \<and> nstd_owner_id T n' = nstd_owner_id T n"

text \<open>
  A new token contract is owned as given and has no tokens; \<open>internal_mint\<close> adds a token with a
  new ID, which it returns; the other calls neither create nor destroy tokens; and no call changes the
  owner of the contract.
\<close>

definition nft_laws :: "('n, 'c, 'tok, 'm) nft_std \<Rightarrow> bool" where
  "nft_laws T \<longleftrightarrow>
     (\<forall>k o' a b d. nstd_ids T (nstd_new T k o' a b d) = {} \<and> nstd_owner_id T (nstd_new T k o' a b d) = o')
   \<and> (\<forall>e i a m n n' ps tok. nstd_internal_mint T e i a m n = Inr (n', ps, tok) \<longrightarrow>
        i \<notin> nstd_ids T n \<and> nstd_token T i n' = Some tok
        \<and> nstd_ids T n' = insert i (nstd_ids T n) \<and> nstd_owner_id T n' = nstd_owner_id T n)
   \<and> (\<forall>e a i ap memo n n' ps. nstd_transfer T e a i ap memo n = Inr (n', ps) \<longrightarrow> nstd_same T n n')
   \<and> (\<forall>e a i ap memo msg n n' ans. nstd_transfer_call T e a i ap memo msg n = Inr (n', ans) \<longrightarrow> nstd_same T n n')
   \<and> (\<forall>e p a i aps n n' ps b. nstd_resolve_transfer T e p a i aps n = Inr (n', ps, b) \<longrightarrow> nstd_same T n n')
   \<and> (\<forall>e i a msg n n' ps p. nstd_approve T e i a msg n = Inr (n', ps, p) \<longrightarrow> nstd_same T n n')
   \<and> (\<forall>e i a n n' ps. nstd_revoke T e i a n = Inr (n', ps) \<longrightarrow> nstd_same T n n')
   \<and> (\<forall>e i n n' ps. nstd_revoke_all T e i n = Inr (n', ps) \<longrightarrow> nstd_same T n n')"

lemma nft_law_new: "nft_laws T \<Longrightarrow> nstd_ids T (nstd_new T k o' a b d) = {}"
  "nft_laws T \<Longrightarrow> nstd_owner_id T (nstd_new T k o' a b d) = o'"
  by (simp_all add: nft_laws_def)

lemma nft_law_mint:
  "nft_laws T \<Longrightarrow> nstd_internal_mint T e i a m n = Inr (n', ps, tok) \<Longrightarrow>
     i \<notin> nstd_ids T n \<and> nstd_token T i n' = Some tok
     \<and> nstd_ids T n' = insert i (nstd_ids T n) \<and> nstd_owner_id T n' = nstd_owner_id T n"
  unfolding nft_laws_def by metis

lemma nft_law_others:
  assumes "nft_laws T"
  shows "nstd_transfer T e a i ap memo n = Inr (n', ps) \<Longrightarrow> nstd_same T n n'"
    and "nstd_transfer_call T e a i ap memo msg n = Inr (n', ans) \<Longrightarrow> nstd_same T n n'"
    and "nstd_resolve_transfer T e p a i aps n = Inr (n', ps, b) \<Longrightarrow> nstd_same T n n'"
    and "nstd_approve T e i a msg' n = Inr (n', ps, pr) \<Longrightarrow> nstd_same T n n'"
    and "nstd_revoke T e i a n = Inr (n', ps) \<Longrightarrow> nstd_same T n n'"
    and "nstd_revoke_all T e i n = Inr (n', ps) \<Longrightarrow> nstd_same T n n'"
  using assms unfolding nft_laws_def by metis+

subsection \<open>What a message does to the set of tokens\<close>

fun minted_id :: "host \<times> 'm nft_msg \<Rightarrow> token_id list" where
  "minted_id (e, Nft_mint i a m) = [i]"
| "minted_id _ = []"

definition nft_ids :: "('n, 'c, 'tok, 'm) nft_std \<Rightarrow> 'n nft_contract \<Rightarrow> token_id set" where
  "nft_ids T c = {i. nft_token_nft T i c \<noteq> None}"

definition nft_owner :: "('n, 'c, 'tok, 'm) nft_std \<Rightarrow> 'n nft_contract \<Rightarrow> account_id" where
  "nft_owner T c = nstd_owner_id T (nft_tokens_of c)"

lemma nft_ids_eq: "nft_ids T c = nstd_ids T (nft_tokens_of c)"
  by (simp add: nft_ids_def nstd_ids_def nft_token_nft_def)

lemma nft_exec_other:
  assumes "nft_laws T" and "nft_exec T (e, m) c = Inr c'" and "minted_id (e, m) = []"
  shows "nstd_same T (nft_tokens_of c) (nft_tokens_of c') \<and> nft_metadata_cell c' = nft_metadata_cell c"
  using assms(2,3)
  by (cases m) (auto simp: nft_transfer_nft_def nft_transfer_call_nft_def nft_resolve_transfer_nft_def
      nft_approve_nft_def nft_revoke_nft_def nft_revoke_all_nft_def dest!: nft_law_others [OF assms(1)])

text \<open>A message adds the IDs it mints, which are new, and mints only for the owner.\<close>

lemma nft_exec_ids:
  assumes laws: "nft_laws T" and run: "nft_exec T (e, m) c = Inr c'"
  shows "nft_ids T c' = set (minted_id (e, m)) \<union> nft_ids T c"
    and "set (minted_id (e, m)) \<inter> nft_ids T c = {}" and "distinct (minted_id (e, m))"
    and "nft_owner T c' = nft_owner T c" and "nft_metadata_cell c' = nft_metadata_cell c"
    and "minted_id (e, m) \<noteq> [] \<longrightarrow> env_predecessor_account_id e = nft_owner T c"
proof -
  consider (mint) i a x where "m = Nft_mint i a x" | (other) "minted_id (e, m) = []" by (cases m) auto
  then have "nft_ids T c' = set (minted_id (e, m)) \<union> nft_ids T c
      \<and> set (minted_id (e, m)) \<inter> nft_ids T c = {} \<and> distinct (minted_id (e, m))
      \<and> nft_owner T c' = nft_owner T c \<and> nft_metadata_cell c' = nft_metadata_cell c
      \<and> (minted_id (e, m) \<noteq> [] \<longrightarrow> env_predecessor_account_id e = nft_owner T c)"
  proof cases
    case mint
    with run obtain n ps tok where who: "env_predecessor_account_id e = nft_owner T c"
      and n: "nstd_internal_mint T e i a (Some x) (nft_tokens_of c) = Inr (n, ps, tok)"
      and c': "c' = c\<lparr>nft_tokens_of := n\<rparr>"
      by (auto simp: nft_mint_def nft_owner_def)
    from nft_law_mint [OF laws n] show ?thesis by (auto simp: mint who c' nft_ids_eq nft_owner_def)
  next
    case other
    from nft_exec_other [OF laws run this] show ?thesis
      by (simp add: other nft_ids_eq nft_owner_def nstd_same_def)
  qed
  then show "nft_ids T c' = set (minted_id (e, m)) \<union> nft_ids T c"
    and "set (minted_id (e, m)) \<inter> nft_ids T c = {}" and "distinct (minted_id (e, m))"
    and "nft_owner T c' = nft_owner T c" and "nft_metadata_cell c' = nft_metadata_cell c"
    and "minted_id (e, m) \<noteq> [] \<longrightarrow> env_predecessor_account_id e = nft_owner T c"
    by blast+
qed

text \<open>The tokens are a registry that only the owner of the contract extends.\<close>

interpretation nft_registry: authorised_registry "nft_ids T" "\<lambda>c who. who = nft_owner T c"
    "\<lambda>who c c'. nft_laws T \<and> (\<exists>e m. env_predecessor_account_id e = who \<and> nft_exec T (e, m) c = Inr c')"
  for T :: "('n, 'c, 'tok, 'm) nft_std"
proof
  show "nft_ids T t = nft_ids T s"
    if "nft_laws T \<and> (\<exists>e m. env_predecessor_account_id e = c \<and> nft_exec T (e, m) s = Inr t)"
      and "\<not> c = nft_owner T s" for c s t
    using that nft_exec_ids(1,6) [of T _ _ s t] by fastforce
  show "(\<lambda>who. who = nft_owner T t) = (\<lambda>who. who = nft_owner T s)"
    if "nft_laws T \<and> (\<exists>e m. env_predecessor_account_id e = c \<and> nft_exec T (e, m) s = Inr t)"
      and "\<not> c = nft_owner T s" for c s t
    using that nft_exec_ids(4) [of T _ _ s t] by fastforce
qed

lemma outsiders_never_mint:
  "(\<lambda>c c'. \<exists>who. who \<noteq> nft_owner T c \<and> nft_laws T
      \<and> (\<exists>e m. env_predecessor_account_id e = who \<and> nft_exec T (e, m) c = Inr c'))\<^sup>*\<^sup>* c c'
    \<Longrightarrow> nft_ids T c' = nft_ids T c"
  using nft_registry.outsiders_change_nothing by blast

lemma nft_run_ids:
  assumes laws: "nft_laws T" and "foldE (nft_exec T) calls c = Inr c'"
  shows "nft_ids T c' = set (concat (map minted_id calls)) \<union> nft_ids T c
    \<and> set (concat (map minted_id calls)) \<inter> nft_ids T c = {} \<and> distinct (concat (map minted_id calls))
    \<and> nft_owner T c' = nft_owner T c \<and> nft_metadata_cell c' = nft_metadata_cell c
    \<and> (\<forall>(e, m) \<in> set calls. minted_id (e, m) \<noteq> [] \<longrightarrow> env_predecessor_account_id e = nft_owner T c)"
  using assms(2)
proof (induction calls arbitrary: c)
  case (Cons call calls)
  obtain e m where call: "call = (e, m)" by fastforce
  from Cons.prems obtain d where d: "nft_exec T (e, m) c = Inr d" "foldE (nft_exec T) calls d = Inr c'"
    by (auto simp: call)
  note now = nft_exec_ids [OF laws d(1)] and later = Cons.IH [OF d(2)]
  show ?case using now later by (auto simp: call)
qed simp

subsection \<open>Properties\<close>

text \<open>
  C28. Only the owner given to \<open>new\<close> mints, and every token was minted once: after any sequence of
  accepted calls by anyone, the tokens that \<open>nft_token\<close> knows are exactly those of the \<open>nft_mint\<close>
  calls among them, no ID was minted twice, each of these calls was made by the owner, and
  the contract has the same owner and metadata as at the beginning. (The
  hypothesis: the token standard keeps its documented laws.)
\<close>

theorem tokens_are_minted_by_the_owner:
  assumes laws: "nft_laws T" and new: "new_nft T ser assert_valid e owner_id metadata = Inr c"
    and run: "foldE (nft_exec T) calls c = Inr c'"
  shows "{i. nft_token_nft T i c' \<noteq> None} = set (concat (map minted_id calls))
    \<and> distinct (concat (map minted_id calls))
    \<and> (\<forall>(e, m) \<in> set calls. minted_id (e, m) \<noteq> [] \<longrightarrow> env_predecessor_account_id e = owner_id)
    \<and> nstd_owner_id T (nft_tokens_of c') = owner_id
    \<and> nft_metadata_nft c' = Inr metadata"
proof -
  from new have c: "c = \<lparr>nft_tokens_of = nstd_new T (ser NonFungibleTokenKey) owner_id
      (Some (ser TokenMetadataKey)) (Some (ser EnumerationKey)) (Some (ser ApprovalKey)),
      nft_metadata_cell = Some metadata\<rparr>"
    by (auto simp: new_nft_def)
  have "nft_ids T c = {}" and owner: "nft_owner T c = owner_id"
    using nft_law_new [OF laws] by (simp_all add: c nft_ids_eq nft_owner_def)
  with nft_run_ids [OF laws run] show ?thesis
    by (auto simp: c nft_ids_def nft_owner_def nft_metadata_nft_def)
qed

subsection \<open>An example\<close>

text \<open>A token standard that keeps the owner of each token and knows no approvals.\<close>

record collection =
  col_owner :: account_id
  col_tokens :: "token_id \<rightharpoonup> account_id"

definition col_mint :: "token_id \<Rightarrow> account_id \<Rightarrow> collection \<Rightarrow> (collection \<times> unit promise list \<times> account_id) res" where
  "col_mint i a n = bindE (ensure (col_tokens n i = None) ''token_id must be unique'') (\<lambda>_.
     Inr (n\<lparr>col_tokens := (col_tokens n)(i \<mapsto> a)\<rparr>, [], a))"

definition col_transfer :: "host \<Rightarrow> account_id \<Rightarrow> token_id \<Rightarrow> collection \<Rightarrow> collection res" where
  "col_transfer e a i n = bindE (ensure (col_tokens n i = Some (env_predecessor_account_id e)) ''Unauthorized'') (\<lambda>_.
     Inr (n\<lparr>col_tokens := (col_tokens n)(i \<mapsto> a)\<rparr>))"

definition sample_nft :: "(collection, unit, account_id, unit) nft_std" where
  "sample_nft = \<lparr>
     nstd_new = (\<lambda>k who a b d. \<lparr>col_owner = who, col_tokens = Map.empty\<rparr>),
     nstd_owner_id = col_owner,
     nstd_internal_mint = (\<lambda>e i a m n. col_mint i a n),
     nstd_transfer = (\<lambda>e a i ap memo n. bindE (col_transfer e a i n) (\<lambda>n. Inr (n, []))),
     nstd_transfer_call = (\<lambda>e a i ap memo msg n. bindE (col_transfer e a i n) (\<lambda>n. Inr (n, Answered True))),
     nstd_token = (\<lambda>i n. col_tokens n i),
     nstd_resolve_transfer = (\<lambda>e p a i aps n. Inr (n, [], True)),
     nstd_approve = (\<lambda>e i a msg n. Inr (n, [], None)),
     nstd_revoke = (\<lambda>e i a n. Inr (n, [])),
     nstd_revoke_all = (\<lambda>e i n. Inr (n, [])),
     nstd_is_approved = (\<lambda>i a ap n. Inr False),
     nstd_total_supply = (\<lambda>n. card (dom (col_tokens n))),
     nstd_tokens = (\<lambda>first lim n. Inr []),
     nstd_supply_for_owner = (\<lambda>a n. Inr 0),
     nstd_tokens_for_owner = (\<lambda>a first lim n. Inr []) \<rparr>"

lemma sample_nft_laws: "nft_laws sample_nft"
  by (auto simp: nft_laws_def sample_nft_def nstd_same_def nstd_ids_def col_mint_def col_transfer_def
      split: if_splits)

definition nft_host :: "account_id \<Rightarrow> host" where
  "nft_host who = sample_host\<lparr>env_predecessor_account_id := who\<rparr>"

theorem tokens_are_minted_by_the_owner_witness:
  "\<exists>c c'. new_default_meta_nft ''nft-1.0.0'' '''' sample_nft (\<lambda>_. []) (\<lambda>_. Inr ()) (nft_host ''eve'') ''alice'' = Inr c
     \<and> foldE (nft_exec sample_nft) [(nft_host ''alice'', Nft_mint ''t1'' ''bob'' ()),
         (nft_host ''bob'', Nft_transfer ''carol'' ''t1'' None None)] c = Inr c'
     \<and> {i. nft_token_nft sample_nft i c' \<noteq> None} = {''t1''}"
proof -
  let ?calls = "[(nft_host ''alice'', Nft_mint ''t1'' ''bob'' ()),
      (nft_host ''bob'', Nft_transfer ''carol'' ''t1'' None None)]"
  obtain md c where new: "new_nft sample_nft (\<lambda>_. []) (\<lambda>_. Inr ()) (nft_host ''eve'') ''alice'' md = Inr c"
      "new_default_meta_nft ''nft-1.0.0'' '''' sample_nft (\<lambda>_. []) (\<lambda>_. Inr ()) (nft_host ''eve'') ''alice'' = Inr c"
    and c: "nft_tokens_of c = \<lparr>col_owner = ''alice'', col_tokens = Map.empty\<rparr>"
    unfolding new_default_meta_nft_def by (simp add: new_nft_def sample_nft_def nft_host_def)
  obtain c' where run: "foldE (nft_exec sample_nft) ?calls c = Inr c'"
    by (simp add: nft_mint_def nft_transfer_nft_def sample_nft_def col_mint_def col_transfer_def nft_host_def c)
  have "{i. nft_token_nft sample_nft i c' \<noteq> None} = set (concat (map minted_id ?calls))"
    by (rule tokens_are_minted_by_the_owner [OF sample_nft_laws new(1) run, THEN conjunct1])
  then have "{i. nft_token_nft sample_nft i c' \<noteq> None} = {''t1''}" by simp
  with new(2) run show ?thesis by blast
qed

end
