(* ===== verification/TokenReceivers.thy ===== *)
theory TokenReceivers
  imports Host
begin

section \<open>Contracts that receive tokens\<close>

text \<open>
  The contracts at the other end of \<open>ft_transfer_call\<close>, \<open>nft_transfer_call\<close> and \<open>nft_approve\<close>:
  \<open>fungible-token/test-contract-defi/src/lib.rs\<close> (\<open>defi\<close>), \<open>non-fungible-token/test-token-receiver/src/lib.rs\<close>
  (\<open>token_receiver\<close>) and \<open>non-fungible-token/test-approval-receiver/src/lib.rs\<close> (\<open>approval_receiver\<close>). Each is called by one token contract, whose account
  it knows, and answers at once or through a call to itself; the answer is what the caller waits for.
\<close>

datatype receiver_call =
    Value_please string
  | Ok_go bool
  | Ok_go_msg string

subsection \<open>Unsigned integers as texts\<close>

text \<open>
  \<open>str::parse::<u128>\<close> of the standard library: an optional plus sign and at least one digit, with a value that fits.
\<close>

definition to_digit :: "char \<Rightarrow> nat option" where
  "to_digit c = (let k = of_char c in if 48 \<le> k \<and> k \<le> 57 then Some (k - 48) else None)"

fun parse_digits :: "string \<Rightarrow> nat \<Rightarrow> nat option" where
  "parse_digits [] r = Some r"
| "parse_digits (c # cs) r =
     (case to_digit c of
        None \<Rightarrow> None
      | Some x \<Rightarrow> if fits 128 (r * 10) \<and> fits 128 (r * 10 + x) then parse_digits cs (r * 10 + x) else None)"

definition parse_u128 :: "string \<Rightarrow> nat option" where
  "parse_u128 s = (let digits = (if s \<noteq> [] \<and> hd s = CHR ''+'' then tl s else s) in
     if digits = [] then None else parse_digits digits 0)"

text \<open>The decimal text of a number, and that it is read back.\<close>

fun decimal :: "nat \<Rightarrow> string" where
  "decimal n = (if n < 10 then [char_of (48 + n)] else decimal (n div 10) @ [char_of (48 + n mod 10)])"

declare decimal.simps [simp del]

lemma to_digit_char [simp]: "d < 10 \<Longrightarrow> to_digit (char_of (48 + d)) = Some d"
  by (simp add: to_digit_def of_char_of Let_def)

lemma parse_digits_append:
  "parse_digits (xs @ ys) r = (case parse_digits xs r of None \<Rightarrow> None | Some q \<Rightarrow> parse_digits ys q)"
  by (induction xs arbitrary: r) (auto split: option.splits)

lemma parse_digits_decimal: "parse_digits (decimal n) 0 = (if fits 128 n then Some n else None)"
proof (induction n rule: decimal.induct)
  case (1 n)
  show ?case
  proof (cases "n < 10")
    case True
    then show ?thesis by (simp add: decimal.simps [of n] fits_def)
  next
    case False
    have eq: "n div 10 * 10 + n mod 10 = n" by simp
    have "fits 128 n \<Longrightarrow> fits 128 (n div 10)" and "fits 128 n \<Longrightarrow> fits 128 (n div 10 * 10)"
      using fits_mono [of 128 n "n div 10"] fits_mono [of 128 n "n div 10 * 10"] by simp_all
    with False "1.IH" eq show ?thesis
      by (simp add: decimal.simps [of n] parse_digits_append)
  qed
qed

lemma decimal_head: "decimal n \<noteq> [] \<and> to_digit (hd (decimal n)) \<noteq> None"
proof (induction n rule: decimal.induct)
  case (1 n)
  then show ?case by (cases "n < 10") (simp_all add: decimal.simps [of n])
qed

lemma parse_u128_decimal: "parse_u128 (decimal n) = (if fits 128 n then Some n else None)"
proof -
  have "to_digit (CHR ''+'') = None" by (simp add: to_digit_def)
  then have "hd (decimal n) \<noteq> CHR ''+''" using decimal_head [of n] by metis
  then show ?thesis using decimal_head [of n] parse_digits_decimal [of n] by (simp add: parse_u128_def)
qed

subsection \<open>The receiver of fungible tokens\<close>

record defi =
  fungible_token_account_id :: account_id

definition BASE_GAS_DEFI :: nat where "BASE_GAS_DEFI = 5000000000000"
definition PROMISE_CALL_DEFI :: nat where "PROMISE_CALL_DEFI = 5000000000000"
definition GAS_FOR_FT_ON_TRANSFER :: nat where
  "GAS_FOR_FT_ON_TRANSFER = BASE_GAS_DEFI + PROMISE_CALL_DEFI"

definition new_defi :: "host \<Rightarrow> account_id \<Rightarrow> defi res" where
  "new_defi e account_id = bindE (ensure (\<not> env_state_exists e) ''Already initialized'') (\<lambda>_.
     Inr \<lparr>fungible_token_account_id = account_id\<rparr>)"

definition ft_on_transfer ::
  "host \<Rightarrow> account_id \<Rightarrow> nat \<Rightarrow> string \<Rightarrow> defi \<Rightarrow> (receiver_call, nat) answer res" where
  "ft_on_transfer e sender_id amount msg d =
     bindE (ensure (env_predecessor_account_id e = fungible_token_account_id d)
       ''Only supports the one fungible token contract'') (\<lambda>_.
     if msg = ''take-my-money'' then Inr (Answered 0)
     else
       let prepaid_gas = env_prepaid_gas e; account_id = env_current_account_id e in
       Inr (Promised (Promise account_id
         [FunctionCall (Value_please msg) 0 (sat_sub prepaid_gas GAS_FOR_FT_ON_TRANSFER)])))"

definition value_please :: "string \<Rightarrow> (receiver_call, nat) answer res" where
  "value_please amount_to_return =
     bindE (expect (parse_u128 amount_to_return) ''Not an integer'') (\<lambda>amount. Inr (Answered amount))"

subsection \<open>The receiver of non-fungible tokens\<close>

record token_receiver =
  receiver_nft_account_id :: account_id

definition GAS_FOR_NFT_ON_TRANSFER :: nat where "GAS_FOR_NFT_ON_TRANSFER = 10000000000000"

definition new_token_receiver :: "host \<Rightarrow> account_id \<Rightarrow> token_receiver res" where
  "new_token_receiver e account_id = bindE (init_call e) (\<lambda>_. Inr \<lparr>receiver_nft_account_id = account_id\<rparr>)"

definition nft_on_transfer ::
  "host \<Rightarrow> account_id \<Rightarrow> account_id \<Rightarrow> string \<Rightarrow> string \<Rightarrow> token_receiver \<Rightarrow> (receiver_call, bool) answer res" where
  "nft_on_transfer e sender_id previous_owner_id token_id msg r =
     bindE (ensure (env_predecessor_account_id e = receiver_nft_account_id r)
       ''Only supports the one non-fungible token contract'') (\<lambda>_.
     let later = (\<lambda>b. Promised (Promise (env_current_account_id e)
           [FunctionCall (Ok_go b) 0 (sat_sub (env_prepaid_gas e) GAS_FOR_NFT_ON_TRANSFER)])) in
     if msg = ''return-it-now'' then Inr (Answered True)
     else if msg = ''return-it-later'' then Inr (later True)
     else if msg = ''keep-it-now'' then Inr (Answered False)
     else if msg = ''keep-it-later'' then Inr (later False)
     else Inl (Panic ''unsupported msg''))"

definition ok_go :: "bool \<Rightarrow> (receiver_call, bool) answer" where
  "ok_go return_it = Answered return_it"

subsection \<open>The receiver of approvals\<close>

record approval_receiver =
  approval_nft_account_id :: account_id

definition GAS_FOR_NFT_ON_APPROVE :: nat where "GAS_FOR_NFT_ON_APPROVE = 10000000000000"

definition new_approval_receiver :: "host \<Rightarrow> account_id \<Rightarrow> approval_receiver res" where
  "new_approval_receiver e account_id = bindE (init_call e) (\<lambda>_. Inr \<lparr>approval_nft_account_id = account_id\<rparr>)"

definition nft_on_approve ::
  "host \<Rightarrow> string \<Rightarrow> account_id \<Rightarrow> nat \<Rightarrow> string \<Rightarrow> approval_receiver \<Rightarrow> (receiver_call, string) answer res" where
  "nft_on_approve e token_id owner_id approval_id msg r =
     bindE (ensure (env_predecessor_account_id e = approval_nft_account_id r)
       ''Only supports the one non-fungible token contract'') (\<lambda>_.
     if msg = ''return-now'' then Inr (Answered ''cool'')
     else
       let prepaid_gas = env_prepaid_gas e; account_id = env_current_account_id e in
       Inr (Promised (Promise account_id
         [FunctionCall (Ok_go_msg msg) 0 (sat_sub prepaid_gas GAS_FOR_NFT_ON_APPROVE)])))"

definition ok_go_approval :: "string \<Rightarrow> (receiver_call, string) answer" where
  "ok_go_approval msg = Answered msg"

subsection \<open>The answer that the token contract finally gets\<close>

text \<open>
  \<open>resolved e run ans\<close>: a value is the answer itself; a promise is resolved by running the one call
  of the receiver to itself, which \<open>run\<close> does. Any other promise has no answer.
\<close>

fun resolved :: "host \<Rightarrow> (receiver_call \<Rightarrow> (receiver_call, 'v) answer res) \<Rightarrow> (receiver_call, 'v) answer \<Rightarrow> 'v res" where
  "resolved e run (Answered v) = Inr v"
| "resolved e run (Promised (Promise r [FunctionCall c dep g])) =
     (if r = env_current_account_id e
      then bindE (run c) (\<lambda>ans. case ans of Answered v \<Rightarrow> Inr v | Promised p \<Rightarrow> Inl (Unreachable ''nested promise''))
      else Inl (Unreachable ''not a call of the contract to itself''))"
| "resolved e run _ = Inl (Unreachable ''not a call'')"

fun run_defi :: "receiver_call \<Rightarrow> (receiver_call, nat) answer res" where
  "run_defi (Value_please s) = value_please s"
| "run_defi _ = Inl (Panic ''MethodNotFound'')"

fun run_token_receiver :: "receiver_call \<Rightarrow> (receiver_call, bool) answer res" where
  "run_token_receiver (Ok_go b) = Inr (ok_go b)"
| "run_token_receiver _ = Inl (Panic ''MethodNotFound'')"

fun run_approval_receiver :: "receiver_call \<Rightarrow> (receiver_call, string) answer res" where
  "run_approval_receiver (Ok_go_msg m) = Inr (ok_go_approval m)"
| "run_approval_receiver _ = Inl (Panic ''MethodNotFound'')"

lemma decimal_not_text: "decimal n \<noteq> ''take-my-money''"
proof
  assume "decimal n = ''take-my-money''"
  with decimal_head [of n] show False by (simp add: to_digit_def)
qed

subsection \<open>Properties\<close>

text \<open>
  The receiver of fungible tokens returns the amount it was asked to return: called by its token
  contract with the decimal text of any number as the message, \<open>ft_on_transfer\<close> and the call to itself that it
  makes finally answer with this number if it fits 128 bits, and fail otherwise; with \<open>take-my-money\<close> the
  answer is 0; called by anyone else it panics at once.
\<close>

theorem defi_returns_the_requested_amount:
  "bindE (ft_on_transfer e sender amount (decimal n) d) (resolved e run_defi)
     = (if env_predecessor_account_id e \<noteq> fungible_token_account_id d
        then Inl (Panic ''Only supports the one fungible token contract'')
        else if n < 2 ^ 128 then Inr n else Inl (Panic ''Not an integer''))
   \<and> bindE (ft_on_transfer e sender amount ''take-my-money'' d) (resolved e run_defi)
     = (if env_predecessor_account_id e \<noteq> fungible_token_account_id d
        then Inl (Panic ''Only supports the one fungible token contract'') else Inr 0)"
proof -
  have "value_please (decimal n) = (if n < 2 ^ 128 then Inr (Answered n) else Inl (Panic ''Not an integer''))"
    by (simp add: value_please_def parse_u128_decimal fits_def)
  then show ?thesis
    by (cases "env_predecessor_account_id e = fungible_token_account_id d")
      (simp_all add: ft_on_transfer_def ensure_def decimal_not_text Let_def)
qed

text \<open>
  The receiver of non-fungible tokens decides as its message says: of the four messages, the two
  \<open>return\<close> ones finally answer true and the two \<open>keep\<close> ones false, whether now or through a call to
  itself; every other message, and every other caller than its token contract, makes it panic,
  so that the token goes back.
\<close>

theorem token_receiver_decides:
  "bindE (nft_on_transfer e sender previous token_id msg r) (resolved e run_token_receiver)
     = (if env_predecessor_account_id e \<noteq> receiver_nft_account_id r
        then Inl (Panic ''Only supports the one non-fungible token contract'')
        else case map_of [(''return-it-now'', True), (''return-it-later'', True),
                          (''keep-it-now'', False), (''keep-it-later'', False)] msg of
          Some b \<Rightarrow> Inr b
        | None \<Rightarrow> Inl (Panic ''unsupported msg''))"
proof (cases "env_predecessor_account_id e = receiver_nft_account_id r")
  case True
  consider "msg = ''return-it-now''" | "msg = ''return-it-later''" | "msg = ''keep-it-now''"
    | "msg = ''keep-it-later''"
    | "msg \<noteq> ''return-it-now''" "msg \<noteq> ''return-it-later''" "msg \<noteq> ''keep-it-now''" "msg \<noteq> ''keep-it-later''"
    by blast
  then show ?thesis using True by cases (simp_all add: nft_on_transfer_def ok_go_def Let_def)
qed (simp add: nft_on_transfer_def ensure_def)

text \<open>The receiver of approvals answers \<open>cool\<close> or, later, its message.\<close>

lemma approval_receiver_answers:
  "bindE (nft_on_approve e token_id owner_id approval_id msg r) (resolved e run_approval_receiver)
     = (if env_predecessor_account_id e \<noteq> approval_nft_account_id r
        then Inl (Panic ''Only supports the one non-fungible token contract'')
        else Inr (if msg = ''return-now'' then ''cool'' else msg))"
  by (simp add: nft_on_approve_def ok_go_approval_def ensure_def Let_def)

end
