(* ===== verification/StateManipulation.thy ===== *)
theory StateManipulation
  imports Host
begin

section \<open>Raw access to the storage (\<open>state-manipulation/src/lib.rs\<close>)\<close>

text \<open>
  A contract without a state of its own, which is deployed over another one to repair its storage:
  \<open>replace\<close> writes the key-value pairs that are given in base64, \<open>clean\<close> removes keys. It calls the
  host functions of \<open>unc_sys\<close> directly. They are not part of the repository, and neither are the
  JSON parser and the base64 decoder: the record \<open>sys\<close> and the arguments \<open>parse\<close> and \<open>decode\<close> stand
  for them. \<open>sys_laws\<close> states what the code relies on: the storage is a map from keys to values
  that only the two storage functions change, and \<open>input\<close> copies the arguments of the call to a
  register.
\<close>

subsection \<open>The host functions\<close>

record 's sys =
  sys_input :: "nat \<Rightarrow> 's \<Rightarrow> 's"
  sys_register_len :: "nat \<Rightarrow> 's \<Rightarrow> nat"
  sys_read_register :: "nat \<Rightarrow> 's \<Rightarrow> bytes"
  sys_storage_write :: "bytes \<Rightarrow> bytes \<Rightarrow> nat \<Rightarrow> 's \<Rightarrow> 's"
  sys_storage_remove :: "bytes \<Rightarrow> nat \<Rightarrow> 's \<Rightarrow> 's"

definition sys_laws :: "'s sys \<Rightarrow> ('s \<Rightarrow> bytes \<rightharpoonup> bytes) \<Rightarrow> ('s \<Rightarrow> bytes) \<Rightarrow> bool" where
  "sys_laws sys store args \<longleftrightarrow>
     (\<forall>r s. store (sys_input sys r s) = store s)
     \<and> (\<forall>r s. sys_register_len sys r (sys_input sys r s) = length (args s))
     \<and> (\<forall>r s. sys_read_register sys r (sys_input sys r s) = args s)
     \<and> (\<forall>k v r s. store (sys_storage_write sys k v r s) = (store s)(k \<mapsto> v))
     \<and> (\<forall>k r s. store (sys_storage_remove sys k r s) = (store s)(k := None))"

subsection \<open>The contract\<close>

definition ATOMIC_OP_REGISTER :: nat where "ATOMIC_OP_REGISTER = 0"
definition EVICTED_REGISTER :: nat where "EVICTED_REGISTER = 8"

definition register_len :: "'s sys \<Rightarrow> nat \<Rightarrow> 's \<Rightarrow> nat option" where
  "register_len sys register_id s =
     (let len = sys_register_len sys register_id s in
      if len = max_of 64 then None else Some len)"

definition storage_write :: "'s sys \<Rightarrow> bytes \<Rightarrow> bytes \<Rightarrow> 's \<Rightarrow> 's" where
  "storage_write sys key val s = sys_storage_write sys key val EVICTED_REGISTER s"

definition storage_remove :: "'s sys \<Rightarrow> bytes \<Rightarrow> 's \<Rightarrow> 's" where
  "storage_remove sys key s = sys_storage_remove sys key EVICTED_REGISTER s"

text \<open>The host overwrites the front of the zeroed buffer with the contents of the register.\<close>

definition input_bytes :: "'s sys \<Rightarrow> 's \<Rightarrow> bytes option \<times> 's" where
  "input_bytes sys s =
     (let s = sys_input sys ATOMIC_OP_REGISTER s in
      case register_len sys ATOMIC_OP_REGISTER s of
        None \<Rightarrow> (None, s)
      | Some len \<Rightarrow>
          (let buffer = replicate len 0; contents = sys_read_register sys ATOMIC_OP_REGISTER s
           in (Some (contents @ drop (length contents) buffer), s)))"

definition replace_entry ::
  "'s sys \<Rightarrow> (string \<Rightarrow> bytes option) \<Rightarrow> string \<times> string \<Rightarrow> 's \<Rightarrow> 's res" where
  "replace_entry sys decode entry s =
     bindE (unwrap (decode (fst entry))) (\<lambda>key.
     bindE (unwrap (decode (snd entry))) (\<lambda>val.
     Inr (storage_write sys key val s)))"

definition replace ::
  "'s sys \<Rightarrow> (bytes \<Rightarrow> (string \<times> string) list option) \<Rightarrow> (string \<Rightarrow> bytes option) \<Rightarrow> 's \<Rightarrow> 's res" where
  "replace sys parse decode s =
     (let (inp, s) = input_bytes sys s in
      bindE (unwrap inp) (\<lambda>inp.
      bindE (unwrap (parse inp)) (\<lambda>entries.
      foldE (replace_entry sys decode) entries s)))"

definition clean_key :: "'s sys \<Rightarrow> (string \<Rightarrow> bytes option) \<Rightarrow> string \<Rightarrow> 's \<Rightarrow> 's res" where
  "clean_key sys decode key s = bindE (unwrap (decode key)) (\<lambda>key. Inr (storage_remove sys key s))"

definition clean ::
  "'s sys \<Rightarrow> (bytes \<Rightarrow> string list option) \<Rightarrow> (string \<Rightarrow> bytes option) \<Rightarrow> 's \<Rightarrow> 's res" where
  "clean sys parse decode s =
     (let (inp, s) = input_bytes sys s in
      bindE (unwrap inp) (\<lambda>inp.
      bindE (unwrap (parse inp)) (\<lambda>ks.
      foldE (clean_key sys decode) ks s)))"

subsection \<open>What the calls do to the storage\<close>

lemma input_bytes_args:
  assumes "sys_laws sys store args" and "length (args s) < max_of 64"
  obtains s' where "input_bytes sys s = (Some (args s), s')" and "store s' = store s"
  using assms by (simp add: sys_laws_def input_bytes_def register_len_def)

text \<open>The pairs that a list of entries denotes, if all of them decode.\<close>

definition decoded :: "(string \<Rightarrow> bytes option) \<Rightarrow> (string \<times> string) list \<Rightarrow> (bytes \<times> bytes) list option" where
  "decoded decode entries =
     (if \<forall>(k, v) \<in> set entries. decode k \<noteq> None \<and> decode v \<noteq> None
      then Some (map (\<lambda>(k, v). (the (decode k), the (decode v))) entries) else None)"

lemma decoded_simps [simp]:
  "decoded decode [] = Some []"
  "decoded decode ((k, v) # es) = (case decode k of None \<Rightarrow> None | Some k' \<Rightarrow>
     (case decode v of None \<Rightarrow> None | Some v' \<Rightarrow> map_option ((#) (k', v')) (decoded decode es)))"
  by (auto simp: decoded_def split: option.splits)

lemma replace_entry_simps:
  "decode k = Some k' \<Longrightarrow> decode v = Some v' \<Longrightarrow>
     replace_entry sys decode (k, v) s = Inr (storage_write sys k' v' s)"
  "decode k = None \<or> decode v = None \<Longrightarrow> replace_entry sys decode (k, v) s = Inl Unwrap_none"
  by (auto simp: replace_entry_def unwrap_def split: option.splits)

lemma clean_key_Some: "decode k = Some k' \<Longrightarrow> clean_key sys decode k s = Inr (storage_remove sys k' s)"
  by (simp add: clean_key_def)

text \<open>The loop of \<open>replace\<close>: later entries win, and it panics exactly if some entry does not decode.\<close>

lemma replace_entries:
  assumes "sys_laws sys store args"
  shows "case decoded decode es of
      None \<Rightarrow> foldE (replace_entry sys decode) es s = Inl Unwrap_none
    | Some kvs \<Rightarrow> \<exists>t. foldE (replace_entry sys decode) es s = Inr t \<and> store t = store s ++ map_of (rev kvs)"
proof (induction es arbitrary: s)
  case (Cons p es)
  obtain k v where p: "p = (k, v)" by fastforce
  have step: "store (storage_write sys k' v' s) = (store s)(k' \<mapsto> v')" for k' v'
    using assms by (simp add: sys_laws_def storage_write_def)
  show ?case
  proof (cases "decode k = None \<or> decode v = None")
    case True
    then show ?thesis by (auto simp: p replace_entry_simps(2) split: option.splits)
  next
    case False
    then obtain k' v' where "decode k = Some k'" "decode v = Some v'" by auto
    then show ?thesis using Cons.IH [of "storage_write sys k' v' s"] step [of k' v']
      by (auto simp: p replace_entry_simps(1) map_add_upd_left [symmetric] simp del: fun_upd_apply
          split: option.splits)
  qed
qed simp

lemma clean_keys:
  assumes "sys_laws sys store args" and "\<forall>k \<in> set ks. decode k \<noteq> None"
  shows "\<exists>t. foldE (clean_key sys decode) ks s = Inr t
    \<and> store t = store s |` (- (the \<circ> decode) ` set ks)"
  using assms(2)
proof (induction ks arbitrary: s)
  case (Cons k ks)
  then obtain k' where k: "decode k = Some k'" by auto
  have step: "store (storage_remove sys k' s) = (store s)(k' := None)"
    using assms(1) by (simp add: sys_laws_def storage_remove_def)
  from Cons obtain t where "foldE (clean_key sys decode) ks (storage_remove sys k' s) = Inr t"
      "store t = store (storage_remove sys k' s) |` (- (the \<circ> decode) ` set ks)"
    by fastforce
  then show ?case by (auto simp: k step clean_key_Some restrict_map_def fun_eq_iff)
qed (simp add: restrict_map_def)

text \<open>
  \<open>replace\<close> is all or nothing: it returns exactly if the arguments parse and every entry decodes.
\<close>

lemma replace_returns:
  assumes "sys_laws sys store args" and "length (args s) < max_of 64" and "parse (args s) = Some es"
  shows "case decoded decode es of
      None \<Rightarrow> replace sys parse decode s = Inl Unwrap_none
    | Some kvs \<Rightarrow> \<exists>t. replace sys parse decode s = Inr t \<and> store t = store s ++ map_of (rev kvs)"
proof -
  obtain s' where "input_bytes sys s = (Some (args s), s')" and "store s' = store s"
    using input_bytes_args [OF assms(1,2)] .
  then show ?thesis
    using replace_entries [OF assms(1), of decode es s'] assms(3)
    by (auto simp: replace_def split: option.splits)
qed

lemma clean_returns:
  assumes "sys_laws sys store args" and "length (args s) < max_of 64" and "parse (args s) = Some ks"
    and "\<forall>k \<in> set ks. decode k \<noteq> None"
  shows "\<exists>t. clean sys parse decode s = Inr t \<and> store t = store s |` (- (the \<circ> decode) ` set ks)"
proof -
  obtain s' where "input_bytes sys s = (Some (args s), s')" and "store s' = store s"
    using input_bytes_args [OF assms(1,2)] .
  then show ?thesis using clean_keys [OF assms(1,4), of s'] assms(3) by (auto simp: clean_def)
qed

lemma decoded_encoded:
  assumes "\<And>b. decode (encode b) = Some b"
  shows "decoded decode (map (\<lambda>(k, v). (encode k, encode v)) kvs) = Some kvs"
  using assms by (induction kvs) auto

subsection \<open>Properties\<close>

text \<open>
  C30. \<open>replace\<close> and then \<open>clean\<close>, as the test of the contract does it: called with the base64 texts of
  any list of pairs, \<open>replace\<close> succeeds and the storage then has the last value given for
  each key and is otherwise as before; \<open>clean\<close>, called with the texts of the same keys on a storage that is
  still the same, succeeds and leaves the storage of the beginning without these keys, which is the storage of the
  beginning if none of the keys was in it. (The hypotheses: the host functions do what they
  document, decoding inverts encoding, the arguments are parsed as written, and they are shorter
  than \<open>2^64-1\<close> bytes.)
\<close>

theorem clean_undoes_replace:
  assumes "sys_laws sys store args" and "\<forall>b. decode (encode b) = Some b"
    and "length (args s) < max_of 64"
    and "parse_replace (args s) = Some (map (\<lambda>(k, v). (encode k, encode v)) kvs)"
    and "length (args u) < max_of 64"
    and "parse_clean (args u) = Some (map (encode \<circ> fst) kvs)"
    and "\<forall>t. replace sys parse_replace decode s = Inr t \<longrightarrow> store u = store t"
  shows "\<exists>t w. replace sys parse_replace decode s = Inr t
    \<and> store t = store s ++ map_of (rev kvs)
    \<and> clean sys parse_clean decode u = Inr w
    \<and> store w = store s |` (- fst ` set kvs)
    \<and> (dom (store s) \<inter> fst ` set kvs = {} \<longrightarrow> store w = store s)"
proof -
  obtain t where t: "replace sys parse_replace decode s = Inr t" "store t = store s ++ map_of (rev kvs)"
    using replace_returns [of sys store args s parse_replace "map (\<lambda>(k, v). (encode k, encode v)) kvs" decode] assms(1,3,4) assms(2) by (auto simp: decoded_encoded)
  obtain w where w: "clean sys parse_clean decode u = Inr w"
      "store w = store u |` (- (the \<circ> decode) ` set (map (encode \<circ> fst) kvs))"
    using clean_returns [of sys store args u parse_clean "map (encode \<circ> fst) kvs" decode] assms(1,5,6) assms(2) by auto
  have ks: "(the \<circ> decode) ` set (map (encode \<circ> fst) kvs) = fst ` set kvs"
    using assms(2) by (force simp: image_iff)
  have "map_of (rev kvs) x = None" if "x \<notin> fst ` set kvs" for x
    using that by (simp add: map_of_eq_None_iff)
  then have sw: "store w = store s |` (- fst ` set kvs)"
    using w(2) t assms(7) unfolding ks
    by (auto simp: restrict_map_def fun_eq_iff map_add_def)
  moreover have "store w = store s" if "dom (store s) \<inter> fst ` set kvs = {}"
  proof -
    have "store s x = None" if "x \<in> fst ` set kvs" for x
      using that \<open>dom (store s) \<inter> fst ` set kvs = {}\<close> by blast
    then show ?thesis unfolding sw by (simp add: restrict_map_def fun_eq_iff)
  qed
  ultimately show ?thesis using t w(1) by blast
qed

text \<open>
  The example: a machine with registers, a storage and the arguments of the running call, and an
  encoding of bytes as characters.
\<close>

record machine =
  mem_registers :: "nat \<Rightarrow> bytes"
  mem_storage :: "bytes \<rightharpoonup> bytes"
  mem_args :: bytes

definition sample_sys :: "machine sys" where
  "sample_sys = \<lparr>
     sys_input = (\<lambda>r m. m\<lparr>mem_registers := (mem_registers m)(r := mem_args m)\<rparr>),
     sys_register_len = (\<lambda>r m. length (mem_registers m r)),
     sys_read_register = (\<lambda>r m. mem_registers m r),
     sys_storage_write = (\<lambda>k v r m. m\<lparr>mem_storage := (mem_storage m)(k \<mapsto> v),
        mem_registers := (mem_registers m)(r := (case mem_storage m k of None \<Rightarrow> [] | Some b \<Rightarrow> b))\<rparr>),
     sys_storage_remove = (\<lambda>k r m. m\<lparr>mem_storage := (mem_storage m)(k := None),
        mem_registers := (mem_registers m)(r := (case mem_storage m k of None \<Rightarrow> [] | Some b \<Rightarrow> b))\<rparr>) \<rparr>"

lemma sample_sys_laws: "sys_laws sample_sys mem_storage mem_args"
  by (simp add: sys_laws_def sample_sys_def)

definition sample_encode :: "bytes \<Rightarrow> string" where
  "sample_encode b = map (\<lambda>w. char_of (unat w)) b"

definition sample_decode :: "string \<Rightarrow> bytes option" where
  "sample_decode cs = Some (map (\<lambda>c. word_of_nat (of_char c)) cs)"

lemma sample_decode_encode: "sample_decode (sample_encode b) = Some b"
proof -
  have "word_of_nat (of_char (char_of (unat w))) = w" for w :: "8 word"
    using unsigned_less [of w, where ?'a = nat] by (simp add: of_char_of)
  then show ?thesis by (simp add: sample_decode_def sample_encode_def comp_def)
qed

definition sample_machine :: machine where
  "sample_machine = \<lparr>mem_registers = (\<lambda>_. []), mem_storage = [[9] \<mapsto> [9]], mem_args = [1]\<rparr>"

theorem clean_undoes_replace_witness:
  "\<exists>t w parse_r parse_c.
     replace sample_sys parse_r sample_decode sample_machine = Inr t
     \<and> mem_storage t [5] = Some [7] \<and> mem_storage t [9] = Some [9]
     \<and> clean sample_sys parse_c sample_decode
         (sample_machine\<lparr>mem_storage := mem_storage t, mem_args := [2]\<rparr>) = Inr w
     \<and> mem_storage w = mem_storage sample_machine"
proof -
  let ?kvs = "[([5], [6]), ([5], [7])] :: (bytes \<times> bytes) list"
  let ?pr = "\<lambda>_. Some (map (\<lambda>(k, v). (sample_encode k, sample_encode v)) ?kvs)"
  let ?pc = "\<lambda>_. Some (map (sample_encode \<circ> fst) ?kvs)"
  obtain t where t: "replace sample_sys ?pr sample_decode sample_machine = Inr t"
    using replace_returns [OF sample_sys_laws, of sample_machine ?pr _ sample_decode]
    by (auto simp: sample_machine_def max_of_def sample_decode_encode)
  let ?u = "sample_machine\<lparr>mem_storage := mem_storage t, mem_args := [2]\<rparr>"
  obtain w where w: "clean sample_sys ?pc sample_decode ?u = Inr w"
      "mem_storage w = mem_storage sample_machine"
      and t': "mem_storage t = mem_storage sample_machine ++ map_of (rev ?kvs)"
    using clean_undoes_replace [OF sample_sys_laws, of sample_decode sample_encode sample_machine ?pr ?kvs ?u ?pc] t
    by (auto simp: sample_decode_encode sample_machine_def max_of_def)
  have "mem_storage t [5] = Some [7] \<and> mem_storage t [9] = Some [9]"
    by (simp add: t' sample_machine_def)
  with t w show ?thesis by blast
qed

end
