(* ===== verification/HelloUtility.thy ===== *)
theory HelloUtility
  imports Host
begin

section \<open>The hello contract (\<open>hello-utility/src/lib.rs\<close>)\<close>

text \<open>
  A contract that shows the SDK's features: a greeting that everyone may set, calls of other
  contracts, and the creation and deletion of accounts. The state is \<open>hello\<close>; the suffix \<open>_hello\<close> marks
  methods that other contracts have as well. \<open>parse().unwrap()\<close> of an account ID panics when the
  host does not accept the text. The prefix of a sub-account is concatenated with a dot and the
  contract's ID.
\<close>

subsection \<open>State and constants\<close>

record hello =
  greeting :: string
  beneficiary :: account_id
  donations :: "account_id \<rightharpoonup> nat"

text \<open>The JSON arguments of a remote call are their names with their values.\<close>

type_synonym json_args = "(string \<times> string) list"

datatype hello_call =
    Set_greeting_remote json_args
  | Callback_hello
  | Create_account_remote json_args

definition DEFAULT_MESSAGE :: string where "DEFAULT_MESSAGE = ''Hello''"
definition HELLO_UTILITY :: string where "HELLO_UTILITY = ''hello-account''"
definition NO_DEPOSIT_HELLO :: nat where "NO_DEPOSIT_HELLO = 0"
definition CALL_GAS :: nat where "CALL_GAS = 100000000000000"
definition MIN_STORAGE :: nat where "MIN_STORAGE = 100000000000000000000000"

definition default_hello :: "host \<Rightarrow> hello res" where
  "default_hello e = bindE (unwrap (env_parse_account_id e ''unc'')) (\<lambda>b.
     Inr \<lparr>greeting = DEFAULT_MESSAGE, beneficiary = b, donations = Map.empty\<rparr>)"

definition new_hello :: "host \<Rightarrow> account_id \<Rightarrow> hello res" where
  "new_hello e b = bindE (private_call e) (\<lambda>_. bindE (init_call e) (\<lambda>_.
     Inr \<lparr>greeting = ''hala'', beneficiary = b, donations = Map.empty\<rparr>))"

subsection \<open>The greeting\<close>

definition get_greeting :: "hello \<Rightarrow> string" where
  "get_greeting h = greeting h"

definition set_greeting :: "string \<Rightarrow> hello \<Rightarrow> hello" where
  "set_greeting g h = h\<lparr>greeting := g\<rparr>"

subsection \<open>Calls of other contracts\<close>

definition call_method :: "host \<Rightarrow> hello_call promise res" where
  "call_method e =
     bindE (unwrap (env_parse_account_id e HELLO_UTILITY)) (\<lambda>other.
     Inr (Then (Promise other [FunctionCall (Set_greeting_remote [(''message'', ''howdy'')]) NO_DEPOSIT_HELLO CALL_GAS])
               (Promise (env_current_account_id e) [FunctionCall Callback_hello NO_DEPOSIT_HELLO CALL_GAS])))"

definition callback_hello :: "host \<Rightarrow> unit res" where
  "callback_hello e = private_call e"

definition set_owner_hello :: "host \<Rightarrow> unit res" where
  "set_owner_hello e = private_call e"

definition deposit_and_stake_hello :: "hello \<Rightarrow> hello" where
  "deposit_and_stake_hello h = h"

subsection \<open>Accounts\<close>

definition transfer_hello :: "account_id \<Rightarrow> nat \<Rightarrow> hello_call promise" where
  "transfer_hello receiver amount = Promise receiver [Transfer amount]"

definition sub_account :: "host \<Rightarrow> string \<Rightarrow> account_id res" where
  "sub_account e pref = unwrap (env_parse_account_id e (pref @ ''.'' @ env_current_account_id e))"

definition create_sub_account :: "host \<Rightarrow> string \<Rightarrow> hello_call promise res" where
  "create_sub_account e pref = bindE (sub_account e pref) (\<lambda>a.
     Inr (Promise a [CreateAccount, Transfer MIN_STORAGE]))"

definition create_hello :: "host \<Rightarrow> string \<Rightarrow> public_key \<Rightarrow> hello_call promise res" where
  "create_hello e pref pk = bindE (sub_account e pref) (\<lambda>a.
     Inr (Promise a [CreateAccount, Transfer MIN_STORAGE, AddFullAccessKey pk]))"

definition create_other_account :: "host \<Rightarrow> string \<Rightarrow> string \<Rightarrow> hello_call promise res" where
  "create_other_account e account_id pk =
     bindE (unwrap (env_parse_account_id e ''testnet'')) (\<lambda>root.
     Inr (Promise root [FunctionCall (Create_account_remote
       [(''new_account_id'', account_id), (''new_public_key'', pk)]) MIN_STORAGE CALL_GAS]))"

definition create_delete :: "host \<Rightarrow> string \<Rightarrow> account_id \<Rightarrow> hello_call promise res" where
  "create_delete e pref b = bindE (sub_account e pref) (\<lambda>a.
     Inr (Promise a [CreateAccount, Transfer MIN_STORAGE, DeleteAccount b]))"

definition self_delete :: "host \<Rightarrow> account_id \<Rightarrow> hello_call promise" where
  "self_delete e b = Promise (env_current_account_id e) [DeleteAccount b]"

subsection \<open>Calls as messages\<close>

datatype hello_msg =
    H_set_greeting string
  | H_call_method
  | H_callback
  | H_set_owner
  | H_deposit_and_stake
  | H_transfer account_id nat
  | H_create_sub_account string
  | H_create_hello string public_key
  | H_create_other_account string string
  | H_create_delete string account_id
  | H_self_delete account_id

fun hello_exec :: "host \<Rightarrow> hello_msg \<Rightarrow> hello \<Rightarrow> (hello \<times> hello_call promise list) res" where
  "hello_exec e (H_set_greeting g) h = Inr (set_greeting g h, [])"
| "hello_exec e H_call_method h = bindE (call_method e) (\<lambda>p. Inr (h, [p]))"
| "hello_exec e H_callback h = bindE (callback_hello e) (\<lambda>_. Inr (h, []))"
| "hello_exec e H_set_owner h = bindE (set_owner_hello e) (\<lambda>_. Inr (h, []))"
| "hello_exec e H_deposit_and_stake h = Inr (deposit_and_stake_hello h, [])"
| "hello_exec e (H_transfer a n) h = Inr (h, [transfer_hello a n])"
| "hello_exec e (H_create_sub_account p) h = bindE (create_sub_account e p) (\<lambda>p. Inr (h, [p]))"
| "hello_exec e (H_create_hello p pk) h = bindE (create_hello e p pk) (\<lambda>p. Inr (h, [p]))"
| "hello_exec e (H_create_other_account a pk) h = bindE (create_other_account e a pk) (\<lambda>p. Inr (h, [p]))"
| "hello_exec e (H_create_delete p b) h = bindE (create_delete e p b) (\<lambda>p. Inr (h, [p]))"
| "hello_exec e (H_self_delete b) h = Inr (h, [self_delete e b])"

subsection \<open>Properties\<close>

text \<open>What a history leaves as the greeting: the text of the last \<open>set_greeting\<close>, else the first one.\<close>

fun last_greeting :: "string \<Rightarrow> (host \<times> hello_msg) list \<Rightarrow> string" where
  "last_greeting g [] = g"
| "last_greeting g ((e, m) # ms) = last_greeting (case m of H_set_greeting g' \<Rightarrow> g' | _ \<Rightarrow> g) ms"

definition hello_step :: "host \<times> hello_msg \<Rightarrow> hello \<Rightarrow> hello res" where
  "hello_step em h = bindE (hello_exec (fst em) (snd em) h) (\<lambda>r. Inr (fst r))"

lemma hello_step_keeps:
  assumes "hello_step (e, m) h = Inr h'"
  shows "h' = h\<lparr>greeting := (case m of H_set_greeting g \<Rightarrow> g | _ \<Rightarrow> greeting h)\<rparr>"
  using assms by (cases m) (auto simp: hello_step_def set_greeting_def deposit_and_stake_hello_def)

text \<open>
  \<open>get_greeting\<close> returns what the last accepted \<open>set_greeting\<close> stored, whoever called it and whatever
  other calls were made in between, and the greeting of the beginning if there was none;
  no call changes another field.
\<close>

theorem greeting_is_the_last_one_set:
  assumes "foldE hello_step calls h = Inr h'"
  shows "get_greeting h' = last_greeting (get_greeting h) calls
    \<and> beneficiary h' = beneficiary h \<and> donations h' = donations h"
  using assms
proof (induction calls arbitrary: h)
  case (Cons c calls)
  obtain e m where c: "c = (e, m)" by fastforce
  from Cons.prems obtain u where u: "hello_step (e, m) h = Inr u" "foldE hello_step calls u = Inr h'"
    by (auto simp: c)
  from Cons.IH [OF u(2)] hello_step_keeps [OF u(1)] show ?case
    by (cases m) (auto simp: c get_greeting_def)
qed simp

theorem greeting_is_the_last_one_set_witness:
  "\<exists>h. foldE hello_step [(sample_host, H_set_greeting ''howdy''), (sample_host, H_call_method),
        (sample_host, H_transfer ''bob'' 5)] \<lparr>greeting = ''Hello'', beneficiary = ''unc'', donations = Map.empty\<rparr>
      = Inr h \<and> get_greeting h = ''howdy''"
proof -
  let ?calls = "[(sample_host, H_set_greeting ''howdy''), (sample_host, H_call_method),
      (sample_host, H_transfer ''bob'' 5)]"
  let ?h = "\<lparr>greeting = ''Hello'', beneficiary = ''unc'', donations = Map.empty\<rparr>"
  obtain h where h: "foldE hello_step ?calls ?h = Inr h"
    by (simp add: hello_step_def call_method_def set_greeting_def)
  from greeting_is_the_last_one_set [OF h, THEN conjunct1] have "get_greeting h = ''howdy''" by simp
  with h show ?thesis by blast
qed

text \<open>
  Nothing protects the account: whoever calls, a transfer of any amount to any account, and the
  deletion of the contract's account in favour of any account, are accepted and sent.
\<close>

lemma anyone_may_empty_the_account:
  "hello_exec e (H_transfer a n) h = Inr (h, [Promise a [Transfer n]])"
  "hello_exec e (H_self_delete b) h = Inr (h, [Promise (env_current_account_id e) [DeleteAccount b]])"
  by (simp_all add: transfer_hello_def self_delete_def)

text \<open>
  The remote call of \<open>call_method\<close> can not succeed on a contract like this one: the arguments that
  it sends name the greeting \<open>message\<close>, but the parameter of \<open>set_greeting\<close> is called \<open>greeting\<close>. \<open>receive_set_greeting\<close>
  is what the bindings of the method do with JSON arguments.
\<close>

definition receive_set_greeting :: "json_args \<Rightarrow> hello \<Rightarrow> hello res" where
  "receive_set_greeting args h =
     bindE (expect (map_of args ''greeting'') ''Failed to deserialize input from JSON.'') (\<lambda>g.
     Inr (set_greeting g h))"

lemma call_method_never_greets:
  assumes "call_method e = Inr p"
  shows "\<exists>other args cb. p = Then (Promise other [FunctionCall (Set_greeting_remote args) 0 CALL_GAS]) cb
    \<and> (\<forall>h. \<not> returns (receive_set_greeting args h))"
  using assms by (auto simp: call_method_def receive_set_greeting_def NO_DEPOSIT_HELLO_def)

text \<open>A sub-account costs the contract exactly \<open>MIN_STORAGE\<close>; the gas of \<open>call_method\<close> is twice \<open>CALL_GAS\<close>.\<close>

lemma hello_promises:
  "create_sub_account e p = Inr q \<Longrightarrow> promise_tokens q = MIN_STORAGE"
  "create_hello e p pk = Inr q \<Longrightarrow> promise_tokens q = MIN_STORAGE"
  "create_delete e p b = Inr q \<Longrightarrow> promise_tokens q = MIN_STORAGE"
  "create_other_account e a pk = Inr q \<Longrightarrow> promise_tokens q = MIN_STORAGE"
  "call_method e = Inr q \<Longrightarrow> promise_gas q = 2 * CALL_GAS \<and> promise_tokens q = 0"
  by (auto simp: create_sub_account_def create_hello_def create_delete_def create_other_account_def
      call_method_def NO_DEPOSIT_HELLO_def)

end
