(* ===== verification/LockupAtPool.thy ===== *)
theory LockupAtPool
  imports LockupTheorems StakingPoolTheorems
begin

section \<open>A lockup and its staking pool\<close>

text \<open>
  The lockup contract calls the staking pool contract and learns from a callback whether the call succeeded.
  Here both models are put together: \<open>serve\<close> runs the remote call of the lockup on the pool,
  under the lockup's account and with the deposit that it attached, and says whether it succeeded.
\<close>

subsection \<open>Serving a call\<close>

text \<open>The method of the pool that a remote call names.\<close>

fun pool_request :: "lockup_call \<Rightarrow> pool_msg option" where
  "pool_request C_deposit = Some M_deposit"
| "pool_request C_deposit_and_stake = Some M_deposit_and_stake"
| "pool_request (C_withdraw n) = Some (M_withdraw n)"
| "pool_request (C_stake n) = Some (M_stake n)"
| "pool_request (C_unstake n) = Some (M_unstake n)"
| "pool_request C_unstake_all = Some M_unstake_all"
| "pool_request _ = None"

text \<open>A call that panics leaves the pool as it was and sends nothing; the runtime returns its deposit.\<close>

definition serve ::
  "host \<Rightarrow> lockup_call \<Rightarrow> staking_contract \<Rightarrow> staking_contract \<times> bool \<times> pool_call promise list" where
  "serve e req s = (case pool_request req of
       None \<Rightarrow> (s, False, [])
     | Some m \<Rightarrow> (case pool_exec e m s of Inr (s', ps) \<Rightarrow> (s', True, ps) | Inl _ \<Rightarrow> (s, False, [])))"

text \<open>The tokens that promises send to an account.\<close>

definition paid_to :: "account_id \<Rightarrow> 'c promise list \<Rightarrow> nat" where
  "paid_to a ps = sum_list (map (\<lambda>p. sum_list (map (\<lambda>(r, acts).
     if r = a then sum_list (map action_tokens acts) else 0) (batches p))) ps)"

lemma paid_to_append [simp]: "paid_to a (ps @ qs) = paid_to a ps + paid_to a qs"
  by (simp add: paid_to_def)

lemma paid_to_restake [simp]: "paid_to a (internal_restake e s) = 0"
  by (simp add: paid_to_def internal_restake_def)

lemma paid_to_simps [simp]:
  "paid_to a [] = 0"
  "paid_to a [Promise b [Transfer n]] = (if b = a then n else 0)"
  by (simp_all add: paid_to_def)

subsection \<open>What the pool does for its caller\<close>

lemma pool_deposit_credits:
  assumes "pool_exec e M_deposit s = Inr (s', ps)"
  shows "unstaked (internal_get_account s' (env_predecessor_account_id e))
      = sat_add 128 (unstaked (internal_get_account s (env_predecessor_account_id e))) (env_attached_deposit e)
    \<and> paid_to a ps = 0"
proof -
  from assms obtain b u where u: "internal_ping e s = Inr (b, u)" "s' = snd (internal_deposit e u)"
    "ps = (if b then internal_restake e s' else [])"
    by (auto simp: deposit_def Let_def)
  then show ?thesis
    using ping_unstaked [OF u(1), of "env_predecessor_account_id e"]
    by (auto simp: internal_deposit_def Let_def pool_store.get_save)
qed

lemma pool_withdraw_pays:
  assumes "pool_exec e (M_withdraw n) s = Inr (s', ps)"
  shows "n \<le> unstaked (internal_get_account s (env_predecessor_account_id e))
    \<and> unstaked (internal_get_account s' (env_predecessor_account_id e))
      = unstaked (internal_get_account s (env_predecessor_account_id e)) - n
    \<and> paid_to (env_predecessor_account_id e) ps = n"
proof -
  from assms obtain b u qs where u: "internal_ping e s = Inr (b, u)" "internal_withdraw e n u = Inr (s', qs)"
    "ps = qs @ (if b then internal_restake e s' else [])"
    by (auto simp: withdraw_def)
  from u(2) show ?thesis
    using ping_unstaked [OF u(1), of "env_predecessor_account_id e"] u(3)
    by (auto elim!: internal_withdrawE simp: pool_store.get_save)
qed

text \<open>The other four operations send the caller nothing.\<close>

lemma pool_others_pay_nothing:
  assumes "pool_exec e m s = Inr (s', ps)" and "m \<in> {M_deposit_and_stake, M_unstake_all} \<or> (\<exists>n. m \<in> {M_stake n, M_unstake n})"
  shows "paid_to a ps = 0"
  using assms by (auto simp: deposit_and_stake_def stake_def unstake_def unstake_all_def Let_def split_beta)

subsection \<open>One operation, from the lockup to the pool and back\<close>

text \<open>The methods of the owner that call a method of the pool.\<close>

fun pool_operation :: "lockup_msg \<Rightarrow> bool" where
  "pool_operation (L_deposit_to_staking_pool _) = True"
| "pool_operation (L_deposit_and_stake _) = True"
| "pool_operation (L_withdraw_from_staking_pool _) = True"
| "pool_operation (L_stake _) = True"
| "pool_operation (L_unstake _) = True"
| "pool_operation L_unstake_all = True"
| "pool_operation _ = False"

text \<open>
  What each of them sends: the request to the pool, the callback, the deposit attached to the
  request, and the amount that it asks back.
\<close>

fun request :: "lockup_msg \<Rightarrow> lockup_call" where
  "request (L_deposit_to_staking_pool n) = C_deposit"
| "request (L_deposit_and_stake n) = C_deposit_and_stake"
| "request (L_withdraw_from_staking_pool n) = C_withdraw n"
| "request (L_stake n) = C_stake n"
| "request (L_unstake n) = C_unstake n"
| "request _ = C_unstake_all"

fun reply :: "lockup_msg \<Rightarrow> lockup_call" where
  "reply (L_deposit_to_staking_pool n) = C_on_staking_pool_deposit n"
| "reply (L_deposit_and_stake n) = C_on_staking_pool_deposit_and_stake n"
| "reply (L_withdraw_from_staking_pool n) = C_on_staking_pool_withdraw n"
| "reply (L_stake n) = C_on_staking_pool_stake n"
| "reply (L_unstake n) = C_on_staking_pool_unstake n"
| "reply _ = C_on_staking_pool_unstake_all"

fun attached :: "lockup_msg \<Rightarrow> nat" where
  "attached (L_deposit_to_staking_pool n) = n"
| "attached (L_deposit_and_stake n) = n"
| "attached _ = 0"

fun asked_back :: "lockup_msg \<Rightarrow> nat" where
  "asked_back (L_withdraw_from_staking_pool n) = n"
| "asked_back _ = 0"

lemma operation_sends:
  assumes "lockup_exec ser e msg c = Inr (c1, [Then (call pool req dep g) (call self cb 0 g')])"
    and "pool_operation msg"
  shows "\<exists>info. staking_information c = Some info \<and> status info = Idle \<and> c1 = with_status Busy c
    \<and> pool = staking_pool_account_id info \<and> self = env_current_account_id e
    \<and> req = request msg \<and> cb = reply msg \<and> dep = attached msg"
  using assms by (cases msg) (auto simp: owner_methods call_def)

text \<open>The callback books the operation: it adds what was attached and subtracts what was asked back.\<close>

lemma reply_books:
  assumes "pool_operation msg" and "staking_information c = Some info"
    and "env_assert_self e = Inr ()" and "env_is_promise_success e = Inr ok"
    and "fits 128 (deposit_amount info + attached msg)"
  shows "run_callback e r (reply msg) (with_status st c)
    = Inr (settled (if ok then deposit_amount info + attached msg - asked_back msg else deposit_amount info) c, [])"
  using assms
  by (cases msg) (auto simp: lockup_callbacks no_promise_def checked_add_def sat_sub_eq
    settled_def with_status_def set_staking_pool_status_def)

lemma request_served:
  assumes "pool_operation msg" and "serve e (request msg) s = (s', True, ps)"
  shows "paid_to (env_predecessor_account_id e) ps = asked_back msg"
proof -
  from assms obtain m where m: "pool_request (request msg) = Some m" "pool_exec e m s = Inr (s', ps)"
    by (auto simp: serve_def split: option.splits sum.splits)
  show ?thesis
  proof (cases msg)
    case (L_withdraw_from_staking_pool n)
    then show ?thesis using m pool_withdraw_pays [of e n s s' ps] by simp
  next
    case (L_deposit_to_staking_pool n)
    then show ?thesis using m pool_deposit_credits [of e s s' ps] by simp
  qed (use assms(1) m pool_others_pay_nothing [OF m(2)] in auto)
qed

lemma settled_same: "staking_information c = Some info \<Longrightarrow> status info = Idle \<Longrightarrow> settled (deposit_amount info) c = c"
  by (simp add: settled_def)

lemma serve_cases:
  assumes "serve e req s = (s', ok, ps)"
  shows "\<not> ok \<longrightarrow> s' = s \<and> ps = []"
  using assms by (auto simp: serve_def split: option.splits sum.splits)

text \<open>
  C10. An operation on the staking pool settles in both contracts. The owner deposits, deposits and stakes,
  withdraws, stakes or unstakes through an idle lockup, the pool is called with what the lockup sends it, and the
  callback runs with the outcome. Then the callback is accepted and leaves the lockup idle. If the pool
  rejected the call, both contracts are as before. If it accepted, the balance that the lockup knows to be deposited has
  grown by what it attached to the call and fallen by what the pool pays out to it; a deposit of \<open>n\<close> raises the lockup's unstaked
  balance at the pool by \<open>n\<close>, and a withdrawal of \<open>n\<close> takes \<open>n\<close> from it, which it had, and pays \<open>n\<close> to the
  lockup.
\<close>

theorem pool_operation_settles:
  assumes started: "lockup_exec ser e msg c = Inr (c1, [Then (call pool req dep g) (call self cb 0 g')])"
    and msg: "pool_operation msg"
    and served: "serve e2 req s = (s', ok, ps)"
    and at_pool: "env_predecessor_account_id e2 = self" "env_attached_deposit e2 = dep"
    and at_callback: "env_assert_self e3 = Inr ()" "env_is_promise_success e3 = Inr ok"
    and "fits 128 (get_known_deposited_balance c + dep)"
    and "fits 128 (unstaked (internal_get_account s self) + dep)"
  shows "\<exists>c2. run_callback e3 r cb c1 = Inr (c2, []) \<and> \<not> busy c2
    \<and> (\<not> ok \<longrightarrow> s' = s \<and> c2 = c)
    \<and> (ok \<longrightarrow> get_known_deposited_balance c2 = get_known_deposited_balance c + dep - paid_to self ps)
    \<and> (ok \<longrightarrow> msg = L_deposit_to_staking_pool n \<longrightarrow>
         unstaked (internal_get_account s' self) = unstaked (internal_get_account s self) + n)
    \<and> (ok \<longrightarrow> msg = L_withdraw_from_staking_pool n \<longrightarrow> paid_to self ps = n
         \<and> unstaked (internal_get_account s self) = unstaked (internal_get_account s' self) + n)"
proof -
  obtain info where i: "staking_information c = Some info" "status info = Idle" "c1 = with_status Busy c"
      "req = request msg" "cb = reply msg" "dep = attached msg"
    using operation_sends [OF started msg] by blast
  have known: "get_known_deposited_balance c = deposit_amount info"
    using i(1) by (simp add: get_known_deposited_balance_def)
  let ?n = "if ok then deposit_amount info + dep - asked_back msg else deposit_amount info"
  have returned: "run_callback e3 r cb c1 = Inr (settled ?n c, [])"
    using reply_books [OF msg i(1) at_callback] assms(8) i known by simp
  have paid: "paid_to self ps = asked_back msg" if "ok"
    using request_served [OF msg, of e2 s s' ps] served i(4) at_pool(1) that by simp
  have exec: "pool_exec e2 m s = Inr (s', ps)" if "ok" and "pool_request (request msg) = Some m" for m
    using served i(4) that by (auto simp: serve_def split: sum.splits)
  have dep: "unstaked (internal_get_account s' self) = unstaked (internal_get_account s self) + n"
    if "ok" and "msg = L_deposit_to_staking_pool n"
    using pool_deposit_credits [OF exec [of M_deposit]] that at_pool i(6) assms(9)
    by (simp add: sat_add_def fits_iff)
  have wd: "unstaked (internal_get_account s self) = unstaked (internal_get_account s' self) + n"
    if "ok" and "msg = L_withdraw_from_staking_pool n"
    using pool_withdraw_pays [OF exec [of "M_withdraw n"]] that at_pool(1) by simp
  have known2: "get_known_deposited_balance (settled ?n c) = ?n"
    using i(1) by (simp add: get_known_deposited_balance_def)
  have undo: "settled ?n c = c" if "\<not> ok" using settled_same [OF i(1,2)] that by simp
  show ?thesis
    using returned paid dep wd known known2 undo serve_cases [OF served] by (intro exI [of _ "settled ?n c"]) auto
qed

theorem pool_operation_settles_witness:
  "\<exists>c2 s' ps. serve (sample_host\<lparr>env_predecessor_account_id := ''contract'', env_attached_deposit := 700\<rparr>)
       C_deposit sample_pool = (s', True, ps)
    \<and> run_callback (sample_host\<lparr>env_assert_self := Inr (), env_is_promise_success := Inr True\<rparr>) R_unit
        (C_on_staking_pool_deposit 700) (with_status Busy delegating) = Inr (c2, [])
    \<and> get_known_deposited_balance c2 = 700
    \<and> unstaked (internal_get_account s' ''contract'') = 700"
proof -
  let ?e2 = "sample_host\<lparr>env_predecessor_account_id := ''contract'', env_attached_deposit := 700\<rparr>"
  let ?e3 = "sample_host\<lparr>env_assert_self := Inr (), env_is_promise_success := Inr True\<rparr>"
  let ?s' = "snd (internal_deposit ?e2 sample_pool)"
  have served: "serve ?e2 C_deposit sample_pool = (?s', True, [])"
    by (simp add: serve_def deposit_def pool_eval cong: eval_cong)
  have known: "get_known_deposited_balance delegating = 0"
    by (simp add: delegating_def get_known_deposited_balance_def)
  have zero: "unstaked (internal_get_account sample_pool ''contract'') = 0"
    by (simp add: sample_pool_def internal_get_account_def default_account_def)
  from pool_operation_settles [where ?e3.0 = ?e3 and n = 700 and r = R_unit, OF deposit_sample _ served] known zero
  show ?thesis using served by (auto simp: fits_def)
qed

end
