(* ===== verification/LockupTransfers.thy ===== *)
theory LockupTransfers
  imports LockupTheorems
begin

section \<open>A lockup that asks itself for the transfer poll\<close>

text \<open>
  A lockup that is deployed with transfers disabled learns from the transfer poll when they are enabled. Its
  method \<open>check_transfers_vote\<close> sends \<open>get_result\<close> to its own account, though, and not to the poll. \<open>world_step\<close> lets every
  callback come with any result; here the answer of that one call is the one that the lockup
  itself gives.
\<close>

text \<open>The lockup has no method \<open>get_result\<close>, so the receipt fails, whatever its arguments.\<close>

lemma no_get_result: "run_callback e r C_get_result c = Inl (Panic ''MethodNotFound'')"
  by simp

abbreviation poll_cb :: lockup_call where
  "poll_cb \<equiv> C_on_get_result_from_transfer_poll"

inductive self_asking_step :: "(vesting_schedule_with_salt \<Rightarrow> bytes) \<Rightarrow> world \<Rightarrow> world \<Rightarrow> bool" for ser where
  asking_call: "lockup_exec ser e msg c = Inr (c', ps)
    \<Longrightarrow> self_asking_step ser (c, P) (c', P + sum_list (map awaiting ps))"
| asking_callback: "cb \<in># P \<Longrightarrow> env_assert_self e = Inr () \<Longrightarrow> env_is_promise_success e = Inr (r \<noteq> R_failed)
    \<Longrightarrow> (cb = poll_cb \<longrightarrow> r = R_failed) \<Longrightarrow> run_callback e r cb c = Inr (c', ps)
    \<Longrightarrow> self_asking_step ser (c, P) (c', P - {#cb#} + sum_list (map awaiting ps))"
| asking_panic: "cb \<in># P \<Longrightarrow> env_assert_self e = Inr () \<Longrightarrow> env_is_promise_success e = Inr (r \<noteq> R_failed)
    \<Longrightarrow> (cb = poll_cb \<longrightarrow> r = R_failed) \<Longrightarrow> run_callback e r cb c = Inl p
    \<Longrightarrow> self_asking_step ser (c, P) (c, P - {#cb#})"

inductive_cases self_asking_stepE: "self_asking_step ser w w'"

text \<open>Every such step is a step of the world, so that all invariants of the lockup hold along it.\<close>

lemma asking_is_world_step: "self_asking_step ser w w' \<Longrightarrow> world_step ser w w'"
  by (induction rule: self_asking_step.induct) (rule world_step.intros; assumption)+

text \<open>The callback of the poll is scheduled by \<open>check_transfers_vote\<close> and by nothing else.\<close>

lemma poll_asked_by_check:
  assumes "lockup_exec ser e msg c = Inr (c', ps)" and "poll_cb \<in># awaited ps"
  shows "msg = L_check_transfers_vote"
  using assms(1)
proof (cases rule: lockup_exec_cases)
  case (look cb)
  then show ?thesis using assms
    by (cases msg) (auto simp: owner_methods foundation_methods Let_def
        split: transfers_information.splits option.splits termination_status.splits)
qed (use assms(2) in auto)

lemma callback_asks_no_poll:
  "run_callback e r cb c = Inr (c', ps) \<Longrightarrow> poll_cb \<notin># awaited ps"
  by (erule callback_cases) auto

subsection \<open>Transfers stay disabled\<close>

definition held_back :: "nat \<Rightarrow> world \<Rightarrow> bool" where
  "held_back n w \<longleftrightarrow> \<not> are_transfers_enabled (fst w) \<and> lockup_amount (lockup_information (fst w)) = n"

lemma closed_step:
  assumes "held_back n w" and "self_asking_step ser w w'"
  shows "held_back n w'"
  using assms(2)
proof (cases rule: self_asking_step.cases)
  case (asking_call e msg c c' ps P)
  have "lockup_information c' = lockup_information c"
    using asking_call(3) by (cases rule: lockup_exec_cases) auto
  with asking_call assms(1) show ?thesis by (simp add: held_back_def are_transfers_enabled_def)
next
  case (asking_callback cb P e r c c' ps)
  have "transfers_information (lockup_information c') = transfers_information (lockup_information c)
      \<and> lockup_amount (lockup_information c') = lockup_amount (lockup_information c)"
    using asking_callback(7)
    by (cases rule: callback_cases) (use asking_callback(6) in \<open>auto simp: Let_def\<close>)
  with asking_callback assms(1) show ?thesis by (simp add: held_back_def are_transfers_enabled_def)
qed (use assms(1) in \<open>simp add: held_back_def\<close>)

interpretation closed_lockup: stable_property "self_asking_step ser" "held_back n" for ser n
  by unfold_locales (rule closed_step)

lemma closed_locks_everything:
  assumes "held_back n w"
  shows "get_locked_amount e (fst w) = checked_sub n (termination_withdrawn_tokens (lockup_information (fst w)))"
  using assms by (auto simp: held_back_def get_locked_amount_def are_transfers_enabled_def Let_def
      split: transfers_information.splits)

text \<open>
  C37. Transfers that are disabled when a lockup is deployed are never enabled: \<open>check_transfers_vote\<close>
  addresses \<open>get_result\<close> to the lockup, which has no such method, instead of the transfer poll, so its
  callback only ever learns of a failure. Whatever is called from then on, by whomever and in whatever order, no
  transfer and no access key is ever given out, and everything that the foundation has not taken stays locked,
  whatever the poll decides and however much time passes.
\<close>

theorem disabled_transfers_stay_disabled:
  assumes "\<not> are_transfers_enabled c" and "(self_asking_step ser)\<^sup>*\<^sup>* (c, P) (c', P')"
  shows "(\<forall>e c1 p. check_transfers_vote e c' = Inr (c1, p) \<longrightarrow> c1 = c' \<and>
           p = Then (call (env_current_account_id e) C_get_result 0 gas_GET_RESULT)
                 (call (env_current_account_id e) poll_cb 0 gas_ON_VOTING_GET_RESULT)
           \<and> (\<forall>e' r. run_callback e' r C_get_result c1 = Inl (Panic ''MethodNotFound'')))
    \<and> \<not> are_transfers_enabled c'
    \<and> \<not> returns (transfer e n a c') \<and> \<not> returns (add_full_access_key e k c')
    \<and> get_locked_amount e c'
        = checked_sub (lockup_amount (lockup_information c)) (termination_withdrawn_tokens (lockup_information c'))"
proof -
  have "held_back (lockup_amount (lockup_information c)) (c, P)" using assms(1) by (simp add: held_back_def)
  with assms(2) have w: "held_back (lockup_amount (lockup_information c)) (c', P')" by (rule closed_lockup.steps_inv)
  then have off: "\<not> are_transfers_enabled c'" by (simp add: held_back_def)
  have "\<not> returns (transfer e n a c')" "\<not> returns (add_full_access_key e k c')"
    using off by (auto simp: transfer_def add_full_access_key_def returns_def)
  moreover have "c1 = c' \<and> p = Then (call (env_current_account_id e) C_get_result 0 gas_GET_RESULT)
      (call (env_current_account_id e) poll_cb 0 gas_ON_VOTING_GET_RESULT)"
    if "check_transfers_vote e c' = Inr (c1, p)" for e c1 p
    using that by (auto simp: check_transfers_vote_def split: transfers_information.splits)
  ultimately show ?thesis using off closed_locks_everything [OF w] by auto
qed

text \<open>A lockup under the poll \<open>voting\<close>, whose owner has asked for the result.\<close>

definition polling :: lockup_contract where
  "polling = sample_lockup\<lparr>lockup_information :=
     (lockup_information sample_lockup)\<lparr>transfers_information := TransfersDisabled ''voting''\<rparr>\<rparr>"

lemma polling_asks:
  "lockup_exec ser (lockup_host ''alice'' 1000 5) L_check_transfers_vote polling
     = Inr (polling, [Then (call ''contract'' C_get_result 0 gas_GET_RESULT)
                        (call ''contract'' poll_cb 0 gas_ON_VOTING_GET_RESULT)])"
  by (simp add: one_def check_transfers_vote_def polling_def lockup_eval cong: eval_cong)

theorem disabled_transfers_stay_disabled_witness:
  "\<exists>e c' P'. (self_asking_step (\<lambda>_. []))\<^sup>*\<^sup>* (polling, {#}) (c', P') \<and> P' = {#poll_cb#}
     \<and> \<not> returns (transfer e 3 ''bob'' c')
     \<and> get_locked_amount e c' = Inr (lockup_amount (lockup_information sample_lockup))"
proof -
  let ?e = "lockup_host ''alice'' 1000 500"
  have off: "\<not> are_transfers_enabled polling" by (simp add: polling_def are_transfers_enabled_def)
  have amounts: "lockup_amount (lockup_information polling) = lockup_amount (lockup_information sample_lockup)"
    "termination_withdrawn_tokens (lockup_information polling) = 0"
    by (simp_all add: polling_def sample_lockup_def)
  have run: "(self_asking_step (\<lambda>_. []))\<^sup>*\<^sup>* (polling, {#}) (polling, {#poll_cb#})"
    using asking_call [OF polling_asks, of "\<lambda>_. []" "{#}"] by simp
  note stays = disabled_transfers_stay_disabled [OF off run, of ?e 3 "''bob''" "''key''"]
  from stays have "\<not> returns (transfer ?e 3 ''bob'' polling)" by blast
  moreover from stays have "get_locked_amount ?e polling = Inr (lockup_amount (lockup_information sample_lockup))"
    by (simp add: amounts)
  ultimately show ?thesis using run by blast
qed

end
