(* ===== verification/LockupApproval.thy ===== *)
theory LockupApproval
  imports LockupTheorems Whitelist
begin

section \<open>The lockup and the whitelist: who selects the staking pool\<close>

text \<open>
  A lockup at account \<open>self\<close> together with the whitelist contract at account \<open>W\<close>, both as modelled from
  their sources, and the receipts between them: a question is under way until its receiver answers, the
  answer then waits for the callback. The whitelist answers \<open>is_whitelisted\<close> from its own state at the
  moment when the question arrives; every other receiver answers anything. Callbacks are delivered by the
  lockup itself; anybody else may call the same methods with any promise result of its own making.

  \<open>assert_self\<close> is a function of the SDK here. What the lockup relies on is its documented behaviour,
  the premise \<open>knows_itself\<close> on the hosts of the lockup's calls.
\<close>

subsection \<open>The world\<close>

definition knows_itself :: "host \<Rightarrow> bool" where
  "knows_itself e \<longleftrightarrow> (env_assert_self e = Inr () \<longleftrightarrow> env_predecessor_account_id e = env_current_account_id e)"

text \<open>A question: what was sent, and where and what is called with the answer.\<close>

type_synonym question = "(account_id \<times> lockup_call action list) list \<times> account_id \<times> lockup_call"

fun questions :: "lockup_promise \<Rightarrow> question multiset" where
  "questions (Then p (Promise s [FunctionCall cb d g])) = {#(batches p, s, cb)#}"
| "questions _ = {#}"

definition asked_about :: "account_id \<Rightarrow> account_id \<Rightarrow> (account_id \<times> lockup_call action list) list \<Rightarrow> bool" where
  "asked_about W a bs \<longleftrightarrow> (\<exists>d g. bs = [(W, [FunctionCall (C_is_whitelisted a) d g])])"

text \<open>
  \<open>chosen\<close> collects the pools that the owner has asked for in a \<open>select_staking_pool\<close> of its own, \<open>approved\<close>
  those for which the whitelist contract has answered \<open>true\<close>.
\<close>

record approval_world =
  the_lockup :: lockup_contract
  the_list :: whitelist_contract
  under_way :: "question multiset"
  answered :: "(account_id \<times> lockup_call \<times> call_result) multiset"
  chosen :: "account_id set"
  approved :: "account_id set"

definition chosen_by :: "host \<Rightarrow> lockup_msg \<Rightarrow> lockup_contract \<Rightarrow> account_id set" where
  "chosen_by e msg c = {a. msg = L_select_staking_pool a \<and> env_predecessor_account_id e = owner_account_id c}"

definition list_answer :: "host \<Rightarrow> account_id \<Rightarrow> whitelist_contract \<Rightarrow> call_result" where
  "list_answer e a wl = (case is_whitelisted e a wl of Inr b \<Rightarrow> R_bool b | Inl p \<Rightarrow> R_failed)"

text \<open>What a call of the lockup leaves: its new state and the questions it asks.\<close>

definition ran :: "lockup_contract \<Rightarrow> lockup_promise list \<Rightarrow> approval_world \<Rightarrow> approval_world" where
  "ran c ps w = w\<lparr>the_lockup := c, under_way := under_way w + sum_list (map questions ps)\<rparr>"

inductive approval_step ::
  "(vesting_schedule_with_salt \<Rightarrow> bytes) \<Rightarrow> account_id \<Rightarrow> account_id \<Rightarrow> approval_world \<Rightarrow> approval_world \<Rightarrow> bool"
  for ser self W where
  ap_call: "env_current_account_id e = self \<Longrightarrow> knows_itself e
    \<Longrightarrow> lockup_exec ser e msg (the_lockup w) = Inr (c, ps)
    \<Longrightarrow> approval_step ser self W w ((ran c ps w)\<lparr>chosen := chosen w \<union> chosen_by e msg (the_lockup w)\<rparr>)"
| ap_list: "whitelist_step x (the_list w) wl \<Longrightarrow> approval_step ser self W w (w\<lparr>the_list := wl\<rparr>)"
| ap_list_answers: "(bs, s, cb) \<in># under_way w \<Longrightarrow> asked_about W a bs \<Longrightarrow> env_current_account_id e = W
    \<Longrightarrow> r = list_answer e a (the_list w)
    \<Longrightarrow> approval_step ser self W w (w\<lparr>under_way := under_way w - {#(bs, s, cb)#},
          answered := answered w + {#(s, cb, r)#},
          approved := approved w \<union> {p. p = a \<and> r = R_bool True}\<rparr>)"
| ap_other_answers: "(bs, s, cb) \<in># under_way w \<Longrightarrow> \<forall>a. \<not> asked_about W a bs
    \<Longrightarrow> approval_step ser self W w (w\<lparr>under_way := under_way w - {#(bs, s, cb)#},
          answered := answered w + {#(s, cb, r)#}\<rparr>)"
| ap_callback: "(self, cb, r) \<in># answered w \<Longrightarrow> env_current_account_id e = self \<Longrightarrow> knows_itself e
    \<Longrightarrow> env_predecessor_account_id e = self \<Longrightarrow> env_is_promise_success e = Inr (r \<noteq> R_failed)
    \<Longrightarrow> run_callback e r cb (the_lockup w) = Inr (c, ps)
    \<Longrightarrow> approval_step ser self W w ((ran c ps w)\<lparr>answered := answered w - {#(self, cb, r)#}\<rparr>)"
| ap_panic: "(s, cb, r) \<in># answered w
    \<Longrightarrow> approval_step ser self W w (w\<lparr>answered := answered w - {#(s, cb, r)#}\<rparr>)"
| ap_outsider: "env_current_account_id e = self \<Longrightarrow> knows_itself e \<Longrightarrow> env_predecessor_account_id e \<noteq> self
    \<Longrightarrow> run_callback e r cb (the_lockup w) = Inr (c, ps) \<Longrightarrow> approval_step ser self W w (ran c ps w)"

definition approval_init :: "account_id \<Rightarrow> account_id \<Rightarrow> approval_world \<Rightarrow> bool" where
  "approval_init self W w \<longleftrightarrow> under_way w = {#} \<and> answered w = {#} \<and> chosen w = {} \<and> approved w = {}
     \<and> (\<exists>e owner d lts tr vs rel f. env_current_account_id e = self
          \<and> new_lockup e owner d lts tr vs rel W f = Inr (the_lockup w))"

subsection \<open>What a call of the lockup can do to the selected pool\<close>

text \<open>The pool is dropped or kept, and the whitelist stays the one of the constructor.\<close>

definition pool_kept :: "lockup_contract \<Rightarrow> lockup_contract \<Rightarrow> bool" where
  "pool_kept c c' \<longleftrightarrow> staking_pool_whitelist_account_id c' = staking_pool_whitelist_account_id c
     \<and> (\<forall>j. staking_information c' = Some j \<longrightarrow> (\<exists>i. staking_information c = Some i
          \<and> staking_pool_account_id j = staking_pool_account_id i))"

lemma settled_whitelist [simp]:
  "staking_pool_whitelist_account_id (settled n c) = staking_pool_whitelist_account_id c"
  by (simp add: settled_def)

lemma exec_keeps_pool: "lockup_exec ser e msg c = Inr (c', ps) \<Longrightarrow> pool_kept c c'"
  by (erule lockup_exec_cases) (auto simp: pool_kept_def)

lemma callback_keeps_pool:
  assumes "run_callback e r cb c = Inr (c', ps)"
  shows "pool_kept c c' \<or> (\<exists>a. cb = C_on_whitelist_is_whitelisted a \<and> r = R_bool True
    \<and> staking_information c = None
    \<and> c' = c\<lparr>staking_information := Some \<lparr>staking_pool_account_id = a, status = Idle, deposit_amount = 0\<rparr>\<rparr>)"
  using assms by (cases rule: callback_cases) (auto simp: pool_kept_def Let_def split: option.splits)

text \<open>Every callback asks \<open>assert_self\<close>, so nobody else gets one accepted.\<close>

lemma outsiders_get_nothing:
  assumes "knows_itself e" and "env_predecessor_account_id e \<noteq> env_current_account_id e"
  shows "run_callback e r cb c \<noteq> Inr z"
proof -
  have "env_assert_self e \<noteq> Inr ()" using assms by (simp add: knows_itself_def)
  then show ?thesis
    by (cases cb; cases z) (auto simp: lockup_callbacks)
qed

subsection \<open>Who asks the whitelist\<close>

lemma questions_awaiting: "image_mset (\<lambda>(bs, s, cb). cb) (questions p) = awaiting p"
  by (cases p rule: questions.cases) auto

lemma questions_awaited: "(bs, s, cb) \<in># sum_list (map questions ps) \<Longrightarrow> cb \<in># awaited ps"
proof (induction ps)
  case (Cons p ps)
  have "cb \<in># awaiting p" if "(bs, s, cb) \<in># questions p"
    using that unfolding questions_awaiting [symmetric] by force
  with Cons show ?case by (auto simp: awaited_def)
qed simp

lemma approval_asked_by_select:
  assumes "lockup_exec ser e msg c = Inr (c', ps)" and "(bs, s, C_on_whitelist_is_whitelisted a) \<in># sum_list (map questions ps)"
  shows "asked_about (staking_pool_whitelist_account_id c) a bs \<and> a \<in> chosen_by e msg c"
proof -
  have cb: "C_on_whitelist_is_whitelisted a \<in># awaited ps" using assms(2) by (rule questions_awaited)
  have msg: "msg = L_select_staking_pool a"
    using assms(1)
  proof (cases rule: lockup_exec_cases)
    case (look cb')
    then show ?thesis using assms(1) cb
      by (cases msg) (auto simp: owner_methods foundation_methods Let_def
          split: transfers_information.splits option.splits termination_status.splits)
  qed (use cb in auto)
  then show ?thesis using assms
    by (auto simp: select_staking_pool_def call_def asked_about_def chosen_by_def)
qed

lemma callback_asks_no_approval:
  assumes "run_callback e r cb c = Inr (c', ps)"
  shows "(bs, s, C_on_whitelist_is_whitelisted a) \<notin># sum_list (map questions ps)"
proof
  assume "(bs, s, C_on_whitelist_is_whitelisted a) \<in># sum_list (map questions ps)"
  then have "C_on_whitelist_is_whitelisted a \<in># awaited ps" by (rule questions_awaited)
  with assms show False by (cases rule: callback_cases) auto
qed

subsection \<open>The invariant\<close>

definition asked_ok :: "account_id \<Rightarrow> account_id set \<Rightarrow> question \<Rightarrow> bool" where
  "asked_ok W A q \<longleftrightarrow> (\<forall>bs s a. q = (bs, s, C_on_whitelist_is_whitelisted a) \<longrightarrow> asked_about W a bs \<and> a \<in> A)"

definition answer_ok :: "account_id set \<Rightarrow> account_id \<times> lockup_call \<times> call_result \<Rightarrow> bool" where
  "answer_ok A x \<longleftrightarrow> (\<forall>s a. x = (s, C_on_whitelist_is_whitelisted a, R_bool True) \<longrightarrow> a \<in> A)"

definition approval_inv :: "account_id \<Rightarrow> approval_world \<Rightarrow> bool" where
  "approval_inv W w \<longleftrightarrow> staking_pool_whitelist_account_id (the_lockup w) = W
     \<and> (\<forall>q \<in># under_way w. asked_ok W (chosen w) q)
     \<and> (\<forall>x \<in># answered w. answer_ok (chosen w \<inter> approved w) x)
     \<and> (\<forall>i. staking_information (the_lockup w) = Some i \<longrightarrow> staking_pool_account_id i \<in> chosen w \<inter> approved w)"

lemma asked_ok_mono: "asked_ok W A q \<Longrightarrow> A \<subseteq> B \<Longrightarrow> asked_ok W B q"
  by (auto simp: asked_ok_def)

lemma answer_ok_mono: "answer_ok A x \<Longrightarrow> A \<subseteq> B \<Longrightarrow> answer_ok B x"
  by (auto simp: answer_ok_def)

lemma ran_simps [simp]:
  "the_lockup (ran c ps w) = c"
  "the_list (ran c ps w) = the_list w"
  "under_way (ran c ps w) = under_way w + sum_list (map questions ps)"
  "answered (ran c ps w) = answered w"
  "chosen (ran c ps w) = chosen w"
  "approved (ran c ps w) = approved w"
  by (simp_all add: ran_def)

lemma approval_inv_ran:
  assumes "approval_inv W w" and "\<forall>q \<in># sum_list (map questions ps). asked_ok W A q"
    and "staking_pool_whitelist_account_id c = W" and "chosen w \<subseteq> A" and "X \<subseteq># answered w"
    and "\<forall>i. staking_information c = Some i \<longrightarrow> staking_pool_account_id i \<in> A \<inter> approved w"
  shows "approval_inv W ((ran c ps w)\<lparr>chosen := A, answered := X\<rparr>)"
proof -
  have "\<forall>q \<in># under_way w. asked_ok W A q" using assms(1,4) by (auto simp: approval_inv_def intro: asked_ok_mono)
  moreover have "chosen w \<inter> approved w \<subseteq> A \<inter> approved w" using assms(4) by blast
  then have "\<forall>x \<in># X. answer_ok (A \<inter> approved w) x"
    using assms(1) mset_subset_eqD [OF assms(5)] answer_ok_mono unfolding approval_inv_def by blast
  ultimately show ?thesis using assms by (auto simp: approval_inv_def)
qed

lemma kept_pool_ok:
  assumes "approval_inv W w" and "pool_kept (the_lockup w) c" and "chosen w \<subseteq> A"
  shows "staking_pool_whitelist_account_id c = W"
    and "\<forall>i. staking_information c = Some i \<longrightarrow> staking_pool_account_id i \<in> A \<inter> approved w"
  using assms by (fastforce simp: approval_inv_def pool_kept_def)+

lemma approval_inv_call:
  assumes "approval_inv W w" and "lockup_exec ser e msg (the_lockup w) = Inr (c, ps)"
  shows "approval_inv W ((ran c ps w)\<lparr>chosen := chosen w \<union> chosen_by e msg (the_lockup w)\<rparr>)"
proof -
  let ?A = "chosen w \<union> chosen_by e msg (the_lockup w)"
  have "staking_pool_whitelist_account_id (the_lockup w) = W" using assms(1) by (simp add: approval_inv_def)
  then have "\<forall>q \<in># sum_list (map questions ps). asked_ok W ?A q"
    using approval_asked_by_select [OF assms(2)] by (auto simp: asked_ok_def)
  from approval_inv_ran [OF assms(1) this kept_pool_ok(1) [OF assms(1) exec_keeps_pool [OF assms(2)]] _
      subset_mset.order_refl kept_pool_ok(2) [OF assms(1) exec_keeps_pool [OF assms(2)]]]
  have "approval_inv W ((ran c ps w)\<lparr>chosen := ?A, answered := answered w\<rparr>)" by blast
  moreover have "(ran c ps w)\<lparr>chosen := ?A, answered := answered w\<rparr> = (ran c ps w)\<lparr>chosen := ?A\<rparr>"
    by (simp add: ran_def)
  ultimately show ?thesis by simp
qed

lemma approval_inv_callback:
  assumes "approval_inv W w" and "(s, cb, r) \<in># answered w" and "run_callback e r cb (the_lockup w) = Inr (c, ps)"
  shows "approval_inv W ((ran c ps w)\<lparr>answered := answered w - {#(s, cb, r)#}\<rparr>)"
proof -
  have q: "\<forall>q \<in># sum_list (map questions ps). asked_ok W (chosen w) q"
    using callback_asks_no_approval [OF assms(3)] by (auto simp: asked_ok_def)
  have "staking_pool_whitelist_account_id c = W
    \<and> (\<forall>i. staking_information c = Some i \<longrightarrow> staking_pool_account_id i \<in> chosen w \<inter> approved w)"
    using callback_keeps_pool [OF assms(3)]
  proof
    assume "pool_kept (the_lockup w) c"
    from kept_pool_ok [OF assms(1) this order_refl] show ?thesis by blast
  next
    assume "\<exists>a. cb = C_on_whitelist_is_whitelisted a \<and> r = R_bool True \<and> staking_information (the_lockup w) = None
      \<and> c = (the_lockup w)\<lparr>staking_information :=
            Some \<lparr>staking_pool_account_id = a, status = Idle, deposit_amount = 0\<rparr>\<rparr>"
    then show ?thesis using assms(1,2) by (fastforce simp: approval_inv_def answer_ok_def)
  qed
  then have "approval_inv W ((ran c ps w)\<lparr>chosen := chosen w, answered := answered w - {#(s, cb, r)#}\<rparr>)"
    by (intro approval_inv_ran [OF assms(1) q]) auto
  moreover have "(ran c ps w)\<lparr>chosen := chosen w, answered := X\<rparr> = (ran c ps w)\<lparr>answered := X\<rparr>" for X
    by (simp add: ran_def)
  ultimately show ?thesis by simp
qed

lemma approval_inv_step:
  assumes "approval_step ser self W w w'" and inv: "approval_inv W w"
  shows "approval_inv W w'"
  using assms(1)
proof cases
  case (ap_call e msg c ps)
  then show ?thesis using approval_inv_call [OF inv] by simp
next
  case (ap_list x wl)
  then show ?thesis using inv by (simp add: approval_inv_def)
next
  case (ap_list_answers bs s cb a e r)
  let ?P = "approved w \<union> {p. p = a \<and> r = R_bool True}"
  have old: "\<forall>x \<in># answered w. answer_ok (chosen w \<inter> ?P) x" using inv
    by (auto simp: approval_inv_def intro: answer_ok_mono)
  have "asked_ok W (chosen w) (bs, s, cb)" using inv ap_list_answers(2) by (simp add: approval_inv_def)
  then have "answer_ok (chosen w \<inter> ?P) (s, cb, r)"
    using ap_list_answers(3) by (auto simp: asked_ok_def answer_ok_def asked_about_def)
  with old inv show ?thesis unfolding ap_list_answers(1) by (auto simp: approval_inv_def dest: in_diffD)
next
  case (ap_other_answers bs s cb r)
  have "asked_ok W (chosen w) (bs, s, cb)" using inv ap_other_answers(2) by (simp add: approval_inv_def)
  then have "answer_ok (chosen w \<inter> approved w) (s, cb, r)"
    using ap_other_answers(3) by (auto simp: asked_ok_def answer_ok_def)
  then show ?thesis using inv unfolding ap_other_answers(1) by (auto simp: approval_inv_def dest: in_diffD)
next
  case (ap_callback cb r e c ps)
  then show ?thesis using approval_inv_callback [OF inv] by simp
next
  case (ap_panic s cb r)
  then show ?thesis using inv by (auto simp: approval_inv_def dest: in_diffD)
next
  case (ap_outsider e r cb c ps)
  then show ?thesis using outsiders_get_nothing [of e r cb "the_lockup w" "(c, ps)"] by simp
qed

lemma new_lockup_whitelist:
  assumes "new_lockup e owner d lts tr vs rel wl f = Inr c"
  shows "staking_pool_whitelist_account_id c = wl \<and> staking_information c = None"
  using assms by (cases vs) (auto simp: new_lockup_def Let_def split: vesting_schedule_or_hash.splits)

lemma approval_init_inv: "approval_init self W w \<Longrightarrow> approval_inv W w"
  by (auto simp: approval_init_def approval_inv_def dest!: new_lockup_whitelist)

interpretation approvals: inductive_invariant "approval_step ser self W" "approval_inv W" "approval_init self W"
  for ser self W
  by unfold_locales (auto intro: approval_inv_step approval_init_inv)

subsection \<open>The property\<close>

lemma approval_step_pool:
  assumes "approval_step ser self W w w'"
  shows "pool_kept (the_lockup w) (the_lockup w') \<or> (\<exists>a. (self, C_on_whitelist_is_whitelisted a, R_bool True) \<in># answered w
    \<and> staking_information (the_lockup w) = None
    \<and> staking_information (the_lockup w') =
        Some \<lparr>staking_pool_account_id = a, status = Idle, deposit_amount = 0\<rparr>)"
  using assms
proof cases
  case (ap_call e msg c ps)
  then show ?thesis using exec_keeps_pool by simp
next
  case (ap_callback cb r e c ps)
  then show ?thesis using callback_keeps_pool [OF ap_callback(7)] by auto
next
  case (ap_outsider e r cb c ps)
  then show ?thesis using outsiders_get_nothing [of e r cb "the_lockup w" "(c, ps)"] by simp
qed (auto simp: pool_kept_def)

text \<open>
  C33. A staking pool is selected only if the owner chose it and the whitelist approved it: in every
  history of a lockup and the whitelist contract that it was deployed with, with any calls of anybody to both
  (calls of the lockup's callbacks by other accounts with results of their own making included), the
  selected pool is one that the owner asked for with \<open>select_staking_pool\<close> and for which the whitelist
  contract itself answered \<open>true\<close> from its list. A pool gets selected only by the callback that waits
  with the answer \<open>true\<close> about exactly this pool; it starts idle and without a deposit, and a selected pool is
  never replaced by another one.
\<close>

theorem pool_needs_whitelist_approval:
  assumes "reach (approval_init self W) (approval_step ser self W) w" and "approval_step ser self W w w'"
  shows "(\<forall>i. staking_information (the_lockup w) = Some i \<longrightarrow> staking_pool_account_id i \<in> chosen w \<inter> approved w)
    \<and> (\<forall>j. staking_information (the_lockup w) = None \<and> staking_information (the_lockup w') = Some j \<longrightarrow>
         staking_pool_account_id j \<in> chosen w \<inter> approved w \<and> status j = Idle \<and> deposit_amount j = 0
         \<and> (self, C_on_whitelist_is_whitelisted (staking_pool_account_id j), R_bool True) \<in># answered w)
    \<and> (\<forall>i j. staking_information (the_lockup w) = Some i \<and> staking_information (the_lockup w') = Some j \<longrightarrow>
         staking_pool_account_id j = staking_pool_account_id i)"
proof -
  have inv: "approval_inv W w" using assms(1) by (rule approvals.reachable_inv)
  have "a \<in> chosen w \<inter> approved w" if "(self, C_on_whitelist_is_whitelisted a, R_bool True) \<in># answered w" for a
    using inv that by (fastforce simp: approval_inv_def answer_ok_def)
  then show ?thesis using inv approval_step_pool [OF assms(2)]
    by (fastforce simp: approval_inv_def pool_kept_def)
qed

text \<open>Alice asks for \<open>pool\<close>, the whitelist lists it, and the callback selects it.\<close>

definition asking_world :: approval_world where
  "asking_world = \<lparr>the_lockup = sample_lockup, the_list = sample_whitelist, under_way = {#}, answered = {#},
     chosen = {}, approved = {}\<rparr>"

definition approval_cb :: lockup_call where
  "approval_cb = C_on_whitelist_is_whitelisted ''pool''"

definition approved_world :: approval_world where
  "approved_world = asking_world\<lparr>answered := {#(''contract'', approval_cb, R_bool True)#},
     chosen := {''pool''}, approved := {''pool''}\<rparr>"

definition callback_host :: host where
  "callback_host = sample_host\<lparr>env_predecessor_account_id := ''contract'', env_assert_self := Inr (),
     env_is_promise_success := Inr True\<rparr>"

lemma asking_step:
  "approval_step ser ''contract'' ''whitelist'' asking_world
     (asking_world\<lparr>chosen := {''pool''}, under_way :=
        {#([(''whitelist'', [FunctionCall (C_is_whitelisted ''pool'') 0 gas_IS_WHITELISTED])], ''contract'', approval_cb)#}\<rparr>)"
proof -
  let ?e = "lockup_host ''alice'' 1000 5"
  have "lockup_exec ser ?e (L_select_staking_pool ''pool'') (the_lockup asking_world)
      = Inr (sample_lockup, [Then (call ''whitelist'' (C_is_whitelisted ''pool'') 0 gas_IS_WHITELISTED)
               (call ''contract'' approval_cb 0 gas_ON_WHITELIST_IS_WHITELISTED)])"
    by (simp add: one_def select_staking_pool_def approval_cb_def asking_world_def lockup_eval cong: eval_cong)
  moreover have "env_assert_self sample_host = Inl (Panic ''Method is private'')" by (simp add: sample_host_def)
  moreover note ap_call [OF _ _ calculation(1), of "''contract''" "''whitelist''"]
  ultimately show ?thesis
    by (simp add: asking_world_def ran_def chosen_by_def knows_itself_def lockup_host_def call_def sample_lockup_def)
qed

lemma answering_step:
  "approval_step ser ''contract'' ''whitelist''
     (asking_world\<lparr>chosen := {''pool''}, under_way :=
        {#([(''whitelist'', [FunctionCall (C_is_whitelisted ''pool'') 0 gas_IS_WHITELISTED])], ''contract'', approval_cb)#}\<rparr>)
     approved_world"
proof -
  let ?w = "asking_world\<lparr>chosen := {''pool''}, under_way :=
      {#([(''whitelist'', [FunctionCall (C_is_whitelisted ''pool'') 0 gas_IS_WHITELISTED])], ''contract'', approval_cb)#}\<rparr>"
  let ?e = "sample_host\<lparr>env_current_account_id := ''whitelist''\<rparr>"
  have "list_answer ?e ''pool'' (the_list ?w) = R_bool True"
    by (simp add: list_answer_def is_whitelisted_def asking_world_def sample_whitelist_def)
  from ap_list_answers [OF _ _ _ this [symmetric], of _ "''contract''" approval_cb "''whitelist''" ser "''contract''"]
  show ?thesis by (simp add: asked_about_def approved_world_def asking_world_def)
qed

lemma approved_reached:
  "reach (approval_init ''contract'' ''whitelist'') (approval_step ser ''contract'' ''whitelist'') approved_world"
proof (rule reach_step [OF reach_step])
  have "env_current_account_id (lockup_host ''root'' 1000 5) = ''contract''" by (simp add: lockup_host_def)
  then have "approval_init ''contract'' ''whitelist'' asking_world"
    using sample_new unfolding approval_init_def by (fastforce simp: asking_world_def)
  then show "reach (approval_init ''contract'' ''whitelist'') (approval_step ser ''contract'' ''whitelist'') asking_world"
    by (rule reach_init)
qed (rule asking_step, rule answering_step)

theorem pool_needs_whitelist_approval_witness:
  "\<exists>w'. approval_step (\<lambda>_. []) ''contract'' ''whitelist'' approved_world w' \<and> the_lockup w' = delegating
     \<and> ''pool'' \<in> chosen approved_world \<inter> approved approved_world"
proof -
  have "run_callback callback_host (R_bool True) approval_cb (the_lockup approved_world) = Inr (delegating, [])"
    by (simp add: no_promise_def on_whitelist_is_whitelisted_def callback_arg_def delegating_def approval_cb_def
        callback_host_def approved_world_def asking_world_def lockup_eval cong: eval_cong)
  from ap_callback [OF _ _ _ _ _ this, of "''contract''" "\<lambda>_. []" "''whitelist''"]
  obtain w' where w': "approval_step (\<lambda>_. []) ''contract'' ''whitelist'' approved_world w'" "the_lockup w' = delegating"
    by (auto simp: callback_host_def knows_itself_def approved_world_def asking_world_def)
  have "staking_information (the_lockup approved_world) = None"
    by (simp add: approved_world_def asking_world_def sample_lockup_def)
  with pool_needs_whitelist_approval [OF approved_reached w'(1)] w' show ?thesis by (auto simp: delegating_def)
qed

end
