(* ===== verification/UnitTests.thy ===== *)
theory UnitTests
  imports Host "HOL-Library.Sublist"
begin

section \<open>The unit tests of the contracts, run on their models\<close>

text \<open>
  Most contracts come with unit tests (\<open>mod tests\<close>), which build a mocked environment, call methods of the
  contract and assert what they answer. This theory has what is needed to write such a test as a
  definition that reads like the source, so that the model of a contract can be run through the
  tests that the developers wrote for the contract; the tests themselves are in the theories
  \<open>VotingTests\<close>, \<open>WhitelistTests\<close> and so on.

  A test keeps three things: \<open>ctx\<close>, the context that it edits; \<open>vm\<close>, the environment that
  the methods see, into which \<open>testing_env!\<close> copies the context; and the contract, \<open>subject\<close>.
  What the builder of the SDK puts into the fields that a test does not set is the parameter of
  every test.
\<close>

record 's trial =
  ctx :: host
  vm :: host
  subject :: 's

type_synonym 's step = "'s trial \<Rightarrow> 's trial res"

text \<open>
  The environment that the methods of a mocked contract see: the balance of the account includes the attached
  deposit, and the helpers of the SDK for callbacks answer as documented.
\<close>

definition entered :: "promise_result list \<Rightarrow> host \<Rightarrow> host" where
  "entered rs e =
     (let e = e\<lparr>env_promise_results := rs, env_account_balance := env_account_balance e + env_attached_deposit e\<rparr>
      in e\<lparr>env_assert_self := assert_self e, env_is_promise_success := is_promise_success e\<rparr>)"

definition testing_env_with :: "promise_result list \<Rightarrow> 's step" where
  "testing_env_with rs t = Inr (t\<lparr>vm := entered rs (ctx t)\<rparr>)"

definition testing_env :: "'s step" where
  "testing_env = testing_env_with []"

definition edit :: "(host \<Rightarrow> host) \<Rightarrow> 's step" where
  "edit f t = Inr (t\<lparr>ctx := f (ctx t)\<rparr>)"

text \<open>A call of a method: what its promises carry leaves the account of the mocked contract at once.\<close>

definition spent :: "'c promise list \<Rightarrow> nat" where
  "spent ps = sum_list (map promise_tokens ps)"

definition invoke :: "(host \<Rightarrow> 's \<Rightarrow> ('s \<times> 'c promise list) res) \<Rightarrow> 's step" where
  "invoke m t =
     bindE (m (vm t) (subject t)) (\<lambda>(c, ps).
     bindE (checked_sub (env_account_balance (vm t)) (spent ps)) (\<lambda>b.
     Inr (t\<lparr>vm := (vm t)\<lparr>env_account_balance := b\<rparr>, subject := c\<rparr>)))"

text \<open>A call of a method without promises.\<close>

definition update :: "(host \<Rightarrow> 's \<Rightarrow> 's res) \<Rightarrow> 's step" where
  "update m t = bindE (m (vm t) (subject t)) (\<lambda>c. Inr (t\<lparr>subject := c\<rparr>))"

text \<open>\<open>assert!(contract.m())\<close> for a method that returns a value.\<close>

definition assert_call :: "('v \<Rightarrow> bool) \<Rightarrow> (host \<Rightarrow> 's \<Rightarrow> ('v \<times> 's) res) \<Rightarrow> 's step" where
  "assert_call p m t = bindE (m (vm t) (subject t)) (\<lambda>(v, c).
     bindE (ensure (p v) ''assertion failed'') (\<lambda>_. Inr (t\<lparr>subject := c\<rparr>)))"

text \<open>\<open>let v = contract.m(); ..\<close>, where the rest of the test depends on the value.\<close>

definition let_call ::
  "(host \<Rightarrow> 's \<Rightarrow> ('v \<times> 'c promise list \<times> 's) res) \<Rightarrow> ('v \<Rightarrow> 's step list) \<Rightarrow> 's step" where
  "let_call m rest t =
     bindE (m (vm t) (subject t)) (\<lambda>(v, ps, c).
     bindE (checked_sub (env_account_balance (vm t)) (spent ps)) (\<lambda>b.
     foldE (\<lambda>f. f) (rest v) (t\<lparr>vm := (vm t)\<lparr>env_account_balance := b\<rparr>, subject := c\<rparr>)))"

text \<open>\<open>context.account_balance = env::account_balance()\<close>\<close>

definition keep_balance :: "'s step" where
  "keep_balance t = Inr (t\<lparr>ctx := (ctx t)\<lparr>env_account_balance := env_account_balance (vm t)\<rparr>\<rparr>)"

definition check :: "(host \<Rightarrow> 's \<Rightarrow> bool) \<Rightarrow> 's step" where
  "check p t = bindE (ensure (p (vm t) (subject t)) ''assertion failed'') (\<lambda>_. Inr t)"

text \<open>A test: build the contract in the environment of the context, then take the steps.\<close>

definition run :: "'s step list \<Rightarrow> 's step" where
  "run steps = foldE (\<lambda>f. f) steps"

definition trial_of :: "host \<Rightarrow> (host \<Rightarrow> 's res) \<Rightarrow> 's step list \<Rightarrow> 's trial res" where
  "trial_of e new steps = bindE (new (entered [] e)) (\<lambda>c.
     run steps \<lparr>ctx = e, vm = entered [] e, subject = c\<rparr>)"

text \<open>\<open>#[test]\<close>, \<open>#[should_panic(expected = "..")]\<close> and \<open>#[should_panic]\<close>\<close>

definition passes :: "'a res \<Rightarrow> bool" where
  "passes r = (case r of Inr _ \<Rightarrow> True | Inl _ \<Rightarrow> False)"

definition should_panic :: "string \<Rightarrow> 'a res \<Rightarrow> bool" where
  "should_panic expected r = (case r of Inl (Panic msg) \<Rightarrow> sublist expected msg | _ \<Rightarrow> False)"

definition panics :: "'a res \<Rightarrow> bool" where
  "panics r \<longleftrightarrow> \<not> passes r"

subsection \<open>Evaluation\<close>

text \<open>Definitions that a test unfolds; every theory of tests adds those of its contract.\<close>

named_theorems test_eval

lemma run_simps [test_eval]:
  "run [] t = Inr t"
  "run (f # fs) t = bindE (f t) (run fs)"
  by (simp_all add: run_def)

lemma run_append [test_eval]: "run (fs @ gs) t = bindE (run fs t) (run gs)"
  by (induction fs arbitrary: t) (auto simp: run_simps bindE_def split: sum.splits)

lemma run_concat [test_eval]:
  "run (concat (map f [])) t = Inr t"
  "run (concat (map f (x # xs))) t = bindE (run (f x) t) (run (concat (map f xs)))"
  by (simp_all add: run_simps run_append)

lemma let_call_eval [test_eval]:
  "let_call m rest t =
     bindE (m (vm t) (subject t)) (\<lambda>(v, ps, c).
     bindE (checked_sub (env_account_balance (vm t)) (spent ps)) (\<lambda>b.
     run (rest v) (t\<lparr>vm := (vm t)\<lparr>env_account_balance := b\<rparr>, subject := c\<rparr>)))"
  by (simp add: let_call_def run_def)

text \<open>The steps that are still to come are not looked at before their turn.\<close>

lemma run_weak_cong: "t = u \<Longrightarrow> run fs t = run fs u"
  by simp

lemmas test_cong = eval_cong run_weak_cong

text \<open>The bounds of the machine integers, written out.\<close>

lemma fits_eval [test_eval]:
  "fits 32 n \<longleftrightarrow> n < 4294967296"
  "fits 64 n \<longleftrightarrow> n < 18446744073709551616"
  "fits 128 n \<longleftrightarrow> n < 340282366920938463463374607431768211456"
  by (simp_all add: fits_def)

lemma max_of_eval [test_eval]:
  "max_of 64 = 18446744073709551615"
  "max_of 128 = 340282366920938463463374607431768211455"
  by (simp_all add: max_of_def)

declare assert_call_def [test_eval] entered_def [test_eval] testing_env_with_def [test_eval] testing_env_def [test_eval]
  edit_def [test_eval] spent_def [test_eval] invoke_def [test_eval] update_def [test_eval]
  keep_balance_def [test_eval] check_def [test_eval] trial_of_def [test_eval] passes_def [test_eval] panics_def [test_eval]
  should_panic_def [test_eval] Let_def [test_eval] assert_self_def [test_eval] is_promise_success_def [test_eval]
  checked_add_def [test_eval] checked_sub_def [test_eval] checked_mul_def [test_eval] checked_div_def [test_eval]
  as_u128_def [test_eval] sat_add_def [test_eval] sat_sub_def [test_eval] sat_mul_def [test_eval]

end
