(* ===== verification/VotingTests.thy ===== *)
theory VotingTests
  imports Voting UnitTests
begin

section \<open>The unit tests of the voting contract (\<open>voting/src/lib.rs\<close>)\<close>

text \<open>
  The table of validators, which the tests pass to \<open>testing_env!\<close> beside the context, is a part of the
  context here.
\<close>

definition with_validators :: "(account_id \<times> nat) list \<Rightarrow> host \<Rightarrow> host" where
  "with_validators vs e = e\<lparr>
     env_validator_stake := (\<lambda>a. case map_of vs a of Some n \<Rightarrow> n | None \<Rightarrow> 0),
     env_validator_total_stake := sum_list (map snd vs)\<rparr>"

definition unc :: "nat \<Rightarrow> nat" where
  "unc n = n * 10 ^ 24"

definition test_account :: "nat \<Rightarrow> account_id" where
  "test_account i = ''test'' @ [''0123456789'' ! i]"

definition ten_validators :: "nat \<Rightarrow> (account_id \<times> nat) list" where
  "ten_validators stake = map (\<lambda>i. (test_account i, stake)) [0, 1, 2, 3, 4, 5, 6, 7, 8, 9]"

abbreviation voter :: "account_id \<Rightarrow> host \<Rightarrow> host" where
  "voter a e \<equiv> e\<lparr>env_predecessor_account_id := a\<rparr>"

abbreviation voter_at :: "account_id \<Rightarrow> nat \<Rightarrow> host \<Rightarrow> host" where
  "voter_at a h e \<equiv> e\<lparr>env_predecessor_account_id := a, env_epoch_height := h\<rparr>"

definition test_nonvalidator_cannot_vote :: "host \<Rightarrow> bool" where
  "test_nonvalidator_cannot_vote e = should_panic ''is not a validator''
     (trial_of (with_validators [(''alice'', unc 100), (''bob'', unc 100)] (voter ''chacha'' e)) new_voting
       [update (\<lambda>e. vote e True)])"

definition test_vote_again_after_voting_ends :: "host \<Rightarrow> bool" where
  "test_vote_again_after_voting_ends e = should_panic ''Voting has already ended''
     (trial_of (with_validators [(''alice'', unc 100)] (voter ''alice'' e)) new_voting
       [update (\<lambda>e. vote e True),
        check (\<lambda>e v. poll_result v \<noteq> None),
        update (\<lambda>e. vote e True)])"

definition test_voting_simple :: "host \<Rightarrow> bool" where
  "test_voting_simple e = passes
     (trial_of (with_validators (ten_validators 10) (voter ''test0'' e)) new_voting
       (concat (map (\<lambda>i. [
          edit (voter (test_account i)), testing_env,
          update (\<lambda>e. vote e True),
          testing_env,
          check (\<lambda>e v. get_total_voted_stake e v = (10 * (i + 1), 100)),
          check (\<lambda>e v. get_votes v = map_of (take (i + 1) (ten_validators 10))),
          check (\<lambda>e v. length (votes v) = i + 1),
          check (\<lambda>e v. if i < 6 then poll_result v = None else poll_result v \<noteq> None)])
        [0, 1, 2, 3, 4, 5, 6])))"

definition test_voting_with_epoch_change :: "host \<Rightarrow> bool" where
  "test_voting_with_epoch_change e = passes
     (trial_of (with_validators (ten_validators (unc 10)) (voter ''test0'' e)) new_voting
       (concat (map (\<lambda>i. [
          edit (voter_at (test_account i) i), testing_env,
          update (\<lambda>e. vote e True),
          check (\<lambda>e v. length (votes v) = i + 1),
          check (\<lambda>e v. if i < 6 then poll_result v = None else poll_result v \<noteq> None)])
        [0, 1, 2, 3, 4, 5, 6])))"

definition test_validator_stake_change :: "host \<Rightarrow> bool" where
  "test_validator_stake_change e = passes
     (trial_of (with_validators [(''test1'', unc 40), (''test2'', unc 10), (''test3'', unc 10)] (voter_at ''test1'' 1 e))
       new_voting
       [update (\<lambda>e. vote e True),
        edit (with_validators [(''test1'', unc 50), (''test2'', unc 10), (''test3'', unc 10)] \<circ> voter_at ''test2'' 2),
        testing_env,
        update ping_voting,
        check (\<lambda>e v. poll_result v \<noteq> None)])"

definition test_withdraw_votes :: "host \<Rightarrow> bool" where
  "test_withdraw_votes e = passes
     (trial_of (with_validators [(''test1'', unc 10), (''test2'', unc 10)] (voter_at ''test1'' 1 e)) new_voting
       [update (\<lambda>e. vote e True),
        check (\<lambda>e v. length (votes v) = 1),
        edit (voter_at ''test1'' 2), testing_env,
        update (\<lambda>e. vote e False),
        check (\<lambda>e v. votes v = [])])"

definition test_validator_kick_out :: "host \<Rightarrow> bool" where
  "test_validator_kick_out e = passes
     (trial_of (with_validators [(''test1'', 40), (''test2'', 10), (''test3'', 10)] (voter_at ''test1'' 1 e)) new_voting
       [update (\<lambda>e. vote e True),
        check (\<lambda>e v. fst (get_total_voted_stake e v) = 40),
        edit (with_validators [(''test2'', 10), (''test3'', 10)] \<circ> voter_at ''test2'' 2),
        testing_env,
        update ping_voting,
        check (\<lambda>e v. fst (get_total_voted_stake e v) = 0)])"

text \<open>
  The model passes every test of the contract. What the builder of the SDK sets up besides is arbitrary, but for an empty storage
  and, where a test leaves it alone, an epoch height of zero.
\<close>

lemmas voting_eval = test_eval with_validators_def unc_def test_account_def ten_validators_def
  new_voting_def vote_def ping_voting_def check_result_def get_total_voted_stake_def get_votes_def

lemma voting_panics:
  assumes "\<not> env_state_exists e"
  shows "test_nonvalidator_cannot_vote e" and "test_vote_again_after_voting_ends e"
  unfolding test_nonvalidator_cannot_vote_def test_vote_again_after_voting_ends_def
  using assms by (simp_all add: voting_eval sublist_Cons_right cong: eval_cong)

lemma voting_simple: "\<not> env_state_exists e \<Longrightarrow> env_epoch_height e = 0 \<Longrightarrow> test_voting_simple e"
  unfolding test_voting_simple_def by (simp add: voting_eval cong: eval_cong)

lemma voting_with_epoch_change: "\<not> env_state_exists e \<Longrightarrow> test_voting_with_epoch_change e"
  unfolding test_voting_with_epoch_change_def by (simp add: voting_eval cong: eval_cong)

lemma voting_changes:
  assumes "\<not> env_state_exists e"
  shows "test_validator_stake_change e" and "test_withdraw_votes e" and "test_validator_kick_out e"
  unfolding test_validator_stake_change_def test_withdraw_votes_def test_validator_kick_out_def
  using assms by (simp_all add: voting_eval cong: eval_cong)

end
