(* ===== verification/WhitelistTests.thy ===== *)
theory WhitelistTests
  imports Whitelist UnitTests
begin

section \<open>The unit tests of the whitelist (\<open>whitelist/src/lib.rs\<close>)\<close>

definition account_unc :: account_id where "account_unc = ''unc''"

definition account_whitelist :: account_id where "account_whitelist = ''whitelist''"

definition account_pool :: account_id where "account_pool = ''pool''"

definition account_factory :: account_id where "account_factory = ''factory''"

definition whitelist_context :: "host \<Rightarrow> host" where
  "whitelist_context e =
     e\<lparr>env_current_account_id := account_whitelist, env_predecessor_account_id := account_unc\<rparr>"

definition called_by :: "account_id \<Rightarrow> host \<Rightarrow> host" where
  "called_by a e = e\<lparr>env_predecessor_account_id := a\<rparr>"

text \<open>The contract under test is deployed by \<open>new(account_unc())\<close>; whether a call is a view call does not matter to it.\<close>

definition whitelist_trial ::
  "host \<Rightarrow> whitelist_contract step list \<Rightarrow> whitelist_contract trial res" where
  "whitelist_trial e = trial_of (whitelist_context e) (\<lambda>e. new_whitelist e account_unc)"

definition whitelisted :: "bool \<Rightarrow> whitelist_contract step" where
  "whitelisted b = check (\<lambda>e w. is_whitelisted e account_pool w = Inr b)"

definition factory_listed :: "bool \<Rightarrow> whitelist_contract step" where
  "factory_listed b = check (\<lambda>e w. is_factory_whitelisted e account_factory w = Inr b)"

definition adds_pool :: "bool \<Rightarrow> whitelist_contract step" where
  "adds_pool b = assert_call (\<lambda>v. v = b) (\<lambda>e. add_staking_pool e account_pool)"

definition removes_pool :: "bool \<Rightarrow> whitelist_contract step" where
  "removes_pool b = assert_call (\<lambda>v. v = b) (\<lambda>e. remove_staking_pool e account_pool)"

definition adds_factory :: "bool \<Rightarrow> whitelist_contract step" where
  "adds_factory b = assert_call (\<lambda>v. v = b) (\<lambda>e. add_factory e account_factory)"

definition removes_factory :: "bool \<Rightarrow> whitelist_contract step" where
  "removes_factory b = assert_call (\<lambda>v. v = b) (\<lambda>e. remove_factory e account_factory)"

definition test_whitelist :: "host \<Rightarrow> bool" where
  "test_whitelist e = passes (whitelist_trial e [
     testing_env, whitelisted False,
     testing_env, adds_pool True,
     testing_env, whitelisted True,
     testing_env, adds_pool False,
     testing_env, whitelisted True,
     testing_env, removes_pool True,
     testing_env, whitelisted False,
     testing_env, removes_pool False,
     testing_env, whitelisted False,
     testing_env, adds_pool True,
     testing_env, whitelisted True])"

definition test_factory_whitelist_fail :: "host \<Rightarrow> bool" where
  "test_factory_whitelist_fail e = should_panic ''Can only be called by UNC Foundation'' (whitelist_trial e [
     edit (called_by account_factory), testing_env, adds_pool True])"

definition test_trying_to_whitelist_factory :: "host \<Rightarrow> bool" where
  "test_trying_to_whitelist_factory e = should_panic ''Can only be called by UNC Foundation'' (whitelist_trial e [
     edit (called_by account_factory), testing_env, adds_factory True])"

definition test_trying_to_remove_by_factory :: "host \<Rightarrow> bool" where
  "test_trying_to_remove_by_factory e = should_panic ''Can only be called by UNC Foundation'' (whitelist_trial e [
     edit (called_by account_unc), testing_env, adds_factory True,
     edit (called_by account_factory), testing_env, removes_pool True])"

definition test_whitelist_factory :: "host \<Rightarrow> bool" where
  "test_whitelist_factory e = passes (whitelist_trial e [
     edit (called_by account_unc), testing_env, factory_listed False,
     edit (called_by account_unc), testing_env, adds_factory True,
     edit (called_by account_unc), testing_env, factory_listed True, whitelisted False,
     edit (called_by account_factory), testing_env, adds_pool True,
     edit (called_by account_factory), testing_env, whitelisted True,
     edit (called_by account_unc), testing_env, removes_pool True,
     edit (called_by account_unc), testing_env, whitelisted False,
     edit (called_by account_unc), testing_env, removes_factory True,
     edit (called_by account_unc), testing_env, factory_listed False])"

text \<open>The model passes every test, whatever the SDK puts into the rest of the context.\<close>

lemmas whitelist_eval = test_eval account_unc_def account_whitelist_def account_pool_def account_factory_def
  whitelist_context_def called_by_def whitelist_trial_def whitelisted_def factory_listed_def adds_pool_def
  removes_pool_def adds_factory_def removes_factory_def new_whitelist_def is_whitelisted_def
  is_factory_whitelisted_def assert_called_by_foundation_def add_staking_pool_def remove_staking_pool_def
  add_factory_def remove_factory_def

lemmas whitelist_test_defs = test_whitelist_def test_factory_whitelist_fail_def
  test_trying_to_whitelist_factory_def test_trying_to_remove_by_factory_def test_whitelist_factory_def

lemma whitelist_tests:
  assumes "\<not> env_state_exists e" and "\<And>a. env_is_valid_account_id e a"
  shows "test_whitelist e" "test_factory_whitelist_fail e" "test_trying_to_whitelist_factory e"
    "test_trying_to_remove_by_factory e" "test_whitelist_factory e"
  unfolding whitelist_test_defs
  using assms by (simp_all add: whitelist_eval cong: eval_cong)

end
