(* ===== verification/LockupTests.thy ===== *)
theory LockupTests
  imports LockupProofs UnitTests
begin

section \<open>The unit tests of the lockup contract (\<open>lockup/src/lib.rs\<close>)\<close>

text \<open>
  The tests take the environment \<open>e\<close> that the SDK's builder makes and, where the schedule is hashed, the
  serialisation \<open>ser\<close>. The fields \<open>is_view\<close>, \<open>view_config\<close> and the account and key of the signer, which
  the tests set as well, are nothing that the contract looks at.
\<close>

subsection \<open>\<open>test_utils.rs\<close> and the set-up\<close>

definition LOCKUP_UNC :: nat where "LOCKUP_UNC = 1000"

definition GENESIS_TIME_IN_DAYS :: nat where "GENESIS_TIME_IN_DAYS = 500"

definition YEAR :: nat where "YEAR = 365"

definition lockup_account :: account_id where "lockup_account = ''lockup''"

definition system_account :: account_id where "system_account = ''system''"

definition account_owner :: account_id where "account_owner = ''account_owner''"

definition non_owner :: account_id where "non_owner = ''non_owner''"

definition account_foundation :: account_id where "account_foundation = ''unc''"

definition to_atto :: "nat \<Rightarrow> nat" where "to_atto n = n * 10 ^ 24"

definition to_nanos :: "nat \<Rightarrow> nat" where "to_nanos num_days = num_days * 86400000000000"

definition to_ts :: "nat \<Rightarrow> nat" where "to_ts num_days = 1533081600000000000 + to_nanos num_days"

definition almost_eq :: "nat \<Rightarrow> nat \<Rightarrow> bool" where
  "almost_eq left right \<longleftrightarrow> max left right - min left right < to_atto 10"

definition SALT :: bytes where "SALT = [1, 2, 3]"

definition basic_context :: "host \<Rightarrow> host" where
  "basic_context e = e\<lparr>env_current_account_id := lockup_account, env_predecessor_account_id := system_account,
     env_account_balance := to_atto LOCKUP_UNC, env_account_locked_balance := 0, env_attached_deposit := 0,
     env_block_timestamp := to_ts GENESIS_TIME_IN_DAYS\<rparr>"

definition new_vesting_schedule :: "nat \<Rightarrow> vesting_schedule" where
  "new_vesting_schedule offset = \<lparr>start_timestamp = to_ts (GENESIS_TIME_IN_DAYS - YEAR + offset),
     cliff_timestamp = to_ts (GENESIS_TIME_IN_DAYS + offset),
     end_timestamp = to_ts (GENESIS_TIME_IN_DAYS + YEAR * 3 + offset)\<rparr>"

definition no_vesting_schedule :: vesting_schedule where
  "no_vesting_schedule = \<lparr>start_timestamp = to_ts 0, cliff_timestamp = to_ts 0, end_timestamp = to_ts 0\<rparr>"

type_synonym salted = "vesting_schedule_with_salt \<Rightarrow> bytes"

definition salted_schedule :: "vesting_schedule \<Rightarrow> vesting_schedule_with_salt" where
  "salted_schedule vs = \<lparr>salted_vesting_schedule = vs, salt = SALT\<rparr>"

definition new_contract_with_lockup_duration ::
  "salted \<Rightarrow> bool \<Rightarrow> vesting_schedule option \<Rightarrow> duration option \<Rightarrow> bool \<Rightarrow> duration \<Rightarrow> host \<Rightarrow> lockup_contract res" where
  "new_contract_with_lockup_duration ser transfers_enabled schedule release foundation duration e =
     (let start = (if transfers_enabled then TransfersEnabled (to_ts GENESIS_TIME_IN_DAYS)
                   else TransfersDisabled ''transfers'');
          foundation_id = (if foundation then Some account_foundation else None);
          vesting = map_option (\<lambda>vs. InitVestingHash (hash ser e (salted_schedule vs))) schedule
      in new_lockup e account_owner duration None start vesting release ''whitelist'' foundation_id)"

definition new_contract ::
  "salted \<Rightarrow> bool \<Rightarrow> vesting_schedule option \<Rightarrow> duration option \<Rightarrow> bool \<Rightarrow> host \<Rightarrow> lockup_contract res" where
  "new_contract ser transfers_enabled schedule release foundation =
     new_contract_with_lockup_duration ser transfers_enabled schedule release foundation (to_nanos YEAR)"

type_synonym lockup_test_step = "lockup_contract step"

definition lockup_only_setup :: "host \<Rightarrow> lockup_test_step list \<Rightarrow> lockup_contract trial res" where
  "lockup_only_setup e = trial_of (basic_context e) (new_contract (\<lambda>_. []) True None None False)"

subsection \<open>Steps\<close>

definition day :: "nat \<Rightarrow> lockup_test_step" where
  "day n = edit (\<lambda>e. e\<lparr>env_block_timestamp := to_ts (GENESIS_TIME_IN_DAYS + n)\<rparr>)"

definition caller :: "account_id \<Rightarrow> lockup_test_step" where
  "caller a = edit (\<lambda>e. e\<lparr>env_predecessor_account_id := a\<rparr>)"

definition receive :: "nat \<Rightarrow> lockup_test_step" where
  "receive n = edit (\<lambda>e. e\<lparr>env_account_balance := sat_add 128 (env_account_balance e) n\<rparr>)"

definition msg :: "lockup_msg \<Rightarrow> lockup_test_step" where
  "msg m = invoke (\<lambda>e. lockup_exec (\<lambda>_. []) e m)"

text \<open>A method called by the owner, and the callback of the contract after a call that succeeded.\<close>

definition owner_calls :: "lockup_msg \<Rightarrow> lockup_test_step list" where
  "owner_calls m = [caller account_owner, testing_env, msg m]"

definition called_back :: "call_result \<Rightarrow> lockup_call \<Rightarrow> lockup_test_step list" where
  "called_back r cb = [caller lockup_account, testing_env_with [Successful []], invoke (\<lambda>e. run_callback e r cb)]"

definition terminate_by_foundation :: "salted \<Rightarrow> vesting_schedule_with_salt option \<Rightarrow> lockup_test_step list" where
  "terminate_by_foundation ser vss =
     [caller account_foundation, testing_env, update (\<lambda>e. terminate_vesting ser e vss)]"

definition owners :: "nat \<Rightarrow> lockup_test_step" where
  "owners n = check (\<lambda>e c. get_owners_balance e c = Inr n)"

definition liquid :: "nat \<Rightarrow> lockup_test_step" where
  "liquid n = check (\<lambda>e c. get_liquid_owners_balance e c = Inr n)"

definition locked :: "nat \<Rightarrow> lockup_test_step" where
  "locked n = check (\<lambda>e c. get_locked_amount e c = Inr n)"

definition unvested :: "vesting_schedule \<Rightarrow> nat \<Rightarrow> lockup_test_step" where
  "unvested vs n = check (\<lambda>e c. get_unvested_amount e vs c = Inr n)"

definition locked_vested :: "vesting_schedule \<Rightarrow> nat \<Rightarrow> lockup_test_step" where
  "locked_vested vs n = check (\<lambda>e c. get_locked_vested_amount e vs c = Inr n)"

definition known :: "nat \<Rightarrow> lockup_test_step" where
  "known n = check (\<lambda>e c. get_known_deposited_balance c = n)"

definition terminated_unvested :: "nat \<Rightarrow> lockup_test_step" where
  "terminated_unvested n = check (\<lambda>e c. get_terminated_unvested_balance c = n)"

definition unvested_deficit :: "nat \<Rightarrow> lockup_test_step" where
  "unvested_deficit n = check (\<lambda>e c. get_terminated_unvested_balance_deficit e c = n)"

definition terminating :: "termination_status option \<Rightarrow> lockup_test_step" where
  "terminating st = check (\<lambda>e c. get_termination_status c = st)"

definition vesting_is :: "vesting_information \<Rightarrow> lockup_test_step" where
  "vesting_is v = check (\<lambda>e c. get_vesting_information c = v)"

definition balance_is :: "nat \<Rightarrow> lockup_test_step" where
  "balance_is n = check (\<lambda>e c. env_account_balance e = n)"

definition transfers_are :: "bool \<Rightarrow> lockup_test_step" where
  "transfers_are b = check (\<lambda>e c. are_transfers_enabled c = b)"

text \<open>Select the pool \<open>staking_pool\<close>, which the whitelist approves; deposit there.\<close>

definition select_pool :: "lockup_test_step list" where
  "select_pool = owner_calls (L_select_staking_pool ''staking_pool'')
     @ called_back (R_bool True) (C_on_whitelist_is_whitelisted ''staking_pool'')"

definition deposit_pool :: "nat \<Rightarrow> lockup_test_step list" where
  "deposit_pool n = owner_calls (L_deposit_to_staking_pool n) @ [keep_balance]"

definition deposited :: "nat \<Rightarrow> lockup_test_step list" where
  "deposited n = called_back R_unit (C_on_staking_pool_deposit n)"

definition stake_pool :: "nat \<Rightarrow> lockup_test_step list" where
  "stake_pool n = owner_calls (L_stake n) @ called_back R_unit (C_on_staking_pool_stake n)"

lemmas lockup_set_up = LOCKUP_UNC_def GENESIS_TIME_IN_DAYS_def YEAR_def lockup_account_def system_account_def
  account_owner_def non_owner_def account_foundation_def to_atto_def to_nanos_def to_ts_def almost_eq_def SALT_def
  basic_context_def new_vesting_schedule_def no_vesting_schedule_def salted_schedule_def
  new_contract_with_lockup_duration_def new_contract_def lockup_only_setup_def

lemmas lockup_steps = day_def caller_def receive_def msg_def owner_calls_def called_back_def
  terminate_by_foundation_def owners_def liquid_def locked_def unvested_def locked_vested_def known_def
  terminated_unvested_def unvested_deficit_def terminating_def vesting_is_def balance_is_def transfers_are_def
  select_pool_def deposit_pool_def deposited_def stake_pool_def

lemmas lockup_code = new_lockup_def hash_def get_account_balance_def MIN_BALANCE_FOR_STORAGE_def
  get_staking_pool_account_id_def get_known_deposited_balance_def get_termination_status_def
  get_terminated_unvested_balance_def get_terminated_unvested_balance_deficit_def get_unvested_amount_def
  get_locked_amount_def get_locked_vested_amount_def get_vesting_information_def get_owners_balance_def
  get_liquid_owners_balance_def are_transfers_enabled_def set_staking_pool_status_def set_termination_status_def
  assert_vesting_def assert_no_termination_def assert_transfers_enabled_def assert_transfers_disabled_def
  assert_idle_status_def assert_no_staking_or_idle_def assert_staking_pool_is_idle_def
  assert_staking_pool_is_not_selected_def assert_called_by_foundation_lockup_def assert_owner_lockup_def
  one_def no_promise_def maybe_promise_def callback_arg_def call_def gas_defs BASE_GAS_def

lemmas lockup_test_eval = test_eval lockup_set_up lockup_steps lockup_code owner_methods foundation_methods
  lockup_callbacks

subsection \<open>Lockup without vesting\<close>

definition test_lockup_only_basic :: "host \<Rightarrow> bool" where
  "test_lockup_only_basic e = passes (lockup_only_setup e [
     testing_env,
     owners 0,
     locked_vested no_vesting_schedule (to_atto LOCKUP_UNC),
     day 1,
     owners 0,
     day (YEAR + 1), testing_env,
     check (\<lambda>e c. case get_owners_balance e c of Inr n \<Rightarrow> almost_eq n (to_atto LOCKUP_UNC) | _ \<Rightarrow> False)])"

definition test_add_full_access_key :: "host \<Rightarrow> bool" where
  "test_add_full_access_key e = passes (lockup_only_setup e
     ([day YEAR] @ owner_calls (L_add_full_access_key ''key4'')))"

definition test_add_full_access_key_when_vesting_is_not_finished :: "salted \<Rightarrow> host \<Rightarrow> bool" where
  "test_add_full_access_key_when_vesting_is_not_finished ser e =
     should_panic ''Tokens are still locked/unvested''
       (trial_of (basic_context e) (new_contract ser True (Some (new_vesting_schedule YEAR)) None True)
         ([edit (\<lambda>e. e\<lparr>env_block_timestamp := to_ts (GENESIS_TIME_IN_DAYS + YEAR - 10)\<rparr>)]
            @ owner_calls (L_add_full_access_key ''key4'')))"

definition test_add_full_access_key_when_lockup_is_not_finished :: "host \<Rightarrow> bool" where
  "test_add_full_access_key_when_lockup_is_not_finished e =
     should_panic ''Tokens are still locked/unvested''
       (trial_of (basic_context e) (new_contract (\<lambda>_. []) True None (Some (to_nanos YEAR)) False)
         ([edit (\<lambda>e. e\<lparr>env_block_timestamp := to_ts (GENESIS_TIME_IN_DAYS + YEAR - 10)\<rparr>)]
            @ owner_calls (L_add_full_access_key ''key4'')))"

definition test_call_by_non_owner :: "host \<Rightarrow> bool" where
  "test_call_by_non_owner e = should_panic ''Can only be called by the owner'' (lockup_only_setup e
     [day YEAR, caller non_owner, testing_env, msg (L_select_staking_pool ''staking_pool'')])"

definition test_vesting_doesnt_match :: "salted \<Rightarrow> host \<Rightarrow> bool" where
  "test_vesting_doesnt_match ser e =
     should_panic ''Presented vesting schedule and salt don't match the hash''
       (trial_of (basic_context e) (new_contract ser True (Some (new_vesting_schedule 5)) None True)
         (day YEAR # terminate_by_foundation ser (Some (salted_schedule (new_vesting_schedule 100)))))"

definition test_vesting_schedule_and_salt_not_provided :: "salted \<Rightarrow> host \<Rightarrow> bool" where
  "test_vesting_schedule_and_salt_not_provided ser e =
     should_panic ''Expected vesting schedule and salt, but it was not provided''
       (trial_of (basic_context e) (new_contract ser True (Some (new_vesting_schedule 5)) None True)
         (day YEAR # terminate_by_foundation ser None))"

text \<open>A contract with a public schedule, as three tests deploy it.\<close>

definition explicit_contract ::
  "vesting_schedule \<Rightarrow> duration option \<Rightarrow> host \<Rightarrow> lockup_contract res" where
  "explicit_contract vs release e = new_lockup e account_owner (to_nanos YEAR) None
     (TransfersEnabled (to_ts GENESIS_TIME_IN_DAYS)) (Some (InitVestingSchedule vs)) release ''whitelist''
     (Some account_foundation)"

definition test_explicit_vesting :: "salted \<Rightarrow> host \<Rightarrow> bool" where
  "test_explicit_vesting ser e = should_panic ''Explicit vesting schedule exists''
     (trial_of (basic_context e) (explicit_contract (new_vesting_schedule 5) None)
       (day YEAR # terminate_by_foundation ser (Some (salted_schedule (new_vesting_schedule 5)))))"

definition test_init_foundation_key_no_vesting :: "host \<Rightarrow> bool" where
  "test_init_foundation_key_no_vesting e =
     should_panic ''Foundation account can't be added without vesting schedule''
       (trial_of (basic_context e) (new_contract (\<lambda>_. []) True None None True) [])"

definition test_init_foundation_key_no_vesting_with_release :: "host \<Rightarrow> bool" where
  "test_init_foundation_key_no_vesting_with_release e =
     should_panic ''Foundation account can't be added without vesting schedule''
       (trial_of (basic_context e) (new_contract (\<lambda>_. []) True None (Some (to_nanos YEAR)) True) [])"

definition test_call_by_non_foundation :: "salted \<Rightarrow> host \<Rightarrow> bool" where
  "test_call_by_non_foundation ser e = should_panic ''Can only be called by UNC Foundation''
     (trial_of (basic_context e) (new_contract ser True (Some (new_vesting_schedule 0)) None True)
       [day YEAR, caller non_owner, testing_env, update (\<lambda>e. terminate_vesting ser e None)])"

subsection \<open>Transfers\<close>

definition test_transfers_not_enabled :: "host \<Rightarrow> bool" where
  "test_transfers_not_enabled e = should_panic ''Transfers are disabled''
     (trial_of (basic_context e) (new_contract (\<lambda>_. []) False None None False)
       (day (YEAR + 1) # owner_calls (L_transfer (to_atto 100) non_owner)))"

text \<open>The callback with the result of the poll, and the value that it returns.\<close>

definition polled :: "timestamp option \<Rightarrow> bool \<Rightarrow> lockup_test_step list" where
  "polled result b = [caller lockup_account, testing_env_with [Successful []],
     assert_call (\<lambda>v. v = b) (\<lambda>e c.
       bindE (on_get_result_from_transfer_poll e (Some result) c) (\<lambda>(c, v). Inr (v, c)))]"

definition test_enable_transfers :: "host \<Rightarrow> bool" where
  "test_enable_transfers e = passes
     (trial_of (basic_context e) (new_contract (\<lambda>_. []) False None None False)
       ([testing_env, transfers_are False, day (YEAR + 1)]
        @ owner_calls L_check_transfers_vote
        @ polled (Some (to_ts (GENESIS_TIME_IN_DAYS + 10))) True
        @ [testing_env, owners 0, transfers_are True, vesting_is NoVesting,
           day (YEAR + 10), testing_env, owners (to_atto LOCKUP_UNC)]
        @ owner_calls (L_transfer (to_atto 100) non_owner)))"

definition test_check_transfers_vote_false :: "host \<Rightarrow> bool" where
  "test_check_transfers_vote_false e = passes
     (trial_of (basic_context e) (new_contract (\<lambda>_. []) False None None False)
       ([testing_env, transfers_are False, day (YEAR + 1)]
        @ owner_calls L_check_transfers_vote
        @ polled None False
        @ [testing_env, transfers_are False]))"

definition test_lockup_only_transfer_call_by_owner :: "host \<Rightarrow> bool" where
  "test_lockup_only_transfer_call_by_owner e = passes (lockup_only_setup e (
     [day (YEAR + 1), testing_env,
      check (\<lambda>e c. case get_owners_balance e c of Inr n \<Rightarrow> almost_eq n (to_atto LOCKUP_UNC) | _ \<Rightarrow> False),
      caller account_owner, testing_env,
      balance_is (to_atto LOCKUP_UNC),
      msg (L_transfer (to_atto 100) non_owner),
      check (\<lambda>e c. almost_eq (env_account_balance e) (to_atto (LOCKUP_UNC - 100)))]))"

lemmas lockup_test_eval2 = lockup_test_eval explicit_contract_def polled_def

lemma lockup_only_tests:
  assumes "\<And>a. env_is_valid_account_id e a"
  shows "test_lockup_only_basic e" "test_add_full_access_key e"
    "test_add_full_access_key_when_vesting_is_not_finished ser e"
    "test_add_full_access_key_when_lockup_is_not_finished e" "test_call_by_non_owner e"
  unfolding test_lockup_only_basic_def test_add_full_access_key_def test_call_by_non_owner_def
    test_add_full_access_key_when_vesting_is_not_finished_def
    test_add_full_access_key_when_lockup_is_not_finished_def
  using assms by (simp_all add: lockup_test_eval2 cong: eval_cong)

lemma lockup_vesting_tests:
  assumes "\<And>a. env_is_valid_account_id e a"
  shows "test_vesting_schedule_and_salt_not_provided ser e" "test_explicit_vesting ser e"
    "test_init_foundation_key_no_vesting e" "test_init_foundation_key_no_vesting_with_release e"
    "test_call_by_non_foundation ser e"
  unfolding test_vesting_schedule_and_salt_not_provided_def test_explicit_vesting_def
    test_init_foundation_key_no_vesting_def test_init_foundation_key_no_vesting_with_release_def
    test_call_by_non_foundation_def
  using assms by (simp_all add: lockup_test_eval2 cong: eval_cong)

text \<open>The hash must tell the two schedules of this test apart.\<close>

lemma vesting_doesnt_match:
  assumes "\<And>a. env_is_valid_account_id e a"
    and "env_sha256 e (ser (salted_schedule (new_vesting_schedule 100)))
       \<noteq> env_sha256 e (ser (salted_schedule (new_vesting_schedule 5)))"
  shows "test_vesting_doesnt_match ser e"
  unfolding test_vesting_doesnt_match_def
  using assms by (simp add: lockup_test_eval2 cong: eval_cong)

lemma lockup_transfer_tests:
  assumes "\<And>a. env_is_valid_account_id e a"
  shows "test_transfers_not_enabled e" "test_enable_transfers e" "test_check_transfers_vote_false e"
    "test_lockup_only_transfer_call_by_owner e"
  unfolding test_transfers_not_enabled_def test_enable_transfers_def test_check_transfers_vote_false_def
    test_lockup_only_transfer_call_by_owner_def
  using assms by (simp_all add: lockup_test_eval2 cong: eval_cong)

subsection \<open>Staking\<close>

definition selected :: "account_id option \<Rightarrow> lockup_test_step" where
  "selected a = check (\<lambda>e c. get_staking_pool_account_id c = a)"

definition test_staking_pool_is_not_selected :: "host \<Rightarrow> bool" where
  "test_staking_pool_is_not_selected e = should_panic ''Staking pool is not selected''
     (lockup_only_setup e (owner_calls (L_deposit_to_staking_pool (to_atto (LOCKUP_UNC - 100)))))"

definition test_staking_pool_success :: "host \<Rightarrow> bool" where
  "test_staking_pool_success e =
     (let amount = to_atto (LOCKUP_UNC - 100); unstake_amount = amount + to_atto 20 in
      passes (lockup_only_setup e
       (select_pool
        @ [testing_env, selected (Some ''staking_pool''), known 0]
        @ deposit_pool amount
        @ [balance_is (to_atto LOCKUP_UNC - amount)]
        @ deposited amount
        @ [testing_env, known amount]
        @ stake_pool amount
        @ owner_calls (L_unstake unstake_amount)
        @ called_back R_unit (C_on_staking_pool_unstake unstake_amount)
        @ owner_calls (L_withdraw_from_staking_pool unstake_amount)
        @ [receive unstake_amount]
        @ called_back R_unit (C_on_staking_pool_withdraw unstake_amount)
        @ [testing_env, known 0]
        @ owner_calls L_unselect_staking_pool
        @ [selected None])))"

definition test_staking_pool_refresh_balance :: "host \<Rightarrow> bool" where
  "test_staking_pool_refresh_balance e =
     (let amount = to_atto (LOCKUP_UNC - 100); total_balance = amount + to_atto 20 in
      passes (lockup_only_setup e
       (select_pool
        @ deposit_pool amount
        @ [balance_is (to_atto LOCKUP_UNC - amount)]
        @ deposited amount
        @ stake_pool amount
        @ [testing_env, owners 0, liquid 0, known amount]
        @ owner_calls L_refresh_staking_pool_balance
        @ called_back (R_balance total_balance) C_on_get_account_total_balance
        @ [testing_env, known total_balance, owners (to_atto 20), liquid (to_atto 20)]
        @ owner_calls (L_transfer (to_atto 15) non_owner)
        @ [keep_balance,
           testing_env, known total_balance, owners (to_atto 5), liquid (to_atto 5)])))"

definition test_staking_pool_selected_again :: "host \<Rightarrow> bool" where
  "test_staking_pool_selected_again e = should_panic ''Staking pool is already selected''
     (lockup_only_setup e (select_pool @ owner_calls (L_select_staking_pool ''staking_pool_2'')))"

definition test_staking_pool_not_whitelisted :: "host \<Rightarrow> bool" where
  "test_staking_pool_not_whitelisted e = should_panic ''The given staking pool account ID is not whitelisted''
     (lockup_only_setup e (owner_calls (L_select_staking_pool ''staking_pool'')
        @ called_back (R_bool False) (C_on_whitelist_is_whitelisted ''staking_pool'')))"

definition test_staking_pool_unselecting_non_selected :: "host \<Rightarrow> bool" where
  "test_staking_pool_unselecting_non_selected e = should_panic ''Staking pool is not selected''
     (lockup_only_setup e (owner_calls L_unselect_staking_pool))"

definition test_staking_pool_unselecting_with_deposit :: "host \<Rightarrow> bool" where
  "test_staking_pool_unselecting_with_deposit e =
     should_panic ''There is still a deposit on the staking pool'' (lockup_only_setup e
       (select_pool
        @ deposit_pool (to_atto (LOCKUP_UNC - 100))
        @ deposited (to_atto (LOCKUP_UNC - 100))
        @ owner_calls L_unselect_staking_pool))"

text \<open>Five deposits of \<open>amount\<close>, then six withdrawals, the last of which takes a reward.\<close>

definition owner_balance_deposit :: "nat \<Rightarrow> lockup_test_step list" where
  "owner_balance_deposit i =
     (let lockup_amount = to_atto LOCKUP_UNC; amount = to_atto 100; total_amount = i * amount in
      deposit_pool amount
      @ [balance_is (lockup_amount - total_amount)]
      @ deposited amount
      @ [testing_env, known total_amount, owners lockup_amount,
         liquid (lockup_amount - total_amount - MIN_BALANCE_FOR_STORAGE)])"

definition owner_balance_withdraw :: "nat \<Rightarrow> lockup_test_step list" where
  "owner_balance_withdraw i =
     (let lockup_amount = to_atto LOCKUP_UNC; amount = to_atto 100; total_amount = 5 * amount;
          total_withdrawn_amount = i * amount in
      owner_calls (L_withdraw_from_staking_pool amount)
      @ [receive amount,
         \<lambda>t. bindE (ensure (env_account_balance (ctx t) = lockup_amount - total_amount + total_withdrawn_amount)
           ''assertion failed'') (\<lambda>_. Inr t)]
      @ called_back R_unit (C_on_staking_pool_withdraw amount)
      @ [testing_env, known (sat_sub total_amount total_withdrawn_amount),
         owners (lockup_amount + sat_sub total_withdrawn_amount total_amount),
         liquid (lockup_amount - total_amount + total_withdrawn_amount - MIN_BALANCE_FOR_STORAGE)])"

definition test_staking_pool_owner_balance :: "host \<Rightarrow> bool" where
  "test_staking_pool_owner_balance e = passes (lockup_only_setup e
     ([caller account_owner, day (YEAR + 1), testing_env, owners (to_atto LOCKUP_UNC)]
      @ select_pool
      @ concat (map owner_balance_deposit [1, 2, 3, 4, 5])
      @ concat (map owner_balance_withdraw [1, 2, 3, 4, 5, 6])))"

lemmas lockup_test_eval3 = lockup_test_eval selected_def owner_balance_deposit_def owner_balance_withdraw_def

lemma staking_pool_panics:
  assumes "\<And>a. env_is_valid_account_id e a"
  shows "test_staking_pool_is_not_selected e" "test_staking_pool_selected_again e"
    "test_staking_pool_not_whitelisted e" "test_staking_pool_unselecting_non_selected e"
    "test_staking_pool_unselecting_with_deposit e"
  unfolding test_staking_pool_is_not_selected_def test_staking_pool_selected_again_def
    test_staking_pool_not_whitelisted_def test_staking_pool_unselecting_non_selected_def
    test_staking_pool_unselecting_with_deposit_def
  using assms by (simp_all add: lockup_test_eval3 cong: eval_cong)

lemma staking_pool_success: "(\<And>a. env_is_valid_account_id e a) \<Longrightarrow> test_staking_pool_success e"
  unfolding test_staking_pool_success_def lockup_steps owner_balance_deposit_def owner_balance_withdraw_def
  by (simp add: lockup_test_eval3 cong: test_cong)

lemma staking_pool_refresh_balance:
  "(\<And>a. env_is_valid_account_id e a) \<Longrightarrow> test_staking_pool_refresh_balance e"
  unfolding test_staking_pool_refresh_balance_def lockup_steps owner_balance_deposit_def owner_balance_withdraw_def
  by (simp add: lockup_test_eval3 cong: test_cong)

lemma staking_pool_owner_balance:
  "(\<And>a. env_is_valid_account_id e a) \<Longrightarrow> test_staking_pool_owner_balance e"
  unfolding test_staking_pool_owner_balance_def lockup_steps owner_balance_deposit_def owner_balance_withdraw_def
  by (simp add: lockup_test_eval3 cong: test_cong)

subsection \<open>Release and vesting over time\<close>

definition test_lock_timestmap :: "host \<Rightarrow> bool" where
  "test_lock_timestmap e = passes
     (trial_of (basic_context e)
       (\<lambda>e. new_lockup e account_owner 0 (Some (to_ts (GENESIS_TIME_IN_DAYS + YEAR))) (TransfersDisabled ''transfers'')
          None None ''whitelist'' None)
       [testing_env,
        owners 0, liquid 0, locked_vested no_vesting_schedule (to_atto 1000), locked (to_atto 1000),
        unvested no_vesting_schedule (to_atto 0), transfers_are False,
        day YEAR, testing_env,
        owners 0, liquid 0, locked_vested no_vesting_schedule (to_atto 1000), locked (to_atto 1000),
        unvested no_vesting_schedule (to_atto 0)])"

definition test_lock_timestmap_transfer_enabled :: "host \<Rightarrow> bool" where
  "test_lock_timestmap_transfer_enabled e = passes
     (trial_of (basic_context e)
       (\<lambda>e. new_lockup e account_owner 0 (Some (to_ts (GENESIS_TIME_IN_DAYS + YEAR)))
          (TransfersEnabled (to_ts (GENESIS_TIME_IN_DAYS + YEAR div 2))) None None ''whitelist'' None)
       [day YEAR, testing_env,
        owners (to_atto 1000), liquid (to_atto 1000 - MIN_BALANCE_FOR_STORAGE),
        locked_vested no_vesting_schedule (to_atto 0), locked (to_atto 0),
        unvested no_vesting_schedule (to_atto 0)])"

definition test_release_duration :: "host \<Rightarrow> bool" where
  "test_release_duration e = passes
     (trial_of (basic_context e) (new_contract (\<lambda>_. []) True None (Some (to_nanos (4 * YEAR))) False)
       [testing_env,
        owners 0, liquid 0, locked_vested no_vesting_schedule (to_atto 1000), locked (to_atto 1000),
        unvested no_vesting_schedule (to_atto 0),
        day YEAR, testing_env,
        owners (to_atto 0), liquid (to_atto 0), locked_vested no_vesting_schedule (to_atto 1000), locked (to_atto 1000),
        day (2 * YEAR), testing_env,
        owners (to_atto 250), liquid (to_atto 250), locked_vested no_vesting_schedule (to_atto 750), locked (to_atto 750),
        day (3 * YEAR), testing_env,
        owners (to_atto 500), liquid (to_atto 500), locked_vested no_vesting_schedule (to_atto 500), locked (to_atto 500),
        day (4 * YEAR), testing_env,
        owners (to_atto 750), liquid (to_atto 750), locked (to_atto 250)])"

text \<open>All five figures of a contract with the schedule \<open>vs\<close>: \<open>ol\<close> is what the owner has, all of it liquid.\<close>

definition figures :: "vesting_schedule \<Rightarrow> nat \<Rightarrow> nat \<Rightarrow> nat \<Rightarrow> nat \<Rightarrow> lockup_test_step list" where
  "figures vs ol lv l u = [owners (to_atto ol), liquid (to_atto ol), locked_vested vs (to_atto lv),
     locked (to_atto l), unvested vs (to_atto u)]"

definition everything_free :: "vesting_schedule \<Rightarrow> lockup_test_step list" where
  "everything_free vs = [owners (to_atto 1000), liquid (to_atto 1000 - MIN_BALANCE_FOR_STORAGE),
     locked_vested vs (to_atto 0), locked (to_atto 0), unvested vs (to_atto 0)]"

definition test_vesting_and_release_duration :: "salted \<Rightarrow> host \<Rightarrow> bool" where
  "test_vesting_and_release_duration ser e =
     (let vs = new_vesting_schedule 0 in passes
     (trial_of (basic_context e)
       (new_contract_with_lockup_duration ser True (Some vs) (Some (to_nanos (4 * YEAR))) True 0)
       ([testing_env] @ figures vs 0 250 1000 750
        @ [day YEAR, testing_env] @ figures vs 250 250 750 500
        @ [day (2 * YEAR), testing_env] @ figures vs 500 250 500 250
        @ [day (3 * YEAR), testing_env] @ figures vs 750 250 250 0
        @ [day (4 * YEAR), testing_env] @ everything_free vs)))"

definition test_vesting_post_transfers_and_release_duration :: "host \<Rightarrow> bool" where
  "test_vesting_post_transfers_and_release_duration e =
     (let vs = new_vesting_schedule (YEAR * 2) in passes
     (trial_of (basic_context e) (explicit_contract vs (Some (to_nanos (4 * YEAR))))
       ([testing_env] @ figures vs 0 0 1000 1000
        @ [day YEAR, testing_env] @ figures vs 0 0 1000 1000
        @ [day (2 * YEAR), testing_env] @ figures vs 250 0 750 750
        @ [day (3 * YEAR), testing_env] @ figures vs 500 0 500 500
        @ [day (4 * YEAR), testing_env] @ figures vs 750 0 250 250
        @ [day (5 * YEAR), testing_env] @ everything_free vs)))"

lemma lock_timestmap:
  assumes "\<And>a. env_is_valid_account_id e a"
  shows "test_lock_timestmap e" "test_lock_timestmap_transfer_enabled e"
  unfolding test_lock_timestmap_def test_lock_timestmap_transfer_enabled_def lockup_steps
  using assms by (simp_all add: lockup_test_eval2 cong: test_cong)

lemmas release_steps = Let_def figures_def everything_free_def lockup_steps

lemma release_alone:
  "(\<And>a. env_is_valid_account_id e a) \<Longrightarrow> test_release_duration e"
  unfolding test_release_duration_def release_steps
  by (simp add: lockup_test_eval2 cong: test_cong)

lemma vesting_and_release:
  "(\<And>a. env_is_valid_account_id e a) \<Longrightarrow> test_vesting_and_release_duration ser e"
  unfolding test_vesting_and_release_duration_def release_steps
  by (simp add: lockup_test_eval2 cong: test_cong)

lemma vesting_post_transfers:
  "(\<And>a. env_is_valid_account_id e a) \<Longrightarrow> test_vesting_post_transfers_and_release_duration e"
  unfolding test_vesting_post_transfers_and_release_duration_def release_steps
  by (simp add: lockup_test_eval2 cong: test_cong)

subsection \<open>Termination of the vesting\<close>

text \<open>The foundation withdraws; the callback reports \<open>n\<close>. \<open>checks\<close> come between the two.\<close>

definition withdrawn_by_foundation :: "nat \<Rightarrow> lockup_test_step list \<Rightarrow> lockup_test_step list" where
  "withdrawn_by_foundation n checks =
     [testing_env, msg (L_termination_withdraw account_foundation), keep_balance] @ checks
     @ called_back R_unit (C_on_withdraw_unvested_amount n account_foundation) @ [testing_env]"

definition test_termination_no_staking :: "salted \<Rightarrow> host \<Rightarrow> bool" where
  "test_termination_no_staking ser e =
     (let vs = new_vesting_schedule 0 in passes
     (trial_of (basic_context e) (explicit_contract vs None)
       ([testing_env, vesting_is (VestingSchedule vs)] @ figures vs 0 250 1000 750
        @ [day YEAR, testing_env] @ figures vs 500 0 500 500
        @ [day (2 * YEAR), testing_env,
           owners (to_atto 750), liquid (to_atto 750), locked (to_atto 250), unvested vs (to_atto 250)]
        @ terminate_by_foundation ser None
        @ [testing_env,
           vesting_is (Terminating \<lparr>unvested_amount = to_atto 250, termination_status = ReadyToWithdraw\<rparr>),
           owners (to_atto 750), liquid (to_atto 750), locked (to_atto 250), unvested vs (to_atto 250),
           terminated_unvested (to_atto 250), unvested_deficit (to_atto 0), terminating (Some ReadyToWithdraw)]
        @ withdrawn_by_foundation (to_atto 250) []
        @ [owners (to_atto 750), liquid (to_atto 750 - MIN_BALANCE_FOR_STORAGE), unvested vs (to_atto 0),
           terminated_unvested (to_atto 0), terminating None, vesting_is NoVesting])))"

definition test_termination_no_staking_with_release_duration :: "salted \<Rightarrow> host \<Rightarrow> bool" where
  "test_termination_no_staking_with_release_duration ser e =
     (let vs = new_vesting_schedule 0 in passes
     (trial_of (basic_context e)
       (new_contract_with_lockup_duration ser True (Some vs) (Some (to_nanos (4 * YEAR))) True 0)
       ([testing_env] @ figures vs 0 250 1000 750
        @ [day (2 * YEAR), testing_env] @ figures vs 500 250 500 250
        @ terminate_by_foundation ser (Some (salted_schedule vs))
        @ [testing_env] @ figures vs 500 250 500 250
        @ [terminated_unvested (to_atto 250), unvested_deficit (to_atto 0), terminating (Some ReadyToWithdraw)]
        @ withdrawn_by_foundation (to_atto 250) []
        @ [owners (to_atto 500), liquid (to_atto 500), locked_vested vs (to_atto 250), unvested vs (to_atto 0),
           terminated_unvested (to_atto 0), terminating None,
           day (3 * YEAR), testing_env,
           owners (to_atto 750), liquid (to_atto 750 - MIN_BALANCE_FOR_STORAGE), locked_vested vs (to_atto 0)])))"

definition test_termination_before_cliff :: "salted \<Rightarrow> host \<Rightarrow> bool" where
  "test_termination_before_cliff ser e =
     (let vs = new_vesting_schedule YEAR; lockup_amount = to_atto 1000 in passes
     (trial_of (basic_context e) (new_contract ser True (Some vs) None True)
       ([testing_env, check (\<lambda>e c. get_vesting_information c = VestingHash (hash ser e (salted_schedule vs))),
           owners 0, liquid 0, locked lockup_amount, unvested vs lockup_amount, locked_vested vs 0]
        @ terminate_by_foundation ser (Some (salted_schedule vs))
        @ [testing_env,
           vesting_is (Terminating \<lparr>unvested_amount = lockup_amount, termination_status = ReadyToWithdraw\<rparr>),
           owners 0, liquid 0, locked lockup_amount, unvested vs lockup_amount, locked_vested vs 0,
           terminated_unvested lockup_amount, unvested_deficit MIN_BALANCE_FOR_STORAGE,
           terminating (Some ReadyToWithdraw)]
        @ withdrawn_by_foundation (lockup_amount - MIN_BALANCE_FOR_STORAGE) [balance_is MIN_BALANCE_FOR_STORAGE]
        @ [unvested vs MIN_BALANCE_FOR_STORAGE, owners 0, liquid 0, locked_vested vs 0,
           terminated_unvested MIN_BALANCE_FOR_STORAGE, unvested_deficit MIN_BALANCE_FOR_STORAGE,
           terminating (Some ReadyToWithdraw)])))"

definition test_termination_with_staking :: "salted \<Rightarrow> host \<Rightarrow> bool" where
  "test_termination_with_staking ser e =
     (let vs = new_vesting_schedule 0; lockup_amount = to_atto 1000; stake_amount = to_atto (LOCKUP_UNC - 100);
          with_rewards = stake_amount + to_atto 50; extra_rewards = with_rewards + to_atto 1 in passes
     (trial_of (basic_context e) (new_contract ser True (Some vs) None True)
       ([testing_env, owners (to_atto 0), liquid (to_atto 0), locked lockup_amount, unvested vs (to_atto 750),
           locked_vested vs (to_atto 250)]
        @ select_pool
        @ deposit_pool stake_amount
        @ deposited stake_amount
        @ stake_pool stake_amount
        @ [testing_env, owners (to_atto 0), liquid (to_atto 0), known stake_amount, locked lockup_amount,
           locked_vested vs (to_atto 250), unvested vs (to_atto 750)]
        @ terminate_by_foundation ser (Some (salted_schedule vs))
        @ [testing_env, owners (to_atto 0), liquid (to_atto 0), locked lockup_amount, unvested vs (to_atto 750),
           locked_vested vs (to_atto 250), terminated_unvested (to_atto 750),
           unvested_deficit (to_atto 650 + MIN_BALANCE_FOR_STORAGE),
           terminating (Some VestingTerminatedWithDeficit),
           testing_env, msg L_termination_prepare_to_withdraw, terminating (Some UnstakingInProgress)]
        @ called_back (R_balance with_rewards) C_on_get_account_staked_balance_to_unstake
        @ called_back R_unit (C_on_staking_pool_unstake_for_termination with_rewards)
        @ [testing_env, terminating (Some EverythingUnstaked),
           caller account_foundation, testing_env, msg L_termination_prepare_to_withdraw,
           terminating (Some WithdrawingFromStakingPoolInProgress)]
        @ called_back (R_balance extra_rewards) C_on_get_account_unstaked_balance_to_withdraw
        @ [receive extra_rewards]
        @ called_back R_unit (C_on_staking_pool_withdraw_for_termination extra_rewards)
        @ [testing_env, owners (to_atto 51), liquid (to_atto 51), locked lockup_amount, unvested vs (to_atto 750),
           terminated_unvested (to_atto 750), locked_vested vs (to_atto 250), unvested_deficit 0, known 0,
           terminating (Some ReadyToWithdraw), caller account_foundation]
        @ withdrawn_by_foundation (to_atto 750)
            [check (\<lambda>e c. env_account_balance e = to_atto (250 + 51))]
        @ [owners (to_atto 51), liquid (to_atto 51), locked (to_atto 250), locked_vested vs (to_atto 250),
           unvested vs 0, terminated_unvested 0, unvested_deficit 0, terminating None,
           day (YEAR + 1), testing_env,
           owners (to_atto 301), liquid (to_atto 301 - MIN_BALANCE_FOR_STORAGE), locked_vested vs 0, locked 0])))"

lemmas termination_steps = Let_def figures_def withdrawn_by_foundation_def lockup_steps

lemma termination_no_staking:
  "(\<And>a. env_is_valid_account_id e a) \<Longrightarrow> test_termination_no_staking ser e"
  unfolding test_termination_no_staking_def termination_steps
  by (simp add: lockup_test_eval2 cong: test_cong)

lemma termination_no_staking_with_release_duration:
  "(\<And>a. env_is_valid_account_id e a) \<Longrightarrow> test_termination_no_staking_with_release_duration ser e"
  unfolding test_termination_no_staking_with_release_duration_def termination_steps
  by (simp add: lockup_test_eval2 cong: test_cong)

lemma termination_before_cliff:
  "(\<And>a. env_is_valid_account_id e a) \<Longrightarrow> test_termination_before_cliff ser e"
  unfolding test_termination_before_cliff_def termination_steps
  by (simp add: lockup_test_eval2 cong: test_cong)

lemma termination_with_staking:
  "(\<And>a. env_is_valid_account_id e a) \<Longrightarrow> test_termination_with_staking ser e"
  unfolding test_termination_with_staking_def termination_steps
  by (simp add: lockup_test_eval2 cong: test_cong)

end
