(* ===== verification/StakingPoolTests.thy ===== *)
theory StakingPoolTests
  imports StakingPool UnitTests
begin

section \<open>The unit tests of the staking pool (\<open>staking-pool/src/lib.rs\<close>)\<close>

text \<open>
  The tests of the staking pool keep the balance of the account themselves, in an \<open>Emulator\<close> around
  the contract that also checks, before every change of the context, that the price of a share has
  not fallen.
\<close>

subsection \<open>\<open>test_utils.rs\<close> and the emulator\<close>

definition staking :: account_id where "staking = ''staking''"

definition alice :: account_id where "alice = ''alice''"

definition bob :: account_id where "bob = ''bob''"

definition the_owner :: account_id where "the_owner = ''owner''"

definition test_key :: public_key where "test_key = ''ed25519:KuTCtARNzxZQ3YvXDeLjx83FDqxv2SdQTSbiq876zR7''"

definition ntoy :: "nat \<Rightarrow> nat" where "ntoy unc_amount = unc_amount * 10 ^ 24"

definition yton :: "nat \<Rightarrow> nat" where "yton atto_amount = (atto_amount + 5 * 10 ^ 23) div 10 ^ 24"

text \<open>\<open>assert_eq_in_unc!\<close>\<close>

definition eq_in_unc :: "nat res \<Rightarrow> nat \<Rightarrow> bool" where
  "eq_in_unc a b = (case a of Inr n \<Rightarrow> yton n = yton b | Inl _ \<Rightarrow> False)"

record emulator =
  em_contract :: staking_contract
  em_epoch_height :: nat
  em_amount :: nat
  em_locked_amount :: nat
  last_total_staked_balance :: nat
  last_total_stake_shares :: nat

type_synonym emulator_step = "emulator step"

definition zero_fee :: reward_fee_fraction where
  "zero_fee = \<lparr>numerator = 0, denominator = 1\<rparr>"

definition emulator_context :: "host \<Rightarrow> host" where
  "emulator_context e = e\<lparr>env_current_account_id := the_owner, env_account_balance := ntoy 30\<rparr>"

definition new_emulator :: "reward_fee_fraction \<Rightarrow> host \<Rightarrow> emulator res" where
  "new_emulator fee e = bindE (new_pool e the_owner test_key fee) (\<lambda>(s, _).
     Inr \<lparr>em_contract = s, em_epoch_height = 0, em_amount = ntoy 30, em_locked_amount = 0,
       last_total_staked_balance = total_staked_balance s, last_total_stake_shares = total_stake_shares s\<rparr>)"

definition verify_stake_price_increase_guarantee :: "emulator \<Rightarrow> emulator res" where
  "verify_stake_price_increase_guarantee m =
     (let total_balance = total_staked_balance (em_contract m); total_shares = total_stake_shares (em_contract m) in
      bindE (ensure (last_total_staked_balance m * total_shares \<le> total_balance * last_total_stake_shares m)
        ''Price increase guarantee was violated.'') (\<lambda>_.
      Inr (m\<lparr>last_total_staked_balance := total_balance, last_total_stake_shares := total_shares\<rparr>)))"

definition update_context :: "account_id \<Rightarrow> nat \<Rightarrow> emulator_step" where
  "update_context a n t =
     bindE (verify_stake_price_increase_guarantee (subject t)) (\<lambda>m.
     testing_env (t\<lparr>subject := m, ctx := (ctx t)\<lparr>env_current_account_id := staking, env_predecessor_account_id := a,
       env_attached_deposit := n, env_account_balance := em_amount m,
       env_account_locked_balance := em_locked_amount m, env_epoch_height := em_epoch_height m\<rparr>\<rparr>))"

definition simulate_stake_call :: "emulator_step" where
  "simulate_stake_call t =
     (let m = subject t; total_stake = total_staked_balance (em_contract m) in
      update_context staking 0 (t\<lparr>subject := m\<lparr>
        em_amount := sat_sub (sat_add 128 (em_amount m) (em_locked_amount m)) total_stake,
        em_locked_amount := total_stake\<rparr>\<rparr>))"

definition skip_epochs :: "nat \<Rightarrow> emulator_step" where
  "skip_epochs num t = (let m = subject t in
     Inr (t\<lparr>subject := m\<lparr>em_epoch_height := em_epoch_height m + num,
       em_locked_amount := sat_mul 128 (em_locked_amount m) (100 + num) div 100\<rparr>\<rparr>))"

text \<open>\<open>emulator.amount = emulator.amount.saturating_add(n)\<close> and the same for the locked amount.\<close>

definition add_amount :: "nat \<Rightarrow> emulator_step" where
  "add_amount n t = Inr (t\<lparr>subject := (subject t)\<lparr>em_amount := sat_add 128 (em_amount (subject t)) n\<rparr>\<rparr>)"

text \<open>\<open>emulator.contract.m()\<close>\<close>

definition emulated :: "(host \<Rightarrow> staking_contract \<Rightarrow> pool_result) \<Rightarrow> emulator_step" where
  "emulated m = invoke (\<lambda>e em. bindE (m e (em_contract em)) (\<lambda>(s, ps). Inr (em\<lparr>em_contract := s\<rparr>, ps)))"

definition pool_check :: "(host \<Rightarrow> staking_contract \<Rightarrow> bool) \<Rightarrow> emulator_step" where
  "pool_check p = check (\<lambda>e em. p e (em_contract em))"

text \<open>\<open>let locked_amount = emulator.locked_amount; emulator.skip_epochs(n)\<close>, then the locked amount and a reward.\<close>

definition skip_with_reward :: "nat \<Rightarrow> nat \<Rightarrow> emulator_step" where
  "skip_with_reward num reward t = bindE (skip_epochs num t) (\<lambda>u.
     Inr (u\<lparr>subject := (subject u)\<lparr>em_locked_amount := sat_add 128 (em_locked_amount (subject t)) reward\<rparr>\<rparr>))"

definition emulate :: "reward_fee_fraction \<Rightarrow> host \<Rightarrow> emulator_step list \<Rightarrow> emulator trial res" where
  "emulate fee e = trial_of (emulator_context e) (new_emulator fee)"

definition staked_is :: "account_id \<Rightarrow> nat \<Rightarrow> emulator_step" where
  "staked_is a n = pool_check (\<lambda>e s. get_account_staked_balance e a s = Inr n)"

definition staked_about :: "account_id \<Rightarrow> nat \<Rightarrow> emulator_step" where
  "staked_about a n = pool_check (\<lambda>e s. eq_in_unc (get_account_staked_balance e a s) n)"

definition unstaked_is :: "account_id \<Rightarrow> nat \<Rightarrow> emulator_step" where
  "unstaked_is a n = pool_check (\<lambda>e s. get_account_unstaked_balance e a s = Inr n)"

definition unstaked_about :: "account_id \<Rightarrow> nat \<Rightarrow> emulator_step" where
  "unstaked_about a n = pool_check (\<lambda>e s. eq_in_unc (get_account_unstaked_balance e a s) n)"

text \<open>A deposit of \<open>n\<close> by \<open>a\<close>, and a stake of \<open>n\<close> by the caller of the context.\<close>

definition deposits :: "account_id \<Rightarrow> nat \<Rightarrow> emulator_step list" where
  "deposits a n = [update_context a n, emulated deposit, add_amount n, update_context a 0]"

definition stakes :: "nat \<Rightarrow> emulator_step list" where
  "stakes n = [emulated (\<lambda>e. stake e n), simulate_stake_call]"

subsection \<open>The tests\<close>

definition test_restake_fail :: "host \<Rightarrow> bool" where
  "test_restake_fail e = passes (emulate zero_fee e
     [update_context bob 0,
      pool_check (\<lambda>e s. map snd (concat (map batches (internal_restake e s)))
        = [[Stake 29999999999999000000000000 test_key], [FunctionCall On_stake_action 0 ON_STAKE_ACTION_GAS]]),
      simulate_stake_call,
      update_context staking 0,
      testing_env_with [Failed],
      pool_check (\<lambda>e s. case on_stake_action e s of
        Inr (_, ps) \<Rightarrow> map snd (concat (map batches ps)) = [[Stake 0 test_key]] | _ \<Rightarrow> False)])"

definition test_deposit_withdraw :: "host \<Rightarrow> bool" where
  "test_deposit_withdraw e = (let deposit_amount = ntoy 1000000 in passes (emulate zero_fee e
     (deposits bob deposit_amount
      @ [unstaked_is bob deposit_amount,
         emulated (\<lambda>e. withdraw e deposit_amount),
         unstaked_is bob 0])))"

text \<open>The second and the third round of rewards use what the emulator locked before them.\<close>

definition expected_share :: "nat \<Rightarrow> nat \<Rightarrow> nat" where
  "expected_share amount n_locked_amount = ntoy ((yton amount * 90000 + n_locked_amount div 2) div n_locked_amount)"

definition rewarded :: "(nat \<Rightarrow> emulator_step list) \<Rightarrow> emulator_step" where
  "rewarded checks t =
     run ([skip_with_reward 10 (ntoy 100000), update_context bob 0, emulated ping]
          @ checks (yton (em_locked_amount (subject t)))) t"

definition test_stake_with_fee :: "host \<Rightarrow> bool" where
  "test_stake_with_fee e = (let deposit_amount = ntoy 1000000 in
     passes (emulate \<lparr>numerator = 10, denominator = 100\<rparr> e
       (deposits bob deposit_amount
        @ stakes deposit_amount
        @ [staked_is bob deposit_amount,
           rewarded (\<lambda>n1.
             let expected_amount = deposit_amount + expected_share deposit_amount n1 in
             [staked_about bob expected_amount,
              staked_about the_owner (ntoy 10000),
              rewarded (\<lambda>n2.
               [staked_about bob (expected_amount + expected_share expected_amount n2),
                staked_about the_owner (ntoy 10000 + ntoy 10000 + ntoy ((10000 * 90000 + n2 div 2) div n2))])]),
           pool_check (\<lambda>e s. get_number_of_accounts s = 2)])))"

text \<open>
  In the next two tests the assertions about the staked balance after unstaking are commented out in the source (\<open>FIXME: The contract
  should restake the amount, but it doesn't\<close>). They would fail: \<open>inner_unstake\<close> credits
  the shares that it should debit.
\<close>

definition test_stake_unstake :: "host \<Rightarrow> bool" where
  "test_stake_unstake e = (let deposit_amount = ntoy 1000000 in passes (emulate zero_fee e
     (deposits bob deposit_amount
      @ stakes deposit_amount
      @ [staked_is bob deposit_amount,
         skip_with_reward 10 (ntoy 10), update_context bob 0, emulated ping,
         staked_about bob (deposit_amount + ntoy 10),
         emulated (\<lambda>e. unstake e (deposit_amount div 2)),
         simulate_stake_call,
         unstaked_about bob (deposit_amount div 2),
         pool_check (\<lambda>e s. case get_account e bob s of
           Inr acc \<Rightarrow> account_id acc = bob \<and> yton (unstaked_balance acc) = yton (deposit_amount div 2)
             \<and> \<not> can_withdraw acc
         | Inl _ \<Rightarrow> False),
         pool_check (\<lambda>e s. is_account_unstaked_balance_available e bob s = Inr False),
         skip_epochs 4, update_context bob 0,
         pool_check (\<lambda>e s. is_account_unstaked_balance_available e bob s = Inr True)])))"

definition test_stake_all_unstake_all :: "host \<Rightarrow> bool" where
  "test_stake_all_unstake_all e = (let deposit_amount = ntoy 1000000 in passes (emulate zero_fee e
     [update_context bob deposit_amount, emulated deposit_and_stake, add_amount deposit_amount, simulate_stake_call,
      staked_is bob deposit_amount, unstaked_about bob 0,
      skip_with_reward 10 (ntoy 10), update_context bob 0, emulated ping,
      staked_about bob (deposit_amount + ntoy 10),
      emulated unstake_all, simulate_stake_call,
      unstaked_about bob (deposit_amount + ntoy 10)]))"

text \<open>The accounts of the pool, which a test lists by their IDs.\<close>

definition accounts_are :: "nat \<Rightarrow> nat \<Rightarrow> account_id list \<Rightarrow> emulator_step" where
  "accounts_are from_index limit ids = pool_check (\<lambda>e s.
     case get_accounts e [alice, bob] from_index limit s of Inr as \<Rightarrow> map account_id as = ids | Inl _ \<Rightarrow> False)"

definition test_two_delegates :: "host \<Rightarrow> bool" where
  "test_two_delegates e = passes (emulate zero_fee e
     (deposits alice (ntoy 1000000)
      @ stakes (ntoy 1000000)
      @ [skip_epochs 3]
      @ deposits bob (ntoy 1000000)
      @ stakes (ntoy 1000000)
      @ [staked_about bob (ntoy 1000000),
         skip_epochs 3, update_context alice 0, emulated ping,
         staked_about alice (ntoy 1060900 - 1), staked_about bob (ntoy 1030000),
         pool_check (\<lambda>e s. get_number_of_accounts s = 2),
         accounts_are 0 10 [alice, bob], accounts_are 1 10 [bob],
         accounts_are 0 1 [alice], accounts_are 2 10 []]))"

text \<open>The loop over the amounts that are staked as long as at least 4 remain.\<close>

fun stake_amounts :: "nat \<Rightarrow> nat \<Rightarrow> nat list" where
  "stake_amounts remaining amount = (if 4 \<le> remaining then
     let amount = 2 + (amount - 1) mod 3 in amount # stake_amounts (remaining - amount) amount else [])"

declare stake_amounts.simps [simp del]

definition test_low_balances :: "host \<Rightarrow> bool" where
  "test_low_balances e = passes (emulate zero_fee e
     ([update_context alice 100, emulated deposit, add_amount 100]
      @ concat (map (\<lambda>n. [update_context alice 0] @ stakes n) (stake_amounts 100 1))))"

subsection \<open>The model passes them\<close>

text \<open>What the builder of the SDK sets by default.\<close>

definition pool_test_host :: "host \<Rightarrow> bool" where
  "pool_test_host e \<longleftrightarrow> \<not> env_state_exists e \<and> (\<forall>a. env_is_valid_account_id e a) \<and> env_attached_deposit e = 0
     \<and> env_account_locked_balance e = 0 \<and> env_epoch_height e = 0"

lemmas emulator_steps = deposits_def stakes_def staked_is_def staked_about_def unstaked_is_def unstaked_about_def
  accounts_are_def emulated_def pool_check_def

lemmas pool_test_eval = test_eval emulator_steps staking_def alice_def bob_def the_owner_def ntoy_def yton_def eq_in_unc_def
  zero_fee_def emulator_context_def new_emulator_def verify_stake_price_increase_guarantee_def update_context_def
  simulate_stake_call_def skip_epochs_def add_amount_def skip_with_reward_def emulate_def expected_share_def
  rewarded_def new_pool_def ping_def deposit_def deposit_and_stake_def withdraw_def stake_def unstake_def
  unstake_all_def on_stake_action_def internal_ping_def internal_stake_def inner_unstake_def internal_withdraw_def
  internal_deposit_def internal_get_account_def internal_save_account_def assert_valid_fee_def
  num_shares_from_staked_amount_rounded_down_def num_shares_from_staked_amount_rounded_up_def
  staked_amount_from_num_shares_rounded_down_def staked_amount_from_num_shares_rounded_up_def
  distribute_reward_def multiply_def default_account_def NUM_EPOCHS_TO_UNLOCK_def internal_restake_def
  STAKE_SHARE_PRICE_GUARANTEE_FUND_def get_account_def get_account_staked_balance_def
  get_account_unstaked_balance_def is_account_unstaked_balance_available_def get_number_of_accounts_def
  get_accounts_def

lemma restake_fail: "pool_test_host e \<Longrightarrow> test_restake_fail e"
  unfolding test_restake_fail_def emulator_steps
  by (simp add: pool_test_host_def pool_test_eval cong: test_cong)

lemma deposit_withdraw: "pool_test_host e \<Longrightarrow> test_deposit_withdraw e"
  unfolding test_deposit_withdraw_def emulator_steps Let_def
  by (simp add: pool_test_host_def pool_test_eval cong: test_cong)

lemma stake_with_fee: "pool_test_host e \<Longrightarrow> test_stake_with_fee e"
  unfolding test_stake_with_fee_def emulator_steps Let_def
  by (simp add: pool_test_host_def pool_test_eval cong: test_cong)

lemma stake_unstake: "pool_test_host e \<Longrightarrow> test_stake_unstake e"
  unfolding test_stake_unstake_def emulator_steps Let_def
  by (simp add: pool_test_host_def pool_test_eval cong: test_cong)

lemma stake_all_unstake_all: "pool_test_host e \<Longrightarrow> test_stake_all_unstake_all e"
  unfolding test_stake_all_unstake_all_def emulator_steps Let_def
  by (simp add: pool_test_host_def pool_test_eval cong: test_cong)

lemma two_delegates: "pool_test_host e \<Longrightarrow> test_two_delegates e"
  unfolding test_two_delegates_def emulator_steps Let_def
  by (simp add: pool_test_host_def pool_test_eval cong: test_cong)

lemma amounts_staked: "stake_amounts 100 1 =
    [2, 3, 4, 2, 3, 4, 2, 3, 4, 2, 3, 4, 2, 3, 4, 2, 3, 4, 2, 3, 4, 2, 3, 4, 2, 3, 4, 2, 3, 4, 2, 3, 4]"
  by (simp add: stake_amounts.simps Let_def)


text \<open>
  As long as there is no reward, a share costs one atto and the conversions do nothing. With this the loop
  of \<open>test_low_balances\<close> needs no division, and its rounds are all alike.
\<close>

lemma even_price:
  assumes "total_stake_shares s = total_staked_balance s" and "0 < total_staked_balance s" and "fits 128 n"
  shows "num_shares_from_staked_amount_rounded_down s n = Inr n"
    and "num_shares_from_staked_amount_rounded_up s n = Inr n"
    and "staked_amount_from_num_shares_rounded_down s n = Inr n"
    and "staked_amount_from_num_shares_rounded_up s n = Inr n"
proof -
  let ?T = "total_staked_balance s"
  have up: "(?T * n + (?T - 1)) div ?T = n"
    by (rule div_nat_eqI) (use assms(2) in simp_all)
  note defs = num_shares_from_staked_amount_rounded_down_def num_shares_from_staked_amount_rounded_up_def
    staked_amount_from_num_shares_rounded_down_def staked_amount_from_num_shares_rounded_up_def as_u128_def
  show "num_shares_from_staked_amount_rounded_up s n = Inr n" "staked_amount_from_num_shares_rounded_up s n = Inr n"
    unfolding defs assms(1) up using assms(2,3) by simp_all
  show "num_shares_from_staked_amount_rounded_down s n = Inr n"
    "staked_amount_from_num_shares_rounded_down s n = Inr n"
    unfolding defs assms(1) using assms(2,3) by simp_all
qed

text \<open>The emulator when \<open>n\<close> of the 100 tokens are staked; every round sets the whole context anew.\<close>

definition low_emulator :: "nat \<Rightarrow> emulator" where
  "low_emulator n = \<lparr>em_contract = \<lparr>owner_id = the_owner, stake_public_key = test_key, last_epoch_height = 0,
       last_total_balance = 30000000000000000000000100, total_stake_shares = 29999999999999000000000000 + n,
       total_staked_balance = 29999999999999000000000000 + n, reward_fee = zero_fee,
       accounts = [alice \<mapsto> \<lparr>unstaked = 100 - n, stake_shares = n, unstaked_available_epoch_height = 0\<rparr>],
       paused = False\<rparr>,
     em_epoch_height = 0, em_amount = 1000000000100 - n, em_locked_amount = 29999999999999000000000000 + n,
     last_total_staked_balance = 29999999999999000000000000 + n,
     last_total_stake_shares = 29999999999999000000000000 + n\<rparr>"

definition low_rounds :: "nat list \<Rightarrow> emulator_step list" where
  "low_rounds ns = concat (map (\<lambda>n. [update_context alice 0] @ stakes n) ns)"

lemmas even_eval = pool_test_eval even_price

lemma low_start:
  assumes "pool_test_host e"
  shows "\<exists>c v. emulate zero_fee e ([update_context alice 100, emulated deposit, add_amount 100] @ low_rounds [2, 3])
    = Inr \<lparr>ctx = c, vm = v, subject = low_emulator 5\<rparr>"
  unfolding low_rounds_def emulator_steps
  using assms by (simp add: pool_test_host_def even_eval low_emulator_def cong: test_cong)

lemma low_round:
  assumes "0 < n" and "k + n \<le> 100"
  shows "\<exists>c' v'. run (low_rounds [n]) \<lparr>ctx = c, vm = v, subject = low_emulator k\<rparr>
    = Inr \<lparr>ctx = c', vm = v', subject = low_emulator (k + n)\<rparr>"
  unfolding low_rounds_def emulator_steps
  using assms by (simp add: even_eval low_emulator_def cong: test_cong)

lemma low_loop:
  assumes "0 \<notin> set ns" and "k + sum_list ns \<le> 100"
  shows "\<exists>c' v'. run (low_rounds ns) \<lparr>ctx = c, vm = v, subject = low_emulator k\<rparr>
    = Inr \<lparr>ctx = c', vm = v', subject = low_emulator (k + sum_list ns)\<rparr>"
  using assms
proof (induction ns arbitrary: k c v)
  case (Cons n ns)
  have split: "low_rounds (n # ns) = low_rounds [n] @ low_rounds ns" by (simp add: low_rounds_def)
  obtain c1 v1 where "run (low_rounds [n]) \<lparr>ctx = c, vm = v, subject = low_emulator k\<rparr>
      = Inr \<lparr>ctx = c1, vm = v1, subject = low_emulator (k + n)\<rparr>"
    using low_round [of n k c v] Cons.prems by auto
  then show ?case
    using Cons.IH [of "k + n" c1 v1] Cons.prems unfolding split by (simp add: run_append add.assoc)
qed (simp add: low_rounds_def run_simps)

lemma emulate_append: "emulate fee e (xs @ ys) = bindE (emulate fee e xs) (run ys)"
  by (auto simp: emulate_def trial_of_def run_append bindE_def split: sum.splits)

lemma low_balances:
  assumes "pool_test_host e"
  shows "test_low_balances e"
proof -
  define ns where "ns = drop 2 (stake_amounts 100 1)"
  have ns: "stake_amounts 100 1 = 2 # 3 # ns" "0 \<notin> set ns" "5 + sum_list ns = 99"
    unfolding ns_def amounts_staked by simp_all
  have split: "low_rounds (2 # 3 # ns) = low_rounds [2, 3] @ low_rounds ns" by (simp add: low_rounds_def)
  obtain c v where "emulate zero_fee e (([update_context alice 100, emulated deposit, add_amount 100] @ low_rounds [2, 3])
      @ low_rounds ns) = run (low_rounds ns) \<lparr>ctx = c, vm = v, subject = low_emulator 5\<rparr>"
    using low_start [OF assms] unfolding emulate_append [of _ _ "_ @ _"] by auto
  moreover obtain c' v' where "run (low_rounds ns) \<lparr>ctx = c, vm = v, subject = low_emulator 5\<rparr>
      = Inr \<lparr>ctx = c', vm = v', subject = low_emulator 99\<rparr>"
    using low_loop [of ns 5 c v] ns(2,3) by auto
  ultimately show ?thesis
    unfolding test_low_balances_def low_rounds_def [symmetric] ns(1) split by (simp add: passes_def)
qed

end
