(* ===== verification/MultisigTests.thy ===== *)
theory MultisigTests
  imports Multisig UnitTests
begin

section \<open>The unit tests of the multisig (\<open>multisig/src/lib.rs\<close>)\<close>

text \<open>
  Keys are their texts; a key that the tests write as bytes is given by the text of those bytes. The
  tests run on the contract with the parameter \<open>ts\<close> of the model, the serialisation of a member,
  which is injective.
\<close>

subsection \<open>Members and contexts\<close>

definition alice_member :: account_id where "alice_member = ''alice''"

definition bob_member :: account_id where "bob_member = ''bob''"

definition LEDGER_KEY :: public_key where
  "LEDGER_KEY = ''ed25519:Eg2jtsiMrprn7zgKKUk79qM1hWhANsFyE6JSX4txLEuy''"

definition TEST_KEY :: public_key where
  "TEST_KEY = ''ed25519:HghiythFFPjVXwc9BLNi8uqFmfQc1DWFrJQ4nE6ANo7R''"

definition test_members :: "multisig_member list" where
  "test_members = [Account alice_member, Account bob_member, AccessKey LEDGER_KEY, AccessKey TEST_KEY]"

definition context_with_account_key :: "account_id \<Rightarrow> public_key \<Rightarrow> nat \<Rightarrow> host \<Rightarrow> host" where
  "context_with_account_key account_id key amount e =
     e\<lparr>env_current_account_id := alice_member, env_predecessor_account_id := account_id,
       env_signer_account_pk := key, env_account_balance := amount\<rparr>"

definition context_with_key :: "public_key \<Rightarrow> nat \<Rightarrow> host \<Rightarrow> host" where
  "context_with_key = context_with_account_key alice_member"

definition context_with_account :: "account_id \<Rightarrow> nat \<Rightarrow> host \<Rightarrow> host" where
  "context_with_account account_id =
     context_with_account_key account_id ''ed25519:8rUz82MkFsfqjpVjjgWEM66Brr1sm1R7VKZ991fF41e''"

definition context_with_key_future :: "public_key \<Rightarrow> nat \<Rightarrow> host \<Rightarrow> host" where
  "context_with_key_future key amount e =
     (context_with_key key amount e)\<lparr>env_block_timestamp := REQUEST_COOLDOWN + 1\<rparr>"

subsection \<open>Steps\<close>

text \<open>A test starts with the constructor; its promise goes to the account itself.\<close>

definition multisig_trial ::
  "host \<Rightarrow> nat \<Rightarrow> multisig_contract step list \<Rightarrow> multisig_contract trial res" where
  "multisig_trial e num = trial_of e (\<lambda>e. bindE (new_multisig e test_members num) (\<lambda>(m, _). Inr m))"

definition in_context :: "host \<Rightarrow> multisig_contract step list" where
  "in_context e = [edit (\<lambda>_. e), testing_env]"

definition let_id ::
  "(multisig_member \<Rightarrow> string) \<Rightarrow> multisig_request \<Rightarrow> (nat \<Rightarrow> multisig_contract step list) \<Rightarrow> multisig_contract step"
where
  "let_id ts r = let_call (\<lambda>e m. bindE (add_request ts e r m) (\<lambda>(rid, m). Inr (rid, []::effects, m)))"

definition let_confirmed_id ::
  "(multisig_member \<Rightarrow> string) \<Rightarrow> multisig_request \<Rightarrow> (nat \<Rightarrow> multisig_contract step list) \<Rightarrow> multisig_contract step"
where
  "let_confirmed_id ts r = let_call (\<lambda>e. add_request_and_confirm ts e r)"

definition confirms :: "(multisig_member \<Rightarrow> string) \<Rightarrow> nat \<Rightarrow> multisig_contract step" where
  "confirms ts rid = invoke (\<lambda>e m. bindE (confirm ts e rid m) (\<lambda>(_, ps, m). Inr (m, ps)))"

definition deletes :: "(multisig_member \<Rightarrow> string) \<Rightarrow> nat \<Rightarrow> multisig_contract step" where
  "deletes ts rid = update (\<lambda>e. delete_request ts e rid)"

definition requests_len :: "nat \<Rightarrow> multisig_contract step" where
  "requests_len n = check (\<lambda>_ m. card (dom (requests m)) = n)"

definition confirmations_len :: "nat \<Rightarrow> nat \<Rightarrow> multisig_contract step" where
  "confirmations_len rid n = check (\<lambda>_ m. map_option card (confirmations m rid) = Some n)"

definition has_request :: "nat \<Rightarrow> multisig_request \<Rightarrow> multisig_contract step list" where
  "has_request rid r =
     [check (\<lambda>_ m. get_request rid m = Inr r), check (\<lambda>_ m. list_request_ids m = {rid})]"

definition requests_of :: "(multisig_member \<Rightarrow> string) \<Rightarrow> multisig_member \<Rightarrow> nat \<Rightarrow> multisig_contract step" where
  "requests_of ts member n = check (\<lambda>_ m. get_num_requests_per_member ts member m = n)"

definition transfer_to_bob :: "nat \<Rightarrow> multisig_request" where
  "transfer_to_bob amount = \<lparr>receiver_id = bob_member, actions = [ATransfer amount]\<rparr>"

subsection \<open>The tests\<close>

text \<open>Both tests of three confirmations end alike: by the second key and by bob.\<close>

definition second_and_third :: "(multisig_member \<Rightarrow> string) \<Rightarrow> host \<Rightarrow> nat \<Rightarrow> nat \<Rightarrow> multisig_contract step list" where
  "second_and_third ts e amount request_id =
     [requests_len 1, confirmations_len request_id 1]
     @ in_context (context_with_key TEST_KEY amount e)
     @ [confirms ts request_id, confirmations_len request_id 2,
        check (\<lambda>_ m. map_sum id card (get_confirmations request_id m) = Inr 2)]
     @ in_context (context_with_account bob_member amount e)
     @ [confirms ts request_id, requests_len 0]"

definition test_multi_3_of_n :: "(multisig_member \<Rightarrow> string) \<Rightarrow> host \<Rightarrow> bool" where
  "test_multi_3_of_n ts e =
     (let amount = 1000; request = transfer_to_bob amount in
      passes (multisig_trial (context_with_key LEDGER_KEY amount e) 3
        [let_id ts request (\<lambda>request_id.
           has_request request_id request @ [confirms ts request_id] @ second_and_third ts e amount request_id)]))"

definition test_multi_add_request_and_confirm :: "(multisig_member \<Rightarrow> string) \<Rightarrow> host \<Rightarrow> bool" where
  "test_multi_add_request_and_confirm ts e =
     (let amount = 1000; request = transfer_to_bob amount in
      passes (multisig_trial (context_with_key LEDGER_KEY amount e) 3
        [let_confirmed_id ts request (\<lambda>request_id.
           has_request request_id request @ second_and_third ts e amount request_id)]))"

definition add_key_delete_key_storage_cleared :: "(multisig_member \<Rightarrow> string) \<Rightarrow> host \<Rightarrow> bool" where
  "add_key_delete_key_storage_cleared ts e =
     (let amount = 1000; new_key = TEST_KEY; new_member = AccessKey new_key;
          request = \<lparr>receiver_id = alice_member, actions = [AddKey new_key None]\<rparr>;
          request2 = \<lparr>receiver_id = alice_member, actions = [ATransfer amount]\<rparr>;
          request3 = \<lparr>receiver_id = alice_member, actions = [DeleteMember new_member]\<rparr> in
      passes (multisig_trial (context_with_key LEDGER_KEY amount e) 1
        ([let_confirmed_id ts request (\<lambda>_. []), requests_len 0]
         @ in_context (context_with_key TEST_KEY amount e)
         @ [let_id ts request2 (\<lambda>_. []), requests_len 1, requests_of ts new_member 1,
            let_confirmed_id ts request3 (\<lambda>_. []), requests_len 0, requests_of ts new_member 0])))"

text \<open>
  This test makes its keys by \<open>PublicKey::try_from\<close>, applied to the characters of their base58 texts; \<open>try_from\<close>
  is a parameter.
\<close>

definition test_panics_add_key_different_account ::
  "(string \<Rightarrow> public_key option) \<Rightarrow> (multisig_member \<Rightarrow> string) \<Rightarrow> host \<Rightarrow> bool" where
  "test_panics_add_key_different_account try_from ts e =
     (let amount = 1000 in
      panics
        (bindE (unwrap (try_from ''Eg2jtsiMrprn7zgKKUk79qM1hWhANsFyE6JSX4txLEuy'')) (\<lambda>key.
         multisig_trial (context_with_key key amount e) 1
           [\<lambda>t. bindE (unwrap (try_from ''HghiythFFPjVXwc9BLNi8uqFmfQc1DWFrJQ4nE6ANo7R'')) (\<lambda>new_key.
              let_confirmed_id ts \<lparr>receiver_id = bob_member, actions = [AddKey new_key None]\<rparr> (\<lambda>_. []) t)])))"

definition test_change_num_confirmations :: "(multisig_member \<Rightarrow> string) \<Rightarrow> host \<Rightarrow> bool" where
  "test_change_num_confirmations ts e =
     (let amount = 1000 in
      passes (multisig_trial (context_with_key TEST_KEY amount e) 1
        [let_id ts \<lparr>receiver_id = alice_member, actions = [SetNumConfirmations 2]\<rparr> (\<lambda>request_id.
           [confirms ts request_id, check (\<lambda>_ m. num_confirmations m = 2)])]))"

definition test_panics_on_second_confirm :: "(multisig_member \<Rightarrow> string) \<Rightarrow> host \<Rightarrow> bool" where
  "test_panics_on_second_confirm ts e =
     (let amount = 1000 in
      panics (multisig_trial (context_with_key TEST_KEY amount e) 3
        [let_id ts (transfer_to_bob amount) (\<lambda>request_id.
           [requests_len 1, confirmations_len request_id 0,
            confirms ts request_id, confirmations_len request_id 1, confirms ts request_id])]))"

definition test_panics_delete_request :: "(multisig_member \<Rightarrow> string) \<Rightarrow> host \<Rightarrow> bool" where
  "test_panics_delete_request ts e =
     (let amount = 1000 in
      panics (multisig_trial (context_with_key TEST_KEY amount e) 3
        [let_id ts (transfer_to_bob amount) (\<lambda>request_id. [deletes ts request_id])]))"

definition test_delete_request_future :: "(multisig_member \<Rightarrow> string) \<Rightarrow> host \<Rightarrow> bool" where
  "test_delete_request_future ts e =
     (let amount = 1000 in
      passes (multisig_trial (context_with_key TEST_KEY amount e) 3
        [let_id ts (transfer_to_bob amount) (\<lambda>request_id.
           [confirms ts request_id] @ in_context (context_with_key_future TEST_KEY amount e)
           @ [deletes ts request_id, requests_len 0,
              check (\<lambda>_ m. confirmations m request_id = None)])]))"

definition test_delete_request_panic_wrong_key :: "(multisig_member \<Rightarrow> string) \<Rightarrow> host \<Rightarrow> bool" where
  "test_delete_request_panic_wrong_key ts e =
     (let amount = 1000 in
      panics (multisig_trial (context_with_key TEST_KEY amount e) 3
        [let_id ts (transfer_to_bob amount) (\<lambda>request_id.
           in_context (context_with_key TEST_KEY amount e) @ [deletes ts request_id])]))"

definition test_too_many_requests :: "(multisig_member \<Rightarrow> string) \<Rightarrow> host \<Rightarrow> bool" where
  "test_too_many_requests ts e =
     (let amount = 1000 in
      panics (multisig_trial (context_with_key TEST_KEY amount e) 3
        (replicate 16 (let_id ts (transfer_to_bob amount) (\<lambda>_. [])))))"

definition test_too_many_confirmations :: "host \<Rightarrow> bool" where
  "test_too_many_confirmations e = panics (multisig_trial (context_with_key TEST_KEY 1000 e) 5 [])"

subsection \<open>The model passes them\<close>

text \<open>
  What the builder of the SDK sets up besides is arbitrary, but for the block timestamp in one test. Where two members ask, \<open>ts\<close>
  must tell them apart.
\<close>

lemmas multisig_test_eval = test_eval alice_member_def bob_member_def LEDGER_KEY_def TEST_KEY_def test_members_def
  context_with_account_key_def context_with_key_def context_with_account_def context_with_key_future_def
  multisig_trial_def in_context_def let_id_def let_confirmed_id_def confirms_def deletes_def requests_len_def
  confirmations_len_def has_request_def requests_of_def transfer_to_bob_def second_and_third_def
  new_multisig_def ACTIVE_REQUESTS_LIMIT_def REQUEST_COOLDOWN_def add_member_def current_member_def add_request_def confirm_def
  assert_valid_request_def remove_request_def execute_request_def add_request_and_confirm_def delete_request_def
  delete_member_def assert_self_request_def assert_one_action_only_def get_request_def list_request_ids_def
  get_confirmations_def get_num_requests_per_member_def

lemma multisig_three_confirmations:
  assumes "inj ts"
  shows "test_multi_3_of_n ts e" and "test_multi_add_request_and_confirm ts e"
  unfolding test_multi_3_of_n_def test_multi_add_request_and_confirm_def
  by (simp_all add: multisig_test_eval inj_eq [OF assms] cong: test_cong)

lemma one_outstanding:
  "(\<lambda>k. if case if k = a then Some r else None of None \<Rightarrow> False | Some r \<Rightarrow> p r then None else f k)
     = (if p r then f(a := None) else f)"
  by (auto simp: fun_eq_iff)

lemma multisig_storage_cleared:
  assumes "inj ts"
  shows "add_key_delete_key_storage_cleared ts e"
  unfolding add_key_delete_key_storage_cleared_def
  by (simp add: multisig_test_eval one_outstanding inj_eq [OF assms] cong: test_cong)

lemma multisig_changes:
  assumes "env_block_timestamp e = 0"
  shows "test_change_num_confirmations ts e" and "test_delete_request_future ts e"
  unfolding test_change_num_confirmations_def test_delete_request_future_def
  using assms by (simp_all add: multisig_test_eval cong: test_cong)

lemma multisig_panics:
  "test_panics_on_second_confirm ts e" "test_panics_delete_request ts e"
  "test_delete_request_panic_wrong_key ts e" "test_too_many_confirmations e"
  unfolding test_panics_on_second_confirm_def test_panics_delete_request_def
    test_delete_request_panic_wrong_key_def test_too_many_confirmations_def
  by (simp_all add: multisig_test_eval cong: test_cong)

lemma multisig_panics_add_key: "test_panics_add_key_different_account try_from ts e"
proof (cases "try_from ''Eg2jtsiMrprn7zgKKUk79qM1hWhANsFyE6JSX4txLEuy''")
  case None
  then show ?thesis by (simp add: test_panics_add_key_different_account_def multisig_test_eval)
next
  case (Some key)
  let ?new = "try_from ''HghiythFFPjVXwc9BLNi8uqFmfQc1DWFrJQ4nE6ANo7R''"
  consider "key = LEDGER_KEY" | "key = TEST_KEY" | "key \<noteq> LEDGER_KEY" "key \<noteq> TEST_KEY" by blast
  then show ?thesis using Some unfolding test_panics_add_key_different_account_def
    by cases (cases ?new; simp add: multisig_test_eval cong: test_cong)+
qed

lemma sixteen: "replicate 16 f = [f, f, f, f, f, f, f, f, f, f, f, f, f, f, f, f]"
  by (simp add: numeral_eq_Suc)

lemma multisig_too_many: "test_too_many_requests ts e"
  unfolding test_too_many_requests_def sixteen
  by (simp add: multisig_test_eval cong: test_cong)

end
