(* ===== verification/AirDropTests.thy ===== *)
theory AirDropTests
  imports AirDrop UnitTests
begin

section \<open>The unit tests of the airdrop (\<open>airdrop/src/lib.rs\<close>)\<close>

text \<open>
  Every context of these tests is built afresh from the defaults of the SDK's builder, which are the parameter
  \<open>e\<close>. Parsing an account id is the SDK's (\<open>env_parse_account_id\<close>): that it accepts ''bob'' and rejects ''XYZ'',
  which has capitals, is a hypothesis.
\<close>

definition airdrop_account :: account_id where "airdrop_account = ''airdrop''"

definition drop_bob :: account_id where "drop_bob = ''bob''"

definition drop_pk :: public_key where "drop_pk = ''ed25519:qSq3LoufLvTCTNGC3LJePMDGrok8dHMQ5A1YD9psbiz''"

definition drop_pk2 :: public_key where "drop_pk2 = ''ed25519:2S87aQ1PM9o6eBcEXnTR5yBAVRTiNmvj8J8ngZ6FzSca''"

text \<open>\<open>ACCESS_KEY_ALLOWANCE.saturating_mul(100)\<close>\<close>

definition large_deposit :: nat where "large_deposit = sat_mul 128 ACCESS_KEY_ALLOWANCE 100"

definition drop_context :: "nat \<Rightarrow> host \<Rightarrow> host" where
  "drop_context deposit e = e\<lparr>env_current_account_id := airdrop_account, env_attached_deposit := deposit\<rparr>"

definition drop_trial :: "host \<Rightarrow> airdrop step list \<Rightarrow> airdrop trial res" where
  "drop_trial e steps = trial_of e (\<lambda>_. Inr new_airdrop) (testing_env # steps)"

text \<open>The second transaction of the tests of claims, signed with the key.\<close>

definition claiming_context :: "host \<Rightarrow> airdrop step list" where
  "claiming_context e =
     [edit (\<lambda>_. e\<lparr>env_current_account_id := airdrop_account, env_predecessor_account_id := airdrop_account,
        env_signer_account_pk := drop_pk, env_account_balance := large_deposit\<rparr>), testing_env]"

definition parsed :: "string \<Rightarrow> (account_id \<Rightarrow> airdrop step) \<Rightarrow> airdrop step" where
  "parsed s f t = bindE (unwrap (env_parse_account_id (vm t) s)) (\<lambda>a. f a t)"

definition balance_of_key :: "nat \<Rightarrow> airdrop step" where
  "balance_of_key n = check (\<lambda>_ s. get_key_balance drop_pk s = Inr n)"

definition test_create_account :: "host \<Rightarrow> bool" where
  "test_create_account e = passes (drop_trial (drop_context 1000000 e)
     [invoke (\<lambda>e. create_account e drop_bob drop_pk)])"

definition test_create_invalid_account :: "host \<Rightarrow> bool" where
  "test_create_invalid_account e = panics (drop_trial (drop_context 1000000 e)
     [parsed ''XYZ'' (\<lambda>a. invoke (\<lambda>e. create_account e a drop_pk))])"

definition test_get_missing_balance_panics :: "host \<Rightarrow> bool" where
  "test_get_missing_balance_panics e = panics (drop_trial (e\<lparr>env_current_account_id := airdrop_account\<rparr>)
     [assert_call (\<lambda>_. True) (\<lambda>_ s. bindE (get_key_balance drop_pk s) (\<lambda>b. Inr (b, s)))])"

definition test_get_missing_balance_success :: "host \<Rightarrow> bool" where
  "test_get_missing_balance_success e = passes (drop_trial (drop_context large_deposit e)
     [invoke (\<lambda>e. send e drop_pk),
      balance_of_key (sat_sub large_deposit ACCESS_KEY_ALLOWANCE)])"

definition test_claim_invalid_account :: "host \<Rightarrow> bool" where
  "test_claim_invalid_account e = panics (drop_trial (drop_context large_deposit e)
     ([invoke (\<lambda>e. send e drop_pk)] @ claiming_context e
      @ [parsed ''XYZ'' (\<lambda>a. invoke (\<lambda>e. create_account_and_claim e a drop_pk2))]))"

definition test_drop_claim :: "host \<Rightarrow> bool" where
  "test_drop_claim e = passes (drop_trial (drop_context large_deposit e)
     ([invoke (\<lambda>e. send e drop_pk)] @ claiming_context e
      @ [invoke (\<lambda>e. create_account_and_claim e drop_bob drop_pk2)]))"

definition test_send_two_times :: "host \<Rightarrow> bool" where
  "test_send_two_times e = passes (drop_trial (drop_context large_deposit e)
     [invoke (\<lambda>e. send e drop_pk),
      balance_of_key (sat_sub large_deposit ACCESS_KEY_ALLOWANCE),
      edit (\<lambda>_. e\<lparr>env_current_account_id := airdrop_account, env_account_balance := large_deposit,
        env_attached_deposit := large_deposit + 1\<rparr>), testing_env,
      invoke (\<lambda>e. send e drop_pk),
      check (\<lambda>_ s. key_balances s drop_pk =
        Some (large_deposit + large_deposit + 1 - 2 * ACCESS_KEY_ALLOWANCE))])"

text \<open>The contract's own code (\<open>include_bytes!\<close>) is a parameter.\<close>

definition test_create_advanced_account :: "bytes \<Rightarrow> host \<Rightarrow> bool" where
  "test_create_advanced_account wasm e =
     (let options = \<lparr>full_access_keys = Some [drop_pk],
            limited_access_keys = Some [\<lparr>lak_public_key = drop_pk, lak_allowance = 100,
              lak_receiver_id = airdrop_account, lak_method_names = ''send''\<rparr>],
            contract_bytes = Some wasm\<rparr> in
      passes (drop_trial (drop_context 1000000 e) [invoke (\<lambda>e. create_account_advanced e drop_bob options)]))"

definition test_create_advanced_account_no_options :: "host \<Rightarrow> bool" where
  "test_create_advanced_account_no_options e =
     (let options = \<lparr>full_access_keys = None, limited_access_keys = None, contract_bytes = None\<rparr> in
      panics (drop_trial (drop_context 1000000 e) [invoke (\<lambda>e. create_account_advanced e drop_bob options)]))"

subsection \<open>The model passes them\<close>

lemmas drop_test_eval = test_eval airdrop_account_def drop_bob_def drop_pk_def drop_pk2_def large_deposit_def
  drop_context_def drop_trial_def claiming_context_def parsed_def balance_of_key_def new_airdrop_def
  ACCESS_KEY_ALLOWANCE_def send_def create_account_def create_account_and_claim_def create_account_advanced_def
  get_key_balance_def

lemma drop_tests:
  assumes "env_is_valid_account_id e drop_bob"
  shows "test_create_account e" "test_drop_claim e" "test_create_advanced_account wasm e"
  unfolding test_create_account_def test_drop_claim_def test_create_advanced_account_def
  using assms by (simp_all add: drop_test_eval cong: test_cong)

lemma drop_tests_of_keys:
  "test_get_missing_balance_panics e" "test_get_missing_balance_success e" "test_send_two_times e"
  "test_create_advanced_account_no_options e"
  unfolding test_get_missing_balance_panics_def test_get_missing_balance_success_def test_send_two_times_def
    test_create_advanced_account_no_options_def
  by (simp_all add: drop_test_eval cong: test_cong)

lemma drop_tests_invalid:
  assumes "env_parse_account_id e ''XYZ'' = None"
  shows "test_create_invalid_account e" "test_claim_invalid_account e"
  unfolding test_create_invalid_account_def test_claim_invalid_account_def
  using assms by (simp_all add: drop_test_eval cong: test_cong)

end
