(* ===== verification/LockableTokenTests.thy ===== *)
theory LockableTokenTests
  imports LockableToken UnitTests
begin

section \<open>The unit tests of the lockable token (\<open>lockable-fungible-token/src/lib.rs\<close>)\<close>

text \<open>
  The three accounts of the tests come from the SDK (\<open>test_env\<close>); they are the parameter \<open>accs\<close>, of which only is assumed
  that they are different.
\<close>

subsection \<open>Contexts and steps\<close>

record actors =
  act_alice :: account_id
  act_bob :: account_id
  act_carol :: account_id

definition different :: "actors \<Rightarrow> bool" where
  "different a \<longleftrightarrow> distinct [act_alice a, act_bob a, act_carol a]"

definition get_context :: "account_id \<Rightarrow> host \<Rightarrow> host" where
  "get_context a e = e\<lparr>env_predecessor_account_id := a\<rparr>"

definition acting_as :: "account_id \<Rightarrow> fun_token step list" where
  "acting_as a = [edit (get_context a), testing_env]"

definition test_supply :: nat where "test_supply = 1000000000000000"

definition token_trial :: "host \<Rightarrow> account_id \<Rightarrow> fun_token step list \<Rightarrow> fun_token trial res" where
  "token_trial e owner = trial_of e (\<lambda>_. new_token owner test_supply)"

definition supply_is :: "nat \<Rightarrow> fun_token step" where
  "supply_is n = check (\<lambda>_ t. get_total_supply t = n)"

definition unlocked_is :: "account_id \<Rightarrow> nat \<Rightarrow> fun_token step" where
  "unlocked_is a n = check (\<lambda>_ t. get_unlocked_balance a t = n)"

definition total_is :: "account_id \<Rightarrow> nat \<Rightarrow> fun_token step" where
  "total_is a n = check (\<lambda>_ t. get_total_balance a t = n)"

definition allowance_is :: "account_id \<Rightarrow> account_id \<Rightarrow> nat \<Rightarrow> fun_token step" where
  "allowance_is owner escrow n = check (\<lambda>_ t. get_allowance owner escrow t = n)"

text \<open>\<open>unwrap_err\<close>: an error leaves the contract as it was.\<close>

definition unwrap_err :: "(host \<Rightarrow> fun_token \<Rightarrow> fun_token res) \<Rightarrow> fun_token step" where
  "unwrap_err m t = (case m (vm t) (subject t) of Inl (Panic msg) \<Rightarrow> Inr t | _ \<Rightarrow> Inl (Panic ''called `Result::unwrap_err()`''))"

subsection \<open>The tests\<close>

definition test_new :: "actors \<Rightarrow> host \<Rightarrow> bool" where
  "test_new accs e =
     (let bob = act_bob accs; carol = act_carol accs in
      passes (token_trial (get_context carol e) bob
        [supply_is test_supply, unlocked_is bob test_supply, total_is bob test_supply]))"

definition test_transfer :: "actors \<Rightarrow> host \<Rightarrow> bool" where
  "test_transfer accs e =
     (let bob = act_bob accs; carol = act_carol accs; transfer_amount = test_supply div 3 in
      passes (token_trial (get_context carol e) carol
        [update (\<lambda>e. transfer_token e bob transfer_amount),
         unlocked_is carol (test_supply - transfer_amount), unlocked_is bob transfer_amount]))"

definition test_lock_fail :: "actors \<Rightarrow> host \<Rightarrow> bool" where
  "test_lock_fail accs e =
     (let bob = act_bob accs; carol = act_carol accs; transfer_amount = test_supply div 3 in
      passes (token_trial (get_context carol e) carol [unwrap_err (\<lambda>e. lock e bob transfer_amount)]))"

definition test_self_allowance_fail :: "actors \<Rightarrow> host \<Rightarrow> bool" where
  "test_self_allowance_fail accs e =
     (let carol = act_carol accs in
      passes (token_trial (get_context carol e) carol [unwrap_err (\<lambda>e. set_allowance e carol (test_supply div 2))]))"

definition test_lock_and_unlock_owner :: "actors \<Rightarrow> host \<Rightarrow> bool" where
  "test_lock_and_unlock_owner accs e =
     (let carol = act_carol accs; lock_amount = test_supply div 3 in
      passes (token_trial (get_context carol e) carol
        [supply_is test_supply,
         update (\<lambda>e. lock e carol lock_amount),
         unlocked_is carol (test_supply - lock_amount), total_is carol test_supply,
         update (\<lambda>e. unlock e carol lock_amount),
         unlocked_is carol test_supply, total_is carol test_supply]))"

definition test_lock_and_transfer :: "actors \<Rightarrow> host \<Rightarrow> bool" where
  "test_lock_and_transfer accs e =
     (let bob = act_bob accs; carol = act_carol accs;
          lock_amount = test_supply div 3; transfer_amount = lock_amount div 3 in
      passes (token_trial (get_context carol e) carol
        ([supply_is test_supply,
          update (\<lambda>e. lock e carol lock_amount),
          unlocked_is carol (test_supply - lock_amount), total_is carol test_supply]
         @ concat (map (\<lambda>i.
             [update (\<lambda>e. transfer_token e bob transfer_amount),
              unlocked_is carol (min (test_supply - lock_amount) (test_supply - transfer_amount * i)),
              total_is carol (test_supply - transfer_amount * i),
              unlocked_is bob (transfer_amount * i)]) [1, 2, 3, 4, 5]))))"

text \<open>Carol allows bob an amount, as the tests of escrows begin.\<close>

definition escrow_trial :: "actors \<Rightarrow> host \<Rightarrow> nat \<Rightarrow> fun_token step list \<Rightarrow> bool" where
  "escrow_trial accs e allowance steps \<longleftrightarrow>
     passes (token_trial (get_context (act_carol accs) e) (act_carol accs)
       ([supply_is test_supply,
         update (\<lambda>e. set_allowance e (act_bob accs) allowance),
         allowance_is (act_carol accs) (act_bob accs) allowance] @ steps))"

text \<open>Bob locks an amount of what carol allowed him.\<close>

definition bob_locks :: "actors \<Rightarrow> nat \<Rightarrow> nat \<Rightarrow> fun_token step list" where
  "bob_locks accs allowance lock_amount =
     acting_as (act_bob accs)
     @ [update (\<lambda>e. lock e (act_carol accs) lock_amount),
        allowance_is (act_carol accs) (act_bob accs) (allowance - lock_amount),
        unlocked_is (act_carol accs) (test_supply - lock_amount), total_is (act_carol accs) test_supply]"

definition test_carol_escrows_to_bob_transfers_to_alice :: "actors \<Rightarrow> host \<Rightarrow> bool" where
  "test_carol_escrows_to_bob_transfers_to_alice accs e =
     (let alice = act_alice accs; bob = act_bob accs; carol = act_carol accs;
          allowance = test_supply div 3; transfer_amount = allowance div 3 in
      escrow_trial accs e allowance
        (acting_as bob
         @ [update (\<lambda>e. transfer_from e carol alice transfer_amount),
            total_is carol (test_supply - transfer_amount), unlocked_is alice transfer_amount,
            allowance_is carol bob (allowance - transfer_amount)]))"

definition test_carol_escrows_to_bob_locks_and_transfers_to_alice :: "actors \<Rightarrow> host \<Rightarrow> bool" where
  "test_carol_escrows_to_bob_locks_and_transfers_to_alice accs e =
     (let alice = act_alice accs; bob = act_bob accs; carol = act_carol accs;
          allowance = test_supply div 3; transfer_amount = allowance div 3; lock_amount = transfer_amount in
      escrow_trial accs e allowance
        (bob_locks accs allowance lock_amount
         @ [update (\<lambda>e. transfer_from e carol alice transfer_amount),
            unlocked_is carol (test_supply - transfer_amount), unlocked_is alice transfer_amount,
            allowance_is carol bob (allowance - transfer_amount)]))"

definition test_lock_and_unlock_through_allowance :: "actors \<Rightarrow> host \<Rightarrow> bool" where
  "test_lock_and_unlock_through_allowance accs e =
     (let bob = act_bob accs; carol = act_carol accs;
          allowance = test_supply div 3; lock_amount = allowance div 2 in
      escrow_trial accs e allowance
        (bob_locks accs allowance lock_amount
         @ [update (\<lambda>e. unlock e carol lock_amount),
            allowance_is carol bob allowance, unlocked_is carol test_supply, total_is carol test_supply]))"

definition test_set_allowance_during_lock :: "actors \<Rightarrow> host \<Rightarrow> bool" where
  "test_set_allowance_during_lock accs e =
     (let bob = act_bob accs; carol = act_carol accs;
          allowance = 2 * test_supply div 3; lock_amount = allowance div 2 in
      escrow_trial accs e allowance
        (bob_locks accs allowance lock_amount @ acting_as carol
         @ [update (\<lambda>e. set_allowance e bob allowance), allowance_is carol bob (allowance - lock_amount)]))"

definition test_competing_locks :: "actors \<Rightarrow> host \<Rightarrow> bool" where
  "test_competing_locks accs e =
     (let alice = act_alice accs; bob = act_bob accs; carol = act_carol accs;
          allowance = 2 * test_supply div 3; lock_amount = allowance in
      passes (token_trial (get_context carol e) carol
        ([supply_is test_supply,
          update (\<lambda>e. set_allowance e bob allowance), update (\<lambda>e. set_allowance e alice allowance),
          allowance_is carol bob allowance, allowance_is carol alice allowance]
         @ bob_locks accs allowance lock_amount @ acting_as alice
         @ [unwrap_err (\<lambda>e. lock e carol lock_amount)])))"

subsection \<open>The model passes them\<close>

lemma msum_one: "msum f [k \<mapsto> v] = f v"
  using msum_upd [of Map.empty f k v] by simp

lemmas token_test_eval = test_eval get_context_def acting_as_def test_supply_def token_trial_def supply_is_def
  unlocked_is_def total_is_def allowance_is_def unwrap_err_def escrow_trial_def bob_locks_def msum_one
  wrap_add_def wrap_sub_def new_token_def set_allowance_def lock_def unlock_def transfer_from_def transfer_token_def get_total_supply_def
  get_total_balance_def total_balance_def get_unlocked_balance_def get_allowance_def get_token_account_def
  save_token_account_def empty_account_def set_allowance_of_def get_allowance_of_def set_locked_of_def get_locked_of_def

lemma different_iff:
  "different a \<longleftrightarrow> act_alice a \<noteq> act_bob a \<and> act_bob a \<noteq> act_alice a \<and> act_alice a \<noteq> act_carol a
     \<and> act_carol a \<noteq> act_alice a \<and> act_bob a \<noteq> act_carol a \<and> act_carol a \<noteq> act_bob a"
  by (auto simp: different_def)

lemma token_tests:
  "test_new accs e" "test_self_allowance_fail accs e" "test_lock_and_unlock_owner accs e"
  unfolding test_new_def test_self_allowance_fail_def test_lock_and_unlock_owner_def
  by (simp_all add: token_test_eval cong: test_cong)

lemma token_transfer_tests:
  assumes "different accs"
  shows "test_transfer accs e" "test_lock_fail accs e" "test_lock_and_transfer accs e"
  unfolding test_transfer_def test_lock_fail_def test_lock_and_transfer_def
  using assms by (simp_all add: different_iff token_test_eval cong: test_cong)

lemma token_escrow_tests:
  assumes "different accs"
  shows "test_carol_escrows_to_bob_transfers_to_alice accs e"
    "test_carol_escrows_to_bob_locks_and_transfers_to_alice accs e"
    "test_lock_and_unlock_through_allowance accs e" "test_set_allowance_during_lock accs e"
    "test_competing_locks accs e"
  unfolding test_carol_escrows_to_bob_transfers_to_alice_def test_carol_escrows_to_bob_locks_and_transfers_to_alice_def
    test_lock_and_unlock_through_allowance_def test_set_allowance_during_lock_def test_competing_locks_def
  using assms by (simp_all add: different_iff token_test_eval cong: test_cong)
end
