(* ===== verification/PoolFactoryTests.thy ===== *)
theory PoolFactoryTests
  imports PoolFactory UnitTests
begin

section \<open>The unit tests of the staking pool factory (\<open>staking-pool-factory/src/lib.rs\<close>)\<close>

subsection \<open>Accounts, contexts and steps\<close>

definition pf_account_unc :: account_id where "pf_account_unc = ''unc''"

definition pf_account_whitelist :: account_id where "pf_account_whitelist = ''whitelist''"

definition staking_pool_id :: account_id where "staking_pool_id = ''pool''"

definition pf_account_pool :: account_id where "pf_account_pool = ''pool.factory''"

definition pf_account_factory :: account_id where "pf_account_factory = ''factory''"

definition account_tokens_owner :: account_id where "account_tokens_owner = ''tokens-owner''"

definition account_pool_owner :: account_id where "account_pool_owner = ''pool-owner''"

definition pf_ntoy :: "nat \<Rightarrow> nat" where "pf_ntoy unc_amount = unc_amount * 10 ^ 24"

text \<open>A context of the builder for a caller of the factory, with the attached deposit if the test sets it.\<close>

definition factory_context :: "account_id \<Rightarrow> nat option \<Rightarrow> host \<Rightarrow> host" where
  "factory_context predecessor deposit e =
     e\<lparr>env_current_account_id := pf_account_factory, env_predecessor_account_id := predecessor,
       env_attached_deposit := (case deposit of Some d \<Rightarrow> d | None \<Rightarrow> env_attached_deposit e)\<rparr>"

definition factory_trial :: "host \<Rightarrow> pool_factory step list \<Rightarrow> pool_factory trial res" where
  "factory_trial e = trial_of (factory_context pf_account_unc None e) (\<lambda>e. new_pool_factory e pf_account_whitelist)"

definition pools_created :: "nat \<Rightarrow> pool_factory step" where
  "pools_created n = check (\<lambda>_ f. get_number_of_staking_pools_created f = n)"

text \<open>All three tests look at the new factory and then ask for a pool with some deposit.\<close>

definition ask_for_pool :: "bytes \<Rightarrow> host \<Rightarrow> nat \<Rightarrow> pool_factory step list" where
  "ask_for_pool code e deposit =
     [edit (\<lambda>_. factory_context pf_account_unc None e), testing_env,
      check (\<lambda>_ _. get_min_attached_balance = POOL_MIN_ATTACHED_BALANCE), pools_created 0,
      edit (\<lambda>_. factory_context account_tokens_owner (Some deposit) e), testing_env,
      invoke (\<lambda>e f. bindE (create_staking_pool code e staking_pool_id account_pool_owner
          ''ed25519:KuTCtARNzxZQ3YvXDeLjx83FDqxv2SdQTSbiq876zR7'' \<lparr>fee_numerator = 10, fee_denominator = 100\<rparr> f)
        (\<lambda>(f, p). Inr (f, [p])))]"

text \<open>The callback, and what is to hold of its result.\<close>

definition pool_created ::
  "nat \<Rightarrow> (factory_call promise_or_value \<Rightarrow> bool) \<Rightarrow> pool_factory step" where
  "pool_created deposit p =
     let_call (\<lambda>e f. bindE (on_staking_pool_create e pf_account_pool deposit account_tokens_owner f)
        (\<lambda>(f, r, ps). Inr (r, ps, f)))
       (\<lambda>r. [check (\<lambda>_ _. p r)])"

subsection \<open>The tests\<close>

definition test_create_staking_pool_success :: "bytes \<Rightarrow> host \<Rightarrow> bool" where
  "test_create_staking_pool_success code e = passes (factory_trial e
     (ask_for_pool code e (pf_ntoy 31)
      @ [edit (\<lambda>_. factory_context pf_account_factory (Some (pf_ntoy 0)) e), testing_env_with [Successful []],
         pool_created (pf_ntoy 31) (\<lambda>_. True),
         edit (\<lambda>_. factory_context pf_account_factory (Some (pf_ntoy 0)) e), testing_env,
         pools_created 1]))"

definition test_create_staking_pool_not_enough_deposit :: "bytes \<Rightarrow> host \<Rightarrow> bool" where
  "test_create_staking_pool_not_enough_deposit code e =
     should_panic ''Not enough attached deposit to complete staking pool creation''
       (factory_trial e (ask_for_pool code e (pf_ntoy 20)))"

definition test_create_staking_pool_rollback :: "bytes \<Rightarrow> host \<Rightarrow> bool" where
  "test_create_staking_pool_rollback code e =
     (let balance = sat_add 128 (env_account_balance e) (pf_ntoy 31);
          context' = (factory_context pf_account_factory (Some (pf_ntoy 0)) e)\<lparr>env_account_balance := balance\<rparr> in
      passes (factory_trial e
       (ask_for_pool code e (pf_ntoy 31)
        @ [edit (\<lambda>_. context'), testing_env_with [Failed],
           pool_created (pf_ntoy 31) (\<lambda>r. case r of PromiseRet _ \<Rightarrow> False | ValueRet v \<Rightarrow> \<not> v),
           edit (\<lambda>_. context'), testing_env,
           pools_created 0])))"

subsection \<open>The model passes them\<close>

text \<open>The SDK takes the account IDs of the tests to be valid.\<close>

lemmas factory_test_eval = test_eval pf_account_unc_def pf_account_whitelist_def staking_pool_id_def pf_account_pool_def
  pf_account_factory_def account_tokens_owner_def account_pool_owner_def pf_ntoy_def factory_context_def
  factory_trial_def pools_created_def ask_for_pool_def pool_created_def new_pool_factory_def
  get_min_attached_balance_def get_number_of_staking_pools_created_def create_staking_pool_def sub_account_def
  on_staking_pool_create_def POOL_MIN_ATTACHED_BALANCE_def assert_valid_factory_fee_def

lemma factory_tests:
  assumes "\<not> env_state_exists e" and "\<And>a. env_is_valid_account_id e a"
    and "env_parse_account_id e pf_account_pool = Some pf_account_pool"
  shows "test_create_staking_pool_success code e" "test_create_staking_pool_not_enough_deposit code e"
    "test_create_staking_pool_rollback code e"
  unfolding test_create_staking_pool_success_def test_create_staking_pool_not_enough_deposit_def
    test_create_staking_pool_rollback_def
  using assms by (simp_all add: factory_test_eval cong: test_cong)

end
