(* ===== verification/LockupFactoryTests.thy ===== *)
theory LockupFactoryTests
  imports LockupFactory UnitTests
begin

section \<open>The unit tests of the lockup factory (\<open>lockup-factory/src/lib.rs\<close>)\<close>

subsection \<open>Accounts, times, contexts and steps\<close>

definition LF_GENESIS_TIME_IN_DAYS :: nat where "LF_GENESIS_TIME_IN_DAYS = 500"

definition LF_YEAR :: nat where "LF_YEAR = 365"

definition LF_SALT :: bytes where "LF_SALT = [1, 2, 3]"

definition lf_to_nanos :: "nat \<Rightarrow> nat" where "lf_to_nanos num_days = num_days * 86400000000000"

definition lf_to_ts :: "nat \<Rightarrow> nat" where "lf_to_ts num_days = 1533081600000000000 + lf_to_nanos num_days"

definition lf_account_unc :: account_id where "lf_account_unc = ''unc''"

definition lf_account_factory :: account_id where "lf_account_factory = ''lockup''"

definition lockup_master_account_id :: account_id where "lockup_master_account_id = ''lockup''"

definition whitelist_account_id :: account_id where "whitelist_account_id = ''whitelist''"

definition custom_whitelist_account_id :: account_id where "custom_whitelist_account_id = ''custom.whitelist''"

definition foundation_account_id :: account_id where "foundation_account_id = ''unc''"

definition lf_tokens_owner :: account_id where "lf_tokens_owner = ''tokenowner''"

definition lf_ntoy :: "nat \<Rightarrow> nat" where "lf_ntoy unc_amount = unc_amount * 10 ^ 24"

definition lf_lockup_account :: "(bytes \<Rightarrow> string) \<Rightarrow> host \<Rightarrow> account_id res" where
  "lf_lockup_account hex e =
     (let byte_slice = env_sha256 e (ascii lf_tokens_owner) in
      bindE (ensure (20 \<le> length byte_slice) ''range end index 20 out of range'') (\<lambda>_.
      unwrap (env_parse_account_id e (hex (take 20 byte_slice) @ ''.'' @ lockup_master_account_id))))"

definition lf_vesting_schedule :: "nat \<Rightarrow> vesting_schedule" where
  "lf_vesting_schedule offset_in_days =
     \<lparr>start_timestamp = lf_to_ts (LF_GENESIS_TIME_IN_DAYS - LF_YEAR + offset_in_days),
      cliff_timestamp = lf_to_ts (LF_GENESIS_TIME_IN_DAYS + offset_in_days),
      end_timestamp = lf_to_ts (LF_GENESIS_TIME_IN_DAYS + LF_YEAR * 3 + offset_in_days)\<rparr>"

definition lf_context :: "account_id \<Rightarrow> nat option \<Rightarrow> host \<Rightarrow> host" where
  "lf_context predecessor deposit e =
     e\<lparr>env_current_account_id := lf_account_factory, env_predecessor_account_id := predecessor,
       env_attached_deposit := (case deposit of Some d \<Rightarrow> d | None \<Rightarrow> env_attached_deposit e)\<rparr>"

definition lf_trial :: "host \<Rightarrow> lockup_factory step list \<Rightarrow> lockup_factory trial res" where
  "lf_trial e = trial_of (lf_context lf_account_unc None e)
     (\<lambda>e. new_lockup_factory e whitelist_account_id foundation_account_id)"

definition LOCKUP_DURATION :: nat where "LOCKUP_DURATION = 63036000000000000"

text \<open>The owner of the tokens asks for a lockup contract; what the tests vary are the last arguments.\<close>

definition ask_for_lockup ::
  "bytes \<Rightarrow> (bytes \<Rightarrow> string) \<Rightarrow> host \<Rightarrow> nat \<Rightarrow> timestamp option \<Rightarrow> vesting_schedule_or_hash option
     \<Rightarrow> account_id option \<Rightarrow> lockup_factory step list" where
  "ask_for_lockup code hex e deposit lockup_ts schedule whitelist =
     [edit (\<lambda>_. lf_context lf_tokens_owner (Some deposit) e), testing_env,
      invoke (\<lambda>e f. bindE
        (create_lockup code hex e lf_tokens_owner LOCKUP_DURATION lockup_ts schedule None whitelist f)
        (\<lambda>p. Inr (f, [p])))]"

text \<open>The callback with the result of the deployment.\<close>

definition lockup_created ::
  "(bytes \<Rightarrow> string) \<Rightarrow> host \<Rightarrow> promise_result \<Rightarrow> nat \<Rightarrow> (bool \<Rightarrow> bool) \<Rightarrow> lockup_factory step list" where
  "lockup_created hex e result deposit p =
     [edit (\<lambda>_. lf_context lf_account_factory (Some (lf_ntoy 0)) e), testing_env_with [result],
      let_call (\<lambda>e f. bindE (lf_lockup_account hex e) (\<lambda>account.
         bindE (on_lockup_create e account deposit lf_tokens_owner) (\<lambda>(b, ps). Inr (b, ps, f))))
        (\<lambda>b. [check (\<lambda>_ _. p b)])]"

subsection \<open>The tests\<close>

definition test_get_factory_vars :: "host \<Rightarrow> bool" where
  "test_get_factory_vars e = passes (lf_trial e
     [edit (\<lambda>_. lf_context lf_account_unc None e), testing_env,
      check (\<lambda>_ _. get_min_attached_balance_lockup = LOCKUP_MIN_ATTACHED_BALANCE),
      check (\<lambda>_ f. get_foundation_account_id f = foundation_account_id),
      check (\<lambda>e _. get_lockup_master_account_id e = lockup_master_account_id)])"

definition test_create_lockup_success :: "bytes \<Rightarrow> (bytes \<Rightarrow> string) \<Rightarrow> host \<Rightarrow> bool" where
  "test_create_lockup_success code hex e = passes (lf_trial e
     (ask_for_lockup code hex e (lf_ntoy 35) None None None
      @ lockup_created hex e (Successful []) (lf_ntoy 30) (\<lambda>_. True)))"

definition test_create_lockup_with_vesting_success ::
  "(vesting_schedule_with_salt \<Rightarrow> bytes) \<Rightarrow> bytes \<Rightarrow> (bytes \<Rightarrow> string) \<Rightarrow> host \<Rightarrow> bool" where
  "test_create_lockup_with_vesting_success ser code hex e =
     (let lockup_ts = 1661990400000000000;
          schedule = Some (InitVestingHash (hash ser e
            \<lparr>salted_vesting_schedule = lf_vesting_schedule 10, salt = LF_SALT\<rparr>)) in
      passes (lf_trial e
       (ask_for_lockup code hex e (lf_ntoy 35) (Some lockup_ts) schedule None
        @ lockup_created hex e (Successful []) (lf_ntoy 30) (\<lambda>_. True))))"

definition test_create_lockup_not_enough_deposit :: "bytes \<Rightarrow> (bytes \<Rightarrow> string) \<Rightarrow> host \<Rightarrow> bool" where
  "test_create_lockup_not_enough_deposit code hex e = should_panic ''Not enough attached deposit''
     (lf_trial e (ask_for_lockup code hex e (lf_ntoy 1) None None None))"

definition test_create_lockup_rollback :: "bytes \<Rightarrow> (bytes \<Rightarrow> string) \<Rightarrow> host \<Rightarrow> bool" where
  "test_create_lockup_rollback code hex e =
     (let refunded = e\<lparr>env_account_balance := sat_add 128 (env_account_balance e) (lf_ntoy 35)\<rparr> in
      passes (lf_trial e
       (ask_for_lockup code hex e (lf_ntoy 35) None None None
        @ lockup_created hex refunded Failed (lf_ntoy 35) (\<lambda>res. \<not> res))))"

definition test_create_lockup_with_custom_whitelist_success :: "bytes \<Rightarrow> (bytes \<Rightarrow> string) \<Rightarrow> host \<Rightarrow> bool" where
  "test_create_lockup_with_custom_whitelist_success code hex e = passes (lf_trial e
     (ask_for_lockup code hex e (lf_ntoy 35) None None (Some custom_whitelist_account_id)
      @ lockup_created hex e (Successful []) (lf_ntoy 30) (\<lambda>_. True)))"

subsection \<open>The model passes them\<close>

text \<open>A hash has at least 20 bytes, and the account ID made of their hexadecimal digits is valid.\<close>

lemmas lf_test_eval = test_eval LF_GENESIS_TIME_IN_DAYS_def LF_YEAR_def LF_SALT_def lf_to_nanos_def lf_to_ts_def
  lf_account_unc_def lf_account_factory_def lockup_master_account_id_def whitelist_account_id_def
  custom_whitelist_account_id_def foundation_account_id_def lf_ntoy_def lf_lockup_account_def
  lf_vesting_schedule_def lf_context_def lf_trial_def LOCKUP_DURATION_def ask_for_lockup_def lockup_created_def
  new_lockup_factory_def get_min_attached_balance_lockup_def LOCKUP_MIN_ATTACHED_BALANCE_def
  get_foundation_account_id_def get_lockup_master_account_id_def create_lockup_def on_lockup_create_def

lemma lf_vars: "\<not> env_state_exists e \<Longrightarrow> test_get_factory_vars e"
  unfolding test_get_factory_vars_def by (simp add: lf_test_eval cong: test_cong)

lemma lf_tests:
  assumes "\<not> env_state_exists e" and "20 \<le> length (env_sha256 e (ascii lf_tokens_owner))"
    and "env_parse_account_id e (hex (take 20 (env_sha256 e (ascii lf_tokens_owner))) @ ''.lockup'') = Some account"
  shows "test_create_lockup_success code hex e" "test_create_lockup_with_vesting_success ser code hex e"
    "test_create_lockup_not_enough_deposit code hex e" "test_create_lockup_rollback code hex e"
    "test_create_lockup_with_custom_whitelist_success code hex e"
  unfolding test_create_lockup_success_def test_create_lockup_with_vesting_success_def
    test_create_lockup_not_enough_deposit_def test_create_lockup_rollback_def
    test_create_lockup_with_custom_whitelist_success_def
  using assms by (simp_all add: lf_test_eval cong: test_cong)

end
