(* ===== verification/Spec2Isabelle.thy ===== *)
theory Spec2Isabelle
  imports StakingPoolTheorems StakingPoolLiveness Whitelist Voting MultisigTheorems MultisigFactory LockupTheorems
    LockupFactory PoolFactory AirDrop LockableToken SocialTheorems WrappedUnc FungibleTokenContract
    NonFungibleTokenContract TokenReceivers StateManipulation HelloUtility LockupAtPool LockupTransfers LockupApproval
    VotingTests WhitelistTests LockupTests StakingPoolTests MultisigTests AirDropTests LockableTokenTests
    PoolFactoryTests LockupFactoryTests
begin

text \<open>
  \<^bold>\<open>Verification of the unc contracts\<close>

  The repository is a Rust workspace of smart contracts for the \<open>unc\<close> runtime. This development
  models its contracts as functions on their states and proves what they promise.

  \<^bold>\<open>Parts of the program and their theories.\<close>
  \<^item> \<open>staking-pool/src/{lib,internal}.rs\<close>: accounts delegate stake to a validator and get shares of
    it. \<open>StakingPool\<close> has the state (\<open>staking_contract\<close>, \<open>pool_account\<close>), the share arithmetic and all
    methods; \<open>StakingPoolProofs\<close> inverts them and has the step relation \<open>pool_step\<close> over the messages
    of \<open>pool_exec\<close>; \<open>StakingPoolTheorems\<close> has the properties, and \<open>StakingPoolLiveness\<close> that
    unstaked tokens become available.
  \<^item> \<open>whitelist/src/lib.rs\<close>: the list of approved staking pools (\<open>Whitelist\<close>).
  \<^item> \<open>voting/src/lib.rs\<close>: the poll of the validators that enables transfers (\<open>Voting\<close>).
  \<^item> \<open>lockup/src/*.rs\<close>: an account with locked and vesting tokens that may be staked through a pool.
    \<open>Lockup\<close> has \<open>types.rs\<close>, \<open>gas.rs\<close>, the constructor, \<open>getters.rs\<close> and \<open>internal.rs\<close>; \<open>LockupMethods\<close>
    has \<open>owner.rs\<close>, \<open>foundation.rs\<close> and their callbacks, under the names of the source (suffix \<open>_lockup\<close>
    where the staking pool has a method of this name); \<open>LockupProofs\<close> inverts them; \<open>LockupWorld\<close>
    has the contract together with the multiset of callbacks still to be delivered (\<open>world_step\<close>),
    each of which may come with any result, in any order and between any other calls;
    \<open>LockupAmounts\<close> has the specification of locked and unvested amounts; \<open>LockupTheorems\<close> has the
    properties.
  \<^item> \<open>multisig/src/lib.rs\<close>: a k-of-n account (\<open>Multisig\<close>, \<open>MultisigTheorems\<close>);
    \<open>multisig-factory/src/lib.rs\<close> deploys one (\<open>MultisigFactory\<close>).
  \<^item> \<open>staking-pool-factory/src/{lib,utils}.rs\<close> and \<open>lockup-factory/src/{lib,utils}.rs\<close> deploy staking
    pools and lockups (\<open>PoolFactory\<close>, \<open>LockupFactory\<close>).
  \<^item> \<open>airdrop/src/{lib,models}.rs\<close>: tokens sent to a key, claimed with it (\<open>AirDrop\<close>).
  \<^item> \<open>lockable-fungible-token/src/lib.rs\<close>: a token with escrow locks (\<open>LockableToken\<close>).
  \<^item> \<open>social-web3/contract/src/*.rs\<close>: a tree of strings that is read and written as JSON, with accounts
    as its first level, write permissions on subtrees, an account of the storage that each account
    uses, and pools that pay for the storage of others. \<open>SocialData\<close> has the state (\<open>social\<close>), \<open>lib.rs\<close>,
    \<open>node.rs\<close>, \<open>storage_tracker.rs\<close> and the pools; \<open>SocialAccounts\<close> has \<open>account.rs\<close>; \<open>SocialMethods\<close> has
    \<open>permission.rs\<close>, \<open>shared_storage.rs\<close> and \<open>upgrade.rs\<close>; \<open>SocialApi\<close> has \<open>api.rs\<close>, in which \<open>get\<close>, \<open>keys\<close>
    and \<open>set\<close> are \<open>get_data\<close>, \<open>keys_data\<close> and \<open>set_data\<close>. The proofs: \<open>SocialTree\<close> (the tree invariant and what
    a write may change), \<open>SocialWrites\<close> (\<open>recursive_set\<close>), \<open>SocialSteps\<close> (accounts in the tree),
    \<open>SocialCalls\<close> (\<open>set\<close> and grants), \<open>SocialMessages\<close> (all methods as messages, \<open>social_step\<close>),
    \<open>SocialBooks\<close> (balances, storage, pools), \<open>SocialValues\<close> (the tree as a map from paths to values),
    \<open>SocialReads\<close> (\<open>get\<close> and \<open>keys\<close>); \<open>SocialSamples\<close> has states for the examples and \<open>SocialTheorems\<close> the
    properties.
  \<^item> \<open>w-unc/src/{lib,w_unc,legacy_storage}.rs\<close> (\<open>WrappedUnc\<close>), which wraps the native UNC as a token,
    and \<open>fungible-token/ft/src/lib.rs\<close> (\<open>FungibleTokenContract\<close>), a token with a fixed supply. Both keep a \<open>FungibleToken\<close>
    of a crate, which is the parameter \<open>ft_std\<close> of \<open>TokenStandard\<close>, with its documented laws
    \<open>std_laws\<close>; \<open>TokenSamples\<close> has an instance that keeps them.
  \<^item> \<open>non-fungible-token/nft/src/lib.rs\<close> (\<open>NonFungibleTokenContract\<close>), in the same way over the parameter
    \<open>nft_std\<close>; the contracts that receive tokens, \<open>fungible-token/test-contract-defi\<close> and
    \<open>non-fungible-token/test-{token,approval}-receiver\<close>, are in \<open>TokenReceivers\<close>.
  \<^item> \<open>state-manipulation/src/lib.rs\<close>: raw writes to the storage (\<open>StateManipulation\<close>), over the parameter \<open>sys\<close> for
    the host functions it calls.
  \<^item> \<open>hello-utility/src/lib.rs\<close>: an example contract (\<open>HelloUtility\<close>).
  \<^item> The unit tests (\<open>mod tests\<close> of \<open>voting\<close>, \<open>whitelist\<close>, \<open>lockup\<close>, \<open>staking-pool\<close>, \<open>multisig\<close>, \<open>airdrop\<close>,
    \<open>lockable-fungible-token\<close> and both factories, with their \<open>test_utils.rs\<close>): \<open>UnitTests\<close> has what a test is
    made of (a \<open>trial\<close> of a context, an environment and a contract, and the steps that change or check it), and
    \<open>VotingTests\<close>, \<open>LockupTests\<close> and so on have every test under its name in the source.

  \<^bold>\<open>How they interact.\<close> Contracts call each other by promises: a method returns the promises it
  creates (\<open>promise\<close> of \<open>Host\<close>), the results come back in callbacks. A lockup asks the whitelist
  whether a pool is approved and the voting contract whether transfers are enabled, and deposits,
  stakes, unstakes and withdraws at the staking pool (\<open>LockupAtPool\<close> puts the two models together, \<open>LockupApproval\<close> those of the lockup and of the whitelist); the factories deploy pools and lockups; the
  pool factory is meant to report new pools to the whitelist. \<open>Interfaces\<close> and \<open>Prelude\<close> state the
  contracts between the parts as locales: keyed storage (\<open>account_store\<close>, interpreted by the staking
  pool's accounts and by the token's three stores), a registry that only authorised callers change
  (\<open>authorised_registry\<close>, interpreted by the whitelist and by the tokens of the non-fungible token), a poll whose result is final (\<open>final_poll\<close>,
  interpreted by the voting contract and by the lockup's record of its answer), and \<open>stable_property\<close> with its extension
  \<open>inductive_invariant\<close>, interpreted by every contract with a step relation of its own.

  \<^bold>\<open>Correspondence.\<close> A contract's state is a record with the fields of the source; persistent maps and
  sets are maps and sets. A method is a function of the \<open>host\<close> (what the runtime answers: caller,
  deposit, balance, time, promise results), its arguments and the state; its result is \<open>Inl\<close> of a
  panic, after which nothing is kept, or \<open>Inr\<close> of the new state and the promises. The release
  profiles of the crates switch \<open>overflow-checks\<close> on, so \<open>+\<close>, \<open>-\<close> and \<open>*\<close> panic on overflow (\<open>checked_add\<close> and
  so on, at the width of the source), and \<open>saturating_*\<close> saturates (\<open>sat_add\<close>, \<open>sat_sub\<close>). Two do not:
  the lockable token's, whose \<open>+\<close> and \<open>-\<close> wrap around (\<open>wrap_add\<close>, \<open>wrap_sub\<close>), and the lockup factory's, whose
  methods have no arithmetic. Amounts are natural
  numbers together with these operations; arithmetic on \<open>U256\<close> can not overflow on 128-bit operands
  and is exact until \<open>as_u128\<close>. The loops run over lists or sets of the state, and a call between
  contracts is a promise, not a nested call, so only one recursion needs fuel: \<open>recursive_get\<close> and
  \<open>recursive_keys\<close> of the social contract follow the stored node IDs. Their argument \<open>gas\<close> is the depth
  that the call can pay for, with the panic \<open>Out_of_gas\<close> when it is used up; in a reachable state
  the number of nodes is always enough, because children have larger IDs than their parents.
  \<open>recursive_set\<close> terminates by the size of the JSON value. In the social contract the measured
  \<open>env::storage_usage()\<close> is a function of the state, about which nothing is assumed; the children of
  a node are an association list in the order of insertion; and the permissions of an account,
  which the source writes to the storage under the node ID at once, are a field of the state.

  \<^bold>\<open>What is shown.\<close>
  \<^item> Staking pool: the share price never falls, a reward is distributed exactly, stake can always be
    unstaked, rounding costs the guarantee fund at most one atto per operation, withdrawals pay
    exactly, not before the lock ends and whenever it has ended, the owner's powers; and that unstaking credits the
    shares it should debit, so that a pool can be drained.
  \<^item> Whitelist and voting: who may change the list; the tally is the sum of the recorded
    votes and a vote can be withdrawn in any epoch, the poll closes exactly at two thirds and its result is final.
  \<^item> Lockup: the locked amount against its specification; locked tokens can not be transferred; one
    pool operation at a time under all interleavings of callbacks; the foundation gets exactly the
    unvested amount, through the documented steps; the documented gas is enough; a pool is selected only when the owner chose it and
    the whitelist approved it, whoever calls what; an operation on the staking pool settles in both contracts; and the
    defect by which \<open>refresh_staking_pool_balance\<close> and two other methods lock the account up, and the one by which \<open>check_transfers_vote\<close>
    never enables transfers (\<open>LockupTransfers\<close>).
  \<^item> Multisig: a request is executed only with a quorum of distinct members for exactly its contents, the bookkeeping is
    consistent, requests do not change between confirmations; and duplicate members in \<open>new\<close>
    lock the account out.
  \<^item> Factories: the deposit that the caller attached is used for its pool or returned to it, and what they deploy initialises (the
    pool factory's deployments are below in this theory); the pool factory never reaches the whitelist.
  \<^item> Social contract: the nodes always form a tree; a write changes only what the caller owns or was
    granted; \<open>set\<close> overlays the abstract map from paths to values with the data, no other call
    changes it, and \<open>get\<close> returns it; reading ends; balances are backed by deposits, cover the storage
    in use, and agree with the books of the pools; and registration without a balance never works, and
    a read-only contract can still be changed by sharing storage.
  \<^item> Airdrop and token: the books balance; the supply is conserved, escrows spend what
    they were granted, and no sum wraps around; a failed claim overwrites later deposits.
  \<^item> Wrapped UNC: it is backed by the native tokens it holds, and wrapping and unwrapping are inverse. Fungible
    token: the supply of \<open>new\<close> never grows. Non-fungible token: the tokens are those the owner
    minted. These rest on the documented laws of the token standards. Receivers: what they answer.
  \<^item> State manipulation: \<open>clean\<close> undoes \<open>replace\<close>. Hello: the greeting is the last one set; its remote
    call names its argument wrongly; and anyone may empty or delete the account.
  \<^item> Unit tests: every model passes the tests that the developers wrote for its contract, panics included, whatever the
    SDK's builder puts into the fields that a test does not set (but for a fresh storage, valid
    account IDs and a few zeros, which the lemmas name). This ties the models to the code from another side than the reading
    of it. Whether a call is a view call makes no difference to the models and is left out.

  \<^bold>\<open>What is not modelled.\<close> The SDK and the runtime are not part of the repository: they are the record
  \<open>host\<close>, about which a theorem assumes what it states. JSON and borsh serialisation are
  parameters (\<open>ts\<close>, \<open>ser\<close>, \<open>hex\<close>, the contract code); storage cost (but for what the social contract
  charges), gas consumption and log lines are left out, and so is the check in \<open>Drop\<close> of the social
  contract's \<open>StorageTracker\<close>: every method resets the trackers that it drops. The tree properties hold
  for contracts that start from an empty state, not for one whose owner writes to the tree directly
  in the genesis status; those methods are modelled. The crate \<open>unc_contract_standards\<close> is the two records of functions that the
  token contracts take, with laws as hypotheses. Of the SDK's attributes, \<open>#[private]\<close> is modelled (as the
  source checks it, or as \<open>private_call\<close>) and so is \<open>#[init]\<close> where the source has no check of its own in
  these last contracts (\<open>init_call\<close>); the refusal of deposits by
  methods without \<open>#[payable]\<close> is left out, so the models accept more calls than the contracts. Of the unit tests,
  \<open>test_rewards\<close> of the staking pool is left out, whose 33 rounds of rewards take minutes to evaluate, and so are those
  of the token contracts, which run on the crate \<open>unc_contract_standards\<close>. Integration tests, which deploy the compiled
  contracts to a sandbox, and scripts are not modelled.
\<close>

section \<open>A deployed staking pool\<close>

text \<open>
  The remote call \<open>new\<close> of a staking pool with the arguments that the factory serialises: the two
  \<open>RewardFeeFraction\<close> types have the same fields.
\<close>

definition run_pool_new :: "host \<Rightarrow> staking_pool_args \<Rightarrow> (staking_contract \<times> pool_call promise list) res" where
  "run_pool_new e a = new_pool e (arg_owner_id a) (arg_stake_public_key a)
     \<lparr>numerator = fee_numerator (arg_reward_fee_fraction a),
      denominator = fee_denominator (arg_reward_fee_fraction a)\<rparr>"

lemma assert_valid_factory_fee_Inr:
  "assert_valid_factory_fee fee = Inr u \<longleftrightarrow> fee_denominator fee \<noteq> 0 \<and> fee_numerator fee \<le> fee_denominator fee"
  by (simp add: assert_valid_factory_fee_def)

text \<open>
  C35. Every pool that the factory accepts can be initialised: \<open>new\<close>, run on the fresh account with the
  arguments that the factory built and the deposit it transferred, returns a pool of the given
  owner, key and fee whose staked balance is the deposit less the guarantee fund, positive and
  with a share price of one; the pool then has every property of a reachable pool.
\<close>

theorem deployed_pool_initialises:
  assumes "create_staking_pool code e pool_name owner pk fee f = Inr (f', p)"
    and "\<not> env_state_exists e'" and "env_account_locked_balance e' = 0"
    and "env_account_balance e' = env_attached_deposit e" and "env_is_valid_account_id e' owner"
  shows "\<exists>pool args g cb s ps. p = Then (Promise pool [CreateAccount, Transfer (env_attached_deposit e),
        DeployContract code, FunctionCall (F_new args) 0 g]) cb
    \<and> run_pool_new e' args = Inr (s, ps) \<and> pool_init s
    \<and> owner_id s = owner \<and> stake_public_key s = pk
    \<and> numerator (reward_fee s) = fee_numerator fee \<and> denominator (reward_fee s) = fee_denominator fee
    \<and> total_staked_balance s + STAKE_SHARE_PRICE_GUARANTEE_FUND = env_attached_deposit e
    \<and> total_stake_shares s = total_staked_balance s \<and> 0 < total_staked_balance s"
proof -
  let ?args = "\<lparr>arg_owner_id = owner, arg_stake_public_key = pk, arg_reward_fee_fraction = fee\<rparr>"
  from assms(1) obtain pool where min: "POOL_MIN_ATTACHED_BALANCE \<le> env_attached_deposit e"
    and fee: "fee_denominator fee \<noteq> 0" "fee_numerator fee \<le> fee_denominator fee"
    and p: "p = Then (Promise pool [CreateAccount, Transfer (env_attached_deposit e), DeployContract code,
        FunctionCall (F_new ?args) 0 STAKING_POOL_NEW])
      (Promise (env_current_account_id e) [FunctionCall (F_on_staking_pool_create pool
        (env_attached_deposit e) (env_predecessor_account_id e)) 0 FACTORY_CALLBACK])"
    by (auto simp: create_staking_pool_def assert_valid_factory_fee_Inr)
  have fund: "STAKE_SHARE_PRICE_GUARANTEE_FUND < env_attached_deposit e"
    using min by (simp add: POOL_MIN_ATTACHED_BALANCE_def STAKE_SHARE_PRICE_GUARANTEE_FUND_def)
  obtain s ps where s: "run_pool_new e' ?args = Inr (s, ps)" "owner_id s = owner" "stake_public_key s = pk"
      "reward_fee s = \<lparr>numerator = fee_numerator fee, denominator = fee_denominator fee\<rparr>"
      "total_staked_balance s = sat_sub (env_attached_deposit e) STAKE_SHARE_PRICE_GUARANTEE_FUND"
      "total_stake_shares s = total_staked_balance s"
    using assms(2-5) fee by (simp add: run_pool_new_def new_pool_def assert_valid_fee_def Let_def)
  moreover have "pool_init s" using s(1) unfolding pool_init_def run_pool_new_def by blast
  ultimately show ?thesis using p fund by (auto simp: sat_sub_eq)
qed

theorem deployed_pool_initialises_witness:
  "\<exists>args s ps. run_pool_new (sample_host\<lparr>env_account_balance := 30000000000000000000000000\<rparr>) args = Inr (s, ps)
     \<and> owner_id s = ''bob'' \<and> 0 < total_staked_balance s"
proof -
  have "env_attached_deposit factory_host = 30000000000000000000000000" by (simp add: factory_host_def)
  then show ?thesis
    using deployed_pool_initialises [OF sample_create,
        of "sample_host\<lparr>env_account_balance := 30000000000000000000000000\<rparr>"] by auto
qed

end
